(* ===== verification/Fly_Prelude.thy ===== *)
theory Fly_Prelude
  imports Main "HOL-Library.Word" "HOL-Library.Monad_Syntax"
begin

unbundle bit_operations_syntax

text \<open>
  Shared vocabulary of the development: the machine integer types of the C++ code, byte
  strings, the big-endian load and store loops that every wire component repeats, the public
  result codes of \<^verbatim>\<open>include/flynes/flynes_session.h\<close>, and two interfaces
  used by several components:
  \<^item> \<open>guarded_machine\<close>: a component whose operations keep an invariant, run over a list of
    calls;
  \<^item> \<open>prefix_codec\<close>: an encoder whose output a decoder recognises at the front of a stream.
  The collection \<open>fly_words\<close> holds the word facts the component proofs rewrite with.
\<close>

named_theorems fly_words \<open>facts about machine words used by the component proofs\<close>

type_synonym u8 = "8 word"
type_synonym u16 = "16 word"
type_synonym u32 = "32 word"
type_synonym u64 = "64 word"
type_synonym bytes = "u8 list"

section \<open>Residues\<close>

lemma mod_eq_close:
  fixes a b n :: nat
  assumes "a mod n = b mod n" "a < b + n" "b < a + n"
  shows "a = b"
proof -
  have "x = y" if "y \<le> x" "x mod n = y mod n" "x < y + n" for x y :: nat
  proof -
    have "n dvd x - y" using that by (simp add: mod_eq_dvd_iff_nat)
    moreover have "x - y < n" using that by simp
    ultimately have "x - y = 0" by (metis dvd_imp_le not_le zero_less_iff_neq_zero)
    with that show ?thesis by simp
  qed
  with assms show ?thesis by (metis nat_le_linear)
qed

section \<open>Words below their wrap-around\<close>

lemma unat_add_small [fly_words]:
  fixes a b :: "'a::len word"
  shows "unat a + unat b < 2 ^ LENGTH('a) \<Longrightarrow> unat (a + b) = unat a + unat b"
  by (rule unat_add_lem [THEN iffD1])

lemma unat_inc_below [fly_words]:
  fixes a b :: "'a::len word"
  assumes "unat a < unat b"
  shows "unat (a + 1) = unat a + 1"
proof -
  have "unat b < 2 ^ LENGTH('a)" by (rule unsigned_less)
  then have "unat a + 1 < 2 ^ LENGTH('a)" using assms by linarith
  then have "unat a + unat (1 :: 'a word) < 2 ^ LENGTH('a)" by simp
  then show ?thesis using unat_add_small [of a 1] by simp
qed

section \<open>Byte buffers\<close>

definition all_zero :: "bytes \<Rightarrow> bool" where
  "all_zero bs = list_all (\<lambda>b. b = 0) bs"

lemma all_zero_iff: "all_zero bs \<longleftrightarrow> (\<forall>b \<in> set bs. b = 0)"
  by (simp add: all_zero_def list_all_iff)

lemma all_zero_replicate [simp]: "all_zero (replicate n 0)"
  by (simp add: all_zero_iff)

section \<open>Big-endian integers\<close>

text \<open>
  \<open>store_be k v\<close> is the loop \<^verbatim>\<open>out[i] = (uint8_t)(value >> (8*(k-1-i)))\<close> and
  \<open>load_be\<close> the loop \<^verbatim>\<open>value = (value << 8) | bytes[i]\<close>, at every width.
\<close>

definition store_be :: "nat \<Rightarrow> 'a::len word \<Rightarrow> bytes" where
  "store_be k v = map (\<lambda>i. ucast (drop_bit (8 * (k - 1 - i)) v)) [0..<k]"

definition load_be :: "bytes \<Rightarrow> 'a::len word" where
  "load_be bs = foldl (\<lambda>v b. push_bit 8 v OR ucast b) 0 bs"

lemma length_store_be [simp]: "length (store_be k v) = k"
  by (simp add: store_be_def)

lemma store_be_0 [simp]: "store_be 0 v = []"
  by (simp add: store_be_def)

lemma store_be_Suc: "store_be (Suc k) v = store_be k (drop_bit 8 v) @ [ucast v]"
proof -
  have "drop_bit (8 * (k - i)) v = drop_bit (8 * (k - 1 - i)) (drop_bit 8 v)" if "i < k" for i
  proof -
    have "8 * (k - i) = 8 * (k - 1 - i) + 8" using that by simp
    then show ?thesis by (simp only: drop_bit_drop_bit)
  qed
  then show ?thesis by (simp add: store_be_def)
qed

lemma load_be_Nil [simp]: "load_be [] = 0"
  by (simp add: load_be_def)

lemma load_be_snoc: "load_be (bs @ [b]) = push_bit 8 (load_be bs) OR ucast b"
  by (simp add: load_be_def)

lemma load_store_be: "load_be (store_be k v) = take_bit (8 * k) v"
proof (induction k arbitrary: v)
  case 0
  then show ?case by simp
next
  case (Suc k)
  have "load_be (store_be (Suc k) v)
      = push_bit 8 (take_bit (8 * k) (drop_bit 8 v)) OR ucast (ucast v :: u8)"
    by (simp add: store_be_Suc load_be_snoc Suc.IH)
  also have "\<dots> = take_bit (8 * Suc k) v"
    by (rule bit_word_eqI)
      (auto simp: bit_simps)
  finally show ?case .
qed

lemma load_store_be_full:
  fixes v :: "'a::len word"
  assumes "LENGTH('a) \<le> 8 * k"
  shows "load_be (store_be k v) = v"
  using assms by (simp add: load_store_be take_bit_word_eq_self)

lemma store_be_inj:
  fixes v w :: "'a::len word"
  assumes "LENGTH('a) \<le> 8 * k"
  shows "store_be k v = store_be k w \<longleftrightarrow> v = w"
  using assms by (metis load_store_be_full)

lemma bit_load_be_less: "bit (load_be bs :: 'a::len word) n \<Longrightarrow> n < 8 * length bs"
proof (induction bs arbitrary: n rule: rev_induct)
  case Nil
  then show ?case by simp
next
  case (snoc b bs)
  show ?case
  proof (cases "n < 8")
    case True
    then show ?thesis by simp
  next
    case False
    then have "\<not> bit b n" by (auto dest: bit_imp_le_length)
    with snoc.prems have "bit (load_be bs :: 'a word) (n - 8)"
      by (auto simp: load_be_snoc bit_or_iff bit_push_bit_iff bit_unsigned_iff)
    then have "n - 8 < 8 * length bs" by (rule snoc.IH)
    then show ?thesis using False by simp
  qed
qed

lemma store_load_be:
  fixes bs :: bytes
  assumes "8 * length bs \<le> LENGTH('a::len)"
  shows "store_be (length bs) (load_be bs :: 'a word) = bs"
  using assms
proof (induction bs rule: rev_induct)
  case Nil
  then show ?case by simp
next
  case (snoc b bs)
  then have len: "8 * length bs + 8 \<le> LENGTH('a)" by simp
  let ?v = "load_be bs :: 'a word"
  have hi: "drop_bit 8 (load_be (bs @ [b]) :: 'a word) = ?v"
  proof (rule bit_word_eqI)
    fix n assume n: "n < LENGTH('a)"
    have "\<not> bit b (8 + n)" by (auto dest: bit_imp_le_length)
    then have "bit (drop_bit 8 (load_be (bs @ [b]) :: 'a word)) n \<longleftrightarrow> 8 + n < LENGTH('a) \<and> bit ?v n"
      by (auto simp: load_be_snoc bit_drop_bit_eq bit_or_iff bit_push_bit_iff bit_unsigned_iff
          dest: bit_imp_le_length)
    also have "\<dots> \<longleftrightarrow> bit ?v n"
      using bit_load_be_less [of bs n, where 'a = 'a] len by auto
    finally show "bit (drop_bit 8 (load_be (bs @ [b]) :: 'a word)) n = bit ?v n" .
  qed
  have lo: "ucast (load_be (bs @ [b]) :: 'a word) = b"
    using len
    by (intro bit_word_eqI)
      (auto simp: load_be_snoc bit_or_iff bit_push_bit_iff bit_unsigned_iff dest: bit_imp_le_length)
  show ?case using snoc len by (simp add: store_be_Suc hi lo)
qed

lemma load_be_inj:
  assumes "load_be bs = (load_be cs :: 'a::len word)" "length bs = length cs"
    "8 * length bs \<le> LENGTH('a)"
  shows "bs = cs"
  using assms by (metis store_load_be)

section \<open>Result codes of the public session ABI\<close>

text \<open>The codes of \<^verbatim>\<open>fly_session_result_v2\<close>, in the order of the header.\<close>

datatype fly_session_result =
    FLY_OK | FLY_ACCEPTED | FLY_EMPTY | FLY_DUPLICATE | FLY_INVALID_ARGUMENT | FLY_ABI_MISMATCH
  | FLY_STALE | FLY_INVALID_STATE | FLY_UNSUPPORTED | FLY_PERMISSION_DENIED | FLY_BACKPRESSURE
  | FLY_BUFFER_TOO_SMALL | FLY_CLOSED | FLY_CANCELLED | FLY_TIMEOUT | FLY_IO_FAILED
  | FLY_AUTH_FAILED | FLY_PROTOCOL_VIOLATION | FLY_CONTRACT_VIOLATION | FLY_BUSY
  | FLY_OUT_OF_MEMORY | FLY_UNAVAILABLE

section \<open>Sequences of calls\<close>

text \<open>
  An object is a state with a transition \<open>step s c\<close> per call \<open>c\<close> that returns the result code and
  the next state. \<open>run_calls\<close> makes a list of calls; \<open>calls_within\<close> says that each call is made in
  a state where \<open>ok\<close> holds of it.
\<close>

primrec run_calls :: "('s \<Rightarrow> 'c \<Rightarrow> 'r \<times> 's) \<Rightarrow> 's \<Rightarrow> 'c list \<Rightarrow> 's" where
  "run_calls step s [] = s"
| "run_calls step s (c # cs) = run_calls step (snd (step s c)) cs"

primrec calls_within ::
  "('s \<Rightarrow> 'c \<Rightarrow> 'r \<times> 's) \<Rightarrow> ('s \<Rightarrow> 'c \<Rightarrow> bool) \<Rightarrow> 's \<Rightarrow> 'c list \<Rightarrow> bool" where
  "calls_within step ok s [] = True"
| "calls_within step ok s (c # cs) = (ok s c \<and> calls_within step ok (snd (step s c)) cs)"

lemma run_calls_append:
  "run_calls step s (cs @ ds) = run_calls step (run_calls step s cs) ds"
  by (induction cs arbitrary: s) auto

lemma calls_within_append:
  "calls_within step ok s (cs @ ds) \<longleftrightarrow>
     calls_within step ok s cs \<and> calls_within step ok (run_calls step s cs) ds"
  by (induction cs arbitrary: s) auto

lemma calls_within_True [simp]: "calls_within step (\<lambda>s c. True) s cs"
  by (induction cs arbitrary: s) auto

locale guarded_machine =
  fixes step :: "'s \<Rightarrow> 'c \<Rightarrow> 'r \<times> 's"
    and ok :: "'s \<Rightarrow> 'c \<Rightarrow> bool"
    and inv :: "'s \<Rightarrow> bool"
  assumes step_inv: "\<lbrakk>inv s; ok s c\<rbrakk> \<Longrightarrow> inv (snd (step s c))"
begin

lemma run_inv: "\<lbrakk>inv s; calls_within step ok s cs\<rbrakk> \<Longrightarrow> inv (run_calls step s cs)"
  by (induction cs arbitrary: s) (auto intro: step_inv)

end

locale monotone_machine = guarded_machine +
  fixes le :: "'a \<Rightarrow> 'a \<Rightarrow> bool"
  assumes le_refl: "le s s"
    and le_trans: "\<lbrakk>le s t; le t u\<rbrakk> \<Longrightarrow> le s u"
    and step_le: "\<lbrakk>inv s; ok s c\<rbrakk> \<Longrightarrow> le s (snd (step s c))"
begin

lemma run_le: "\<lbrakk>inv s; calls_within step ok s cs\<rbrakk> \<Longrightarrow> le s (run_calls step s cs)"
proof (induction cs arbitrary: s)
  case Nil
  then show ?case by (simp add: le_refl)
next
  case (Cons c cs)
  then have "le s (snd (step s c))" and "inv (snd (step s c))"
    by (simp_all add: step_le step_inv)
  with Cons show ?case by (auto intro: le_trans)
qed

end

section \<open>Encoders recognised at the front of a stream\<close>

primrec decode_all :: "('b list \<Rightarrow> ('a \<times> 'b list) option) \<Rightarrow> nat \<Rightarrow> 'b list \<Rightarrow> 'a list \<times> 'b list" where
  "decode_all dec 0 bs = ([], bs)"
| "decode_all dec (Suc n) bs =
     (case dec bs of
        None \<Rightarrow> ([], bs)
      | Some (x, rest) \<Rightarrow> (let (xs, rest') = decode_all dec n rest in (x # xs, rest')))"

locale prefix_codec =
  fixes enc :: "'a \<Rightarrow> 'b list"
    and dec :: "'b list \<Rightarrow> ('a \<times> 'b list) option"
    and ok :: "'a \<Rightarrow> bool"
  assumes dec_enc: "ok x \<Longrightarrow> dec (enc x @ rest) = Some (x, rest)"
begin

lemma enc_inj: "\<lbrakk>ok x; ok y; enc x @ r = enc y @ s\<rbrakk> \<Longrightarrow> x = y \<and> r = s"
  by (metis dec_enc option.inject prod.inject)

lemma decode_all_encodings:
  "list_all ok xs \<Longrightarrow> decode_all dec (length xs) (concat (map enc xs) @ rest) = (xs, rest)"
  by (induction xs) (auto simp: dec_enc)

end

end
