(* ===== verification/Dual_Contract.thy ===== *)
theory Dual_Contract
  imports Fly_Prelude
begin

unbundle bit_operations_syntax

text \<open>
  The frozen seam of two-player simulation,
  \<^verbatim>\<open>shared/src/session/dual/dual_runtime_contract.hpp\<close>: the geometry constants, the input
  key and bundle, and the pure gates. Record fields carry the prefix of their record. A pointer
  parameter that the code tests for null is a flag \<open>out\<close> (the pointer is not null) and the value
  written through it is the \<open>Some\<close> result.
\<close>

section \<open>Geometry\<close>

definition kDualPortCountV1 :: nat where "kDualPortCountV1 = 4"
definition kDualMaxRollbackFramesV1 :: nat where "kDualMaxRollbackFramesV1 = 12"
definition kDualPredictionFreezeDepthV1 :: nat where "kDualPredictionFreezeDepthV1 = 10"
definition kDualGuestLeadFramesV1 :: u64 where "kDualGuestLeadFramesV1 = 4"
definition kDualFullPortMaskV1 :: u32 where "kDualFullPortMaskV1 = 0xFF"

lemmas dual_geometry = kDualPortCountV1_def kDualMaxRollbackFramesV1_def
  kDualPredictionFreezeDepthV1_def kDualGuestLeadFramesV1_def kDualFullPortMaskV1_def

datatype DualModeV1 = Mode_Dual | Mode_HostStream

datatype DualFreezeReasonV1 =
    Freeze_None | InputWindowExceeded | PredictionDepthExceeded | CommittedHistoryRewrite
  | DigestMismatch | AuthenticatedActivityTimeout | TransportTerminal | Paused | Shutdown
  | SeatOrAuthorityChanged

section \<open>Input units and outcomes\<close>

record DualInputKeyV1 =
  key_session_id :: bytes
  key_branch_id :: bytes
  key_timeline_epoch :: u64
  key_frame_index :: u64
  key_seat_revision :: u64

record DualPortSampleV1 =
  smp_mask :: u32
  smp_input_sequence :: u64

record DualInputBundleV1 =
  bnd_key :: DualInputKeyV1
  bnd_logical_seat :: u8
  bnd_reserved_zero0 :: bytes
  bnd_predicted_port_mask :: u32
  bnd_ports :: "DualPortSampleV1 list"
  bnd_owner_signing_key_id :: bytes

record DualStateDigestV1 =
  dig_state :: bytes
  dig_frame :: bytes
  dig_pcm :: bytes

record DualFrameOutcomeV1 =
  out_frame_index :: u64
  out_applied_input_sequence :: "u64 list"
  out_honoured_port_mask :: u32

record DualContentRefV1 =
  ref_session_id :: bytes
  ref_branch_id :: bytes
  ref_content_hash :: bytes
  ref_timeline_epoch :: u64

section \<open>Pure gates\<close>

definition normalize_dual_port_mask_v1 :: "u32 \<Rightarrow> u32" where
  "normalize_dual_port_mask_v1 mask0 =
     (let mask1 = (if mask0 AND 0x10 \<noteq> 0 \<and> mask0 AND 0x20 \<noteq> 0
                   then mask0 AND NOT (0x10 OR 0x20) else mask0);
          mask2 = (if mask1 AND 0x40 \<noteq> 0 \<and> mask1 AND 0x80 \<noteq> 0
                   then mask1 AND NOT (0x40 OR 0x80) else mask1)
      in mask2 AND kDualFullPortMaskV1)"

definition dual_input_key_is_valid_v1 :: "DualInputKeyV1 \<Rightarrow> bool" where
  "dual_input_key_is_valid_v1 key =
     (if key_timeline_epoch key = 0 \<or> key_seat_revision key = 0 then False
      else \<not> all_zero (key_session_id key))"

definition checked_dual_next_sequence_v1 :: "bool \<Rightarrow> u64 \<Rightarrow> u64 option" where
  "checked_dual_next_sequence_v1 out current =
     (if \<not> out \<or> current = 0 \<or> current = 0xFFFFFFFFFFFFFFFF then None else Some (current + 1))"

definition checked_dual_next_generation_v1 :: "bool \<Rightarrow> u64 \<Rightarrow> u64 option" where
  "checked_dual_next_generation_v1 out current = checked_dual_next_sequence_v1 out current"

definition dual_rollback_slot_v1 :: "bool \<Rightarrow> u64 \<Rightarrow> u64 \<Rightarrow> u32 option" where
  "dual_rollback_slot_v1 out confirmed_frame target_frame =
     (if \<not> out \<or> target_frame > confirmed_frame then None
      else let behind = confirmed_frame - target_frame
           in if unat behind \<ge> kDualMaxRollbackFramesV1 then None else Some (ucast behind))"

definition evaluate_dual_window_v1 :: "u64 \<Rightarrow> u64 \<Rightarrow> u32 \<Rightarrow> DualFreezeReasonV1" where
  "evaluate_dual_window_v1 confirmed_frame target_frame prediction_depth =
     (case dual_rollback_slot_v1 True confirmed_frame target_frame of
        None \<Rightarrow> InputWindowExceeded
      | Some _ \<Rightarrow> if unat prediction_depth \<ge> kDualPredictionFreezeDepthV1
                  then PredictionDepthExceeded else Freeze_None)"

definition evaluate_dual_digest_v1 ::
  "DualStateDigestV1 \<Rightarrow> DualStateDigestV1 \<Rightarrow> DualFreezeReasonV1" where
  "evaluate_dual_digest_v1 local peer = (if local = peer then Freeze_None else DigestMismatch)"

definition evaluate_dual_mode_v1 :: "DualModeV1 \<Rightarrow> fly_session_result" where
  "evaluate_dual_mode_v1 mode = (if mode = Mode_Dual then FLY_OK else FLY_UNAVAILABLE)"

section \<open>Start-condition preimages\<close>

definition write_u32le_v1 :: "u32 \<Rightarrow> bytes" where
  "write_u32le_v1 v = [ucast v, ucast (drop_bit 8 v), ucast (drop_bit 16 v), ucast (drop_bit 24 v)]"

definition canonical_dual_profile_bytes_v1 :: bytes where
  "canonical_dual_profile_bytes_v1 =
     write_u32le_v1 0 @ write_u32le_v1 2 @ write_u32le_v1 0 @ write_u32le_v1 256 @ write_u32le_v1 240"

definition canonical_dual_options_bytes_v1 :: bytes where
  "canonical_dual_options_bytes_v1 = write_u32le_v1 0 @ write_u32le_v1 48000 @ write_u32le_v1 0"

section \<open>Facts about the gates\<close>

lemma and_bit_nonzero:
  "(m AND 0x10 \<noteq> 0) = bit m 4" "(m AND 0x20 \<noteq> 0) = bit m 5"
  "(m AND 0x40 \<noteq> 0) = bit m 6" "(m AND 0x80 \<noteq> 0) = bit (m :: u32) 7"
  using and_exp_eq_0_iff_not_bit [of m 4] and_exp_eq_0_iff_not_bit [of m 5]
    and_exp_eq_0_iff_not_bit [of m 6] and_exp_eq_0_iff_not_bit [of m 7]
  by simp_all

text \<open>The masks the NES pad can report: eight buttons, no opposing directions.\<close>

definition legal_pad_mask :: "u32 \<Rightarrow> bool" where
  "legal_pad_mask m \<longleftrightarrow>
     m AND NOT kDualFullPortMaskV1 = 0 \<and> \<not> (bit m 4 \<and> bit m 5) \<and> \<not> (bit m 6 \<and> bit m 7)"

lemma bit_pad_constants:
  "bit (- 49 :: int) n \<longleftrightarrow> n \<noteq> 4 \<and> n \<noteq> 5" "bit (- 193 :: int) n \<longleftrightarrow> n \<noteq> 6 \<and> n \<noteq> 7"
  "bit (- 256 :: int) n \<longleftrightarrow> 8 \<le> n"  "bit (255 :: int) n \<longleftrightarrow> n < 8" "bit (255 :: nat) n \<longleftrightarrow> n < 8"
proof -
  have "(- 49 :: int) = NOT (2 ^ 4 OR 2 ^ 5)" "(- 193 :: int) = NOT (2 ^ 6 OR 2 ^ 7)"
    "(- 256 :: int) = NOT (mask 8)" "(255 :: int) = mask 8" "(255 :: nat) = mask 8"
    by (simp_all add: mask_numeral)
  then show "bit (- 49 :: int) n \<longleftrightarrow> n \<noteq> 4 \<and> n \<noteq> 5" "bit (- 193 :: int) n \<longleftrightarrow> n \<noteq> 6 \<and> n \<noteq> 7"
    "bit (- 256 :: int) n \<longleftrightarrow> 8 \<le> n"  "bit (255 :: int) n \<longleftrightarrow> n < 8" "bit (255 :: nat) n \<longleftrightarrow> n < 8"
    by (auto simp only: bit_or_iff bit_not_iff_eq bit_exp_iff bit_mask_iff) auto
qed

lemma bit_normalize:
  "bit (normalize_dual_port_mask_v1 m) n \<longleftrightarrow>
     bit m n \<and> n < 8 \<and> \<not> ((n = 4 \<or> n = 5) \<and> bit m 4 \<and> bit m 5)
       \<and> \<not> ((n = 6 \<or> n = 7) \<and> bit m 6 \<and> bit m 7)"
  unfolding normalize_dual_port_mask_v1_def kDualFullPortMaskV1_def Let_def and_bit_nonzero
  by (auto simp: bit_and_iff bit_not_iff bit_pad_constants dest: bit_imp_le_length)

lemma and_not_full_mask: "m AND NOT kDualFullPortMaskV1 = 0 \<longleftrightarrow> (\<forall>n. bit m n \<longrightarrow> n < 8)"
proof -
  have "n < 32" if "bit m n" for n using bit_imp_le_length [OF that] by simp
  then show ?thesis
    by (auto simp: bit_eq_iff kDualFullPortMaskV1_def bit_and_iff bit_not_iff bit_pad_constants not_le)
qed

lemma normalize_legal: "legal_pad_mask (normalize_dual_port_mask_v1 m)"
  by (simp add: legal_pad_mask_def and_not_full_mask bit_normalize)

lemma normalize_id: "legal_pad_mask m \<Longrightarrow> normalize_dual_port_mask_v1 m = m"
  by (rule bit_word_eqI) (auto simp: legal_pad_mask_def and_not_full_mask bit_normalize)

lemma normalize_idem [simp]:
  "normalize_dual_port_mask_v1 (normalize_dual_port_mask_v1 m) = normalize_dual_port_mask_v1 m"
  by (rule normalize_id) (rule normalize_legal)

lemma normalize_fixed_iff: "normalize_dual_port_mask_v1 m = m \<longleftrightarrow> legal_pad_mask m"
  using normalize_id normalize_legal by metis

end
