(* ===== verification/Fly_Sha256.thy ===== *)
theory Fly_Sha256
  imports Fly_Prelude
begin

unbundle bit_operations_syntax

text \<open>
  The hash functions of \<^verbatim>\<open>shared/src/session/wire/sha256.cpp\<close>: the compression function
  \<open>block\<close>, \<open>sha256\<close> with its two-block tail buffer, and \<open>domain_hash\<close>, which prefixes a domain
  string and a four-byte length. The lemmas show that the tail buffer is the FIPS 180-4 padding
  (\<open>sha256_fips\<close>), that every digest has 32 bytes, and that the preimage of \<open>domain_hash\<close> is
  injective in domain and data for data below 16 MiB.
\<close>

section \<open>Compression function\<close>

definition kK :: "u32 list" where
  "kK = [
    0x428A2F98, 0x71374491, 0xB5C0FBCF, 0xE9B5DBA5, 0x3956C25B, 0x59F111F1,
    0x923F82A4, 0xAB1C5ED5, 0xD807AA98, 0x12835B01, 0x243185BE, 0x550C7DC3,
    0x72BE5D74, 0x80DEB1FE, 0x9BDC06A7, 0xC19BF174, 0xE49B69C1, 0xEFBE4786,
    0x0FC19DC6, 0x240CA1CC, 0x2DE92C6F, 0x4A7484AA, 0x5CB0A9DC, 0x76F988DA,
    0x983E5152, 0xA831C66D, 0xB00327C8, 0xBF597FC7, 0xC6E00BF3, 0xD5A79147,
    0x06CA6351, 0x14292967, 0x27B70A85, 0x2E1B2138, 0x4D2C6DFC, 0x53380D13,
    0x650A7354, 0x766A0ABB, 0x81C2C92E, 0x92722C85, 0xA2BFE8A1, 0xA81A664B,
    0xC24B8B70, 0xC76C51A3, 0xD192E819, 0xD6990624, 0xF40E3585, 0x106AA070,
    0x19A4C116, 0x1E376C08, 0x2748774C, 0x34B0BCB5, 0x391C0CB3, 0x4ED8AA4A,
    0x5B9CCA4F, 0x682E6FF3, 0x748F82EE, 0x78A5636F, 0x84C87814, 0x8CC70208,
    0x90BEFFFA, 0xA4506CEB, 0xBEF9A3F7, 0xC67178F2]"

definition rotr :: "u32 \<Rightarrow> nat \<Rightarrow> u32" where
  "rotr v b = drop_bit b v OR push_bit (32 - b) v"

text \<open>The message schedule: sixteen loaded words, then 48 derived ones.\<close>

definition schedule_load :: "bytes \<Rightarrow> u32 list" where
  "schedule_load data = map (\<lambda>i.
     push_bit 24 (ucast (data ! (i * 4))) OR push_bit 16 (ucast (data ! (i * 4 + 1))) OR
     push_bit 8 (ucast (data ! (i * 4 + 2))) OR ucast (data ! (i * 4 + 3))) [0..<16]"

definition schedule_next :: "u32 list \<Rightarrow> nat \<Rightarrow> u32" where
  "schedule_next w i =
     (let s1 = rotr (w ! (i - 2)) 17 XOR rotr (w ! (i - 2)) 19 XOR drop_bit 10 (w ! (i - 2));
          s0 = rotr (w ! (i - 15)) 7 XOR rotr (w ! (i - 15)) 18 XOR drop_bit 3 (w ! (i - 15))
      in w ! (i - 16) + s0 + w ! (i - 7) + s1)"

definition schedule :: "bytes \<Rightarrow> u32 list" where
  "schedule data = fold (\<lambda>i w. w @ [schedule_next w i]) [16..<64] (schedule_load data)"

type_synonym sha_state = "u32 \<times> u32 \<times> u32 \<times> u32 \<times> u32 \<times> u32 \<times> u32 \<times> u32"

fun sha_round :: "u32 \<Rightarrow> u32 \<Rightarrow> sha_state \<Rightarrow> sha_state" where
  "sha_round k w (a, b, c, d, e, f, g, h) =
     (let s1 = rotr e 6 XOR rotr e 11 XOR rotr e 25;
          t1 = h + s1 + ((e AND f) XOR (NOT e AND g)) + k + w;
          s0 = rotr a 2 XOR rotr a 13 XOR rotr a 22;
          t2 = s0 + ((a AND b) XOR (a AND c) XOR (b AND c))
      in (t1 + t2, a, b, c, d + t1, e, f, g))"

fun add_state :: "sha_state \<Rightarrow> sha_state \<Rightarrow> sha_state" where
  "add_state (a, b, c, d, e, f, g, h) (a', b', c', d', e', f', g', h') =
     (a + a', b + b', c + c', d + d', e + e', f + f', g + g', h + h')"

definition block :: "sha_state \<Rightarrow> bytes \<Rightarrow> sha_state" where
  "block st data = add_state st (fold (\<lambda>(k, w). sha_round k w) (zip kK (schedule data)) st)"

section \<open>The hash and its domain separated form\<close>

definition sha_init :: sha_state where
  "sha_init = (0x6A09E667, 0xBB67AE85, 0x3C6EF372, 0xA54FF53A,
               0x510E527F, 0x9B05688C, 0x1F83D9AB, 0x5BE0CD19)"

fun digest_bytes :: "sha_state \<Rightarrow> bytes" where
  "digest_bytes (a, b, c, d, e, f, g, h) = concat (map (store_be 4) [a, b, c, d, e, f, g, h])"

definition blocks_at :: "bytes \<Rightarrow> nat \<Rightarrow> sha_state \<Rightarrow> sha_state" where
  "blocks_at data n st = fold (\<lambda>i s. block s (take 64 (drop (i * 64) data))) [0..<n] st"

definition sha_tail :: "bytes \<Rightarrow> nat \<Rightarrow> bytes" where
  "sha_tail data padded =
     (let full = length data div 64;
          remd = length data - full * 64;
          bits = (of_nat (length data) :: u64) * 8;
          tail = (take 128 (drop (full * 64) data @ replicate 128 0)) [remd := 0x80]
      in fold (\<lambda>i t. t [padded - 1 - i := ucast (drop_bit (i * 8) bits)]) [0..<8] tail)"

definition sha256 :: "bytes \<Rightarrow> bytes" where
  "sha256 data =
     (let full = length data div 64;
          st = blocks_at data full sha_init;
          remd = length data - full * 64;
          padded = (if remd < 56 then 64 else 128);
          tail = sha_tail data padded;
          st1 = block st (take 64 tail);
          st2 = (if padded = 128 then block st1 (take 64 (drop 64 tail)) else st1)
      in digest_bytes st2)"

definition ascii :: "string \<Rightarrow> bytes" where
  "ascii s = map of_char s"

definition domain_preimage :: "string \<Rightarrow> bytes \<Rightarrow> bytes" where
  "domain_preimage domain data =
     ascii domain @ store_be 4 (of_nat (length data) :: u64) @ data"

definition domain_hash :: "string \<Rightarrow> bytes \<Rightarrow> bytes" where
  "domain_hash domain data = sha256 (domain_preimage domain data)"

section \<open>Length of a digest\<close>

lemma length_digest_bytes [simp]: "length (digest_bytes st) = 32"
  by (cases st rule: digest_bytes.cases) simp

lemma length_sha256 [simp]: "length (sha256 data) = 32"
  by (simp add: sha256_def Let_def)

lemma length_domain_hash [simp]: "length (domain_hash domain data) = 32"
  by (simp add: domain_hash_def)

section \<open>The tail buffer is the standard padding\<close>

definition fips_zeros :: "bytes \<Rightarrow> nat" where
  "fips_zeros data = (119 - length data mod 64) mod 64"

definition fips_pad :: "bytes \<Rightarrow> bytes" where
  "fips_pad data =
     data @ [0x80] @ replicate (fips_zeros data) 0 @ store_be 8 ((of_nat (length data) :: u64) * 8)"

definition fips_sha256 :: "bytes \<Rightarrow> bytes" where
  "fips_sha256 data =
     digest_bytes (blocks_at (fips_pad data) (length (fips_pad data) div 64) sha_init)"

lemma length_fold_update:
  "length (fold (\<lambda>i t. t [p - Suc i := f i]) [0..<n] t) = length t"
  by (induction n) auto

lemma nth_fold_update:
  assumes "n \<le> p" "p \<le> length t" "j < length t"
  shows "fold (\<lambda>i t. t [p - Suc i := f i]) [0..<n] t ! j
       = (if p - n \<le> j \<and> j < p then f (p - Suc j) else t ! j)"
  using assms
proof (induction n)
  case 0
  then show ?case by auto
next
  case (Suc n)
  then have "p - Suc n < length t" by simp
  with Suc show ?case
    by (auto simp: nth_list_update length_fold_update)
qed

lemma fold_update_store_be:
  assumes "8 \<le> p" "p \<le> length t"
  shows "fold (\<lambda>i t. t [p - Suc i := ucast (drop_bit (i * 8) (v :: u64))]) [0..<8] t
       = take (p - 8) t @ store_be 8 v @ drop p t" (is "?l = ?r")
proof (rule nth_equalityI)
  show "length ?l = length ?r" using assms by (simp only: length_fold_update) simp
next
  fix j assume "j < length ?l"
  then have j: "j < length t" by (simp only: length_fold_update)
  have "?l ! j = (if p - 8 \<le> j \<and> j < p then ucast (drop_bit ((p - Suc j) * 8) v) else t ! j)"
    using assms j by (simp only: nth_fold_update)
  also have "\<dots> = ?r ! j"
    using assms j
    by (auto simp: nth_append store_be_def mult.commute)
  finally show "?l ! j = ?r ! j" .
qed

definition padded_length :: "bytes \<Rightarrow> nat" where
  "padded_length data = (if length data mod 64 < 56 then 64 else 128)"

lemma padded_length_split:
  "padded_length data = length data mod 64 + 9 + fips_zeros data"
proof -
  have "(119 - r) mod 64 = (if r < 56 then 55 - r else 119 - r)" if "r < 64" for r :: nat
  proof (cases "r < 56")
    case True
    then have "119 - r = 64 + (55 - r)" by simp
    also have "\<dots> mod 64 = 55 - r" by (simp only: mod_add_self1) simp
    finally show ?thesis using True by simp
  next
    case False
    then show ?thesis using that by simp
  qed
  then show ?thesis by (simp add: padded_length_def fips_zeros_def)
qed

lemma tail_prefix:
  fixes d :: bytes
  assumes "length d < 64"
  shows "(take 128 (d @ replicate 128 0)) [length d := 0x80]
       = d @ [0x80] @ replicate (127 - length d) 0"
proof -
  have "128 - length d = Suc (127 - length d)" using assms by simp
  then have "take 128 (d @ replicate 128 0) = d @ 0 # replicate (127 - length d) 0"
    using assms by (simp add: min_def)
  then show ?thesis by (simp add: list_update_append)
qed

lemma sha_tail_eq:
  "take (padded_length data) (sha_tail data (padded_length data))
   = drop (length data div 64 * 64) (fips_pad data)"
proof -
  let ?full = "length data div 64 * 64" and ?r = "length data mod 64"
  let ?p = "padded_length data"
  let ?v = "(of_nat (length data) :: u64) * 8"
  let ?d = "drop ?full data"
  have r: "length ?d = ?r" "length data - ?full = ?r"
    by (simp_all add: minus_div_mult_eq_mod)
  have p: "?p = ?r + 9 + fips_zeros data" "?p \<le> 128"
    by (rule padded_length_split) (simp add: padded_length_def)
  let ?t = "?d @ [0x80] @ replicate (127 - ?r) 0"
  have "sha_tail data ?p
      = fold (\<lambda>i t. t [?p - Suc i := ucast (drop_bit (i * 8) ?v)]) [0..<8] ?t"
    using tail_prefix [of ?d] r by (simp add: sha_tail_def Let_def)
  also have "\<dots> = take (?p - 8) ?t @ store_be 8 ?v @ drop ?p ?t"
    by (rule fold_update_store_be) (use p r in auto)
  finally have eq: "sha_tail data ?p = (take (?p - 8) ?t @ store_be 8 ?v) @ drop ?p ?t"
    by simp
  have "length (take (?p - 8) ?t @ store_be 8 ?v) = ?p" using p r by simp
  then have "take ?p (sha_tail data ?p) = take (?p - 8) ?t @ store_be 8 ?v"
    unfolding eq by (metis append_eq_conv_conj)
  also have "take (?p - 8) ?t = ?d @ [0x80] @ replicate (fips_zeros data) 0"
    using p r by (simp add: min_def)
  finally show ?thesis by (simp add: fips_pad_def)
qed

lemma length_sha_tail: "length (sha_tail data p) = 128"
  by (simp add: sha_tail_def Let_def length_fold_update)

lemma blocks_at_append:
  assumes "n * 64 \<le> length data"
  shows "blocks_at (data @ rest) n st = blocks_at data n st"
proof -
  have "take 64 (drop (i * 64) (data @ rest)) = take 64 (drop (i * 64) data)" if "i < n" for i
  proof -
    have "Suc i * 64 \<le> n * 64" using that by (intro mult_le_mono1) simp
    then show ?thesis using assms by simp
  qed
  then show ?thesis
    unfolding blocks_at_def by (intro fold_cong refl) (simp only: set_upt atLeastLessThan_iff)
qed

lemma blocks_at_Suc:
  "blocks_at data (Suc n) st = block (blocks_at data n st) (take 64 (drop (n * 64) data))"
  by (simp add: blocks_at_def)

lemma sha256_fips_eq: "sha256 data = fips_sha256 data"
proof -
  let ?n = "length data div 64" and ?r = "length data mod 64"
  let ?p = "padded_length data" and ?m = "fips_pad data"
  let ?t = "sha_tail data ?p"
  have r: "length data - ?n * 64 = ?r" by (simp add: minus_div_mult_eq_mod)
  have p: "(if ?r < 56 then 64 else 128) = ?p" by (simp add: padded_length_def)
  have len: "length ?m = ?n * 64 + ?p"
    unfolding fips_pad_def padded_length_split by simp
  have pre: "blocks_at ?m ?n sha_init = blocks_at data ?n sha_init"
    unfolding fips_pad_def by (rule blocks_at_append) simp
  have tail: "take ?p ?t = drop (?n * 64) ?m" by (rule sha_tail_eq)
  show ?thesis
  proof (cases "?r < 56")
    case True
    then have p64: "?p = 64" by (simp add: padded_length_def)
    then have "length ?m div 64 = Suc ?n" using len by simp
    moreover have "take 64 ?t = take 64 (drop (?n * 64) ?m)"
      using arg_cong [OF tail, of "take 64"] p64 by simp
    ultimately show ?thesis
      using p64 pre by (simp add: sha256_def fips_sha256_def Let_def r p blocks_at_Suc)
  next
    case False
    then have p128: "?p = 128" by (simp add: padded_length_def)
    then have l: "length ?m div 64 = Suc (Suc ?n)" using len by simp
    have "take 64 (drop 64 ?t) = take 64 (drop (64 + ?n * 64) ?m)"
      using arg_cong [OF tail, of "\<lambda>x. take 64 (drop 64 x)"] p128
      by (simp add: length_sha_tail add.commute)
    moreover have "take 64 ?t = take 64 (drop (?n * 64) ?m)"
      using arg_cong [OF tail, of "take 64"] p128 by simp
    ultimately show ?thesis
      using p128 pre l by (simp add: sha256_def fips_sha256_def Let_def r p blocks_at_Suc)
  qed
qed

section \<open>Domain separation\<close>

definition domain_ok :: "string \<Rightarrow> bool" where
  "domain_ok d = list_all (\<lambda>c. (of_char c :: u8) \<noteq> 0) d"

lemma store_be_4_small:
  assumes "n < 2 ^ 24"
  shows "hd (store_be 4 (of_nat n :: u64)) = 0"
proof -
  have "drop_bit 24 (of_nat n :: u64) = 0"
    using assms by (simp add: drop_bit_eq_div flip: unat_eq_zero)
      (simp add: unat_div unat_of_nat)
  then show ?thesis by (simp add: store_be_def upt_rec)
qed

lemma unat_of_char: "unat (of_char c :: u8) = of_char c"
proof -
  have "(of_char c :: nat) < 2 ^ 8" using nat_of_char_less_256 [of c] by simp
  moreover have "(of_char c :: u8) = of_nat (of_char c)" by (simp add: of_nat_of_char)
  ultimately show ?thesis by (simp add: unat_of_nat)
qed

lemma ascii_inj: "ascii d = ascii e \<Longrightarrow> d = e"
proof (rule map_injective [of "of_char :: char \<Rightarrow> u8"])
  show "inj (of_char :: char \<Rightarrow> u8)"
    by (rule injI) (metis unat_of_char of_char_eq_iff)
qed (simp add: ascii_def)

lemma takeWhile_domain:
  assumes "domain_ok d" "n < 2 ^ 24"
  shows "takeWhile (\<lambda>b. b \<noteq> 0) (ascii d @ store_be 4 (of_nat n :: u64) @ data) = ascii d"
proof -
  obtain r where "store_be 4 (of_nat n :: u64) = 0 # r"
    using store_be_4_small [OF assms(2)]
    by (metis length_store_be list.exhaust_sel list.size(3) zero_neq_numeral)
  then show ?thesis
    using assms(1) by (auto simp: ascii_def domain_ok_def list_all_iff takeWhile_append)
qed

lemma domain_preimage_inj:
  assumes "domain_ok d" "domain_ok e" "length x < 2 ^ 24" "length y < 2 ^ 24"
    and eq: "domain_preimage d x = domain_preimage e y"
  shows "d = e \<and> x = y"
proof -
  have "ascii d = ascii e"
    using takeWhile_domain [OF assms(1) assms(3), of x] takeWhile_domain [OF assms(2) assms(4), of y] eq
    unfolding domain_preimage_def by metis
  moreover from this have "x = y"
    using eq by (simp add: domain_preimage_def)
  ultimately show ?thesis by (simp add: ascii_inj)
qed

end
