(* ===== verification/Canonical_Input.thy ===== *)
theory Canonical_Input
  imports Dual_Contract Fly_Sha256
begin

unbundle bit_operations_syntax

text \<open>
  The canonical input unit, \<^verbatim>\<open>shared/src/session/dual/canonical_input.{hpp,cpp}\<close>: building a
  bundle from raw samples, the canonical-form predicate, bundle equality and the digest preimage.
  A rejected build is \<open>Inl\<close> of its status.
\<close>

record DualPortInputV1 =
  inp_mask :: u32
  inp_sequence :: u64

datatype DualInputStatusV1 = InputOk | InvalidArgument | InvalidKey | InvalidSequence | InvalidMask

definition bundle_equal :: "DualInputBundleV1 \<Rightarrow> DualInputBundleV1 \<Rightarrow> bool" where
  "bundle_equal lhs rhs =
     (if bnd_key lhs \<noteq> bnd_key rhs \<or> bnd_logical_seat lhs \<noteq> bnd_logical_seat rhs then False
      else if bnd_owner_signing_key_id lhs \<noteq> bnd_owner_signing_key_id rhs then False
      else if bnd_predicted_port_mask lhs \<noteq> bnd_predicted_port_mask rhs then False
      else list_all (\<lambda>port.
             smp_mask (bnd_ports lhs ! port) = smp_mask (bnd_ports rhs ! port) \<and>
             smp_input_sequence (bnd_ports lhs ! port) = smp_input_sequence (bnd_ports rhs ! port))
           [0..<kDualPortCountV1])"

definition samples_sequence_ok :: "DualPortInputV1 list \<Rightarrow> bool" where
  "samples_sequence_ok samples =
     list_all (\<lambda>port. inp_sequence (samples ! port) \<noteq> 0 \<and>
        (port \<noteq> 0 \<longrightarrow> \<not> inp_sequence (samples ! port) \<le> inp_sequence (samples ! (port - 1))))
       [0..<kDualPortCountV1]"

definition canonical_input_build_v1 ::
  "bool \<Rightarrow> DualInputKeyV1 \<Rightarrow> u8 \<Rightarrow> bytes \<Rightarrow> DualPortInputV1 list
     \<Rightarrow> DualInputStatusV1 + DualInputBundleV1" where
  "canonical_input_build_v1 out key logical_seat owner samples =
     (if \<not> out then Inl InvalidArgument
      else if unat logical_seat \<ge> kDualPortCountV1 then Inl InvalidArgument
      else if \<not> dual_input_key_is_valid_v1 key then Inl InvalidKey
      else if all_zero owner then Inl InvalidKey
      else if \<not> samples_sequence_ok samples then Inl InvalidSequence
      else if list_ex (\<lambda>port. inp_mask (samples ! port) AND NOT kDualFullPortMaskV1 \<noteq> 0)
                [0..<kDualPortCountV1] then Inl InvalidMask
      else Inr \<lparr>bnd_key = key, bnd_logical_seat = logical_seat, bnd_reserved_zero0 = [0, 0, 0],
                bnd_predicted_port_mask = 0,
                bnd_ports = map (\<lambda>port.
                   \<lparr>smp_mask = normalize_dual_port_mask_v1 (inp_mask (samples ! port)),
                    smp_input_sequence = inp_sequence (samples ! port)\<rparr>) [0..<kDualPortCountV1],
                bnd_owner_signing_key_id = owner\<rparr>)"

definition canonical_input_is_canonical_v1 :: "DualInputBundleV1 \<Rightarrow> bool" where
  "canonical_input_is_canonical_v1 bundle =
     (if \<not> dual_input_key_is_valid_v1 (bnd_key bundle) then False
      else if unat (bnd_logical_seat bundle) \<ge> kDualPortCountV1 then False
      else if all_zero (bnd_owner_signing_key_id bundle) then False
      else if bnd_predicted_port_mask bundle AND NOT kDualFullPortMaskV1 \<noteq> 0 then False
      else if \<not> all_zero (bnd_reserved_zero0 bundle) then False
      else list_all (\<lambda>port. let sample = bnd_ports bundle ! port in
             smp_input_sequence sample \<noteq> 0 \<and>
             (port \<noteq> 0 \<longrightarrow>
               \<not> smp_input_sequence sample \<le> smp_input_sequence (bnd_ports bundle ! (port - 1))) \<and>
             smp_mask sample AND NOT kDualFullPortMaskV1 = 0 \<and>
             smp_mask sample = normalize_dual_port_mask_v1 (smp_mask sample))
           [0..<kDualPortCountV1])"

definition canonical_input_is_duplicate_v1 :: "DualInputBundleV1 \<Rightarrow> DualInputBundleV1 \<Rightarrow> bool" where
  "canonical_input_is_duplicate_v1 stored incoming = bundle_equal stored incoming"

definition canonical_input_preimage :: "DualInputBundleV1 \<Rightarrow> bytes" where
  "canonical_input_preimage b =
     key_session_id (bnd_key b) @ key_branch_id (bnd_key b) @
     store_be 8 (key_timeline_epoch (bnd_key b)) @
     store_be 8 (key_frame_index (bnd_key b)) @
     store_be 8 (key_seat_revision (bnd_key b)) @
     [bnd_logical_seat b, (if canonical_input_is_canonical_v1 b then 1 else 0),
      ucast (bnd_predicted_port_mask b AND kDualFullPortMaskV1), 0] @
     concat (map (\<lambda>port. ucast (smp_mask (bnd_ports b ! port)) #
                   store_be 8 (smp_input_sequence (bnd_ports b ! port))) [0..<kDualPortCountV1]) @
     bnd_owner_signing_key_id b"

definition canonical_input_digest_v1 :: "DualInputBundleV1 \<Rightarrow> bytes" where
  "canonical_input_digest_v1 b =
     domain_hash ''flynes-dual-canonical-input-v1'' (canonical_input_preimage b)"

section \<open>Shape of the fixed-size arrays\<close>

definition key_shape :: "DualInputKeyV1 \<Rightarrow> bool" where
  "key_shape k \<longleftrightarrow> length (key_session_id k) = 16 \<and> length (key_branch_id k) = 16"

definition bundle_shape :: "DualInputBundleV1 \<Rightarrow> bool" where
  "bundle_shape b \<longleftrightarrow> key_shape (bnd_key b) \<and> length (bnd_reserved_zero0 b) = 3
     \<and> length (bnd_ports b) = 4 \<and> length (bnd_owner_signing_key_id b) = 32"

lemma upt_four: "[0..<kDualPortCountV1] = [0, 1, 2, 3]"
  by (simp add: kDualPortCountV1_def upt_rec)

lemma canonical_portD:
  assumes "canonical_input_is_canonical_v1 b" "p < 4"
  shows "smp_input_sequence (bnd_ports b ! p) \<noteq> 0"
    and "legal_pad_mask (smp_mask (bnd_ports b ! p))"
proof -
  have "p \<in> set [0..<kDualPortCountV1]" using assms(2) by (simp add: kDualPortCountV1_def)
  then show "smp_input_sequence (bnd_ports b ! p) \<noteq> 0"
    and "legal_pad_mask (smp_mask (bnd_ports b ! p))"
    using assms(1)
    by (auto simp: canonical_input_is_canonical_v1_def list_all_iff Let_def normalize_fixed_iff
        [symmetric] split: if_splits)
qed

lemma build_canonical:
  assumes "canonical_input_build_v1 out key seat owner samples = Inr b"
  shows "canonical_input_is_canonical_v1 b"
  using assms
  by (auto simp: canonical_input_build_v1_def canonical_input_is_canonical_v1_def Let_def
      upt_four samples_sequence_ok_def all_zero_def
      normalize_legal [unfolded legal_pad_mask_def] split: if_splits)

lemma build_shape:
  assumes "canonical_input_build_v1 out key seat owner samples = Inr b"
    "key_shape key" "length owner = 32"
  shows "bundle_shape b"
  using assms by (auto simp: canonical_input_build_v1_def bundle_shape_def kDualPortCountV1_def
      split: if_splits)

section \<open>The digest preimage identifies the bundle\<close>

lemma length_preimage:
  "bundle_shape b \<Longrightarrow> length (canonical_input_preimage b) = 128"
  by (simp add: canonical_input_preimage_def bundle_shape_def key_shape_def upt_four)

lemma ucast_mask_inj:
  fixes m n :: u32
  assumes "m AND NOT kDualFullPortMaskV1 = 0" "n AND NOT kDualFullPortMaskV1 = 0"
    "(ucast m :: u8) = ucast n"
  shows "m = n"
proof (rule bit_word_eqI)
  fix k assume "k < LENGTH(32)"
  show "bit m k = bit n k"
  proof (cases "k < 8")
    case True
    have "bit (ucast m :: u8) k = bit (ucast n :: u8) k" using assms(3) by simp
    with True show ?thesis by (simp add: bit_unsigned_iff)
  next
    case False
    with assms(1,2) show ?thesis unfolding and_not_full_mask by blast
  qed
qed

lemma and_full_mask_id:
  "m AND NOT kDualFullPortMaskV1 = 0 \<Longrightarrow> m AND kDualFullPortMaskV1 = m"
  unfolding and_not_full_mask
  by (rule bit_word_eqI) (auto simp: kDualFullPortMaskV1_def bit_and_iff bit_pad_constants)

lemma bundle_equalI:
  assumes "bnd_key b = bnd_key c" "bnd_logical_seat b = bnd_logical_seat c"
    "bnd_owner_signing_key_id b = bnd_owner_signing_key_id c"
    "bnd_predicted_port_mask b = bnd_predicted_port_mask c"
    "\<And>p. p < 4 \<Longrightarrow> bnd_ports b ! p = bnd_ports c ! p"
  shows "bundle_equal b c"
  using assms by (auto simp: bundle_equal_def upt_four)

lemma preimage_port_eq:
  assumes "(ucast (smp_mask s) :: u8) = ucast (smp_mask t)"
    "store_be 8 (smp_input_sequence s) = store_be 8 (smp_input_sequence t)"
    "legal_pad_mask (smp_mask s)" "legal_pad_mask (smp_mask t)"
  shows "(s :: DualPortSampleV1) = t"
proof -
  have "smp_mask s = smp_mask t"
    using assms(3,4) by (intro ucast_mask_inj [OF _ _ assms(1)]) (simp_all add: legal_pad_mask_def)
  moreover have "smp_input_sequence s = smp_input_sequence t"
    using assms(2) by (simp add: store_be_inj)
  ultimately show ?thesis by simp
qed

lemma preimage_inj:
  assumes b: "bundle_shape b" "canonical_input_is_canonical_v1 b"
    and c: "bundle_shape c" "canonical_input_is_canonical_v1 c"
    and eq: "canonical_input_preimage b = canonical_input_preimage c"
  shows "bundle_equal b c"
proof -
  let ?m = "\<lambda>x p. ucast (smp_mask (bnd_ports x ! p)) :: u8"
  let ?s = "\<lambda>x p. store_be 8 (smp_input_sequence (bnd_ports x ! p))"
  have parts: "bnd_key b = bnd_key c" "bnd_logical_seat b = bnd_logical_seat c"
    "bnd_owner_signing_key_id b = bnd_owner_signing_key_id c"
    "(ucast (bnd_predicted_port_mask b AND kDualFullPortMaskV1) :: u8)
       = ucast (bnd_predicted_port_mask c AND kDualFullPortMaskV1)"
    "\<forall>p \<in> {0, 1, 2, 3}. ?m b p = ?m c p \<and> ?s b p = ?s c p"
    using eq b(1) c(1)
    by (auto simp: canonical_input_preimage_def bundle_shape_def key_shape_def upt_four store_be_inj)
  show ?thesis
  proof (rule bundle_equalI)
    have "bnd_predicted_port_mask b AND NOT kDualFullPortMaskV1 = 0"
      "bnd_predicted_port_mask c AND NOT kDualFullPortMaskV1 = 0"
      using b(2) c(2) by (auto simp: canonical_input_is_canonical_v1_def split: if_splits)
    then show "bnd_predicted_port_mask b = bnd_predicted_port_mask c"
      using parts(4) by (metis ucast_mask_inj and_full_mask_id)
  next
    fix p :: nat assume p: "p < 4"
    then have "p \<in> {0, 1, 2, 3}" by auto
    with parts(5) show "bnd_ports b ! p = bnd_ports c ! p"
      using canonical_portD(2) [OF b(2) p] canonical_portD(2) [OF c(2) p]
      by (intro preimage_port_eq) auto
  qed (use parts in auto)
qed

end
