(* ===== verification/Input_Window.thy ===== *)
theory Input_Window
  imports Canonical_Input
begin

unbundle bit_operations_syntax

text \<open>
  The bounded input window of one engine, \<^verbatim>\<open>shared/src/session/dual/input_window.{hpp,cpp}\<close>:
  a ring of twenty frame records, the step frontier the runtime moves and the commit frontier below
  which every owned port of every frame is confirmed. Each method returns its status and the next
  window; a rejected call returns the window unchanged. The loop of \<open>advance_commit_frontier\<close> runs
  on fuel: twenty rounds always suffice (\<open>advance_loop_stops\<close>), because a round needs a record of
  its own frame and the ring has twenty slots.
\<close>

section \<open>State\<close>

record DualOwnerKeyV1 =
  own_seat :: u8
  own_signing_key_id :: bytes

datatype DualWindowStatusV1 =
    WinOk | WinDuplicate | WinAccepted | WinFrozen | RejectedWindowExceeded
  | RejectedCommittedHistory | RejectedWrongOwner | RejectedStaleRevision | RejectedOtherBranch
  | RejectedOtherTimeline | RejectedInvalid

record DualWindowPortPlanV1 =
  pp_port :: nat
  pp_sample :: DualPortSampleV1
  pp_owner_signing_key_id :: bytes
  pp_real :: bool

record DualWindowPlanV1 =
  pln_status :: DualWindowStatusV1
  pln_freeze :: DualFreezeReasonV1
  pln_frame_index :: u64
  pln_key :: DualInputKeyV1
  pln_bundle :: DualInputBundleV1
  pln_ports :: "DualWindowPortPlanV1 list"
  pln_predicted_port_mask :: u32
  pln_prediction_depth :: u32
  pln_planned_frontier :: u64

record FrameRecordV1 =
  fr_used :: bool
  fr_planned :: bool
  fr_frame_index :: u64
  fr_planned_predicted_mask :: u32
  fr_real_port_mask :: u32
  fr_provided :: "bool list"
  fr_keys :: "DualInputKeyV1 list"
  fr_owner_keys :: "bytes list"
  fr_masks :: "u32 list"
  fr_sequences :: "u64 list"

record DualInputWindowV1 =
  win_ring :: "FrameRecordV1 list"
  win_context :: DualInputKeyV1
  win_owners :: "DualOwnerKeyV1 list"
  win_last_complete_mask :: "u32 list"
  win_last_complete_sequence :: "u64 list"
  win_owned_port_mask :: u32
  win_step_frontier :: u64
  win_commit_frontier :: u64
  win_materialized_through :: u64
  win_min_accept_revision :: u64
  win_bound :: bool

definition kRingSlotsV1 :: nat where "kRingSlotsV1 = 20"

definition zero_key :: DualInputKeyV1 where
  "zero_key = \<lparr>key_session_id = replicate 16 0, key_branch_id = replicate 16 0,
     key_timeline_epoch = 0, key_frame_index = 0, key_seat_revision = 0\<rparr>"

definition zero_sample :: DualPortSampleV1 where
  "zero_sample = \<lparr>smp_mask = 0, smp_input_sequence = 0\<rparr>"

definition zero_bundle :: DualInputBundleV1 where
  "zero_bundle = \<lparr>bnd_key = zero_key, bnd_logical_seat = 0, bnd_reserved_zero0 = [0, 0, 0],
     bnd_predicted_port_mask = 0, bnd_ports = replicate 4 zero_sample,
     bnd_owner_signing_key_id = replicate 32 0\<rparr>"

definition zero_record :: FrameRecordV1 where
  "zero_record = \<lparr>fr_used = False, fr_planned = False, fr_frame_index = 0,
     fr_planned_predicted_mask = 0, fr_real_port_mask = 0, fr_provided = replicate 4 False,
     fr_keys = replicate 4 zero_key, fr_owner_keys = replicate 4 (replicate 32 0),
     fr_masks = replicate 4 0, fr_sequences = replicate 4 0\<rparr>"

definition zero_port_plan :: DualWindowPortPlanV1 where
  "zero_port_plan = \<lparr>pp_port = 0, pp_sample = zero_sample,
     pp_owner_signing_key_id = replicate 32 0, pp_real = False\<rparr>"

definition zero_plan :: DualWindowPlanV1 where
  "zero_plan = \<lparr>pln_status = WinOk, pln_freeze = Freeze_None, pln_frame_index = 0,
     pln_key = zero_key, pln_bundle = zero_bundle, pln_ports = replicate 4 zero_port_plan,
     pln_predicted_port_mask = 0, pln_prediction_depth = 0, pln_planned_frontier = 0\<rparr>"

definition new_window :: DualInputWindowV1 where
  "new_window = \<lparr>win_ring = replicate kRingSlotsV1 zero_record, win_context = zero_key,
     win_owners = replicate 4 \<lparr>own_seat = 0, own_signing_key_id = replicate 32 0\<rparr>,
     win_last_complete_mask = replicate 4 0, win_last_complete_sequence = replicate 4 0,
     win_owned_port_mask = 0, win_step_frontier = 0, win_commit_frontier = 0,
     win_materialized_through = 0, win_min_accept_revision = 0, win_bound = False\<rparr>"

section \<open>Operations\<close>

definition port_bit :: "nat \<Rightarrow> u32" where
  "port_bit port = push_bit port 1"

definition owners_distinct_seats :: "DualOwnerKeyV1 list \<Rightarrow> bool" where
  "owners_distinct_seats owners =
     (list_all (\<lambda>o'. unat (own_seat o') < kDualPortCountV1) owners \<and>
      distinct (map own_seat owners) \<and>
      list_all (\<lambda>seat. of_nat seat \<in> set (map own_seat owners)) [0..<kDualPortCountV1])"

definition owned_mask_of :: "DualOwnerKeyV1 list \<Rightarrow> u32" where
  "owned_mask_of owners =
     foldl (\<lambda>m port. if all_zero (own_signing_key_id (owners ! port)) then m else m OR port_bit port)
       0 [0..<kDualPortCountV1]"

definition win_begin ::
  "DualInputWindowV1 \<Rightarrow> DualInputKeyV1 \<Rightarrow> DualOwnerKeyV1 list \<Rightarrow> DualWindowStatusV1 \<times> DualInputWindowV1"
where
  "win_begin s context owners =
     (if \<not> dual_input_key_is_valid_v1 context then (RejectedInvalid, s)
      else if \<not> owners_distinct_seats owners then (RejectedInvalid, s)
      else (WinOk, s\<lparr>win_ring := replicate kRingSlotsV1 zero_record, win_context := context,
              win_owners := owners, win_owned_port_mask := owned_mask_of owners,
              win_last_complete_mask := replicate 4 0, win_last_complete_sequence := replicate 4 0,
              win_step_frontier := 0, win_commit_frontier := 0, win_materialized_through := 0,
              win_min_accept_revision := key_seat_revision context, win_bound := True\<rparr>))"

definition slot_of :: "u64 \<Rightarrow> nat" where
  "slot_of frame_index = unat frame_index mod kRingSlotsV1"

definition find_record :: "DualInputWindowV1 \<Rightarrow> u64 \<Rightarrow> FrameRecordV1 option" where
  "find_record s frame_index =
     (let slot = win_ring s ! slot_of frame_index
      in if \<not> fr_used slot \<or> fr_frame_index slot \<noteq> frame_index then None else Some slot)"

definition put_record :: "DualInputWindowV1 \<Rightarrow> u64 \<Rightarrow> FrameRecordV1 \<Rightarrow> DualInputWindowV1" where
  "put_record s frame_index r = s\<lparr>win_ring := (win_ring s)[slot_of frame_index := r]\<rparr>"

definition ensure_record :: "DualInputWindowV1 \<Rightarrow> u64 \<Rightarrow> FrameRecordV1 \<times> DualInputWindowV1" where
  "ensure_record s frame_index =
     (case find_record s frame_index of
        Some existing \<Rightarrow> (existing, s)
      | None \<Rightarrow> let r = zero_record\<lparr>fr_used := True, fr_frame_index := frame_index\<rparr>
                in (r, put_record s frame_index r))"

definition has_frame :: "DualInputWindowV1 \<Rightarrow> u64 \<Rightarrow> bool" where
  "has_frame s frame_index = (find_record s frame_index \<noteq> None)"

definition frame_all_real :: "DualInputWindowV1 \<Rightarrow> u64 \<Rightarrow> bool" where
  "frame_all_real s frame_index =
     (case find_record s frame_index of
        None \<Rightarrow> False
      | Some r \<Rightarrow> if win_owned_port_mask s = 0 then False
                  else fr_real_port_mask r AND win_owned_port_mask s = win_owned_port_mask s)"

definition frame_is_real :: "DualInputWindowV1 \<Rightarrow> u64 \<Rightarrow> bool" where
  "frame_is_real s frame_index =
     (case find_record s frame_index of
        None \<Rightarrow> False
      | Some r \<Rightarrow> if win_owned_port_mask s = 0 then False
                  else (fr_real_port_mask r OR fr_planned_predicted_mask r) AND win_owned_port_mask s
                       = win_owned_port_mask s)"

definition frame_predicted_mask :: "DualInputWindowV1 \<Rightarrow> u64 \<Rightarrow> u32 option" where
  "frame_predicted_mask s frame_index =
     map_option fr_planned_predicted_mask (find_record s frame_index)"

definition held_sample :: "DualInputWindowV1 \<Rightarrow> nat \<Rightarrow> DualPortSampleV1" where
  "held_sample s port =
     \<lparr>smp_mask = win_last_complete_mask s ! port,
      smp_input_sequence = (if win_last_complete_sequence s ! port = 0 then 1
                            else win_last_complete_sequence s ! port)\<rparr>"

definition clone_frame_bundle :: "DualInputWindowV1 \<Rightarrow> u64 \<Rightarrow> DualInputBundleV1 option" where
  "clone_frame_bundle s frame_index =
     (case find_record s frame_index of
        None \<Rightarrow> None
      | Some r \<Rightarrow> Some (zero_bundle\<lparr>
          bnd_key := (win_context s)\<lparr>key_frame_index := frame_index\<rparr>,
          bnd_ports := map (\<lambda>port.
             if fr_provided r ! port
             then \<lparr>smp_mask = fr_masks r ! port, smp_input_sequence = fr_sequences r ! port\<rparr>
             else held_sample s port) [0..<kDualPortCountV1],
          bnd_predicted_port_mask := fr_planned_predicted_mask r,
          bnd_owner_signing_key_id := own_signing_key_id (win_owners s ! 0)\<rparr>))"

definition effective_mask :: "DualInputWindowV1 \<Rightarrow> u64 \<Rightarrow> nat \<Rightarrow> u32" where
  "effective_mask s frame_index port =
     (if port \<ge> kDualPortCountV1 then 0
      else case find_record s frame_index of
             Some r \<Rightarrow> if fr_provided r ! port then fr_masks r ! port
                       else win_last_complete_mask s ! port
           | None \<Rightarrow> win_last_complete_mask s ! port)"

definition commit_ready :: "DualInputWindowV1 \<Rightarrow> FrameRecordV1 option" where
  "commit_ready s =
     (case find_record s (win_commit_frontier s) of
        None \<Rightarrow> None
      | Some r \<Rightarrow> if \<not> fr_planned r
                    \<or> fr_real_port_mask r AND win_owned_port_mask s \<noteq> win_owned_port_mask s
                  then None else Some r)"

definition commit_frame :: "DualInputWindowV1 \<Rightarrow> FrameRecordV1 \<Rightarrow> DualInputWindowV1" where
  "commit_frame s r =
     s\<lparr>win_last_complete_mask := map (\<lambda>port.
         if win_owned_port_mask s AND port_bit port = 0 then win_last_complete_mask s ! port
         else fr_masks r ! port) [0..<kDualPortCountV1],
       win_last_complete_sequence := map (\<lambda>port.
         if win_owned_port_mask s AND port_bit port = 0 then win_last_complete_sequence s ! port
         else fr_sequences r ! port) [0..<kDualPortCountV1],
       win_commit_frontier := win_commit_frontier s + 1\<rparr>"

primrec advance_loop :: "nat \<Rightarrow> DualInputWindowV1 \<Rightarrow> DualInputWindowV1" where
  "advance_loop 0 s = s"
| "advance_loop (Suc fuel) s =
     (case commit_ready s of None \<Rightarrow> s | Some r \<Rightarrow> advance_loop fuel (commit_frame s r))"

definition advance_commit_frontier :: "DualInputWindowV1 \<Rightarrow> DualInputWindowV1" where
  "advance_commit_frontier s = advance_loop kRingSlotsV1 s"

definition seat_index :: "DualInputWindowV1 \<Rightarrow> u8 \<Rightarrow> nat option" where
  "seat_index s logical_seat =
     find (\<lambda>index. own_seat (win_owners s ! index) = logical_seat) [0..<kDualPortCountV1]"

definition store_port :: "FrameRecordV1 \<Rightarrow> nat \<Rightarrow> DualInputBundleV1 \<Rightarrow> FrameRecordV1" where
  "store_port r port bundle =
     r\<lparr>fr_keys := (fr_keys r)[port := bnd_key bundle],
       fr_owner_keys := (fr_owner_keys r)[port := bnd_owner_signing_key_id bundle],
       fr_masks := (fr_masks r)[port := smp_mask (bnd_ports bundle ! port)],
       fr_sequences := (fr_sequences r)[port := smp_input_sequence (bnd_ports bundle ! port)],
       fr_provided := (fr_provided r)[port := True],
       fr_real_port_mask := fr_real_port_mask r OR port_bit port,
       fr_planned_predicted_mask := fr_planned_predicted_mask r AND NOT (port_bit port)\<rparr>"

definition already_provided :: "DualInputWindowV1 \<Rightarrow> DualInputBundleV1 \<Rightarrow> nat \<Rightarrow> DualWindowStatusV1 option"
where
  "already_provided s bundle port =
     (case find_record s (key_frame_index (bnd_key bundle)) of
        None \<Rightarrow> None
      | Some r \<Rightarrow>
          if fr_provided r ! port
          then if fr_owner_keys r ! port = bnd_owner_signing_key_id bundle
                  \<and> fr_masks r ! port = smp_mask (bnd_ports bundle ! port)
                  \<and> fr_sequences r ! port = smp_input_sequence (bnd_ports bundle ! port)
               then Some WinDuplicate else Some RejectedCommittedHistory
          else None)"

definition accept_port ::
  "DualInputWindowV1 \<Rightarrow> DualInputBundleV1 \<Rightarrow> nat \<Rightarrow> DualWindowStatusV1 \<times> DualInputWindowV1" where
  "accept_port s bundle port =
     (let frame_index = key_frame_index (bnd_key bundle) in
      case already_provided s bundle port of
        Some status \<Rightarrow> (status, s)
      | None \<Rightarrow>
          if frame_index < win_commit_frontier s then (RejectedCommittedHistory, s)
          else if frame_index > win_step_frontier s + kDualGuestLeadFramesV1
               then (RejectedWindowExceeded, s)
          else
            let (record, s1) = ensure_record s frame_index;
                s2 = put_record s1 frame_index (store_port record port bundle);
                s3 = (if key_seat_revision (bnd_key bundle) > win_min_accept_revision s2
                      then s2\<lparr>win_min_accept_revision := key_seat_revision (bnd_key bundle)\<rparr> else s2)
            in (WinAccepted, advance_commit_frontier s3))"

definition deliver_input ::
  "DualInputWindowV1 \<Rightarrow> DualInputBundleV1 \<Rightarrow> DualWindowStatusV1 \<times> DualInputWindowV1" where
  "deliver_input s bundle =
     (if \<not> win_bound s then (RejectedInvalid, s)
      else if \<not> canonical_input_is_canonical_v1 bundle then (RejectedInvalid, s)
      else if key_session_id (bnd_key bundle) \<noteq> key_session_id (win_context s)
           then (RejectedInvalid, s)
      else if key_branch_id (bnd_key bundle) \<noteq> key_branch_id (win_context s)
           then (RejectedOtherBranch, s)
      else if key_timeline_epoch (bnd_key bundle) \<noteq> key_timeline_epoch (win_context s)
           then (RejectedOtherTimeline, s)
      else if key_seat_revision (bnd_key bundle) < win_min_accept_revision s
           then (RejectedStaleRevision, s)
      else case seat_index s (bnd_logical_seat bundle) of
             None \<Rightarrow> (RejectedWrongOwner, s)
           | Some seat \<Rightarrow>
               if all_zero (own_signing_key_id (win_owners s ! seat)) then (RejectedWrongOwner, s)
               else if own_signing_key_id (win_owners s ! seat) \<noteq> bnd_owner_signing_key_id bundle
                    then (RejectedWrongOwner, s)
               else accept_port s bundle seat)"

definition deliver_local_input ::
  "DualInputWindowV1 \<Rightarrow> DualPortInputV1 list \<Rightarrow> u8 \<Rightarrow> DualWindowStatusV1 \<times> DualInputWindowV1" where
  "deliver_local_input s samples logical_seat =
     (if \<not> win_bound s then (RejectedInvalid, s)
      else case seat_index s logical_seat of
             None \<Rightarrow> (RejectedWrongOwner, s)
           | Some seat \<Rightarrow>
               if all_zero (own_signing_key_id (win_owners s ! seat)) then (RejectedWrongOwner, s)
               else case canonical_input_build_v1 True
                           ((win_context s)\<lparr>key_frame_index := win_step_frontier s\<rparr>) logical_seat
                           (own_signing_key_id (win_owners s ! seat)) samples of
                      Inl _ \<Rightarrow> (RejectedInvalid, s)
                    | Inr bundle \<Rightarrow> deliver_input s bundle)"

definition port_plan :: "DualInputWindowV1 \<Rightarrow> FrameRecordV1 \<Rightarrow> nat \<Rightarrow> DualWindowPortPlanV1" where
  "port_plan s record port =
     (if fr_provided record ! port
      then \<lparr>pp_port = port,
            pp_sample = \<lparr>smp_mask = fr_masks record ! port,
                         smp_input_sequence = fr_sequences record ! port\<rparr>,
            pp_owner_signing_key_id = fr_owner_keys record ! port, pp_real = True\<rparr>
      else \<lparr>pp_port = port, pp_sample = held_sample s port,
            pp_owner_signing_key_id = own_signing_key_id (win_owners s ! port), pp_real = False\<rparr>)"

definition plan_predicted :: "DualInputWindowV1 \<Rightarrow> FrameRecordV1 \<Rightarrow> u32" where
  "plan_predicted s record =
     foldl (\<lambda>m port. if \<not> fr_provided record ! port \<and> win_owned_port_mask s AND port_bit port \<noteq> 0
                     then m OR port_bit port else m) 0 [0..<kDualPortCountV1]"

fun raise_sequences :: "u64 \<Rightarrow> DualWindowPortPlanV1 list \<Rightarrow> DualWindowPortPlanV1 list" where
  "raise_sequences previous [] = []"
| "raise_sequences previous (p # ps) =
     (let sequence = (if smp_input_sequence (pp_sample p) \<le> previous then previous + 1
                      else smp_input_sequence (pp_sample p))
      in p\<lparr>pp_sample := (pp_sample p)\<lparr>smp_input_sequence := sequence\<rparr>\<rparr> # raise_sequences sequence ps)"

definition plan_revision :: "DualInputWindowV1 \<Rightarrow> FrameRecordV1 \<Rightarrow> u64" where
  "plan_revision s record =
     foldl (\<lambda>rev port. if fr_provided record ! port then key_seat_revision (fr_keys record ! port)
                       else rev) (key_seat_revision (win_context s)) [0..<kDualPortCountV1]"

definition materialize_plan ::
  "DualInputWindowV1 \<Rightarrow> FrameRecordV1 \<Rightarrow> u64 \<Rightarrow> u64 \<Rightarrow> DualWindowPlanV1" where
  "materialize_plan s record frame distance =
     (let key = (win_context s)\<lparr>key_frame_index := frame, key_seat_revision := plan_revision s record\<rparr>;
          ports = raise_sequences 0 (map (port_plan s record) [0..<kDualPortCountV1]);
          predicted = plan_predicted s record
      in zero_plan\<lparr>pln_status := WinOk, pln_freeze := Freeze_None, pln_frame_index := frame,
           pln_key := key,
           pln_bundle := zero_bundle\<lparr>bnd_key := key, bnd_logical_seat := 0,
              bnd_ports := map pp_sample ports, bnd_predicted_port_mask := predicted,
              bnd_owner_signing_key_id := own_signing_key_id (win_owners s ! 0)\<rparr>,
           pln_ports := ports, pln_predicted_port_mask := predicted,
           pln_prediction_depth := ucast distance, pln_planned_frontier := win_step_frontier s\<rparr>)"

definition frozen_plan ::
  "DualInputWindowV1 \<Rightarrow> DualFreezeReasonV1 \<Rightarrow> u64 \<Rightarrow> u64 \<Rightarrow> DualWindowPlanV1" where
  "frozen_plan s reason frame distance =
     zero_plan\<lparr>pln_status := WinFrozen, pln_freeze := reason, pln_frame_index := frame,
       pln_prediction_depth := ucast distance, pln_planned_frontier := win_step_frontier s\<rparr>"

definition plan_next :: "DualInputWindowV1 \<Rightarrow> DualWindowPlanV1 \<times> DualInputWindowV1" where
  "plan_next s =
     (if \<not> win_bound s then (zero_plan\<lparr>pln_status := RejectedInvalid\<rparr>, s)
      else
        let frame = (if win_step_frontier s < win_commit_frontier s then win_commit_frontier s
                     else win_step_frontier s);
            distance = (if frame > win_commit_frontier s then frame - win_commit_frontier s else 0)
        in if unat distance \<ge> kDualMaxRollbackFramesV1
           then (frozen_plan s InputWindowExceeded frame distance, s)
           else if unat distance \<ge> kDualPredictionFreezeDepthV1
           then (frozen_plan s PredictionDepthExceeded frame distance, s)
           else
             let (record, s1) = ensure_record s frame;
                 s2 = (if frame + 1 > win_materialized_through s1
                       then s1\<lparr>win_materialized_through := frame + 1\<rparr> else s1)
             in (materialize_plan s2 record frame distance, s2))"

definition mark_planned ::
  "DualInputWindowV1 \<Rightarrow> u64 \<Rightarrow> u32 \<Rightarrow> DualWindowStatusV1 \<times> DualInputWindowV1" where
  "mark_planned s frame_index predicted_port_mask =
     (if \<not> win_bound s then (RejectedInvalid, s)
      else if frame_index \<ge> win_materialized_through s then (RejectedWindowExceeded, s)
      else case find_record s frame_index of
             None \<Rightarrow> (RejectedWindowExceeded, s)
           | Some r \<Rightarrow>
               let s1 = put_record s frame_index
                          (r\<lparr>fr_planned := True,
                             fr_planned_predicted_mask :=
                               predicted_port_mask AND NOT (fr_real_port_mask r)\<rparr>);
                   s2 = s1\<lparr>win_step_frontier := frame_index + 1\<rparr>
               in (WinOk, advance_commit_frontier s2))"

text \<open>The calls a bound window receives, and one call as a transition.\<close>

datatype window_call =
    Deliver DualInputBundleV1
  | DeliverLocal "DualPortInputV1 list" u8
  | PlanNext
  | MarkPlanned u64 u32

fun window_step :: "DualInputWindowV1 \<Rightarrow> window_call \<Rightarrow> DualWindowStatusV1 \<times> DualInputWindowV1" where
  "window_step s (Deliver bundle) = deliver_input s bundle"
| "window_step s (DeliverLocal samples seat) = deliver_local_input s samples seat"
| "window_step s PlanNext = (pln_status (fst (plan_next s)), snd (plan_next s))"
| "window_step s (MarkPlanned frame_index predicted) = mark_planned s frame_index predicted"

end
