(* ===== verification/Window_Safety.thy ===== *)
theory Window_Safety
  imports Input_Window
begin

unbundle bit_operations_syntax

text \<open>
  Safety of the input window. \<open>window_inv\<close> ties the ring to the two frontiers; it is kept by every
  call made below the frame horizon (frame numbers are 64-bit and wrap after the horizon, which a
  60 Hz session reaches after nine billion years). \<open>confirmed\<close> is what a client can read of the
  ring: the sample of a frame and port that its owner delivered. \<open>window_le\<close> relates a window to a
  later one: the commit frontier does not move back, no in-flight confirmed sample is lost or
  changed, and nothing appears below the commit frontier.
\<close>

section \<open>The invariant\<close>

definition record_inv :: "FrameRecordV1 \<Rightarrow> bool" where
  "record_inv r \<longleftrightarrow>
     length (fr_provided r) = 4 \<and> length (fr_keys r) = 4 \<and> length (fr_owner_keys r) = 4
     \<and> length (fr_masks r) = 4 \<and> length (fr_sequences r) = 4
     \<and> (\<forall>p<4. fr_provided r ! p \<longleftrightarrow> bit (fr_real_port_mask r) p)
     \<and> (\<forall>p<4. fr_provided r ! p \<longrightarrow> legal_pad_mask (fr_masks r ! p)
          \<and> fr_sequences r ! p \<noteq> 0 \<and> key_seat_revision (fr_keys r ! p) \<noteq> 0)"

definition ring_inv :: "DualInputWindowV1 \<Rightarrow> bool" where
  "ring_inv s \<longleftrightarrow> length (win_ring s) = 20
     \<and> (\<forall>i<20. fr_used (win_ring s ! i) \<longrightarrow> slot_of (fr_frame_index (win_ring s ! i)) = i)
     \<and> (\<forall>i<20. record_inv (win_ring s ! i))
     \<and> (\<forall>i<20. fr_used (win_ring s ! i) \<longrightarrow>
          unat (fr_frame_index (win_ring s ! i)) \<le> unat (win_materialized_through s) + 4)
     \<and> (\<forall>i<20. fr_used (win_ring s ! i) \<longrightarrow> fr_planned (win_ring s ! i) \<longrightarrow>
          unat (fr_frame_index (win_ring s ! i)) < unat (win_materialized_through s))"

definition frontier_inv :: "DualInputWindowV1 \<Rightarrow> bool" where
  "frontier_inv s \<longleftrightarrow>
     unat (win_step_frontier s) \<le> unat (win_materialized_through s)
     \<and> unat (win_commit_frontier s) \<le> unat (win_materialized_through s)
     \<and> unat (win_materialized_through s) \<le> unat (win_commit_frontier s) + 10"

definition held_inv :: "DualInputWindowV1 \<Rightarrow> bool" where
  "held_inv s \<longleftrightarrow> length (win_owners s) = 4 \<and> length (win_last_complete_mask s) = 4
     \<and> length (win_last_complete_sequence s) = 4
     \<and> (\<forall>p<4. legal_pad_mask (win_last_complete_mask s ! p))"

definition window_inv :: "DualInputWindowV1 \<Rightarrow> bool" where
  "window_inv s \<longleftrightarrow> ring_inv s \<and> frontier_inv s \<and> held_inv s"

definition below_horizon :: "DualInputWindowV1 \<Rightarrow> window_call \<Rightarrow> bool" where
  "below_horizon s c \<longleftrightarrow> unat (win_materialized_through s) < 2 ^ 64 - 16"

definition confirmed :: "DualInputWindowV1 \<Rightarrow> u64 \<Rightarrow> nat \<Rightarrow> (u32 \<times> u64) option" where
  "confirmed s frame port =
     (case find_record s frame of
        None \<Rightarrow> None
      | Some r \<Rightarrow> if port < 4 \<and> fr_provided r ! port
                  then Some (fr_masks r ! port, fr_sequences r ! port) else None)"

definition window_le :: "DualInputWindowV1 \<Rightarrow> DualInputWindowV1 \<Rightarrow> bool" where
  "window_le s t \<longleftrightarrow>
     win_commit_frontier s \<le> win_commit_frontier t
     \<and> (\<forall>g p v. confirmed s g p = Some v \<longrightarrow> win_commit_frontier t \<le> g \<longrightarrow> confirmed t g p = Some v)
     \<and> (\<forall>g p v. confirmed t g p = Some v \<longrightarrow> g < win_commit_frontier s \<longrightarrow> confirmed s g p = Some v)"

lemma window_le_refl [simp]: "window_le s s"
  by (simp add: window_le_def)

lemma window_le_trans: "window_le s t \<Longrightarrow> window_le t u \<Longrightarrow> window_le s u"
  unfolding window_le_def by (meson order_less_le_trans order_trans)

section \<open>Ring lookups\<close>

lemma slot_of_less [simp]: "slot_of g < 20"
  by (simp add: slot_of_def kRingSlotsV1_def)

lemma find_record_Some:
  "find_record s g = Some r \<longleftrightarrow>
     r = win_ring s ! slot_of g \<and> fr_used r \<and> fr_frame_index r = g"
  by (auto simp: find_record_def Let_def)

lemma find_record_cong [simp]:
  "find_record (s\<lparr>win_step_frontier := x\<rparr>) g = find_record s g"
  "find_record (s\<lparr>win_materialized_through := x\<rparr>) g = find_record s g"
  "find_record (s\<lparr>win_min_accept_revision := x\<rparr>) g = find_record s g"
  "find_record (commit_frame s r) g = find_record s g"
  by (simp_all add: find_record_def commit_frame_def)

lemma find_put_record:
  assumes "length (win_ring s) = 20" "fr_used r" "fr_frame_index r = g"
  shows "find_record (put_record s g r) h =
     (if h = g then Some r else if slot_of h = slot_of g then None else find_record s h)"
  using assms by (auto simp: find_record_def put_record_def Let_def)

lemma find_put_existing:
  assumes "length (win_ring s) = 20" "fr_used r'" "fr_frame_index r' = g" "find_record s g = Some r"
  shows "find_record (put_record s g r') h = (if h = g then Some r' else find_record s h)"
proof -
  have "find_record s h = None" if "h \<noteq> g" "slot_of h = slot_of g"
    using assms(4) that unfolding find_record_Some by (auto simp: find_record_def Let_def)
  then show ?thesis by (simp add: find_put_record [OF assms(1-3)])
qed

lemma ring_invD:
  assumes "ring_inv s" "find_record s g = Some r"
  shows "record_inv r" "unat g \<le> unat (win_materialized_through s) + 4"
    "fr_planned r \<Longrightarrow> unat g < unat (win_materialized_through s)"
  using assms slot_of_less [of g] unfolding ring_inv_def find_record_Some by metis+

lemma ring_inv_put:
  assumes inv: "ring_inv s" and r: "record_inv r" "fr_used r" "fr_frame_index r = g"
    and g: "unat g \<le> unat (win_materialized_through s) + 4"
    and planned: "fr_planned r \<Longrightarrow> unat g < unat (win_materialized_through s)"
  shows "ring_inv (put_record s g r)"
  using assms unfolding ring_inv_def put_record_def by (auto simp: nth_list_update)

text \<open>
  The capacity argument: all in-flight frames lie within fourteen frames above the commit frontier,
  so two of them never share one of the twenty slots.
\<close>

lemma slot_no_clash:
  assumes inv: "window_inv s" and found: "find_record s h = Some r"
    and slot: "slot_of h = slot_of g" "h \<noteq> g"
    and g: "win_commit_frontier s \<le> g" "unat g \<le> unat (win_materialized_through s) + 4"
  shows "h < win_commit_frontier s"
proof (rule ccontr)
  assume "\<not> h < win_commit_frontier s"
  then have lo: "unat (win_commit_frontier s) \<le> unat h" by (simp add: word_le_nat_alt not_less)
  from inv have "unat (win_materialized_through s) \<le> unat (win_commit_frontier s) + 10"
    and "ring_inv s" by (auto simp: window_inv_def frontier_inv_def)
  with ring_invD(2) [OF _ found] g lo
  have bnd: "unat h < unat g + 20" "unat g < unat h + 20"
    by (auto simp: word_le_nat_alt)
  have "unat h mod 20 = unat g mod 20" using slot(1) by (simp add: slot_of_def kRingSlotsV1_def)
  then have "unat h = unat g" using bnd by (rule mod_eq_close)
  then show False using slot(2) by (simp add: word_unat_eq_iff)
qed

section \<open>Records of the ring\<close>

lemma bit_port_bit: "bit (port_bit p) q \<longleftrightarrow> q = p \<and> p < 32"
  by (auto simp: port_bit_def bit_exp_iff)

lemma and_port_bit: "p < 32 \<Longrightarrow> m AND port_bit p = 0 \<longleftrightarrow> \<not> bit m p"
  by (simp add: port_bit_def push_bit_eq_mult and_exp_eq_0_iff_not_bit)

lemma zero_mask_legal [simp]: "legal_pad_mask 0"
  by (simp add: legal_pad_mask_def)

lemma zero_record_inv: "record_inv (zero_record\<lparr>fr_used := u, fr_frame_index := g\<rparr>)"
  by (simp add: record_inv_def zero_record_def)

lemma store_port_inv:
  assumes "record_inv r" "canonical_input_is_canonical_v1 b" "p < 4"
  shows "record_inv (store_port r p b)"
proof -
  have "key_seat_revision (bnd_key b) \<noteq> 0"
    using assms(2) by (auto simp: canonical_input_is_canonical_v1_def dual_input_key_is_valid_v1_def
        split: if_splits)
  then show ?thesis
    using assms canonical_portD [OF assms(2,3)]
    by (auto simp: record_inv_def store_port_def nth_list_update bit_or_iff bit_port_bit)
qed

lemma store_port_simps [simp]:
  "fr_used (store_port r p b) = fr_used r" "fr_planned (store_port r p b) = fr_planned r"
  "fr_frame_index (store_port r p b) = fr_frame_index r"
  by (simp_all add: store_port_def)

section \<open>Ring updates\<close>

lemma put_record_frontiers [simp]:
  "win_commit_frontier (put_record s g r) = win_commit_frontier s"
  "win_step_frontier (put_record s g r) = win_step_frontier s"
  "win_materialized_through (put_record s g r) = win_materialized_through s"
  "win_owners (put_record s g r) = win_owners s"
  "win_context (put_record s g r) = win_context s"
  "win_owned_port_mask (put_record s g r) = win_owned_port_mask s"
  "win_last_complete_mask (put_record s g r) = win_last_complete_mask s"
  "win_last_complete_sequence (put_record s g r) = win_last_complete_sequence s"
  "win_min_accept_revision (put_record s g r) = win_min_accept_revision s"
  "win_bound (put_record s g r) = win_bound s"
  by (simp_all add: put_record_def)

lemma window_inv_put:
  assumes "window_inv s" "record_inv r" "fr_used r" "fr_frame_index r = g"
    "unat g \<le> unat (win_materialized_through s) + 4"
    "fr_planned r \<Longrightarrow> unat g < unat (win_materialized_through s)"
  shows "window_inv (put_record s g r)"
  using assms ring_inv_put [of s r g] by (simp add: window_inv_def frontier_inv_def held_inv_def)

text \<open>
  Writing a record at an in-flight frame is a step of \<open>window_le\<close> when the record keeps the samples
  the frame had.
\<close>

definition keeps_samples :: "FrameRecordV1 \<Rightarrow> FrameRecordV1 \<Rightarrow> bool" where
  "keeps_samples r r' \<longleftrightarrow> (\<forall>p<4. fr_provided r ! p \<longrightarrow>
     fr_provided r' ! p \<and> fr_masks r' ! p = fr_masks r ! p \<and> fr_sequences r' ! p = fr_sequences r ! p)"

lemma store_port_keeps: "\<not> fr_provided r ! p \<Longrightarrow> keeps_samples r (store_port r p b)"
  unfolding keeps_samples_def store_port_def
  by (auto, (metis nth_list_update_neq)+)

lemma window_le_put:
  assumes inv: "window_inv s" and r: "fr_used r" "fr_frame_index r = g"
    and g: "win_commit_frontier s \<le> g" "unat g \<le> unat (win_materialized_through s) + 4"
    and old: "\<And>q. find_record s g = Some q \<Longrightarrow> keeps_samples q r"
  shows "window_le s (put_record s g r)"
proof -
  have len: "length (win_ring s) = 20" using inv by (simp add: window_inv_def ring_inv_def)
  note find = find_put_record [OF len r]
  have keep: "confirmed (put_record s g r) h p = Some v"
    if "confirmed s h p = Some v" "win_commit_frontier s \<le> h" for h p v
  proof -
    from that obtain q where q: "find_record s h = Some q" "p < 4" "fr_provided q ! p"
      "v = (fr_masks q ! p, fr_sequences q ! p)"
      by (auto simp: confirmed_def split: option.splits if_splits)
    have "h = g \<or> slot_of h \<noteq> slot_of g"
      using slot_no_clash [OF inv q(1) _ _ g] that(2) by auto
    then show ?thesis
    proof
      assume "h = g"
      then show ?thesis using q old by (simp add: confirmed_def find keeps_samples_def)
    next
      assume "slot_of h \<noteq> slot_of g"
      then show ?thesis using q by (auto simp: confirmed_def find)
    qed
  qed
  have none: "confirmed s h p = Some v"
    if "confirmed (put_record s g r) h p = Some v" "h < win_commit_frontier s" for h p v
  proof -
    have "h \<noteq> g" using that(2) g(1) by auto
    then show ?thesis
      using that(1) by (auto simp: confirmed_def find split: option.splits if_splits)
  qed
  show ?thesis unfolding window_le_def put_record_frontiers by (blast intro: keep none)
qed

lemma ensure_record_props:
  assumes inv: "window_inv s"
    and g: "win_commit_frontier s \<le> g" "unat g \<le> unat (win_materialized_through s) + 4"
    and e: "ensure_record s g = (r, s1)"
  shows "window_inv s1" "window_le s s1" "find_record s1 g = Some r"
    "find_record s g = None \<Longrightarrow> r = zero_record\<lparr>fr_used := True, fr_frame_index := g\<rparr>"
    "find_record s g = Some q \<Longrightarrow> r = q"
    "win_commit_frontier s1 = win_commit_frontier s" "win_step_frontier s1 = win_step_frontier s"
    "win_materialized_through s1 = win_materialized_through s"
    "win_owned_port_mask s1 = win_owned_port_mask s" "win_context s1 = win_context s"
    "win_owners s1 = win_owners s" "win_bound s1 = win_bound s"
    "win_min_accept_revision s1 = win_min_accept_revision s"
proof -
  let ?z = "zero_record\<lparr>fr_used := True, fr_frame_index := g\<rparr>"
  have len: "length (win_ring s) = 20" using inv by (simp add: window_inv_def ring_inv_def)
  have "window_inv s1 \<and> window_le s s1 \<and> find_record s1 g = Some r"
  proof (cases "find_record s g")
    case None
    then have r: "r = ?z" and s1: "s1 = put_record s g ?z"
      using e by (auto simp: ensure_record_def Let_def)
    have "window_inv s1" unfolding s1
      by (rule window_inv_put [OF inv zero_record_inv _ _ g(2)]) (simp_all add: zero_record_def)
    moreover have "window_le s s1" unfolding s1
      by (rule window_le_put [OF inv _ _ g]) (use None in simp_all)
    ultimately show ?thesis using r s1 len by (simp add: find_put_record)
  next
    case (Some q)
    then show ?thesis using e inv by (auto simp: ensure_record_def)
  qed
  then show "window_inv s1" "window_le s s1" "find_record s1 g = Some r" by auto
qed (use e in \<open>auto simp: ensure_record_def Let_def split: option.splits\<close>)

section \<open>Advancing the commit frontier\<close>

lemma commit_frame_simps [simp]:
  "win_ring (commit_frame s r) = win_ring s"
  "win_step_frontier (commit_frame s r) = win_step_frontier s"
  "win_materialized_through (commit_frame s r) = win_materialized_through s"
  "win_owners (commit_frame s r) = win_owners s"
  "win_context (commit_frame s r) = win_context s"
  "win_owned_port_mask (commit_frame s r) = win_owned_port_mask s"
  "win_min_accept_revision (commit_frame s r) = win_min_accept_revision s"
  "win_bound (commit_frame s r) = win_bound s"
  "win_commit_frontier (commit_frame s r) = win_commit_frontier s + 1"
  by (simp_all add: commit_frame_def)

lemma commit_ready_Some:
  "commit_ready s = Some r \<longleftrightarrow>
     find_record s (win_commit_frontier s) = Some r \<and> fr_planned r
     \<and> fr_real_port_mask r AND win_owned_port_mask s = win_owned_port_mask s"
  by (auto simp: commit_ready_def split: option.splits)

lemma commit_frame_inv:
  assumes inv: "window_inv s" and ready: "commit_ready s = Some r"
  shows "window_inv (commit_frame s r)" "window_le s (commit_frame s r)"
    "unat (win_commit_frontier (commit_frame s r)) = unat (win_commit_frontier s) + 1"
proof -
  let ?c = "win_commit_frontier s" and ?m = "win_materialized_through s"
  from ready have f: "find_record s ?c = Some r" "fr_planned r"
    and owned: "fr_real_port_mask r AND win_owned_port_mask s = win_owned_port_mask s"
    by (simp_all add: commit_ready_Some)
  have ring: "ring_inv s" using inv by (simp add: window_inv_def)
  have lt: "unat ?c < unat ?m" using ring_invD(3) [OF ring f(1) f(2)] .
  then have one: "unat (?c + 1) = unat ?c + 1" by (rule unat_inc_below)
  then show "unat (win_commit_frontier (commit_frame s r)) = unat ?c + 1" by simp
  have rec: "record_inv r" using ring_invD(1) [OF ring f(1)] .
  have "legal_pad_mask (fr_masks r ! p)" if "p < 4" "bit (win_owned_port_mask s) p" for p
  proof -
    have "bit (fr_real_port_mask r) p" using owned that(2) by (metis bit_and_iff)
    then show ?thesis using rec that(1) by (simp add: record_inv_def)
  qed
  then have "held_inv (commit_frame s r)"
    using inv by (auto simp: window_inv_def held_inv_def commit_frame_def kDualPortCountV1_def
        and_port_bit)
  then show "window_inv (commit_frame s r)"
    using inv lt one by (auto simp: window_inv_def ring_inv_def frontier_inv_def)
  show "window_le s (commit_frame s r)"
    using one by (auto simp: window_le_def confirmed_def word_le_nat_alt word_less_nat_alt)
qed

lemma advance_loop_inv:
  "window_inv s \<Longrightarrow> window_inv (advance_loop n s) \<and> window_le s (advance_loop n s)"
proof (induction n arbitrary: s)
  case 0
  then show ?case by simp
next
  case (Suc n)
  show ?case
  proof (cases "commit_ready s")
    case None
    then show ?thesis using Suc.prems by simp
  next
    case (Some r)
    note step = commit_frame_inv [OF Suc.prems Some]
    from Suc.IH [OF step(1)] step(2) show ?thesis
      using Some by (auto intro: window_le_trans)
  qed
qed

lemmas advance_inv =
  advance_loop_inv [where n = kRingSlotsV1, folded advance_commit_frontier_def, THEN conjunct1]
  advance_loop_inv [where n = kRingSlotsV1, folded advance_commit_frontier_def, THEN conjunct2]

lemma advance_loop_simps [simp]:
  "win_ring (advance_loop n s) = win_ring s"
  "win_step_frontier (advance_loop n s) = win_step_frontier s"
  "win_materialized_through (advance_loop n s) = win_materialized_through s"
  "win_owners (advance_loop n s) = win_owners s"
  "win_context (advance_loop n s) = win_context s"
  "win_owned_port_mask (advance_loop n s) = win_owned_port_mask s"
  "win_min_accept_revision (advance_loop n s) = win_min_accept_revision s"
  "win_bound (advance_loop n s) = win_bound s"
  by (induction n arbitrary: s) (auto split: option.splits)

lemma find_record_advance [simp]: "find_record (advance_loop n s) g = find_record s g"
  by (simp add: find_record_def)

lemmas advance_simps [simp] =
  advance_loop_simps [where n = kRingSlotsV1, folded advance_commit_frontier_def]
  find_record_advance [where n = kRingSlotsV1, folded advance_commit_frontier_def]

text \<open>
  Fuel. Every round of the loop finds a record of its own frame; if all twenty rounds ran, the
  records of the twenty frames fill the ring and the next frame has none.
\<close>

lemma advance_loop_frames:
  "commit_ready (advance_loop n s) \<noteq> None \<Longrightarrow> k \<le> n \<Longrightarrow>
     find_record s (win_commit_frontier s + of_nat k) \<noteq> None"
proof (induction n arbitrary: s k)
  case 0
  then show ?case by (auto simp: commit_ready_def split: option.splits)
next
  case (Suc n)
  then obtain r where r: "commit_ready s = Some r"
    by (cases "commit_ready s") auto
  show ?case
  proof (cases k)
    case 0
    then show ?thesis using r by (simp add: commit_ready_Some)
  next
    case (Suc j)
    then have "find_record (commit_frame s r) (win_commit_frontier (commit_frame s r) + of_nat j) \<noteq> None"
      using Suc.prems Suc.IH [of "commit_frame s r" j] r by simp
    then show ?thesis using Suc by (simp add: add.assoc)
  qed
qed

lemma advance_loop_stops: "commit_ready (advance_commit_frontier s) = None"
proof (rule ccontr)
  assume "commit_ready (advance_commit_frontier s) \<noteq> None"
  then have rec: "find_record s (win_commit_frontier s + of_nat k) \<noteq> None" if "k \<le> 20" for k
    using that advance_loop_frames [of kRingSlotsV1 s k]
    by (simp add: advance_commit_frontier_def kRingSlotsV1_def)
  let ?f = "\<lambda>k. slot_of (win_commit_frontier s + of_nat k)"
  have "inj_on ?f {0..20}"
  proof (rule inj_onI)
    fix j k assume "j \<in> {0..20}" "k \<in> {0..20}" and slot: "?f j = ?f k"
    then have jk: "j \<le> 20" "k \<le> 20" by auto
    from rec [OF jk(1)] rec [OF jk(2)] slot
    have "win_commit_frontier s + of_nat j = win_commit_frontier s + (of_nat k :: u64)"
      by (auto simp: find_record_def Let_def split: if_splits)
    then have "(of_nat j :: u64) = of_nat k" by simp
    then have "unat (of_nat j :: u64) = unat (of_nat k :: u64)" by simp
    then show "j = k" using jk by (simp add: unat_of_nat)
  qed
  then have "card {0..20 :: nat} \<le> card {0..<20 :: nat}"
    by (rule card_inj_on_le) auto
  then show False by simp
qed

section \<open>Every call keeps the invariant\<close>

lemma accept_port_inv:
  assumes inv: "window_inv s" and hor: "unat (win_materialized_through s) < 2 ^ 64 - 16"
    and can: "canonical_input_is_canonical_v1 b" and p: "p < 4"
  shows "window_inv (snd (accept_port s b p)) \<and> window_le s (snd (accept_port s b p))"
proof (cases "fst (accept_port s b p) = WinAccepted")
  case False
  then have "snd (accept_port s b p) = s"
    by (auto simp: accept_port_def Let_def split: option.splits if_splits prod.splits)
  then show ?thesis using inv by simp
next
  case True
  let ?g = "key_frame_index (bnd_key b)"
  have np: "already_provided s b p = None" and lo: "win_commit_frontier s \<le> ?g"
    and hi: "\<not> ?g > win_step_frontier s + kDualGuestLeadFramesV1"
    using True by (auto simp: accept_port_def Let_def already_provided_def
        split: option.splits if_splits prod.splits)
  have "unat (win_step_frontier s) \<le> unat (win_materialized_through s)"
    using inv by (simp add: window_inv_def frontier_inv_def)
  then have up: "unat ?g \<le> unat (win_materialized_through s) + 4"
    using hi hor unat_add_small [of "win_step_frontier s" kDualGuestLeadFramesV1]
    by (simp add: kDualGuestLeadFramesV1_def word_le_nat_alt not_less)
  obtain r s1 where e: "ensure_record s ?g = (r, s1)" by (cases "ensure_record s ?g")
  note en = ensure_record_props [OF inv lo up e]
  have ring1: "ring_inv s1" using en(1) by (simp add: window_inv_def)
  have rinv: "record_inv r" using ring_invD(1) [OF ring1 en(3)] .
  have used: "fr_used r" "fr_frame_index r = ?g" using en(3) by (auto simp: find_record_Some)
  let ?r' = "store_port r p b" and ?s2 = "put_record s1 ?g (store_port r p b)"
  have notprov: "\<not> fr_provided r ! p"
    using np en(4,5) p by (cases "find_record s ?g")
      (auto simp: already_provided_def zero_record_def split: if_splits)
  have keep: "keeps_samples r ?r'"
    using notprov by (rule store_port_keeps)
  have up1: "unat ?g \<le> unat (win_materialized_through s1) + 4" using up en(8) by simp
  have s2: "window_inv ?s2"
    by (rule window_inv_put [OF en(1) store_port_inv [OF rinv can p] _ _ up1])
      (use used ring_invD(3) [OF ring1 en(3)] in simp_all)
  have le2: "window_le s1 ?s2"
    by (rule window_le_put [OF en(1) _ _ _ up1]) (use used lo en(3,6) keep in auto)
  let ?s3 = "if key_seat_revision (bnd_key b) > win_min_accept_revision ?s2
      then ?s2\<lparr>win_min_accept_revision := key_seat_revision (bnd_key b)\<rparr> else ?s2"
  have s3: "window_inv ?s3" and le3: "window_le ?s2 ?s3"
    using s2 by (auto simp: window_inv_def ring_inv_def frontier_inv_def held_inv_def window_le_def
        confirmed_def)
  have eq: "snd (accept_port s b p) = advance_commit_frontier ?s3"
    using np lo hi e by (simp add: accept_port_def Let_def)
  have le: "window_le s ?s3" by (rule window_le_trans [OF en(2) window_le_trans [OF le2 le3]])
  show ?thesis
    unfolding eq using advance_inv(1) [OF s3] window_le_trans [OF le advance_inv(2) [OF s3]]
    by (rule conjI)
qed

lemma seat_index_less: "seat_index s seat = Some p \<Longrightarrow> p < 4"
  by (auto simp: seat_index_def find_Some_iff kDualPortCountV1_def)

lemma deliver_input_cases:
  obtains (rejected) "snd (deliver_input s b) = s" "fst (deliver_input s b) \<noteq> WinAccepted"
  | (offered) p where "deliver_input s b = accept_port s b p" "p < 4"
      "canonical_input_is_canonical_v1 b" "win_bound s"
      "seat_index s (bnd_logical_seat b) = Some p"
      "own_signing_key_id (win_owners s ! p) = bnd_owner_signing_key_id b"
      "win_min_accept_revision s \<le> key_seat_revision (bnd_key b)"
proof -
  have "(snd (deliver_input s b) = s \<and> fst (deliver_input s b) \<noteq> WinAccepted) \<or>
     (\<exists>p. deliver_input s b = accept_port s b p \<and> p < 4 \<and> canonical_input_is_canonical_v1 b
        \<and> win_bound s \<and> seat_index s (bnd_logical_seat b) = Some p
        \<and> own_signing_key_id (win_owners s ! p) = bnd_owner_signing_key_id b
        \<and> win_min_accept_revision s \<le> key_seat_revision (bnd_key b))"
    by (auto simp: deliver_input_def not_less seat_index_less split: option.split)
  then show thesis using rejected offered by blast
qed

lemma deliver_input_inv:
  assumes "window_inv s" "unat (win_materialized_through s) < 2 ^ 64 - 16"
  shows "window_inv (snd (deliver_input s b)) \<and> window_le s (snd (deliver_input s b))"
  by (cases rule: deliver_input_cases [of s b]) (use assms accept_port_inv in auto)

lemma plan_frame_bounds:
  fixes s :: DualInputWindowV1
  defines "frame \<equiv> (if win_step_frontier s < win_commit_frontier s then win_commit_frontier s
                     else win_step_frontier s)"
  assumes "frontier_inv s"
  shows "win_commit_frontier s \<le> frame" "unat frame \<le> unat (win_materialized_through s)"
    "unat (frame - win_commit_frontier s) = unat frame - unat (win_commit_frontier s)"
proof -
  show le: "win_commit_frontier s \<le> frame" by (auto simp: frame_def)
  show "unat frame \<le> unat (win_materialized_through s)"
    using assms(2) by (auto simp: frame_def frontier_inv_def)
  show "unat (frame - win_commit_frontier s) = unat frame - unat (win_commit_frontier s)"
    using le by (simp add: unat_sub)
qed

lemma window_le_raise [simp]:
  "window_le s (t\<lparr>win_materialized_through := m\<rparr>) = window_le s t"
  by (simp add: window_le_def confirmed_def)

lemma window_inv_raise:
  assumes "window_inv s" "unat (win_materialized_through s) \<le> unat m"
    "unat m \<le> unat (win_commit_frontier s) + 10"
  shows "window_inv (s\<lparr>win_materialized_through := m\<rparr>)"
proof -
  have "ring_inv (s\<lparr>win_materialized_through := m\<rparr>)"
    unfolding ring_inv_def
  proof (intro conjI allI impI)
    fix i :: nat assume i: "i < 20"
    let ?r = "win_ring s ! i"
    have ring: "ring_inv s" using assms(1) by (simp add: window_inv_def)
    { assume "fr_used (win_ring (s\<lparr>win_materialized_through := m\<rparr>) ! i)"
      then have u: "fr_used ?r" by simp
      then have "slot_of (fr_frame_index ?r) = i"
        "unat (fr_frame_index ?r) \<le> unat (win_materialized_through s) + 4"
        using ring i unfolding ring_inv_def by blast+
      then show "slot_of (fr_frame_index (win_ring (s\<lparr>win_materialized_through := m\<rparr>) ! i)) = i"
        "unat (fr_frame_index (win_ring (s\<lparr>win_materialized_through := m\<rparr>) ! i))
           \<le> unat (win_materialized_through (s\<lparr>win_materialized_through := m\<rparr>)) + 4"
        using assms(2) by simp_all
      assume "fr_planned (win_ring (s\<lparr>win_materialized_through := m\<rparr>) ! i)"
      then have "unat (fr_frame_index ?r) < unat (win_materialized_through s)"
        using ring i u unfolding ring_inv_def by simp
      then show "unat (fr_frame_index (win_ring (s\<lparr>win_materialized_through := m\<rparr>) ! i))
           < unat (win_materialized_through (s\<lparr>win_materialized_through := m\<rparr>))"
        using assms(2) by simp }
    show "record_inv (win_ring (s\<lparr>win_materialized_through := m\<rparr>) ! i)"
      using ring i by (simp add: ring_inv_def)
  next
    show "length (win_ring (s\<lparr>win_materialized_through := m\<rparr>)) = 20"
      using assms(1) by (simp add: window_inv_def ring_inv_def)
  qed
  moreover have "frontier_inv (s\<lparr>win_materialized_through := m\<rparr>)"
    using assms unfolding window_inv_def frontier_inv_def by simp
  ultimately show ?thesis using assms(1) by (simp add: window_inv_def held_inv_def)
qed

lemma plan_next_inv:
  assumes inv: "window_inv s" and hor: "unat (win_materialized_through s) < 2 ^ 64 - 16"
  shows "window_inv (snd (plan_next s)) \<and> window_le s (snd (plan_next s))"
proof (cases "pln_status (fst (plan_next s)) = WinOk")
  case False
  then have "snd (plan_next s) = s"
    by (auto simp: plan_next_def Let_def materialize_plan_def split: if_splits prod.splits)
  then show ?thesis using inv by simp
next
  case True
  define frame where "frame = (if win_step_frontier s < win_commit_frontier s
    then win_commit_frontier s else win_step_frontier s)"
  have fr: "frontier_inv s" using inv by (simp add: window_inv_def)
  note b = plan_frame_bounds [OF fr, folded frame_def]
  obtain r s1 where e: "ensure_record s frame = (r, s1)" by (cases "ensure_record s frame")
  have up: "unat frame \<le> unat (win_materialized_through s) + 4" using b(2) by simp
  note en = ensure_record_props [OF inv b(1) up e]
  let ?s2 = "if frame + 1 > win_materialized_through s1
    then s1\<lparr>win_materialized_through := frame + 1\<rparr> else s1"
  have snd: "snd (plan_next s) = ?s2" and dist: "unat frame < unat (win_commit_frontier s) + 10"
    using True b(1,3) e unfolding plan_next_def Let_def frame_def [symmetric]
    by (auto simp: frozen_plan_def dual_geometry word_le_nat_alt word_less_nat_alt split: if_splits)
  have one: "unat (frame + 1) = unat frame + 1"
    using hor b(2) unat_add_small [of frame 1] by simp
  have "window_inv ?s2"
  proof (cases "frame + 1 > win_materialized_through s1")
    case False
    then show ?thesis using en(1) by simp
  next
    case True
    then have grow: "unat (win_materialized_through s1) \<le> unat (frame + 1)"
      by (simp add: word_less_nat_alt)
    have "window_inv (s1\<lparr>win_materialized_through := frame + 1\<rparr>)"
      by (rule window_inv_raise [OF en(1) grow]) (use one dist en(6) in simp)
    with True show ?thesis by simp
  qed
  moreover have "window_le s ?s2"
    using en(2) window_le_raise by simp
  ultimately show ?thesis using snd by simp
qed

lemma mark_planned_inv:
  assumes inv: "window_inv s" and hor: "unat (win_materialized_through s) < 2 ^ 64 - 16"
  shows "window_inv (snd (mark_planned s g m)) \<and> window_le s (snd (mark_planned s g m))"
proof (cases "fst (mark_planned s g m) = WinOk")
  case False
  then have "snd (mark_planned s g m) = s"
    by (auto simp: mark_planned_def Let_def split: if_splits option.splits)
  then show ?thesis using inv by simp
next
  case True
  then obtain r where f: "find_record s g = Some r" and lt: "g < win_materialized_through s"
    by (auto simp: mark_planned_def Let_def split: if_splits option.splits)
  have ring: "ring_inv s" using inv by (simp add: window_inv_def)
  let ?r = "r\<lparr>fr_planned := True, fr_planned_predicted_mask := m AND NOT (fr_real_port_mask r)\<rparr>"
  let ?s1 = "put_record s g ?r"
  have used: "fr_used r" "fr_frame_index r = g" using f by (auto simp: find_record_Some)
  have rinv: "record_inv ?r" using ring_invD(1) [OF ring f] by (simp add: record_inv_def)
  have ltn: "unat g < unat (win_materialized_through s)" using lt by (simp add: word_less_nat_alt)
  have s1: "window_inv ?s1"
    by (rule window_inv_put [OF inv rinv]) (use used ltn in simp_all)
  have "find_record ?s1 h = (if h = g then Some ?r else find_record s h)" for h
    using f ring used by (intro find_put_existing) (auto simp: ring_inv_def)
  then have le1: "window_le s ?s1"
    using f by (auto simp: window_le_def confirmed_def split: if_splits)
  let ?s2 = "?s1\<lparr>win_step_frontier := g + 1\<rparr>"
  have "unat (g + 1) = unat g + 1" using ltn by (rule unat_inc_below)
  then have s2: "window_inv ?s2" and le2: "window_le ?s1 ?s2"
    using s1 ltn by (auto simp: window_inv_def ring_inv_def frontier_inv_def held_inv_def
        window_le_def confirmed_def)
  have eq: "snd (mark_planned s g m) = advance_commit_frontier ?s2"
    using True f lt by (auto simp: mark_planned_def Let_def not_le split: if_splits)
  have le: "window_le s ?s2" by (rule window_le_trans [OF le1 le2])
  show ?thesis
    unfolding eq using advance_inv(1) [OF s2] window_le_trans [OF le advance_inv(2) [OF s2]]
    by (rule conjI)
qed


lemma deliver_local_inv:
  assumes "window_inv s" "unat (win_materialized_through s) < 2 ^ 64 - 16"
  shows "window_inv (snd (deliver_local_input s samples seat))
    \<and> window_le s (snd (deliver_local_input s samples seat))"
proof -
  have "snd (deliver_local_input s samples seat) = s
      \<or> (\<exists>b. snd (deliver_local_input s samples seat) = snd (deliver_input s b))"
    by (auto simp: deliver_local_input_def split: option.splits sum.splits)
  then show ?thesis using deliver_input_inv [OF assms] assms(1) by (elim disjE exE) simp_all
qed

lemma window_step_inv:
  assumes "window_inv s" "below_horizon s c"
  shows "window_inv (snd (window_step s c))" "window_le s (snd (window_step s c))"
  using assms deliver_input_inv deliver_local_inv plan_next_inv mark_planned_inv
  by (cases c; simp add: below_horizon_def)+

interpretation window: monotone_machine window_step below_horizon window_inv window_le
  by unfold_locales (auto intro: window_step_inv window_le_trans)

lemma begin_inv:
  assumes "win_begin s context owners = (WinOk, w)" "length owners = 4"
  shows "window_inv w" "win_bound w" "win_commit_frontier w = 0" "win_step_frontier w = 0"
  using assms
  by (auto simp: win_begin_def window_inv_def ring_inv_def frontier_inv_def held_inv_def
      kRingSlotsV1_def record_inv_def zero_record_def split: if_splits)

section \<open>Delivery\<close>

lemma accept_port_unchanged:
  "fst (accept_port s b p) \<noteq> WinAccepted \<Longrightarrow> snd (accept_port s b p) = s"
  by (auto simp: accept_port_def Let_def split: option.splits if_splits prod.splits)

lemma deliver_rejected_unchanged:
  "fst (deliver_input s b) \<noteq> WinAccepted \<Longrightarrow> snd (deliver_input s b) = s"
  by (cases rule: deliver_input_cases [of s b]) (auto dest: accept_port_unchanged)

lemma already_provided_iff:
  assumes "p < 4"
  shows "already_provided s b p = None \<longleftrightarrow> confirmed s (key_frame_index (bnd_key b)) p = None"
  using assms by (auto simp: already_provided_def confirmed_def split: option.splits)

text \<open>What an accepted delivery stores.\<close>

lemma accept_port_stores:
  assumes inv: "window_inv s" and p: "p < 4" and acc: "fst (accept_port s b p) = WinAccepted"
    and hor: "unat (win_materialized_through s) < 2 ^ 64 - 16"
  shows "\<exists>r. find_record (snd (accept_port s b p)) (key_frame_index (bnd_key b)) = Some r
     \<and> fr_provided r ! p \<and> fr_owner_keys r ! p = bnd_owner_signing_key_id b
     \<and> fr_masks r ! p = smp_mask (bnd_ports b ! p)
     \<and> fr_sequences r ! p = smp_input_sequence (bnd_ports b ! p)"
proof -
  let ?g = "key_frame_index (bnd_key b)"
  have np: "already_provided s b p = None" and lo: "win_commit_frontier s \<le> ?g"
    and hi: "\<not> ?g > win_step_frontier s + kDualGuestLeadFramesV1"
    using acc by (auto simp: accept_port_def Let_def already_provided_def
        split: option.splits if_splits prod.splits)
  have "unat (win_step_frontier s) \<le> unat (win_materialized_through s)"
    using inv by (simp add: window_inv_def frontier_inv_def)
  then have up: "unat ?g \<le> unat (win_materialized_through s) + 4"
    using hi hor unat_add_small [of "win_step_frontier s" kDualGuestLeadFramesV1]
    by (simp add: kDualGuestLeadFramesV1_def word_le_nat_alt not_less)
  obtain r s1 where e: "ensure_record s ?g = (r, s1)" by (cases "ensure_record s ?g")
  note en = ensure_record_props [OF inv lo up e]
  have ring1: "ring_inv s1" using en(1) by (simp add: window_inv_def)
  have used: "fr_used r" "fr_frame_index r = ?g" using en(3) by (auto simp: find_record_Some)
  have "find_record (put_record s1 ?g (store_port r p b)) ?g = Some (store_port r p b)"
    using ring1 used by (subst find_put_record) (auto simp: ring_inv_def)
  then have "find_record (snd (accept_port s b p)) ?g = Some (store_port r p b)"
    using np hi e by (simp add: accept_port_def Let_def leD [OF lo])
  moreover have "record_inv r" using ring_invD(1) [OF ring1 en(3)] .
  ultimately show ?thesis using p by (simp add: store_port_def record_inv_def)
qed

lemma accepted_offer:
  assumes "fst (deliver_input s b) = WinAccepted"
  obtains p where "deliver_input s b = accept_port s b p" "p < 4"
    "seat_index s (bnd_logical_seat b) = Some p" "win_bound s"
  by (cases rule: deliver_input_cases [of s b]) (use assms that in auto)

end
