(* ===== verification/Window_Progress.thy ===== *)
theory Window_Progress
  imports Window_Safety
begin

unbundle bit_operations_syntax

text \<open>
  What the input window delivers: the commit frontier passes exactly the planned frames whose owned
  ports are all confirmed, a repeated delivery is a duplicate, an altered one is refused, and
  \<open>plan_next\<close> hands the runtime a canonical bundle that marks every guessed port.
\<close>

section \<open>The commit frontier\<close>

definition committable :: "DualInputWindowV1 \<Rightarrow> u64 \<Rightarrow> bool" where
  "committable s g \<longleftrightarrow> (\<exists>r. find_record s g = Some r \<and> fr_planned r
     \<and> (\<forall>p. bit (win_owned_port_mask s) p \<longrightarrow> bit (fr_real_port_mask r) p))"

lemma and_eq_right_iff: "a AND b = (b :: u32) \<longleftrightarrow> (\<forall>p. bit b p \<longrightarrow> bit a p)"
proof
  show "\<forall>p. bit b p \<longrightarrow> bit a p" if "a AND b = b" using that by (metis bit_and_iff)
  show "a AND b = b" if "\<forall>p. bit b p \<longrightarrow> bit a p"
    using that by (intro bit_word_eqI) (auto simp: bit_and_iff)
qed

lemma commit_ready_iff: "commit_ready s = None \<longleftrightarrow> \<not> committable s (win_commit_frontier s)"
proof -
  have "commit_ready s \<noteq> None \<longleftrightarrow> committable s (win_commit_frontier s)"
    by (auto simp: commit_ready_Some committable_def and_eq_right_iff)
  then show ?thesis by blast
qed

lemma word_succ_le: "(a :: 'a::len word) < b \<Longrightarrow> a + 1 \<le> b"
  using unat_inc_below [of a b] by (simp add: word_less_nat_alt word_le_nat_alt)

lemma committable_commit_frame [simp]: "committable (commit_frame s r) g = committable s g"
  by (simp add: committable_def)

lemma advance_loop_committed:
  "\<lbrakk>win_commit_frontier s \<le> g; g < win_commit_frontier (advance_loop n s)\<rbrakk> \<Longrightarrow> committable s g"
proof (induction n arbitrary: s)
  case 0
  then show ?case by simp
next
  case (Suc n)
  show ?case
  proof (cases "commit_ready s")
    case None
    then show ?thesis using Suc.prems by simp
  next
    case (Some r)
    show ?thesis
    proof (cases "g = win_commit_frontier s")
      case True
      then show ?thesis using Some commit_ready_iff [of s] by auto
    next
      case False
      then have "win_commit_frontier (commit_frame s r) \<le> g"
        using Suc.prems(1) by (simp add: word_succ_le)
      then show ?thesis using Suc.IH [of "commit_frame s r"] Suc.prems(2) Some by simp
    qed
  qed
qed

lemma committable_advance [simp]: "committable (advance_commit_frontier s) g = committable s g"
  by (simp add: committable_def)

lemma ensure_record_commit [simp]:
  "win_commit_frontier (snd (ensure_record s g)) = win_commit_frontier s"
  by (simp add: ensure_record_def Let_def split: option.split)

lemma ensure_record_commit':
  "ensure_record s g = (r, t) \<Longrightarrow> win_commit_frontier t = win_commit_frontier s"
  by (metis ensure_record_commit snd_conv)

text \<open>Every call ends by advancing the frontier, or leaves it where it was.\<close>

definition moved :: "DualInputWindowV1 \<Rightarrow> DualInputWindowV1 \<Rightarrow> bool" where
  "moved s t \<longleftrightarrow> t = s \<or>
     (\<exists>u. t = advance_commit_frontier u \<and> win_commit_frontier u = win_commit_frontier s)"

lemma moved_same: "moved s s"
  by (simp add: moved_def)

lemma moved_advance:
  "win_commit_frontier u = win_commit_frontier s \<Longrightarrow> moved s (advance_commit_frontier u)"
  by (auto simp: moved_def)

lemma moved_accept_port: "moved s (snd (accept_port s b p))"
  by (auto simp: accept_port_def Let_def intro!: moved_same moved_advance
      dest: ensure_record_commit' split: option.splits prod.splits)

lemma moved_deliver: "moved s (snd (deliver_input s b))"
  by (cases rule: deliver_input_cases [of s b]) (simp_all add: moved_same moved_accept_port)

lemma moved_deliver_local: "moved s (snd (deliver_local_input s samples seat))"
  by (simp add: deliver_local_input_def moved_same moved_deliver split: option.split sum.split)

lemma moved_mark_planned: "moved s (snd (mark_planned s g m))"
  by (auto simp: mark_planned_def Let_def intro!: moved_same moved_advance split: option.split)

lemma plan_next_find:
  assumes "find_record (snd (plan_next s)) g = Some r" "fr_planned r"
    "length (win_ring s) = 20"
  shows "find_record s g = Some r"
proof -
  have "find_record s g = Some r"
    if "find_record (snd (ensure_record s h)) g = Some r" for h
  proof (cases "find_record s h")
    case (Some q)
    then show ?thesis using that by (simp add: ensure_record_def)
  next
    case None
    then have "snd (ensure_record s h)
        = put_record s h (zero_record\<lparr>fr_used := True, fr_frame_index := h\<rparr>)"
      by (simp add: ensure_record_def Let_def)
    then show ?thesis
      using that assms(2,3) find_put_record [of s "zero_record\<lparr>fr_used := True, fr_frame_index := h\<rparr>" h g]
      by (auto simp: zero_record_def split: if_splits)
  qed
  then show ?thesis using assms(1)
    by (auto simp: plan_next_def Let_def split: if_splits prod.splits)
      (metis find_record_cong(2) snd_conv)+
qed

lemma plan_next_commit [simp]:
  "win_commit_frontier (snd (plan_next s)) = win_commit_frontier s"
  "win_owned_port_mask (snd (plan_next s)) = win_owned_port_mask s"
  by (auto simp: plan_next_def Let_def ensure_record_def split: prod.split option.splits)

lemma window_step_commit:
  assumes "length (win_ring s) = 20"
  shows "commit_ready s = None \<Longrightarrow> commit_ready (snd (window_step s c)) = None"
    and "\<lbrakk>win_commit_frontier s \<le> g; g < win_commit_frontier (snd (window_step s c))\<rbrakk>
      \<Longrightarrow> committable (snd (window_step s c)) g"
proof -
  have moved: "(commit_ready s = None \<longrightarrow> commit_ready t = None) \<and>
     (win_commit_frontier s \<le> g \<longrightarrow> g < win_commit_frontier t \<longrightarrow> committable t g)"
    if "moved s t" for t
    using that advance_loop_stops advance_loop_committed [of _ g kRingSlotsV1]
    unfolding moved_def advance_commit_frontier_def [symmetric] by auto
  have plan: "(commit_ready s = None \<longrightarrow> commit_ready (snd (plan_next s)) = None) \<and>
     (win_commit_frontier s \<le> g \<longrightarrow> g < win_commit_frontier (snd (plan_next s))
        \<longrightarrow> committable (snd (plan_next s)) g)"
    using plan_next_find [OF _ _ assms]
    by (auto simp: commit_ready_iff committable_def)
  have "moved s (snd (window_step s c)) \<or> snd (window_step s c) = snd (plan_next s)"
    by (cases c) (simp_all add: moved_deliver moved_deliver_local moved_mark_planned)
  then show "commit_ready s = None \<Longrightarrow> commit_ready (snd (window_step s c)) = None"
    and "\<lbrakk>win_commit_frontier s \<le> g; g < win_commit_frontier (snd (window_step s c))\<rbrakk>
      \<Longrightarrow> committable (snd (window_step s c)) g"
    using moved plan by auto
qed

definition tight_inv :: "DualInputWindowV1 \<Rightarrow> bool" where
  "tight_inv s \<longleftrightarrow> window_inv s \<and> \<not> committable s (win_commit_frontier s)"

interpretation tight: guarded_machine window_step below_horizon tight_inv
proof
  fix s c assume s: "tight_inv s" and ok: "below_horizon s c"
  then have "length (win_ring s) = 20" by (simp add: tight_inv_def window_inv_def ring_inv_def)
  then show "tight_inv (snd (window_step s c))"
    using s window_step_inv(1) [OF _ ok] window_step_commit(1) [of s c]
    by (simp add: tight_inv_def commit_ready_iff)
qed


lemma begin_not_committable:
  "win_begin s context owners = (WinOk, w) \<Longrightarrow> \<not> committable w g"
  using slot_of_less [of g]
  by (auto simp: win_begin_def committable_def find_record_def Let_def kRingSlotsV1_def zero_record_def
      split: if_splits)

section \<open>The horizon\<close>

text \<open>A call materialises at most one more frame, so every list of fewer than \<open>2 ^ 64 - 16\<close> calls
  on a fresh window stays below the horizon.\<close>

lemma ensure_record_mat:
  "ensure_record s g = (r, t) \<Longrightarrow> win_materialized_through t = win_materialized_through s"
  by (auto simp: ensure_record_def Let_def split: option.splits)

lemma accept_port_mat:
  "win_materialized_through (snd (accept_port s b p)) = win_materialized_through s"
  by (auto simp: accept_port_def Let_def dest: ensure_record_mat split: option.splits prod.splits)

lemma deliver_mat: "win_materialized_through (snd (deliver_input s b)) = win_materialized_through s"
  by (cases rule: deliver_input_cases [of s b]) (simp_all add: accept_port_mat)

lemma plan_next_mat:
  assumes "frontier_inv s"
  shows "unat (win_materialized_through (snd (plan_next s))) \<le> unat (win_materialized_through s) + 1"
proof -
  have suc: "unat (x + 1) \<le> unat x + 1" for x :: u64
    using unat_plus_if' [of x 1] by (auto split: if_splits)
  define frame where "frame = (if win_step_frontier s < win_commit_frontier s
    then win_commit_frontier s else win_step_frontier s)"
  have "unat frame \<le> unat (win_materialized_through s)"
    using plan_frame_bounds(2) [OF assms] by (simp add: frame_def)
  then have "unat (frame + 1) \<le> unat (win_materialized_through s) + 1"
    using suc [of frame] by linarith
  then show ?thesis
    unfolding plan_next_def Let_def frame_def [symmetric]
    by (auto dest: ensure_record_mat split: prod.split)
qed

lemma window_step_mat:
  assumes "frontier_inv s"
  shows "unat (win_materialized_through (snd (window_step s c))) \<le> unat (win_materialized_through s) + 1"
proof -
  have "win_materialized_through (snd (deliver_local_input s x y)) = win_materialized_through s" for x y
    by (simp add: deliver_local_input_def deliver_mat split: option.split sum.split)
  moreover have "win_materialized_through (snd (mark_planned s x y)) = win_materialized_through s" for x y
    by (simp add: mark_planned_def Let_def split: option.split)
  ultimately show ?thesis using plan_next_mat [OF assms] by (cases c) (simp_all add: deliver_mat)
qed

lemma calls_within_short:
  assumes "window_inv s" "unat (win_materialized_through s) + length cs < 2 ^ 64 - 16"
  shows "calls_within window_step below_horizon s cs"
  using assms
proof (induction cs arbitrary: s)
  case Nil
  then show ?case by simp
next
  case (Cons c cs)
  then have ok: "below_horizon s c" by (simp add: below_horizon_def)
  have "unat (win_materialized_through (snd (window_step s c))) + length cs < 2 ^ 64 - 16"
    using window_step_mat [of s c] Cons.prems by (simp add: window_inv_def)
  then show ?case using ok Cons.IH window_step_inv(1) [OF Cons.prems(1) ok] by simp
qed

lemma begin_calls_within:
  assumes "win_begin s context owners = (WinOk, w)" "length owners = 4" "length cs < 2 ^ 64 - 16"
  shows "calls_within window_step below_horizon w cs"
proof -
  have "win_materialized_through w = 0" using assms(1) by (auto simp: win_begin_def split: if_splits)
  then show ?thesis using calls_within_short [OF begin_inv(1) [OF assms(1,2)]] assms(3) by simp
qed

section \<open>Repeated and altered deliveries\<close>

lemma ensure_record_context:
  "ensure_record s g = (r, t) \<Longrightarrow> win_context t = win_context s \<and> win_owners t = win_owners s
     \<and> win_bound t = win_bound s \<and> win_min_accept_revision t = win_min_accept_revision s"
  by (auto simp: ensure_record_def Let_def split: option.splits)

lemma accept_port_context:
  assumes "fst (accept_port s b p) = WinAccepted"
    "win_min_accept_revision s \<le> key_seat_revision (bnd_key b)"
  shows "win_context (snd (accept_port s b p)) = win_context s"
    "win_owners (snd (accept_port s b p)) = win_owners s"
    "win_bound (snd (accept_port s b p)) = win_bound s"
    "win_min_accept_revision (snd (accept_port s b p)) \<le> key_seat_revision (bnd_key b)"
  using assms
  by (auto simp: accept_port_def Let_def dest!: ensure_record_context split: option.splits if_splits prod.splits)

lemma deliver_gates:
  assumes "fst (deliver_input s b) = WinAccepted" "seat_index s (bnd_logical_seat b) = Some p"
  shows "win_bound s" "canonical_input_is_canonical_v1 b"
    "key_session_id (bnd_key b) = key_session_id (win_context s)"
    "key_branch_id (bnd_key b) = key_branch_id (win_context s)"
    "key_timeline_epoch (bnd_key b) = key_timeline_epoch (win_context s)"
    "\<not> all_zero (own_signing_key_id (win_owners s ! p))"
    "own_signing_key_id (win_owners s ! p) = bnd_owner_signing_key_id b"
  using assms by (auto simp: deliver_input_def split: if_splits)

lemma deliver_same_context:
  assumes acc: "fst (deliver_input s b) = WinAccepted" and seat: "seat_index s (bnd_logical_seat b) = Some p"
    and ctx: "win_context t = win_context s" "win_owners t = win_owners s" "win_bound t = win_bound s"
      "win_min_accept_revision t \<le> key_seat_revision (bnd_key b)"
  shows "deliver_input t b = accept_port t b p"
proof -
  have "seat_index t (bnd_logical_seat b) = Some p" using seat ctx(2) by (simp add: seat_index_def)
  with ctx deliver_gates [OF acc seat] show ?thesis by (simp add: deliver_input_def leD)
qed

lemma redelivery:
  assumes inv: "window_inv s" and hor: "unat (win_materialized_through s) < 2 ^ 64 - 16"
    and acc: "deliver_input s b = (WinAccepted, t)"
  shows "deliver_input t b = (WinDuplicate, t)"
proof (cases rule: deliver_input_cases [of s b])
  case rejected
  then show ?thesis using acc by simp
next
  case (offered p)
  have a: "fst (accept_port s b p) = WinAccepted" and t: "t = snd (accept_port s b p)"
    using acc offered(1) by auto
  note ctx = accept_port_context [OF a offered(7), folded t]
  have "deliver_input t b = accept_port t b p"
    by (rule deliver_same_context [OF _ offered(5) ctx]) (simp add: acc)
  moreover from accept_port_stores [OF inv offered(2) a hor]
  have "already_provided t b p = Some WinDuplicate" by (auto simp: t already_provided_def)
  ultimately show ?thesis by (simp add: accept_port_def)
qed

lemma altered_delivery:
  assumes "confirmed s (key_frame_index (bnd_key b)) p = Some (m, q)"
    "seat_index s (bnd_logical_seat b) = Some p"
    "(smp_mask (bnd_ports b ! p), smp_input_sequence (bnd_ports b ! p)) \<noteq> (m, q)"
  shows "snd (deliver_input s b) = s" "fst (deliver_input s b) \<notin> {WinAccepted, WinDuplicate}"
proof -
  from assms(1) obtain r where r: "find_record s (key_frame_index (bnd_key b)) = Some r"
    "fr_provided r ! p" "fr_masks r ! p = m" "fr_sequences r ! p = q"
    by (auto simp: confirmed_def split: option.splits if_splits)
  then have "already_provided s b p = Some RejectedCommittedHistory"
    using assms(3) by (auto simp: already_provided_def)
  then have a: "accept_port s b p = (RejectedCommittedHistory, s)" by (simp add: accept_port_def)
  have "deliver_input s b = accept_port s b p \<or>
      (snd (deliver_input s b) = s \<and> fst (deliver_input s b) \<notin> {WinAccepted, WinDuplicate})"
    using assms(2) by (auto simp: deliver_input_def)
  with a show "snd (deliver_input s b) = s"
    "fst (deliver_input s b) \<notin> {WinAccepted, WinDuplicate}" by auto
qed

section \<open>Planning\<close>

lemma length_raise_sequences [simp]: "length (raise_sequences q ps) = length ps"
  by (induction q ps rule: raise_sequences.induct) (simp_all add: Let_def)

lemma raise_sequences_nth:
  "i < length ps \<Longrightarrow> \<exists>q'. raise_sequences q ps ! i
     = (ps ! i)\<lparr>pp_sample := (pp_sample (ps ! i))\<lparr>smp_input_sequence := q'\<rparr>\<rparr>"
proof (induction q ps arbitrary: i rule: raise_sequences.induct)
  case (1 q)
  then show ?case by simp
next
  case (2 q p ps)
  then show ?case
    by (cases i) (fastforce simp: Let_def)+
qed

lemma raise_sequences_mono:
  assumes "unat q + length ps < 2 ^ 64" "\<forall>p \<in> set ps. unat (smp_input_sequence (pp_sample p)) + length ps < 2 ^ 64"
    "i < length ps"
  shows "(if i = 0 then q else smp_input_sequence (pp_sample (raise_sequences q ps ! (i - 1))))
     < smp_input_sequence (pp_sample (raise_sequences q ps ! i))"
  using assms
proof (induction q ps arbitrary: i rule: raise_sequences.induct)
  case (1 q)
  then show ?case by simp
next
  case (2 q p ps)
  let ?s = "smp_input_sequence (pp_sample p)"
  let ?n = "if ?s \<le> q then q + 1 else ?s"
  have one: "unat (q + 1) = unat q + 1"
    using 2(2) unat_add_small [of q 1] by simp
  have lt: "q < ?n" using one by (auto simp: word_less_nat_alt word_le_nat_alt)
  show ?case
  proof (cases i)
    case 0
    then show ?thesis using lt by (simp add: Let_def)
  next
    case (Suc j)
    have "unat ?n + length ps < 2 ^ 64" using 2(2,3) one by auto
    moreover have "\<forall>p' \<in> set ps. unat (smp_input_sequence (pp_sample p')) + length ps < 2 ^ 64"
      using 2(3) by force
    ultimately have "(if j = 0 then ?n else smp_input_sequence (pp_sample (raise_sequences ?n ps ! (j - 1))))
       < smp_input_sequence (pp_sample (raise_sequences ?n ps ! j))"
      using 2(1) [OF refl, of j] 2(4) Suc by simp
    then show ?thesis using Suc by (cases j) (simp_all add: Let_def)
  qed
qed

lemma bit_foldl_ports:
  "bit (foldl (\<lambda>m port. if P port then m OR port_bit port else m) a ports) p
     \<longleftrightarrow> bit a p \<or> (p \<in> set ports \<and> P p \<and> p < 32)"
  by (induction ports arbitrary: a) (auto simp: bit_or_iff bit_port_bit)

lemma bit_plan_predicted:
  "bit (plan_predicted s r) p \<longleftrightarrow> p < 4 \<and> \<not> fr_provided r ! p \<and> bit (win_owned_port_mask s) p"
  unfolding plan_predicted_def bit_foldl_ports by (auto simp: kDualPortCountV1_def and_port_bit)

lemma bit_owned_mask_of:
  "bit (owned_mask_of owners) p \<longleftrightarrow> p < 4 \<and> \<not> all_zero (own_signing_key_id (owners ! p))"
proof -
  have "owned_mask_of owners = foldl (\<lambda>m port. if \<not> all_zero (own_signing_key_id (owners ! port))
      then m OR port_bit port else m) 0 [0..<kDualPortCountV1]"
    unfolding owned_mask_of_def by (rule foldl_cong) auto
  then show ?thesis by (auto simp: bit_foldl_ports kDualPortCountV1_def)
qed

lemma nth_port_plans: "p < 4 \<Longrightarrow> map f [0..<kDualPortCountV1] ! p = f p"
  by (simp add: kDualPortCountV1_def)

lemma materialize_port:
  assumes "p < 4"
  shows "pp_real (pln_ports (materialize_plan s r frame d) ! p) = fr_provided r ! p"
    "smp_mask (bnd_ports (pln_bundle (materialize_plan s r frame d)) ! p)
       = (if fr_provided r ! p then fr_masks r ! p else win_last_complete_mask s ! p)"
  using assms raise_sequences_nth [of p "map (port_plan s r) [0..<kDualPortCountV1]" 0]
  by (cases "fr_provided r ! p"; auto simp: materialize_plan_def Let_def nth_port_plans port_plan_def
      held_sample_def kDualPortCountV1_def)+

lemma ensured_record_view:
  assumes "ensure_record s g = (r, t)" "p < 4"
  shows "fr_provided r ! p \<longleftrightarrow> confirmed s g p \<noteq> None"
    "(if fr_provided r ! p then fr_masks r ! p else win_last_complete_mask s ! p) = effective_mask s g p"
    "win_owned_port_mask t = win_owned_port_mask s" "win_last_complete_mask t = win_last_complete_mask s"
  using assms
  by (auto simp: ensure_record_def Let_def confirmed_def effective_mask_def zero_record_def
      kDualPortCountV1_def split: option.splits)

lemma plan_next_eq:
  fixes s :: DualInputWindowV1
  defines "frame \<equiv> (if win_step_frontier s < win_commit_frontier s then win_commit_frontier s
                     else win_step_frontier s)"
  assumes "window_inv s" "win_bound s"
  shows "unat frame - unat (win_commit_frontier s) \<le> 10"
    and "unat frame - unat (win_commit_frontier s) = 10 \<Longrightarrow>
      plan_next s = (frozen_plan s PredictionDepthExceeded frame 10, s)"
    and "unat frame - unat (win_commit_frontier s) < 10 \<Longrightarrow> ensure_record s frame = (r, s1) \<Longrightarrow>
      plan_next s = (let s2 = (if frame + 1 > win_materialized_through s1
                       then s1\<lparr>win_materialized_through := frame + 1\<rparr> else s1)
             in (materialize_plan s2 r frame (frame - win_commit_frontier s), s2))"
proof -
  have fr: "frontier_inv s" using assms(2) by (simp add: window_inv_def)
  note b = plan_frame_bounds [OF fr, folded frame_def]
  have dist: "(if frame > win_commit_frontier s then frame - win_commit_frontier s else 0)
      = frame - win_commit_frontier s" using b(1) by auto
  show "unat frame - unat (win_commit_frontier s) \<le> 10"
    using b(2) fr unfolding frontier_inv_def by linarith
  show "plan_next s = (frozen_plan s PredictionDepthExceeded frame 10, s)"
    if ten: "unat frame - unat (win_commit_frontier s) = 10"
  proof -
    have "unat (frame - win_commit_frontier s) = 10" using ten b(3) by simp
    then have "frame - win_commit_frontier s = 10" by (simp add: word_unat_eq_iff)
    then show ?thesis
      using assms(3) unfolding plan_next_def Let_def frame_def [symmetric] dist
      by (simp add: dual_geometry)
  qed
  show "plan_next s = (let s2 = (if frame + 1 > win_materialized_through s1
                       then s1\<lparr>win_materialized_through := frame + 1\<rparr> else s1)
             in (materialize_plan s2 r frame (frame - win_commit_frontier s), s2))"
    if "unat frame - unat (win_commit_frontier s) < 10" "ensure_record s frame = (r, s1)"
    using that assms(3) b(3) unfolding plan_next_def Let_def frame_def [symmetric] dist
    by (simp add: dual_geometry)
qed


section \<open>Canonical plans\<close>

definition sequence_room :: "DualInputWindowV1 \<Rightarrow> bool" where
  "sequence_room s \<longleftrightarrow>
     (\<forall>i<20. \<forall>p<4. fr_provided (win_ring s ! i) ! p \<longrightarrow> unat (fr_sequences (win_ring s ! i) ! p) < 2 ^ 64 - 8)
     \<and> (\<forall>p<4. unat (win_last_complete_sequence s ! p) < 2 ^ 64 - 8)"

lemma plan_revision_nonzero:
  assumes "record_inv r" "key_seat_revision (win_context s) \<noteq> 0"
  shows "plan_revision s r \<noteq> 0"
  using assms by (simp add: plan_revision_def upt_four record_inv_def)

lemma materialize_sequences:
  assumes "\<And>p. p < 4 \<Longrightarrow> fr_provided r ! p \<Longrightarrow> unat (fr_sequences r ! p) < 2 ^ 64 - 8"
    "\<And>p. p < 4 \<Longrightarrow> unat (win_last_complete_sequence s ! p) < 2 ^ 64 - 8" "p < 4"
  shows "(if p = 0 then 0 else smp_input_sequence (bnd_ports (pln_bundle (materialize_plan s r g d)) ! (p - 1)))
     < smp_input_sequence (bnd_ports (pln_bundle (materialize_plan s r g d)) ! p)"
proof -
  let ?ps = "map (port_plan s r) [0..<4]"
  have "unat (smp_input_sequence (pp_sample (port_plan s r q))) + 4 < 2 ^ 64" if "q < 4" for q
    using assms(1,2) [OF that] by (auto simp: port_plan_def held_sample_def)
  then have "(if p = 0 then 0 else smp_input_sequence (pp_sample (raise_sequences 0 ?ps ! (p - 1))))
     < smp_input_sequence (pp_sample (raise_sequences 0 ?ps ! p))"
    using assms(3) by (intro raise_sequences_mono) auto
  then show ?thesis
    using assms(3) by (cases "p = 0") (simp_all add: materialize_plan_def Let_def kDualPortCountV1_def)
qed

lemma ensured_record_room:
  assumes "ensure_record s g = (r, t)" "sequence_room s" "p < 4" "fr_provided r ! p"
  shows "unat (fr_sequences r ! p) < 2 ^ 64 - 8"
proof -
  have "find_record s g = Some r"
    using assms(1,3,4) by (auto simp: ensure_record_def Let_def zero_record_def split: option.splits)
  then have "r = win_ring s ! slot_of g" by (simp add: find_record_Some)
  then show ?thesis using assms(2-4) slot_of_less [of g] unfolding sequence_room_def by blast
qed

lemma materialize_canonical:
  assumes rec: "record_inv r" and held: "held_inv s" and key: "dual_input_key_is_valid_v1 (win_context s)"
    and owner: "\<not> all_zero (own_signing_key_id (win_owners s ! 0))"
    and seq: "\<And>p. p < 4 \<Longrightarrow> fr_provided r ! p \<Longrightarrow> unat (fr_sequences r ! p) < 2 ^ 64 - 8"
      "\<And>p. p < 4 \<Longrightarrow> unat (win_last_complete_sequence s ! p) < 2 ^ 64 - 8"
  shows "canonical_input_is_canonical_v1 (pln_bundle (materialize_plan s r g d))"
proof -
  let ?b = "pln_bundle (materialize_plan s r g d)"
  have key': "dual_input_key_is_valid_v1 (bnd_key ?b)"
    using key plan_revision_nonzero [OF rec]
    by (auto simp: dual_input_key_is_valid_v1_def materialize_plan_def Let_def split: if_splits)
  have pred: "bnd_predicted_port_mask ?b AND NOT kDualFullPortMaskV1 = 0"
    unfolding and_not_full_mask by (auto simp: materialize_plan_def Let_def bit_plan_predicted)
  have mask: "legal_pad_mask (smp_mask (bnd_ports ?b ! p))" if "p < 4" for p
    using rec held that by (simp add: materialize_port record_inv_def held_inv_def)
  have port: "smp_input_sequence (bnd_ports ?b ! p) \<noteq> 0 \<and>
      (p \<noteq> 0 \<longrightarrow> \<not> smp_input_sequence (bnd_ports ?b ! p) \<le> smp_input_sequence (bnd_ports ?b ! (p - 1))) \<and>
      smp_mask (bnd_ports ?b ! p) AND NOT kDualFullPortMaskV1 = 0 \<and>
      smp_mask (bnd_ports ?b ! p) = normalize_dual_port_mask_v1 (smp_mask (bnd_ports ?b ! p))"
    if "p < 4" for p
    using materialize_sequences [OF seq that, of g d] mask [OF that]
    by (auto simp: normalize_id legal_pad_mask_def split: if_splits)
  have "\<not> all_zero (bnd_owner_signing_key_id ?b)" "bnd_logical_seat ?b = 0"
    "all_zero (bnd_reserved_zero0 ?b)"
    using owner by (simp_all add: materialize_plan_def Let_def zero_bundle_def all_zero_def)
  with key' pred port show ?thesis
    unfolding canonical_input_is_canonical_v1_def
    by (simp add: kDualPortCountV1_def list_all_iff Let_def)
qed

end
