(* ===== verification/Window_Properties.thy ===== *)
theory Window_Properties
  imports Window_Progress
begin

unbundle bit_operations_syntax

text \<open>
  The properties of the input window and of the canonical input unit, with a two-player window they
  are evaluated on.
\<close>

section \<open>A two-player window\<close>

definition pair_key :: "u64 \<Rightarrow> DualInputKeyV1" where
  "pair_key frame = \<lparr>key_session_id = replicate 16 7, key_branch_id = replicate 16 9,
     key_timeline_epoch = 1, key_frame_index = frame, key_seat_revision = 1\<rparr>"

definition pair_owners :: "DualOwnerKeyV1 list" where
  "pair_owners =
     [\<lparr>own_seat = 0, own_signing_key_id = replicate 32 1\<rparr>,
      \<lparr>own_seat = 1, own_signing_key_id = replicate 32 2\<rparr>,
      \<lparr>own_seat = 2, own_signing_key_id = replicate 32 0\<rparr>,
      \<lparr>own_seat = 3, own_signing_key_id = replicate 32 0\<rparr>]"

definition pair_window :: DualInputWindowV1 where
  "pair_window = snd (win_begin new_window (pair_key 0) pair_owners)"

definition pair_samples :: "u32 \<Rightarrow> DualPortInputV1 list" where
  "pair_samples m = [\<lparr>inp_mask = m, inp_sequence = 1\<rparr>, \<lparr>inp_mask = m, inp_sequence = 2\<rparr>,
     \<lparr>inp_mask = 0, inp_sequence = 3\<rparr>, \<lparr>inp_mask = 0, inp_sequence = 4\<rparr>]"

definition pair_bundle :: "u8 \<Rightarrow> u32 \<Rightarrow> u64 \<Rightarrow> DualInputBundleV1" where
  "pair_bundle seat m frame =
     (case canonical_input_build_v1 True (pair_key frame) seat (replicate 32 (seat + 1)) (pair_samples m) of
        Inr b \<Rightarrow> b | Inl _ \<Rightarrow> zero_bundle)"

lemma pair_begin: "win_begin new_window (pair_key 0) pair_owners = (WinOk, pair_window)"
proof -
  have "fst (win_begin new_window (pair_key 0) pair_owners) = WinOk" by code_simp
  then show ?thesis by (simp add: pair_window_def prod_eq_iff)
qed

lemma begin_sequence_room: "win_begin s context owners = (WinOk, w) \<Longrightarrow> sequence_room w"
  by (auto simp: sequence_room_def win_begin_def kRingSlotsV1_def zero_record_def split: if_splits)

lemma pair_begin_inv: "window_inv pair_window" "win_bound pair_window"
  using begin_inv [OF pair_begin] by (simp_all add: pair_owners_def)

definition pair_delivered :: DualInputWindowV1 where
  "pair_delivered = snd (deliver_input pair_window (pair_bundle 1 8 0))"

lemma pair_accepts: "deliver_input pair_window (pair_bundle 1 8 0) = (WinAccepted, pair_delivered)"
proof -
  have "fst (deliver_input pair_window (pair_bundle 1 8 0)) = WinAccepted" by code_simp
  then show ?thesis by (simp add: pair_delivered_def prod_eq_iff)
qed

lemma pair_horizon: "unat (win_materialized_through pair_window) < 2 ^ 64 - 16"
proof -
  have "win_materialized_through pair_window = 0" by code_simp
  then show ?thesis by simp
qed

section \<open>The properties\<close>

text \<open>
  C1: Over every sequence of calls made on a freshly begun window (below the 64-bit frame horizon), the
  window keeps its invariant, the commit frontier never moves back, at most ten frames lie between
  commit frontier and materialised frontier, and an in-flight confirmed sample is neither lost nor
  changed by later calls.
\<close>
theorem window_run_safe:
  assumes "win_begin s0 context owners = (WinOk, w0)" "length owners = 4"
    "length cs + length ds < 2 ^ 64 - 16"
  shows "let w = run_calls window_step w0 cs; w' = run_calls window_step w ds in
     window_inv w \<and> window_inv w'
     \<and> win_commit_frontier w \<le> win_commit_frontier w'
     \<and> unat (win_materialized_through w') \<le> unat (win_commit_frontier w') + 10
     \<and> (\<forall>g p v. confirmed w g p = Some v \<longrightarrow> win_commit_frontier w' \<le> g \<longrightarrow> confirmed w' g p = Some v)
     \<and> (\<forall>g p v. confirmed w' g p = Some v \<longrightarrow> g < win_commit_frontier w \<longrightarrow> confirmed w g p = Some v)"
proof -
  have "calls_within window_step below_horizon w0 (cs @ ds)"
    using begin_calls_within [OF assms(1,2)] assms(3) by simp
  then have cs: "calls_within window_step below_horizon w0 cs"
    and ds: "calls_within window_step below_horizon (run_calls window_step w0 cs) ds"
    by (simp_all add: calls_within_append)
  have w: "window_inv (run_calls window_step w0 cs)"
    using window.run_inv begin_inv(1) [OF assms(1,2)] cs by blast
  note w' = window.run_inv [OF w ds] and le = window.run_le [OF w ds]
  have "unat (win_materialized_through u) \<le> unat (win_commit_frontier u) + 10" if "window_inv u" for u
    using that by (simp add: window_inv_def frontier_inv_def)
  from w w' this [OF w'] le show ?thesis unfolding Let_def window_le_def by blast
qed

theorem window_run_safe_witness:
  "confirmed (run_calls window_step pair_window [Deliver (pair_bundle 1 8 0)]) 0 1 = Some (8, 2)
   \<and> confirmed (run_calls window_step (run_calls window_step pair_window [Deliver (pair_bundle 1 8 0)])
        [PlanNext, Deliver (pair_bundle 1 4 0)]) 0 1 = Some (8, 2)"
proof -
  let ?cs = "[Deliver (pair_bundle 1 8 0)]" and ?ds = "[PlanNext, Deliver (pair_bundle 1 4 0)]"
  let ?w = "run_calls window_step pair_window ?cs"
  have len: "length pair_owners = 4" by (simp add: pair_owners_def)
  have short: "length ?cs + length ?ds < 2 ^ 64 - 16" by simp
  have "confirmed ?w 0 1 = Some (8, 2) \<and> win_commit_frontier (run_calls window_step ?w ?ds) \<le> 0"
    by code_simp
  moreover from window_run_safe [OF pair_begin len short]
  have "\<forall>g p v. confirmed ?w g p = Some v \<longrightarrow> win_commit_frontier (run_calls window_step ?w ?ds) \<le> g
      \<longrightarrow> confirmed (run_calls window_step ?w ?ds) g p = Some v"
    unfolding Let_def by (elim conjE)
  ultimately show ?thesis by blast
qed

text \<open>
  C2: After any sequence of calls the commit frontier is exact: the frame at the frontier is not one
  that was planned with all owned ports confirmed, and the next call moves the frontier only across
  frames that are planned and confirmed on every owned port.
\<close>
theorem commit_frontier_exact:
  assumes "win_begin s0 context owners = (WinOk, w0)" "length owners = 4"
    "length cs < 2 ^ 64 - 17"
  shows "let w = run_calls window_step w0 cs; w' = snd (window_step w c) in
     \<not> committable w (win_commit_frontier w) \<and> \<not> committable w' (win_commit_frontier w')
     \<and> (\<forall>g. win_commit_frontier w \<le> g \<longrightarrow> g < win_commit_frontier w' \<longrightarrow> committable w' g)"
proof -
  let ?w = "run_calls window_step w0 cs"
  have w0: "tight_inv w0"
    using begin_inv(1) [OF assms(1,2)] begin_not_committable [OF assms(1)] by (simp add: tight_inv_def)
  have "calls_within window_step below_horizon w0 (cs @ [c])"
    using begin_calls_within [OF assms(1,2)] assms(3) by simp
  then have cs: "calls_within window_step below_horizon w0 cs" and c: "below_horizon ?w c"
    by (simp_all add: calls_within_append)
  note w = tight.run_inv [OF w0 cs]
  then have "length (win_ring ?w) = 20" by (simp add: tight_inv_def window_inv_def ring_inv_def)
  then show ?thesis
    using w tight.step_inv [OF w c] window_step_commit(2) [of ?w _ c]
    by (auto simp: tight_inv_def Let_def)
qed

theorem commit_frontier_exact_witness:
  "let w = run_calls window_step pair_window
       [PlanNext, MarkPlanned 0 3, Deliver (pair_bundle 0 8 0)];
     w' = snd (window_step w (Deliver (pair_bundle 1 8 0))) in
   win_commit_frontier w = 0 \<and> win_commit_frontier w' = 1 \<and> committable w' 0"
proof -
  let ?cs = "[PlanNext, MarkPlanned 0 3, Deliver (pair_bundle 0 8 0)]"
  let ?c = "Deliver (pair_bundle 1 8 0)"
  have len: "length pair_owners = 4" by (simp add: pair_owners_def)
  have short: "length ?cs < 2 ^ 64 - 17" by simp
  have v: "win_commit_frontier (run_calls window_step pair_window ?cs) = 0
    \<and> win_commit_frontier (snd (window_step (run_calls window_step pair_window ?cs) ?c)) = 1"
    by code_simp
  show ?thesis
    using commit_frontier_exact [OF pair_begin len short, of ?c] v unfolding Let_def by simp
qed

text \<open>
  C3: The frame \<open>plan_next\<close> hands out is the larger of the two frontiers and lies at most ten frames
  above the commit frontier. At ten frames it freezes with the prediction-depth reason (the
  window-exceeded freeze is never the answer) and changes nothing; below that the plan marks a port
  real exactly when its owner's sample is confirmed, predicted exactly when it is owned and not
  confirmed, and every port carries the mask the session shows for that frame.
\<close>
theorem plan_next_spec:
  assumes "window_inv s" "win_bound s" "unat (win_materialized_through s) < 2 ^ 64 - 16"
  shows "let frame = (if win_step_frontier s < win_commit_frontier s then win_commit_frontier s
                      else win_step_frontier s);
             depth = unat frame - unat (win_commit_frontier s);
             (plan, s') = plan_next s in
     depth \<le> 10 \<and> pln_frame_index plan = frame
     \<and> (depth = 10 \<longrightarrow> pln_status plan = WinFrozen \<and> pln_freeze plan = PredictionDepthExceeded \<and> s' = s)
     \<and> (depth < 10 \<longrightarrow> pln_status plan = WinOk \<and> pln_freeze plan = Freeze_None
          \<and> has_frame s' frame \<and> frame < win_materialized_through s'
          \<and> (\<forall>p<4. pp_real (pln_ports plan ! p) = (confirmed s frame p \<noteq> None)
                \<and> bit (pln_predicted_port_mask plan) p
                    = (bit (win_owned_port_mask s) p \<and> confirmed s frame p = None)
                \<and> smp_mask (bnd_ports (pln_bundle plan) ! p) = effective_mask s frame p))"
proof -
  define frame where "frame = (if win_step_frontier s < win_commit_frontier s
    then win_commit_frontier s else win_step_frontier s)"
  have fr: "frontier_inv s" using assms(1) by (simp add: window_inv_def)
  note b = plan_frame_bounds [OF fr, folded frame_def]
  note pn = plan_next_eq [OF assms(1,2), folded frame_def]
  obtain r s1 where e: "ensure_record s frame = (r, s1)" by (cases "ensure_record s frame")
  note en = ensure_record_props [OF assms(1) b(1) _ e]
  have one: "unat (frame + 1) = unat frame + 1"
    using assms(3) b(2) unat_add_small [of frame 1] by simp
  show ?thesis
  proof (cases "unat frame - unat (win_commit_frontier s) = 10")
    case True
    then show ?thesis using pn(2) unfolding Let_def frame_def [symmetric] by (simp add: frozen_plan_def)
  next
    case False
    then have lt: "unat frame - unat (win_commit_frontier s) < 10" using pn(1) by simp
    let ?s2 = "if frame + 1 > win_materialized_through s1
      then s1\<lparr>win_materialized_through := frame + 1\<rparr> else s1"
    have eq: "plan_next s = (materialize_plan ?s2 r frame (frame - win_commit_frontier s), ?s2)"
      using pn(3) [OF lt e] by (simp add: Let_def)
    have s2: "win_owned_port_mask ?s2 = win_owned_port_mask s"
      "win_last_complete_mask ?s2 = win_last_complete_mask s" "has_frame ?s2 frame"
      "frame < win_materialized_through ?s2"
      using ensured_record_view(3,4) [OF e, of 0] en(3) b(2) one
      by (auto simp: has_frame_def word_less_nat_alt)
    have ports: "pp_real (pln_ports (materialize_plan ?s2 r frame d) ! p) = (confirmed s frame p \<noteq> None)
        \<and> bit (plan_predicted ?s2 r) p = (bit (win_owned_port_mask s) p \<and> confirmed s frame p = None)
        \<and> smp_mask (bnd_ports (pln_bundle (materialize_plan ?s2 r frame d)) ! p) = effective_mask s frame p"
      if p: "p < 4" for p d
      unfolding materialize_port [OF p] bit_plan_predicted s2(1,2) ensured_record_view(2) [OF e p]
      using ensured_record_view(1) [OF e p] p by blast
    show ?thesis
      unfolding Let_def frame_def [symmetric] eq prod.case
      using lt s2(3,4) ports by (simp add: materialize_plan_def Let_def)
  qed
qed

theorem plan_next_spec_witness:
  "pln_status (fst (plan_next pair_delivered)) = WinOk
   \<and> bit (pln_predicted_port_mask (fst (plan_next pair_delivered))) 0
   \<and> \<not> bit (pln_predicted_port_mask (fst (plan_next pair_delivered))) 1
   \<and> smp_mask (bnd_ports (pln_bundle (fst (plan_next pair_delivered))) ! 1) = 8"
proof -
  have v: "confirmed pair_delivered 0 1 = Some (8, 2) \<and> confirmed pair_delivered 0 0 = None
    \<and> effective_mask pair_delivered 0 1 = 8 \<and> win_owned_port_mask pair_delivered = 3
    \<and> win_step_frontier pair_delivered = 0 \<and> win_commit_frontier pair_delivered = 0
    \<and> win_bound pair_delivered" by code_simp
  have m: "win_materialized_through pair_delivered = win_materialized_through pair_window"
    by (simp add: pair_delivered_def deliver_mat)
  have "window_inv pair_delivered"
    using deliver_input_inv [OF pair_begin_inv(1) pair_horizon] by (simp add: pair_delivered_def)
  moreover have "unat (win_materialized_through pair_delivered) < 2 ^ 64 - 16"
    using pair_horizon m by simp
  moreover have "win_bound pair_delivered" using v by blast
  ultimately have "case plan_next pair_delivered of (plan, s') \<Rightarrow> pln_status plan = WinOk
      \<and> (\<forall>p<4. bit (pln_predicted_port_mask plan) p
                    = (bit (win_owned_port_mask pair_delivered) p \<and> confirmed pair_delivered 0 p = None)
                \<and> smp_mask (bnd_ports (pln_bundle plan) ! p) = effective_mask pair_delivered 0 p)"
    using plan_next_spec [of pair_delivered] v by (simp add: Let_def split: prod.splits)
  then show ?thesis using v by (auto split: prod.splits)
qed



text \<open>
  Delivery is idempotent: the bundle that was just accepted, delivered again, is reported as a
  duplicate and leaves the window exactly as it was.
\<close>
theorem redelivery_is_duplicate:
  assumes "window_inv s" "unat (win_materialized_through s) < 2 ^ 64 - 16"
    "deliver_input s b = (WinAccepted, t)"
  shows "deliver_input t b = (WinDuplicate, t)"
  using assms by (rule redelivery)

theorem redelivery_is_duplicate_witness:
  "deliver_input pair_delivered (pair_bundle 1 8 0) = (WinDuplicate, pair_delivered)"
  by (rule redelivery_is_duplicate [OF pair_begin_inv(1) pair_horizon pair_accepts])

text \<open>
  Confirmed input cannot be rewritten: a bundle for a frame and seat whose sample is confirmed, with
  another mask or sequence, is neither accepted nor taken for a duplicate and changes nothing,
  whatever the window.
\<close>
theorem altered_delivery_refused:
  assumes "confirmed s (key_frame_index (bnd_key b)) p = Some (m, q)"
    "seat_index s (bnd_logical_seat b) = Some p"
    "(smp_mask (bnd_ports b ! p), smp_input_sequence (bnd_ports b ! p)) \<noteq> (m, q)"
  shows "snd (deliver_input s b) = s \<and> fst (deliver_input s b) \<notin> {WinAccepted, WinDuplicate}"
  using altered_delivery [OF assms] by blast

theorem altered_delivery_refused_witness:
  "snd (deliver_input pair_delivered (pair_bundle 1 4 0)) = pair_delivered"
proof -
  have "confirmed pair_delivered (key_frame_index (bnd_key (pair_bundle 1 4 0))) 1 = Some (8, 2)
    \<and> seat_index pair_delivered (bnd_logical_seat (pair_bundle 1 4 0)) = Some 1
    \<and> smp_mask (bnd_ports (pair_bundle 1 4 0) ! 1) = 4" by code_simp
  then show ?thesis
    using altered_delivery_refused [of pair_delivered "pair_bundle 1 4 0" 1 8 2] by simp
qed

text \<open>
  The commit loop ends: twenty rounds, one per ring slot, reach a state in which the loop's condition
  is false, and any larger bound gives the same window, for every window whatever its contents.
\<close>
theorem commit_loop_ends:
  "commit_ready (advance_loop (20 + n) s) = None \<and> advance_loop (20 + n) s = advance_commit_frontier s"
proof -
  have more: "advance_loop (k + n) t = advance_loop k t" if "commit_ready (advance_loop k t) = None" for k t
    using that
  proof (induction k arbitrary: t)
    case 0
    then show ?case by (cases n) simp_all
  next
    case (Suc k)
    then show ?case by (cases "commit_ready t") simp_all
  qed
  then show ?thesis
    using advance_loop_stops [of s] by (simp add: advance_commit_frontier_def kRingSlotsV1_def)
qed

end
