(* ===== verification/Dual_Scheduler.thy ===== *)
theory Dual_Scheduler
  imports Window_Progress
begin

unbundle bit_operations_syntax

text \<open>
  The simulation scheduler, \<^verbatim>\<open>shared/src/session/dual/dual_run_scheduler.{hpp,cpp}\<close>, and the
  consistency digests, \<^verbatim>\<open>dual_state_digest.{hpp,cpp}\<close>. The scheduler drives a
  \<open>DualRuntimePort\<close>, an interface the platform implements: it is the record of functions
  \<open>DualRuntimePort\<close> over an arbitrary port state, and every operation of the scheduler takes it as a
  parameter. An optional out parameter is returned beside the result code.
\<close>

section \<open>Consistency digests\<close>

definition dual_state_digest_v1 :: "bytes option \<Rightarrow> u64 \<Rightarrow> DualStateDigestV1" where
  "dual_state_digest_v1 state_bytes frame_index =
     (let frame_bytes = store_be 8 frame_index;
          state = (case state_bytes of None \<Rightarrow> [] | Some bs \<Rightarrow> bs)
      in \<lparr>dig_state = (if state = [] then domain_hash ''flynes-dual-state-digest-v1'' frame_bytes
                       else domain_hash ''flynes-dual-state-digest-v1'' (frame_bytes @ state)),
          dig_frame = domain_hash ''flynes-dual-frame-digest-v1'' (frame_bytes @ state),
          dig_pcm = domain_hash ''flynes-dual-state-digest-v1''
                      (frame_bytes @ replicate 8 0xA5 @ state)\<rparr>)"

definition dual_frame_digest_v1 :: "u64 \<Rightarrow> DualInputBundleV1 \<Rightarrow> bytes" where
  "dual_frame_digest_v1 frame_index input =
     domain_hash ''flynes-dual-frame-digest-v1''
       (store_be 8 frame_index @ canonical_input_digest_v1 input)"

definition dual_digest_gate_v1 :: "DualStateDigestV1 \<Rightarrow> DualStateDigestV1 \<Rightarrow> DualFreezeReasonV1" where
  "dual_digest_gate_v1 local peer = evaluate_dual_digest_v1 local peer"

definition dual_digest_equal_v1 :: "DualStateDigestV1 \<Rightarrow> DualStateDigestV1 \<Rightarrow> bool" where
  "dual_digest_equal_v1 lhs rhs = (lhs = rhs)"

section \<open>State\<close>

datatype DualSimStateV1 = Sim_Unloaded | Sim_Ready | Sim_Running | Sim_Frozen

datatype DualInputAdmitV1 =
    Admit_Accepted | Admit_Duplicate | Admit_WrongOwner | Admit_StaleRevision | Admit_Equivocation
  | Admit_WindowExceeded | Admit_Frozen

record 'w DualRuntimePort =
  port_load :: "'w \<Rightarrow> DualContentRefV1 \<Rightarrow> fly_session_result \<times> 'w"
  port_step :: "'w \<Rightarrow> DualInputBundleV1 \<Rightarrow> fly_session_result \<times> DualFrameOutcomeV1 \<times> 'w"
  port_state_digest :: "'w \<Rightarrow> u64 \<Rightarrow> fly_session_result \<times> DualStateDigestV1 \<times> 'w"

record 'w DualRunSchedulerV1 =
  sch_port :: 'w
  sch_window :: DualInputWindowV1
  sch_state :: DualSimStateV1
  sch_freeze_reason :: DualFreezeReasonV1
  sch_mode :: DualModeV1
  sch_content :: DualContentRefV1
  sch_context :: DualInputKeyV1
  sch_digest_valid :: "bool list"
  sch_digest_verified :: "bool list"
  sch_predicted :: "bool list"
  sch_digest_frame :: "u64 list"
  sch_digests :: "DualStateDigestV1 list"
  sch_last_plan :: DualWindowPlanV1
  sch_last_outcome :: DualFrameOutcomeV1
  sch_last_digest :: DualStateDigestV1
  sch_next_frame :: u64
  sch_current_frame :: u64
  sch_state_verified_through :: u64
  sch_prediction_depth :: u32
  sch_last_activity_ms :: u64
  sch_paused :: bool
  sch_surface_available :: bool
  sch_audio_available :: bool
  sch_network_available :: bool
  sch_transport_terminal :: bool
  sch_shutdown :: bool

definition zero_digest :: DualStateDigestV1 where
  "zero_digest = \<lparr>dig_state = replicate 32 0, dig_frame = replicate 32 0, dig_pcm = replicate 32 0\<rparr>"

definition zero_outcome :: DualFrameOutcomeV1 where
  "zero_outcome = \<lparr>out_frame_index = 0, out_applied_input_sequence = replicate 4 0,
     out_honoured_port_mask = 0\<rparr>"

definition zero_content :: DualContentRefV1 where
  "zero_content = \<lparr>ref_session_id = replicate 16 0, ref_branch_id = replicate 16 0,
     ref_content_hash = replicate 32 0, ref_timeline_epoch = 0\<rparr>"

definition new_scheduler :: "'w \<Rightarrow> 'w DualRunSchedulerV1" where
  "new_scheduler w = \<lparr>sch_port = w, sch_window = new_window, sch_state = Sim_Unloaded,
     sch_freeze_reason = Freeze_None, sch_mode = Mode_Dual, sch_content = zero_content,
     sch_context = zero_key, sch_digest_valid = replicate kRingSlotsV1 False,
     sch_digest_verified = replicate kRingSlotsV1 False, sch_predicted = replicate kRingSlotsV1 False,
     sch_digest_frame = replicate kRingSlotsV1 0, sch_digests = replicate kRingSlotsV1 zero_digest,
     sch_last_plan = zero_plan, sch_last_outcome = zero_outcome, sch_last_digest = zero_digest,
     sch_next_frame = 0, sch_current_frame = 0, sch_state_verified_through = 0,
     sch_prediction_depth = 0, sch_last_activity_ms = 0, sch_paused = False,
     sch_surface_available = True, sch_audio_available = True, sch_network_available = True,
     sch_transport_terminal = False, sch_shutdown = False\<rparr>"

section \<open>Operations\<close>

definition digest_slot :: "u64 \<Rightarrow> nat" where
  "digest_slot frame_index = unat frame_index mod kRingSlotsV1"

fun admit_for_window_status :: "DualWindowStatusV1 \<Rightarrow> DualInputAdmitV1" where
  "admit_for_window_status WinAccepted = Admit_Accepted"
| "admit_for_window_status WinDuplicate = Admit_Duplicate"
| "admit_for_window_status RejectedWrongOwner = Admit_WrongOwner"
| "admit_for_window_status RejectedOtherBranch = Admit_WrongOwner"
| "admit_for_window_status RejectedOtherTimeline = Admit_WrongOwner"
| "admit_for_window_status RejectedInvalid = Admit_WrongOwner"
| "admit_for_window_status RejectedStaleRevision = Admit_StaleRevision"
| "admit_for_window_status RejectedCommittedHistory = Admit_Equivocation"
| "admit_for_window_status RejectedWindowExceeded = Admit_WindowExceeded"
| "admit_for_window_status WinFrozen = Admit_Frozen"
| "admit_for_window_status WinOk = Admit_Frozen"

definition sch_begin ::
  "'w DualRuntimePort \<Rightarrow> 'w DualRunSchedulerV1 \<Rightarrow> DualModeV1 \<Rightarrow> DualContentRefV1 \<Rightarrow> DualInputKeyV1
     \<Rightarrow> DualOwnerKeyV1 list \<Rightarrow> fly_session_result \<times> 'w DualRunSchedulerV1" where
  "sch_begin port s mode content context owners =
     (if evaluate_dual_mode_v1 mode \<noteq> FLY_OK
      then (evaluate_dual_mode_v1 mode, s\<lparr>sch_mode := mode, sch_state := Sim_Unloaded\<rparr>)
      else if \<not> dual_input_key_is_valid_v1 context then (FLY_INVALID_ARGUMENT, s)
      else
        let (load_result, w) = port_load port (sch_port s) content;
            s1 = s\<lparr>sch_port := w\<rparr>
        in if load_result \<noteq> FLY_OK then (load_result, s1)
           else
             let (status, window) = win_begin (sch_window s1) context owners;
                 s2 = s1\<lparr>sch_window := window\<rparr>
             in if status \<noteq> WinOk then (FLY_INVALID_ARGUMENT, s2)
                else (FLY_OK, s2\<lparr>sch_mode := mode, sch_content := content, sch_context := context,
                  sch_digest_valid := replicate kRingSlotsV1 False,
                  sch_predicted := replicate kRingSlotsV1 False,
                  sch_digest_frame := replicate kRingSlotsV1 0,
                  sch_digests := replicate kRingSlotsV1 zero_digest,
                  sch_digest_verified := replicate kRingSlotsV1 False,
                  sch_last_plan := zero_plan, sch_last_outcome := zero_outcome,
                  sch_last_digest := zero_digest, sch_next_frame := 0, sch_current_frame := 0,
                  sch_state_verified_through := 0, sch_prediction_depth := 0,
                  sch_last_activity_ms := 0, sch_paused := False, sch_surface_available := True,
                  sch_audio_available := True, sch_network_available := True,
                  sch_transport_terminal := False, sch_shutdown := False,
                  sch_freeze_reason := Freeze_None, sch_state := Sim_Ready\<rparr>))"

definition announce_running :: "'w DualRunSchedulerV1 \<Rightarrow> fly_session_result \<times> 'w DualRunSchedulerV1" where
  "announce_running s =
     (if sch_shutdown s then (FLY_CLOSED, s)
      else if sch_state s = Sim_Frozen then (FLY_INVALID_STATE, s)
      else if sch_state s \<noteq> Sim_Ready then (FLY_INVALID_STATE, s)
      else (FLY_OK, s\<lparr>sch_state := Sim_Running\<rparr>))"

definition freeze ::
  "'w DualRunSchedulerV1 \<Rightarrow> DualFreezeReasonV1 \<Rightarrow> fly_session_result \<times> 'w DualRunSchedulerV1" where
  "freeze s reason =
     (FLY_INVALID_STATE,
      s\<lparr>sch_state := Sim_Frozen,
        sch_freeze_reason := (if sch_freeze_reason s = Freeze_None then reason
                              else sch_freeze_reason s)\<rparr>)"

definition require_running :: "'w DualRunSchedulerV1 \<Rightarrow> fly_session_result" where
  "require_running s =
     (if sch_shutdown s then FLY_CLOSED
      else if sch_state s = Sim_Frozen then FLY_INVALID_STATE
      else if sch_state s \<noteq> Sim_Running then FLY_INVALID_STATE
      else FLY_OK)"

definition frame_is_verified :: "'w DualRunSchedulerV1 \<Rightarrow> u64 \<Rightarrow> bool" where
  "frame_is_verified s frame_index = (frame_index < sch_state_verified_through s)"

definition frame_is_final :: "'w DualRunSchedulerV1 \<Rightarrow> u64 \<Rightarrow> bool" where
  "frame_is_final s frame_index =
     (let slot = digest_slot frame_index
      in if sch_digest_valid s ! slot \<and> sch_digest_frame s ! slot = frame_index
         then sch_digest_verified s ! slot \<and> \<not> sch_predicted s ! slot
         else frame_index < sch_state_verified_through s)"

definition handle_window_status ::
  "'w DualRunSchedulerV1 \<Rightarrow> DualWindowStatusV1
     \<Rightarrow> (fly_session_result \<times> 'w DualRunSchedulerV1) \<times> DualInputAdmitV1" where
  "handle_window_status s status =
     (case status of
        WinAccepted \<Rightarrow> (FLY_ACCEPTED, s)
      | WinDuplicate \<Rightarrow> (FLY_DUPLICATE, s)
      | RejectedWrongOwner \<Rightarrow> (FLY_PERMISSION_DENIED, s)
      | RejectedOtherBranch \<Rightarrow> (FLY_PERMISSION_DENIED, s)
      | RejectedOtherTimeline \<Rightarrow> (FLY_PERMISSION_DENIED, s)
      | RejectedStaleRevision \<Rightarrow> (FLY_STALE, s)
      | RejectedInvalid \<Rightarrow> (FLY_INVALID_ARGUMENT, s)
      | RejectedCommittedHistory \<Rightarrow> freeze s CommittedHistoryRewrite
      | RejectedWindowExceeded \<Rightarrow> freeze s InputWindowExceeded
      | WinFrozen \<Rightarrow> freeze s PredictionDepthExceeded
      | WinOk \<Rightarrow> (FLY_INVALID_STATE, s),
      admit_for_window_status status)"

definition record_digest ::
  "'w DualRunSchedulerV1 \<Rightarrow> DualWindowPlanV1 \<Rightarrow> DualStateDigestV1 \<Rightarrow> 'w DualRunSchedulerV1" where
  "record_digest s plan digest =
     (let slot = digest_slot (pln_frame_index plan)
      in s\<lparr>sch_digests := (sch_digests s)[slot := digest],
           sch_digest_frame := (sch_digest_frame s)[slot := pln_frame_index plan],
           sch_digest_valid := (sch_digest_valid s)[slot := True],
           sch_digest_verified := (sch_digest_verified s)[slot := False],
           sch_predicted := (sch_predicted s)[slot := pln_predicted_port_mask plan \<noteq> 0]\<rparr>)"

definition step_next_frame ::
  "'w DualRuntimePort \<Rightarrow> 'w DualRunSchedulerV1 \<Rightarrow> fly_session_result \<times> 'w DualRunSchedulerV1" where
  "step_next_frame port s =
     (if require_running s \<noteq> FLY_OK then (require_running s, s)
      else
        let (plan, window) = plan_next (sch_window s);
            s1 = s\<lparr>sch_window := window\<rparr>
        in if pln_status plan = WinFrozen
           then freeze (s1\<lparr>sch_prediction_depth := pln_prediction_depth plan\<rparr>) (pln_freeze plan)
           else if pln_status plan \<noteq> WinOk then freeze s1 InputWindowExceeded
           else
             let (step_result, outcome, w) = port_step port (sch_port s1) (pln_bundle plan);
                 s2 = s1\<lparr>sch_port := w\<rparr>
             in if step_result \<noteq> FLY_OK then freeze s2 TransportTerminal
                else
                  let (digest_result, digest, w') =
                        port_state_digest port (sch_port s2) (pln_frame_index plan);
                      s3 = s2\<lparr>sch_port := w'\<rparr>
                  in if digest_result \<noteq> FLY_OK then (digest_result, s3)
                     else
                       let s4 = record_digest s3 plan digest;
                           (mark_result, window') = mark_planned (sch_window s4)
                             (pln_frame_index plan) (pln_predicted_port_mask plan);
                           s5 = s4\<lparr>sch_window := window'\<rparr>
                       in if mark_result \<noteq> WinOk then freeze s5 InputWindowExceeded
                          else
                            let next_frame = pln_frame_index plan + 1;
                                commit = win_commit_frontier (sch_window s5)
                            in (FLY_OK, s5\<lparr>sch_current_frame := pln_frame_index plan,
                                  sch_next_frame := next_frame,
                                  sch_prediction_depth :=
                                    (if next_frame > commit then ucast (next_frame - commit) else 0),
                                  sch_last_plan := plan, sch_last_outcome := outcome,
                                  sch_last_digest := digest\<rparr>))"

definition acknowledge_peer_digest ::
  "'w DualRunSchedulerV1 \<Rightarrow> u64 \<Rightarrow> DualStateDigestV1
     \<Rightarrow> (fly_session_result \<times> 'w DualRunSchedulerV1) \<times> bool" where
  "acknowledge_peer_digest s frame_index peer_digest =
     (if require_running s \<noteq> FLY_OK then ((require_running s, s), False)
      else if frame_index + of_nat kRingSlotsV1 \<le> win_step_frontier (sch_window s)
           then ((FLY_STALE, s), False)
      else
        let slot = digest_slot frame_index
        in if \<not> sch_digest_valid s ! slot \<or> sch_digest_frame s ! slot \<noteq> frame_index
           then ((FLY_INVALID_ARGUMENT, s), False)
           else if sch_digest_verified s ! slot then ((FLY_STALE, s), False)
           else
             let gate = dual_digest_gate_v1 (sch_digests s ! slot) peer_digest
             in if gate \<noteq> Freeze_None then (freeze s gate, False)
                else if sch_predicted s ! slot then ((FLY_ACCEPTED, s), False)
                else
                  let s1 = s\<lparr>sch_digest_verified := (sch_digest_verified s)[slot := True]\<rparr>
                  in ((FLY_OK,
                       if frame_index = sch_state_verified_through s1
                       then s1\<lparr>sch_state_verified_through := frame_index + 1\<rparr> else s1), True))"

definition acknowledge_committed_rewrite ::
  "'w DualRunSchedulerV1 \<Rightarrow> u64 \<Rightarrow> fly_session_result \<times> 'w DualRunSchedulerV1" where
  "acknowledge_committed_rewrite s frame_index =
     (if sch_state s = Sim_Frozen then (FLY_INVALID_STATE, s)
      else if frame_index \<ge> sch_state_verified_through s then (FLY_STALE, s)
      else freeze s CommittedHistoryRewrite)"

definition accept_local_input ::
  "'w DualRunSchedulerV1 \<Rightarrow> DualPortInputV1 list \<Rightarrow> u8
     \<Rightarrow> (fly_session_result \<times> 'w DualRunSchedulerV1) \<times> DualInputAdmitV1" where
  "accept_local_input s samples logical_seat =
     (if require_running s \<noteq> FLY_OK then ((require_running s, s), Admit_Frozen)
      else let (status, window) = deliver_local_input (sch_window s) samples logical_seat
           in handle_window_status (s\<lparr>sch_window := window\<rparr>) status)"

definition accept_remote_input ::
  "'w DualRunSchedulerV1 \<Rightarrow> DualInputBundleV1
     \<Rightarrow> (fly_session_result \<times> 'w DualRunSchedulerV1) \<times> DualInputAdmitV1" where
  "accept_remote_input s bundle =
     (if require_running s \<noteq> FLY_OK then ((require_running s, s), Admit_Frozen)
      else let (status, window) = deliver_input (sch_window s) bundle
           in handle_window_status (s\<lparr>sch_window := window\<rparr>) status)"

definition observe_authenticated_activity ::
  "'w DualRunSchedulerV1 \<Rightarrow> u64 \<Rightarrow> 'w DualRunSchedulerV1" where
  "observe_authenticated_activity s now_ms =
     (if now_ms > sch_last_activity_ms s then s\<lparr>sch_last_activity_ms := now_ms\<rparr> else s)"

definition pause :: "'w DualRunSchedulerV1 \<Rightarrow> u64 \<Rightarrow> fly_session_result \<times> 'w DualRunSchedulerV1" where
  "pause s now_ms =
     (if sch_shutdown s then (FLY_CLOSED, s)
      else if sch_state s = Sim_Frozen then (FLY_INVALID_STATE, s)
      else (FLY_OK, (observe_authenticated_activity s now_ms)
              \<lparr>sch_paused := True, sch_state := Sim_Ready\<rparr>))"

definition resume ::
  "'w DualRunSchedulerV1 \<Rightarrow> u64 \<Rightarrow> DualStateDigestV1 \<Rightarrow> fly_session_result \<times> 'w DualRunSchedulerV1" where
  "resume s now_ms peer_digest_at_safe_point =
     (if sch_shutdown s then (FLY_CLOSED, s)
      else if sch_state s = Sim_Frozen then (FLY_INVALID_STATE, s)
      else if \<not> sch_paused s then (FLY_INVALID_STATE, s)
      else
        let slot = digest_slot (sch_current_frame s)
        in if \<not> sch_digest_valid s ! slot \<or> sch_digest_frame s ! slot \<noteq> sch_current_frame s
           then (FLY_INVALID_STATE, s)
           else if \<not> sch_digest_verified s ! slot
                   \<or> \<not> frame_is_real (sch_window s) (sch_current_frame s)
           then (FLY_INVALID_STATE, s)
           else if dual_digest_gate_v1 (sch_digests s ! slot) peer_digest_at_safe_point \<noteq> Freeze_None
           then (FLY_PROTOCOL_VIOLATION, s)
           else (FLY_OK, (observe_authenticated_activity s now_ms)
                   \<lparr>sch_paused := False, sch_state := Sim_Running\<rparr>))"

definition set_mode :: "'w DualRunSchedulerV1 \<Rightarrow> DualModeV1 \<Rightarrow> fly_session_result \<times> 'w DualRunSchedulerV1" where
  "set_mode s mode =
     (if evaluate_dual_mode_v1 mode \<noteq> FLY_OK then (evaluate_dual_mode_v1 mode, s)
      else (FLY_OK, s\<lparr>sch_mode := mode\<rparr>))"

definition set_surface_available ::
  "'w DualRunSchedulerV1 \<Rightarrow> bool \<Rightarrow> fly_session_result \<times> 'w DualRunSchedulerV1" where
  "set_surface_available s available =
     (let s1 = s\<lparr>sch_surface_available := available\<rparr>
      in if \<not> available then freeze s1 TransportTerminal else (FLY_OK, s1))"

definition set_audio_available ::
  "'w DualRunSchedulerV1 \<Rightarrow> bool \<Rightarrow> fly_session_result \<times> 'w DualRunSchedulerV1" where
  "set_audio_available s available =
     (let s1 = s\<lparr>sch_audio_available := available\<rparr>
      in if \<not> available then freeze s1 TransportTerminal else (FLY_OK, s1))"

definition set_network_available ::
  "'w DualRunSchedulerV1 \<Rightarrow> bool \<Rightarrow> fly_session_result \<times> 'w DualRunSchedulerV1" where
  "set_network_available s available =
     (let s1 = s\<lparr>sch_network_available := available\<rparr>
      in if \<not> available then freeze s1 TransportTerminal else (FLY_OK, s1))"

definition mark_transport_terminal ::
  "'w DualRunSchedulerV1 \<Rightarrow> fly_session_result \<times> 'w DualRunSchedulerV1" where
  "mark_transport_terminal s = freeze (s\<lparr>sch_transport_terminal := True\<rparr>) TransportTerminal"

definition sch_shut_down :: "'w DualRunSchedulerV1 \<Rightarrow> fly_session_result \<times> 'w DualRunSchedulerV1" where
  "sch_shut_down s =
     (FLY_OK, s\<lparr>sch_shutdown := True, sch_state := Sim_Frozen,
        sch_freeze_reason := (if sch_freeze_reason s = Freeze_None then Shutdown
                              else sch_freeze_reason s)\<rparr>)"

definition frame_is_canonical_success :: "'w DualRunSchedulerV1 \<Rightarrow> u64 \<Rightarrow> bool" where
  "frame_is_canonical_success s frame_index =
     (if sch_state s = Sim_Frozen then False else frame_is_final s frame_index)"

definition rollback_allowed :: "'w DualRunSchedulerV1 \<Rightarrow> bool \<Rightarrow> u64 \<Rightarrow> u32 option" where
  "rollback_allowed s out frame_index =
     (if \<not> out then None
      else if frame_index < sch_state_verified_through s then None
      else let anchor = (if sch_state_verified_through s = 0 then 0
                         else sch_state_verified_through s - 1)
           in dual_rollback_slot_v1 True anchor frame_index)"

definition present_guard :: "'w DualRunSchedulerV1 \<Rightarrow> fly_session_result" where
  "present_guard s = require_running s"

definition dual_digest_rollback_allowed_v1 :: "bool \<Rightarrow> u64 \<Rightarrow> u64 \<Rightarrow> u32 \<Rightarrow> u32 option" where
  "dual_digest_rollback_allowed_v1 out verified_frame target_frame prediction_depth =
     (if \<not> out then None
      else if target_frame \<ge> verified_frame then None
      else let anchor = (if verified_frame = 0 then 0 else verified_frame - 1)
           in case dual_rollback_slot_v1 True anchor target_frame of
                None \<Rightarrow> None
              | Some slot \<Rightarrow> if unat prediction_depth > kDualPredictionFreezeDepthV1 then None
                             else Some slot)"

section \<open>The calls of a begun scheduler\<close>

datatype sched_call =
    SAnnounce | SStep | SAckDigest u64 DualStateDigestV1 | SAckRewrite u64
  | SLocal "DualPortInputV1 list" u8 | SRemote DualInputBundleV1 | SActivity u64
  | SPause u64 | SResume u64 DualStateDigestV1 | SSetMode DualModeV1 | SSurface bool | SAudio bool
  | SNetwork bool | STransportTerminal | SShutdown

fun sched_step ::
  "'w DualRuntimePort \<Rightarrow> 'w DualRunSchedulerV1 \<Rightarrow> sched_call \<Rightarrow> fly_session_result \<times> 'w DualRunSchedulerV1"
where
  "sched_step port s SAnnounce = announce_running s"
| "sched_step port s SStep = step_next_frame port s"
| "sched_step port s (SAckDigest f d) = fst (acknowledge_peer_digest s f d)"
| "sched_step port s (SAckRewrite f) = acknowledge_committed_rewrite s f"
| "sched_step port s (SLocal samples seat) = fst (accept_local_input s samples seat)"
| "sched_step port s (SRemote b) = fst (accept_remote_input s b)"
| "sched_step port s (SActivity now) = (FLY_OK, observe_authenticated_activity s now)"
| "sched_step port s (SPause now) = pause s now"
| "sched_step port s (SResume now d) = resume s now d"
| "sched_step port s (SSetMode m) = set_mode s m"
| "sched_step port s (SSurface a) = set_surface_available s a"
| "sched_step port s (SAudio a) = set_audio_available s a"
| "sched_step port s (SNetwork a) = set_network_available s a"
| "sched_step port s STransportTerminal = mark_transport_terminal s"
| "sched_step port s SShutdown = sch_shut_down s"

end
