(* ===== verification/Scheduler_Safety.thy ===== *)
theory Scheduler_Safety
  imports Dual_Scheduler
begin

unbundle bit_operations_syntax

text \<open>
  Facts about the scheduler: which fields a call touches, that its window moves only through window
  calls, that freezing is final, and where the verified watermark comes from.
\<close>

section \<open>Fields a call touches\<close>

lemma freeze_simps [simp]:
  "fst (freeze s r) = FLY_INVALID_STATE" "sch_state (snd (freeze s r)) = Sim_Frozen"
  "sch_window (snd (freeze s r)) = sch_window s" "sch_port (snd (freeze s r)) = sch_port s"
  "sch_state_verified_through (snd (freeze s r)) = sch_state_verified_through s"
  "sch_digest_valid (snd (freeze s r)) = sch_digest_valid s"
  "sch_digest_verified (snd (freeze s r)) = sch_digest_verified s"
  "sch_predicted (snd (freeze s r)) = sch_predicted s"
  "sch_digest_frame (snd (freeze s r)) = sch_digest_frame s"
  "sch_digests (snd (freeze s r)) = sch_digests s"
  "sch_current_frame (snd (freeze s r)) = sch_current_frame s"
  "sch_next_frame (snd (freeze s r)) = sch_next_frame s"
  "sch_shutdown (snd (freeze s r)) = sch_shutdown s"
  "sch_freeze_reason (snd (freeze s r)) = (if sch_freeze_reason s = Freeze_None then r else sch_freeze_reason s)"
  by (simp_all add: freeze_def)

lemma handle_simps [simp]:
  "sch_window (snd (fst (handle_window_status s st))) = sch_window s"
  "sch_port (snd (fst (handle_window_status s st))) = sch_port s"
  "sch_state_verified_through (snd (fst (handle_window_status s st))) = sch_state_verified_through s"
  "sch_digest_valid (snd (fst (handle_window_status s st))) = sch_digest_valid s"
  "sch_digest_verified (snd (fst (handle_window_status s st))) = sch_digest_verified s"
  "sch_predicted (snd (fst (handle_window_status s st))) = sch_predicted s"
  "sch_digest_frame (snd (fst (handle_window_status s st))) = sch_digest_frame s"
  "sch_digests (snd (fst (handle_window_status s st))) = sch_digests s"
  by (simp_all add: handle_window_status_def split: DualWindowStatusV1.split)

lemma observe_simps [simp]:
  "sch_window (observe_authenticated_activity s t) = sch_window s"
  "sch_port (observe_authenticated_activity s t) = sch_port s"
  "sch_state (observe_authenticated_activity s t) = sch_state s"
  "sch_shutdown (observe_authenticated_activity s t) = sch_shutdown s"
  "sch_freeze_reason (observe_authenticated_activity s t) = sch_freeze_reason s"
  "sch_state_verified_through (observe_authenticated_activity s t) = sch_state_verified_through s"
  "sch_digest_valid (observe_authenticated_activity s t) = sch_digest_valid s"
  "sch_digest_verified (observe_authenticated_activity s t) = sch_digest_verified s"
  "sch_predicted (observe_authenticated_activity s t) = sch_predicted s"
  "sch_digest_frame (observe_authenticated_activity s t) = sch_digest_frame s"
  "sch_digests (observe_authenticated_activity s t) = sch_digests s"
  "sch_current_frame (observe_authenticated_activity s t) = sch_current_frame s"
  by (simp_all add: observe_authenticated_activity_def)

lemmas lifecycle_defs = announce_running_def acknowledge_committed_rewrite_def pause_def resume_def
  set_mode_def set_surface_available_def set_audio_available_def set_network_available_def
  mark_transport_terminal_def sch_shut_down_def Let_def

text \<open>What a step does, as the frame, prediction mask and digest it records.\<close>

definition step_record ::
  "'w DualRuntimePort \<Rightarrow> 'w DualRunSchedulerV1 \<Rightarrow> (DualWindowPlanV1 \<times> DualStateDigestV1) option" where
  "step_record port s =
     (let plan = fst (plan_next (sch_window s));
          (step_result, outcome, w) = port_step port (sch_port s) (pln_bundle plan);
          (digest_result, digest, w') = port_state_digest port w (pln_frame_index plan)
      in if require_running s = FLY_OK \<and> pln_status plan = WinOk \<and> step_result = FLY_OK
            \<and> digest_result = FLY_OK then Some (plan, digest) else None)"

definition digest_ring :: "'w DualRunSchedulerV1
    \<Rightarrow> bool list \<times> bool list \<times> bool list \<times> u64 list \<times> DualStateDigestV1 list" where
  "digest_ring s = (sch_digest_valid s, sch_digest_verified s, sch_predicted s, sch_digest_frame s,
     sch_digests s)"

lemma step_ring:
  "digest_ring (snd (step_next_frame port s)) =
     (case step_record port s of None \<Rightarrow> digest_ring s
      | Some (plan, digest) \<Rightarrow> digest_ring (record_digest s plan digest))"
  by (auto simp: step_next_frame_def step_record_def digest_ring_def record_digest_def Let_def
      split: prod.split)

lemma step_window:
  "sch_window (snd (step_next_frame port s)) =
     (if require_running s \<noteq> FLY_OK then sch_window s
      else case step_record port s of
             None \<Rightarrow> snd (plan_next (sch_window s))
           | Some (plan, digest) \<Rightarrow> snd (mark_planned (snd (plan_next (sch_window s)))
               (pln_frame_index plan) (pln_predicted_port_mask plan)))"
  by (auto simp: step_next_frame_def step_record_def record_digest_def Let_def split: prod.split)

lemma step_verified [simp]:
  "sch_state_verified_through (snd (step_next_frame port s)) = sch_state_verified_through s"
  by (auto simp: step_next_frame_def record_digest_def Let_def split: prod.split)

lemma step_ok:
  assumes "step_next_frame port s = (FLY_OK, t)"
  obtains plan d where "step_record port s = Some (plan, d)" "plan = fst (plan_next (sch_window s))"
    "require_running s = FLY_OK" "pln_status plan = WinOk"
    "mark_planned (snd (plan_next (sch_window s))) (pln_frame_index plan) (pln_predicted_port_mask plan)
       = (WinOk, sch_window t)"
    "sch_current_frame t = pln_frame_index plan" "sch_next_frame t = pln_frame_index plan + 1"
    "sch_prediction_depth t = (let commit = win_commit_frontier (sch_window t) in
       if pln_frame_index plan + 1 > commit then ucast (pln_frame_index plan + 1 - commit) else 0)"
    "sch_digest_frame t = (sch_digest_frame s)[digest_slot (pln_frame_index plan) := pln_frame_index plan]"
    "sch_digest_verified t = (sch_digest_verified s)[digest_slot (pln_frame_index plan) := False]"
  using assms
  by (auto simp: step_next_frame_def step_record_def record_digest_def freeze_def Let_def
      split: if_splits prod.splits)

section \<open>The window moves through window calls\<close>

lemma sched_step_window:
  "\<exists>ws. length ws \<le> 2 \<and> sch_window (snd (sched_step port s c)) = run_calls window_step (sch_window s) ws"
proof -
  let ?w = "sch_window s" and ?t = "snd (sched_step port s c)"
  have none: ?thesis if "sch_window ?t = ?w"
    using that by (intro exI [of _ "[]"]) simp
  show ?thesis
  proof (cases c)
    case SStep
    let ?plan = "fst (plan_next ?w)"
    have "sch_window ?t \<in> {?w, run_calls window_step ?w [PlanNext],
        run_calls window_step ?w [PlanNext,
          MarkPlanned (pln_frame_index ?plan) (pln_predicted_port_mask ?plan)]}"
      using SStep by (auto simp: step_window step_record_def Let_def split: option.splits prod.splits)
    moreover have "length [PlanNext, MarkPlanned (pln_frame_index ?plan) (pln_predicted_port_mask ?plan)] \<le> 2"
      "length [PlanNext] \<le> 2" "length ([] :: window_call list) \<le> 2" by simp_all
    ultimately show ?thesis using none by blast
  next
    case (SLocal samples seat)
    then have "sch_window ?t = ?w \<or> sch_window ?t = run_calls window_step ?w [DeliverLocal samples seat]"
      by (auto simp: accept_local_input_def split: prod.split)
    moreover have "length [DeliverLocal samples seat] \<le> 2" by simp
    ultimately show ?thesis using none by blast
  next
    case (SRemote b)
    then have "sch_window ?t = ?w \<or> sch_window ?t = run_calls window_step ?w [Deliver b]"
      by (auto simp: accept_remote_input_def split: prod.split)
    moreover have "length [Deliver b] \<le> 2" by simp
    ultimately show ?thesis using none by blast
  qed (rule none, simp add: lifecycle_defs acknowledge_peer_digest_def)+
qed

lemma sched_run_window:
  "\<exists>ws. length ws \<le> 2 * length cs
     \<and> sch_window (run_calls (sched_step port) s cs) = run_calls window_step (sch_window s) ws"
proof (induction cs arbitrary: s)
  case Nil
  show ?case by (rule exI [of _ "[]"]) simp
next
  case (Cons c cs)
  obtain ws where ws: "length ws \<le> 2"
    "sch_window (snd (sched_step port s c)) = run_calls window_step (sch_window s) ws"
    using sched_step_window by blast
  obtain vs where vs: "length vs \<le> 2 * length cs"
    "sch_window (run_calls (sched_step port) (snd (sched_step port s c)) cs)
       = run_calls window_step (sch_window (snd (sched_step port s c))) vs"
    using Cons by blast
  show ?case
    by (rule exI [of _ "ws @ vs"]) (use ws vs in \<open>simp add: run_calls_append\<close>)
qed

section \<open>Freezing is final\<close>

definition frozen_view where
  "frozen_view s = (sch_state s, sch_freeze_reason s, sch_port s, sch_window s,
     sch_state_verified_through s, sch_digest_valid s, sch_digest_verified s, sch_current_frame s)"

definition reason_inv :: "'w DualRunSchedulerV1 \<Rightarrow> bool" where
  "reason_inv s \<longleftrightarrow> (sch_state s = Sim_Frozen \<longrightarrow> sch_freeze_reason s \<noteq> Freeze_None)"

lemma plan_frozen_reason:
  "pln_status (fst (plan_next w)) = WinFrozen \<Longrightarrow> pln_freeze (fst (plan_next w)) \<noteq> Freeze_None"
  by (auto simp: plan_next_def frozen_plan_def materialize_plan_def Let_def split: if_splits prod.splits)

lemma reason_freeze: "r \<noteq> Freeze_None \<Longrightarrow> reason_inv (snd (freeze s r))"
  by (simp add: reason_inv_def)

lemma reason_handle:
  assumes "reason_inv s" shows "reason_inv (snd (fst (handle_window_status s st)))"
  using assms by (cases st) (auto simp: handle_window_status_def intro!: reason_freeze)

lemma reason_window_irrelevant [simp]: "reason_inv (s\<lparr>sch_window := w\<rparr>) = reason_inv s"
  by (simp add: reason_inv_def)

lemma reason_step:
  assumes "reason_inv s"
  shows "reason_inv (snd (step_next_frame port s))"
proof (cases "require_running s = FLY_OK")
  case False
  then show ?thesis using assms by (simp add: step_next_frame_def)
next
  case True
  then have "sch_state s \<noteq> Sim_Frozen" by (auto simp: require_running_def split: if_splits)
  with True show ?thesis
    using plan_frozen_reason [of "sch_window s"]
    by (auto simp: step_next_frame_def record_digest_def reason_inv_def Let_def split: prod.split)
qed

lemma reason_ack:
  assumes "reason_inv s"
  shows "reason_inv (snd (fst (acknowledge_peer_digest s f d)))"
  using assms
  by (auto simp: acknowledge_peer_digest_def Let_def reason_inv_def dest: arg_cong [of _ _ "(=) Freeze_None"])

interpretation reason: guarded_machine "sched_step port" "\<lambda>s c. True" reason_inv
  for port :: "'w DualRuntimePort"
proof
  fix s :: "'w DualRunSchedulerV1" and c assume s: "reason_inv s"
  show "reason_inv (snd (sched_step port s c))"
  proof (cases c)
    case SStep
    then show ?thesis using reason_step [OF s] by simp
  next
    case (SAckDigest f d)
    then show ?thesis using reason_ack [OF s] by simp
  next
    case (SLocal samples seat)
    then show ?thesis using s by (auto simp: accept_local_input_def reason_handle split: prod.split)
  next
    case (SRemote b)
    then show ?thesis using s by (auto simp: accept_remote_input_def reason_handle split: prod.split)
  qed (use s in \<open>auto simp: lifecycle_defs reason_inv_def\<close>)
qed

lemma frozen_step:
  assumes "sch_state s = Sim_Frozen" "reason_inv s"
  shows "frozen_view (snd (sched_step port s c)) = frozen_view s"
proof -
  have r: "sch_freeze_reason s \<noteq> Freeze_None" using assms by (simp add: reason_inv_def)
  have n: "require_running s \<noteq> FLY_OK" using assms(1) by (simp add: require_running_def)
  show ?thesis
    using assms(1) r n
    by (cases c)
      (simp_all add: frozen_view_def lifecycle_defs freeze_def step_next_frame_def
        acknowledge_peer_digest_def accept_local_input_def accept_remote_input_def
        observe_authenticated_activity_def)
qed

lemma frozen_run:
  "\<lbrakk>sch_state s = Sim_Frozen; reason_inv s\<rbrakk> \<Longrightarrow>
     frozen_view (run_calls (sched_step port) s cs) = frozen_view s"
proof (induction cs arbitrary: s)
  case Nil
  then show ?case by simp
next
  case (Cons c cs)
  let ?t = "snd (sched_step port s c)"
  have v: "frozen_view ?t = frozen_view s" using Cons.prems by (rule frozen_step)
  then have "sch_state ?t = Sim_Frozen" using Cons.prems by (simp add: frozen_view_def)
  moreover have "reason_inv ?t" using Cons.prems(2) reason.step_inv by blast
  ultimately show ?case using Cons.IH v by simp
qed

section \<open>Where the verified watermark comes from\<close>

definition ring_data :: "'w DualRunSchedulerV1
    \<Rightarrow> bool list \<times> bool list \<times> u64 list \<times> DualStateDigestV1 list" where
  "ring_data s = (sch_digest_valid s, sch_predicted s, sch_digest_frame s, sch_digests s)"

lemma digest_slot_less [simp]: "digest_slot f < 20"
  by (simp add: digest_slot_def kRingSlotsV1_def)

lemma ring_data_other: "c \<noteq> SStep \<Longrightarrow> ring_data (snd (sched_step port s c)) = ring_data s"
  by (cases c) (auto simp: ring_data_def lifecycle_defs acknowledge_peer_digest_def
      accept_local_input_def accept_remote_input_def split: prod.split)

lemma ring_data_step:
  "ring_data (snd (sched_step port s SStep)) =
     (case step_record port s of None \<Rightarrow> ring_data s
      | Some (plan, digest) \<Rightarrow> ring_data (record_digest s plan digest))"
  using step_ring [of port s] by (auto simp: digest_ring_def ring_data_def split: option.splits prod.splits)

text \<open>\<open>recorded\<close>: a slot of the ring was written by an earlier step of the run.\<close>

definition recorded ::
  "'w DualRuntimePort \<Rightarrow> 'w DualRunSchedulerV1 \<Rightarrow> sched_call list \<Rightarrow> 'w DualRunSchedulerV1 \<Rightarrow> nat \<Rightarrow> bool" where
  "recorded port s0 cs s k \<longleftrightarrow> (\<exists>cs1 cs2 plan d. cs = cs1 @ SStep # cs2
     \<and> step_record port (run_calls (sched_step port) s0 cs1) = Some (plan, d)
     \<and> pln_frame_index plan = sch_digest_frame s ! k
     \<and> (pln_predicted_port_mask plan \<noteq> 0) = sch_predicted s ! k \<and> d = sch_digests s ! k)"

lemma recorded_extend:
  assumes "recorded port s0 cs s k" "ring_data t = ring_data s"
  shows "recorded port s0 (cs @ [c]) t k"
proof -
  have "recorded port s0 (cs @ [c]) s k"
    using assms(1) unfolding recorded_def by (metis append_assoc append_Cons)
  then show ?thesis using assms(2) by (simp add: recorded_def ring_data_def)
qed

lemma ring_recorded:
  fixes s0 :: "'w DualRunSchedulerV1" and port :: "'w DualRuntimePort"
  assumes fresh: "sch_digest_valid s0 = replicate 20 False" "length (sch_predicted s0) = 20"
    "length (sch_digest_frame s0) = 20" "length (sch_digests s0) = 20"
  defines "run \<equiv> \<lambda>cs. run_calls (sched_step port) s0 cs"
  shows "length (sch_digest_valid (run cs)) = 20 \<and> length (sch_predicted (run cs)) = 20
     \<and> length (sch_digest_frame (run cs)) = 20 \<and> length (sch_digests (run cs)) = 20
     \<and> (\<forall>k<20. sch_digest_valid (run cs) ! k \<longrightarrow> recorded port s0 cs (run cs) k)"
proof (induction cs rule: rev_induct)
  case Nil
  then show ?case using fresh by (simp add: run_def)
next
  case (snoc c cs)
  have run: "run (cs @ [c]) = snd (sched_step port (run cs) c)" by (simp add: run_def run_calls_append)
  show ?case
  proof (cases "ring_data (run (cs @ [c])) = ring_data (run cs)")
    case True
    then show ?thesis using snoc recorded_extend [OF _ True] by (auto simp: ring_data_def)
  next
    case False
    then have c: "c = SStep" using ring_data_other [of c port "run cs"] by (auto simp: run)
    then obtain plan d where rec: "step_record port (run cs) = Some (plan, d)"
      and data: "ring_data (run (cs @ [c])) = ring_data (record_digest (run cs) plan d)"
      using False ring_data_step [of port "run cs"] unfolding run
      by (cases "step_record port (run cs)") auto
    let ?k = "digest_slot (pln_frame_index plan)" and ?s = "run (cs @ [c])"
    have len: "length (sch_digest_valid ?s) = 20 \<and> length (sch_predicted ?s) = 20
        \<and> length (sch_digest_frame ?s) = 20 \<and> length (sch_digests ?s) = 20"
      using snoc data by (simp add: ring_data_def record_digest_def Let_def)
    have "recorded port s0 (cs @ [c]) ?s k" if k: "k < 20" "sch_digest_valid ?s ! k" for k
    proof (cases "k = ?k")
      case True
      then have "pln_frame_index plan = sch_digest_frame ?s ! k
          \<and> (pln_predicted_port_mask plan \<noteq> 0) = sch_predicted ?s ! k \<and> d = sch_digests ?s ! k"
        using snoc data by (simp add: ring_data_def record_digest_def Let_def)
      with rec c show ?thesis unfolding recorded_def run_def by blast
    next
      case other: False
      then have same: "sch_digest_valid ?s ! k = sch_digest_valid (run cs) ! k"
        "sch_digest_frame ?s ! k = sch_digest_frame (run cs) ! k"
        "sch_predicted ?s ! k = sch_predicted (run cs) ! k" "sch_digests ?s ! k = sch_digests (run cs) ! k"
        using data by (auto simp: ring_data_def record_digest_def Let_def)
      then have "recorded port s0 cs (run cs) k" using snoc k by simp
      then have "recorded port s0 (cs @ [c]) (run cs) k" by (rule recorded_extend) simp
      then show ?thesis using same by (simp add: recorded_def)
    qed
    then show ?thesis using len by blast
  qed
qed

lemma sched_step_verified:
  "sch_state_verified_through (snd (sched_step port s c)) = sch_state_verified_through s
   \<or> (\<exists>f d. c = SAckDigest f d \<and> f = sch_state_verified_through s
        \<and> sch_state_verified_through (snd (sched_step port s c)) = f + 1
        \<and> fst (sched_step port s c) = FLY_OK
        \<and> sch_digest_valid s ! digest_slot f \<and> sch_digest_frame s ! digest_slot f = f
        \<and> \<not> sch_predicted s ! digest_slot f \<and> sch_digests s ! digest_slot f = d)"
proof (cases c)
  case (SAckDigest f d)
  have "sch_digests s ! digest_slot f = d"
    if "dual_digest_gate_v1 (sch_digests s ! digest_slot f) d = Freeze_None"
    using that by (simp add: dual_digest_gate_v1_def evaluate_dual_digest_v1_def split: if_splits)
  then show ?thesis using SAckDigest by (auto simp: acknowledge_peer_digest_def Let_def)
qed (auto simp: lifecycle_defs accept_local_input_def accept_remote_input_def split: prod.split)

lemma word_less_succ: "(f :: 'a::len word) < x + 1 \<Longrightarrow> f < x \<or> f = x"
  using unat_plus_if' [of x 1] by (auto simp: word_less_nat_alt word_unat_eq_iff split: if_splits)

lemma verified_recorded:
  fixes s0 :: "'w DualRunSchedulerV1" and port :: "'w DualRuntimePort"
  assumes fresh: "sch_digest_valid s0 = replicate 20 False" "length (sch_predicted s0) = 20"
    "length (sch_digest_frame s0) = 20" "length (sch_digests s0) = 20"
    and zero: "sch_state_verified_through s0 = 0"
  defines "run \<equiv> \<lambda>cs. run_calls (sched_step port) s0 cs"
  shows "f < sch_state_verified_through (run cs) \<Longrightarrow>
     \<exists>cs1 cs2 cs3 plan d. cs = cs1 @ SStep # cs2 @ SAckDigest f d # cs3
       \<and> step_record port (run cs1) = Some (plan, d)
       \<and> pln_frame_index plan = f \<and> pln_predicted_port_mask plan = 0"
proof (induction cs rule: rev_induct)
  case Nil
  then show ?case using zero by (simp add: run_def)
next
  case (snoc c cs)
  have r: "run (cs @ [c]) = snd (sched_step port (run cs) c)" by (simp add: run_def run_calls_append)
  show ?case
  proof (cases "f < sch_state_verified_through (run cs)")
    case True
    then obtain cs1 cs2 cs3 plan d where "cs = cs1 @ SStep # cs2 @ SAckDigest f d # cs3"
      "step_record port (run cs1) = Some (plan, d)" "pln_frame_index plan = f"
      "pln_predicted_port_mask plan = 0" using snoc.IH by blast
    moreover from this have "cs @ [c] = cs1 @ SStep # cs2 @ SAckDigest f d # (cs3 @ [c])" by simp
    ultimately show ?thesis by blast
  next
    case False
    then have "sch_state_verified_through (run (cs @ [c])) \<noteq> sch_state_verified_through (run cs)"
      using snoc.prems by auto
    then obtain g d where c: "c = SAckDigest g d" "g = sch_state_verified_through (run cs)"
      "sch_state_verified_through (run (cs @ [c])) = g + 1"
      and ring: "sch_digest_valid (run cs) ! digest_slot g" "sch_digest_frame (run cs) ! digest_slot g = g"
        "\<not> sch_predicted (run cs) ! digest_slot g" "sch_digests (run cs) ! digest_slot g = d"
      using sched_step_verified [of port "run cs" c, folded r] by blast
    have g: "f = g" using snoc.prems False c(2,3) word_less_succ by auto
    have "recorded port s0 cs (run cs) (digest_slot g)"
      using ring_recorded [OF fresh] ring(1) by (simp add: run_def)
    with ring g c(1) show ?thesis unfolding recorded_def run_def by fastforce
  qed
qed

lemma begin_fresh:
  assumes "sch_begin port s mode content context owners = (FLY_OK, s0)"
  shows "sch_digest_valid s0 = replicate 20 False" "length (sch_predicted s0) = 20"
    "length (sch_digest_frame s0) = 20" "length (sch_digests s0) = 20"
    "sch_state_verified_through s0 = 0" "sch_state s0 = Sim_Ready" "sch_freeze_reason s0 = Freeze_None"
    "win_begin (sch_window s) context owners = (WinOk, sch_window s0)" "\<not> sch_shutdown s0"
    "sch_mode s0 = Mode_Dual"
  using assms by (auto simp: sch_begin_def Let_def kRingSlotsV1_def evaluate_dual_mode_v1_def
      split: if_splits prod.splits)

end
