(* ===== verification/Scheduler_Properties.thy ===== *)
theory Scheduler_Properties
  imports Scheduler_Safety Window_Properties
begin

unbundle bit_operations_syntax

text \<open>
  The properties of the simulation scheduler, and three behaviours of it that its comments do not
  describe: the rollback gate, the way out of a pause, and the watermark at a predicted frame.
\<close>

section \<open>The step frontier\<close>

lemma run_window_mat:
  assumes "window_inv w" "unat (win_materialized_through w) + length ws < 2 ^ 64 - 16"
  shows "window_inv (run_calls window_step w ws)"
    "unat (win_materialized_through (run_calls window_step w ws)) \<le> unat (win_materialized_through w) + length ws"
proof -
  show "window_inv (run_calls window_step w ws)"
    using window.run_inv [OF assms(1) calls_within_short [OF assms]] .
  show "unat (win_materialized_through (run_calls window_step w ws)) \<le> unat (win_materialized_through w) + length ws"
    using assms
  proof (induction ws arbitrary: w)
    case Nil
    then show ?case by simp
  next
    case (Cons c ws)
    have ok: "below_horizon w c" using Cons.prems(2) by (simp add: below_horizon_def)
    have mat: "unat (win_materialized_through (snd (window_step w c))) \<le> unat (win_materialized_through w) + 1"
      using window_step_mat [of w c] Cons.prems(1) by (simp add: window_inv_def)
    then have "unat (win_materialized_through (snd (window_step w c))) + length ws < 2 ^ 64 - 16"
      using Cons.prems(2) by simp
    from Cons.IH [OF window_step_inv(1) [OF Cons.prems(1) ok] this] mat show ?case by simp
  qed
qed

lemma deliver_step_frontier:
  "win_step_frontier (snd (deliver_input w b)) = win_step_frontier w"
  "win_step_frontier (snd (deliver_local_input w x y)) = win_step_frontier w"
proof -
  have e: "win_step_frontier t = win_step_frontier w" if "ensure_record w g = (r, t)" for g r t
    using that by (auto simp: ensure_record_def Let_def split: option.splits)
  have "win_step_frontier (snd (accept_port w b p)) = win_step_frontier w" for b p
    by (auto simp: accept_port_def Let_def dest: e split: option.splits prod.splits)
  then show d: "win_step_frontier (snd (deliver_input w b)) = win_step_frontier w" for b
    by (cases rule: deliver_input_cases [of w b]) simp_all
  show "win_step_frontier (snd (deliver_local_input w x y)) = win_step_frontier w"
    by (simp add: deliver_local_input_def d split: option.split sum.split)
qed

lemma plan_next_frame:
  "pln_status (fst (plan_next w)) = WinOk \<Longrightarrow> win_step_frontier w \<le> pln_frame_index (fst (plan_next w))"
  "win_step_frontier (snd (plan_next w)) = win_step_frontier w"
  by (auto simp: plan_next_def frozen_plan_def materialize_plan_def ensure_record_def Let_def
      split: if_splits prod.splits option.splits)

lemma mark_planned_frontier:
  "win_step_frontier (snd (mark_planned w g m)) \<in> {win_step_frontier w, g + 1}"
  "fst (mark_planned w g m) = WinOk \<Longrightarrow>
     win_step_frontier (snd (mark_planned w g m)) = g + 1 \<and> g < win_materialized_through w"
  by (auto simp: mark_planned_def Let_def split: option.splits if_splits)

lemma scheduler_window_inv:
  assumes "sch_begin port s mode content context owners = (FLY_OK, s0)" "length owners = 4"
    "2 * length cs < 2 ^ 64 - 16"
  shows "window_inv (sch_window (run_calls (sched_step port) s0 cs))"
proof -
  note w0 = begin_fresh(8) [OF assms(1)]
  obtain ws where ws: "length ws \<le> 2 * length cs"
    "sch_window (run_calls (sched_step port) s0 cs) = run_calls window_step (sch_window s0) ws"
    using sched_run_window by blast
  have "calls_within window_step below_horizon (sch_window s0) ws"
    using begin_calls_within [OF w0 assms(2)] ws(1) assms(3) by simp
  then show ?thesis using window.run_inv [OF begin_inv(1) [OF w0 assms(2)]] ws by auto
qed

section \<open>A scheduler to evaluate\<close>

text \<open>A runtime that accepts everything and reports one constant digest.\<close>

definition echo_port :: "unit DualRuntimePort" where
  "echo_port = \<lparr>port_load = (\<lambda>w c. (FLY_OK, w)), port_step = (\<lambda>w b. (FLY_OK, zero_outcome, w)),
     port_state_digest = (\<lambda>w f. (FLY_OK, zero_digest, w))\<rparr>"

definition pair_sched :: "unit DualRunSchedulerV1" where
  "pair_sched = snd (sch_begin echo_port (new_scheduler ()) Mode_Dual zero_content (pair_key 0) pair_owners)"

lemma pair_sched_begin:
  "sch_begin echo_port (new_scheduler ()) Mode_Dual zero_content (pair_key 0) pair_owners = (FLY_OK, pair_sched)"
proof -
  have "fst (sch_begin echo_port (new_scheduler ()) Mode_Dual zero_content (pair_key 0) pair_owners) = FLY_OK"
    by code_simp
  then show ?thesis by (simp add: pair_sched_def prod_eq_iff)
qed

lemma pair_sched_window: "sch_window pair_sched = pair_window"
  using begin_fresh(8) [OF pair_sched_begin] pair_begin by (simp add: new_scheduler_def)

lemma pair_owners_length: "length pair_owners = 4"
  by (simp add: pair_owners_def)

section \<open>Properties\<close>

text \<open>
  C15: Refinement of the scheduler by the window: after any sequence of scheduler calls, the scheduler's
  window is one that a sequence of at most twice as many window calls produces, so it satisfies the
  window invariant; the scheduler never touches the ring or the frontiers any other way.
\<close>
theorem scheduler_refines_window:
  assumes "sch_begin port s mode content context owners = (FLY_OK, s0)" "length owners = 4"
    "2 * length cs < 2 ^ 64 - 16"
  shows "window_inv (sch_window (run_calls (sched_step port) s0 cs))
    \<and> (\<exists>ws. length ws \<le> 2 * length cs
         \<and> sch_window (run_calls (sched_step port) s0 cs) = run_calls window_step (sch_window s0) ws)"
  using scheduler_window_inv [OF assms] sched_run_window by blast

theorem scheduler_refines_window_witness:
  "window_inv (sch_window (run_calls (sched_step echo_port) pair_sched [SAnnounce, SStep]))"
  using scheduler_refines_window [OF pair_sched_begin pair_owners_length, of "[SAnnounce, SStep]"] by simp

text \<open>
  C16: Fail closed: once a call has frozen the scheduler, no later call other than a new \<open>begin\<close> steps
  the runtime, changes the window, moves the watermark or replaces the freeze reason.
\<close>
theorem frozen_is_final:
  assumes "sch_begin port s mode content context owners = (FLY_OK, s0)"
    "sch_state (run_calls (sched_step port) s0 cs) = Sim_Frozen"
  shows "frozen_view (run_calls (sched_step port) s0 (cs @ ds))
       = frozen_view (run_calls (sched_step port) s0 cs)"
proof -
  have "reason_inv s0" using begin_fresh(6) [OF assms(1)] by (simp add: reason_inv_def)
  then have "reason_inv (run_calls (sched_step port) s0 cs)"
    by (intro reason.run_inv) simp_all
  then show ?thesis using frozen_run [OF assms(2)] by (simp add: run_calls_append)
qed

theorem frozen_is_final_witness:
  "frozen_view (run_calls (sched_step echo_port) pair_sched [STransportTerminal, SAnnounce, SStep])
     = frozen_view (run_calls (sched_step echo_port) pair_sched [STransportTerminal])"
  using frozen_is_final [OF pair_sched_begin, of "[STransportTerminal]" "[SAnnounce, SStep]"]
  by (simp add: mark_transport_terminal_def)

text \<open>
  C17: Every frame below the verified watermark is agreed and real: the run contains an earlier step that
  executed exactly that frame with no predicted port, whose digest is the one a later
  acknowledgement of the peer carried.
\<close>
theorem verified_frames_agreed:
  assumes "sch_begin port s mode content context owners = (FLY_OK, s0)"
    "f < sch_state_verified_through (run_calls (sched_step port) s0 cs)"
  shows "\<exists>cs1 cs2 cs3 plan d. cs = cs1 @ SStep # cs2 @ SAckDigest f d # cs3
     \<and> step_record port (run_calls (sched_step port) s0 cs1) = Some (plan, d)
     \<and> pln_frame_index plan = f \<and> pln_predicted_port_mask plan = 0"
  using verified_recorded [OF begin_fresh(1-5) [OF assms(1)]] assms(2) by blast

theorem verified_frames_agreed_witness:
  "\<exists>cs1 cs2 cs3 plan d.
     [SAnnounce, SRemote (pair_bundle 0 8 0), SRemote (pair_bundle 1 8 0), SStep, SAckDigest 0 zero_digest]
       = cs1 @ SStep # cs2 @ SAckDigest 0 d # cs3
     \<and> step_record echo_port (run_calls (sched_step echo_port) pair_sched cs1) = Some (plan, d)
     \<and> pln_frame_index plan = 0 \<and> pln_predicted_port_mask plan = 0"
proof -
  have "0 < sch_state_verified_through (run_calls (sched_step echo_port) pair_sched
      [SAnnounce, SRemote (pair_bundle 0 8 0), SRemote (pair_bundle 1 8 0), SStep, SAckDigest 0 zero_digest])"
    by code_simp
  then show ?thesis by (rule verified_frames_agreed [OF pair_sched_begin])
qed

text \<open>
  A step that returns OK executed one frame: the larger frontier of the window, which becomes the
  current frame; the step frontier moves to the frame after it, the digest of the runtime is stored
  unverified under that frame, and the prediction depth reported is at most ten.
\<close>
theorem step_next_frame_ok:
  assumes "window_inv (sch_window s)" "unat (win_materialized_through (sch_window s)) + 2 < 2 ^ 64 - 16"
    "length (sch_digest_verified s) = 20" "length (sch_digest_frame s) = 20"
    "step_next_frame port s = (FLY_OK, t)"
  shows "\<exists>plan d. step_record port s = Some (plan, d)
     \<and> pln_frame_index plan = (if win_step_frontier (sch_window s) < win_commit_frontier (sch_window s)
          then win_commit_frontier (sch_window s) else win_step_frontier (sch_window s))
     \<and> sch_current_frame t = pln_frame_index plan \<and> sch_next_frame t = pln_frame_index plan + 1
     \<and> win_step_frontier (sch_window t) = pln_frame_index plan + 1
     \<and> sch_digest_frame t ! digest_slot (pln_frame_index plan) = pln_frame_index plan
     \<and> \<not> sch_digest_verified t ! digest_slot (pln_frame_index plan)
     \<and> unat (sch_prediction_depth t) \<le> 10"
proof -
  obtain plan d where p: "step_record port s = Some (plan, d)" "plan = fst (plan_next (sch_window s))"
    "pln_status plan = WinOk"
    "mark_planned (snd (plan_next (sch_window s))) (pln_frame_index plan) (pln_predicted_port_mask plan)
       = (WinOk, sch_window t)"
    "sch_current_frame t = pln_frame_index plan" "sch_next_frame t = pln_frame_index plan + 1"
    "sch_prediction_depth t = (let commit = win_commit_frontier (sch_window t) in
       if pln_frame_index plan + 1 > commit then ucast (pln_frame_index plan + 1 - commit) else 0)"
    "sch_digest_frame t = (sch_digest_frame s)[digest_slot (pln_frame_index plan) := pln_frame_index plan]"
    "sch_digest_verified t = (sch_digest_verified s)[digest_slot (pln_frame_index plan) := False]"
    using step_ok [OF assms(5)] by metis
  let ?g = "pln_frame_index plan" and ?c = "win_commit_frontier (sch_window t)"
  have frame: "?g = (if win_step_frontier (sch_window s) < win_commit_frontier (sch_window s)
          then win_commit_frontier (sch_window s) else win_step_frontier (sch_window s))"
    using p(2,3)
    by (auto simp: plan_next_def frozen_plan_def materialize_plan_def Let_def split: if_splits prod.splits)
  have step: "win_step_frontier (sch_window t) = ?g + 1"
    using mark_planned_frontier(2) [of "snd (plan_next (sch_window s))" ?g "pln_predicted_port_mask plan"]
      p(4) by simp
  have "sch_window t = run_calls window_step (sch_window s)
      [PlanNext, MarkPlanned ?g (pln_predicted_port_mask plan)]" using p(4) by simp
  moreover have "unat (win_materialized_through (sch_window s))
      + length [PlanNext, MarkPlanned ?g (pln_predicted_port_mask plan)] < 2 ^ 64 - 16"
    using assms(2) by simp
  ultimately have "window_inv (sch_window t)" using run_window_mat(1) [OF assms(1)] by presburger
  then have near: "unat (?g + 1) \<le> unat ?c + 10"
    using step by (auto simp: window_inv_def frontier_inv_def)
  have "unat (sch_prediction_depth t) \<le> 10"
  proof (cases "?g + 1 > ?c")
    case True
    then have "unat (?g + 1 - ?c) = unat (?g + 1) - unat ?c"
      by (intro unat_sub) (simp add: order_less_imp_le)
    then have le: "unat (?g + 1 - ?c) \<le> 10" using near by simp
    have "unat (ucast (?g + 1 - ?c) :: u32) \<le> unat (?g + 1 - ?c)"
      by (simp add: unsigned_ucast_eq take_bit_nat_less_eq_self)
    then show ?thesis using True p(7) le by (simp add: Let_def)
  next
    case False
    then show ?thesis using p(7) by (simp add: Let_def)
  qed
  with p frame step assms(3,4) show ?thesis by auto
qed

theorem step_next_frame_ok_witness:
  "let s = snd (announce_running pair_sched) in
   \<exists>plan d. step_record echo_port s = Some (plan, d) \<and> pln_frame_index plan = 0
     \<and> sch_next_frame (snd (step_next_frame echo_port s)) = 1"
proof -
  let ?s = "snd (announce_running pair_sched)"
  have w: "sch_window ?s = pair_window" by (simp add: announce_running_def pair_sched_window)
  have "win_materialized_through pair_window = 0 \<and> win_step_frontier pair_window = 0
      \<and> win_commit_frontier pair_window = 0 \<and> length (sch_digest_verified ?s) = 20
      \<and> length (sch_digest_frame ?s) = 20 \<and> fst (step_next_frame echo_port ?s) = FLY_OK" by code_simp
  moreover from this have "step_next_frame echo_port ?s = (FLY_OK, snd (step_next_frame echo_port ?s))"
    by (metis prod.collapse)
  ultimately show ?thesis
    using step_next_frame_ok [of ?s echo_port "snd (step_next_frame echo_port ?s)"] pair_begin_inv(1)
    unfolding Let_def w by fastforce
qed

section \<open>Behaviours the comments do not describe\<close>

text \<open>
  The rollback gate of the scheduler accepts exactly one frame in its life: frame 0 while nothing is
  verified. The comment calls the watermark frame a legal replay target; the anchor is the frame
  below it, so the gate refuses that frame too.
\<close>
theorem rollback_only_at_start:
  "rollback_allowed s out f \<noteq> None \<longleftrightarrow> out \<and> sch_state_verified_through s = 0 \<and> f = 0"
proof -
  have "x - 1 < f" if "x \<le> f" "x \<noteq> 0" for x :: u64
  proof -
    have "unat (x - 1) = unat x - 1" using that(2) by (simp add: unat_minus_one)
    moreover have "0 < unat x" using that(2) by (simp add: word_unat_eq_iff)
    ultimately show ?thesis using that(1) by (simp add: word_less_nat_alt word_le_nat_alt)
  qed
  then have "\<not> f \<le> x - 1" if "x \<le> f" "x \<noteq> 0" for x :: u64 using that leD by blast
  then show ?thesis
    by (auto simp: rollback_allowed_def dual_rollback_slot_v1_def Let_def not_less dual_geometry)
qed

text \<open>
  C39: A pause can be left without the safe-point check of \<open>resume\<close>: pausing a running scheduler makes it
  ready, and announcing it again makes it run, with the paused flag still set and nothing verified.
\<close>
theorem pause_left_by_announce:
  assumes "sch_state s = Sim_Running" "\<not> sch_shutdown s"
  shows "fst (announce_running (snd (pause s now))) = FLY_OK
     \<and> sch_state (snd (announce_running (snd (pause s now)))) = Sim_Running
     \<and> sch_paused (snd (announce_running (snd (pause s now))))
     \<and> sch_digest_verified (snd (announce_running (snd (pause s now)))) = sch_digest_verified s"
  using assms by (simp add: pause_def announce_running_def)


theorem pause_left_by_announce_witness:
  "sch_state (snd (announce_running (snd (pause (snd (announce_running pair_sched)) 5)))) = Sim_Running"
proof -
  have "sch_state (snd (announce_running pair_sched)) = Sim_Running"
    "\<not> sch_shutdown (snd (announce_running pair_sched))"
    using begin_fresh(6,9) [OF pair_sched_begin] by (simp_all add: announce_running_def)
  then show ?thesis using pause_left_by_announce by blast
qed

text \<open>\<open>stuck f\<close>: frame \<open>f\<close> is the watermark, was executed, and if it is still in the digest ring it is
  there as a predicted frame.\<close>

definition stuck :: "u64 \<Rightarrow> 'w DualRunSchedulerV1 \<Rightarrow> bool" where
  "stuck f s \<longleftrightarrow> sch_state_verified_through s = f \<and> f < win_step_frontier (sch_window s)
     \<and> length (sch_digest_frame s) = 20 \<and> length (sch_predicted s) = 20
     \<and> (sch_digest_frame s ! digest_slot f = f \<longrightarrow> sch_predicted s ! digest_slot f)"

lemma stuck_step:
  fixes s :: "'w DualRunSchedulerV1"
  assumes "stuck f s" "window_inv (sch_window s)"
    "unat (win_materialized_through (sch_window s)) + 2 < 2 ^ 64 - 16"
  shows "stuck f (snd (sched_step port s c))"
proof -
  let ?t = "snd (sched_step port s c)" and ?w = "sch_window s"
  have st: "sch_state_verified_through s = f" "f < win_step_frontier ?w"
    "length (sch_digest_frame s) = 20" "length (sch_predicted s) = 20"
    "sch_digest_frame s ! digest_slot f = f \<longrightarrow> sch_predicted s ! digest_slot f"
    using assms(1) by (auto simp: stuck_def)
  have ver: "sch_state_verified_through ?t = f"
    using sched_step_verified [of port s c] st(1,5) by auto
  show ?thesis
  proof (cases "c = SStep")
    case False
    then have "ring_data ?t = ring_data s" by (rule ring_data_other)
    moreover have "win_step_frontier (sch_window ?t) = win_step_frontier ?w"
      using False by (cases c) (auto simp: lifecycle_defs acknowledge_peer_digest_def accept_local_input_def
          accept_remote_input_def deliver_step_frontier split: prod.split dest!: arg_cong [of _ _ snd])
    ultimately show ?thesis using ver st by (simp add: stuck_def ring_data_def)
  next
    case True
    show ?thesis
    proof (cases "step_record port s")
      case None
      then have "ring_data ?t = ring_data s" using ring_data_step [of port s] True by simp
      moreover have "win_step_frontier (sch_window ?t) = win_step_frontier ?w"
        using None True by (simp add: step_window plan_next_frame(2))
      ultimately show ?thesis using ver st by (simp add: stuck_def ring_data_def)
    next
      case (Some x)
      obtain plan d where x: "x = (plan, d)" by (cases x)
      have plan: "plan = fst (plan_next ?w)" "pln_status plan = WinOk" "require_running s = FLY_OK"
        using Some x by (auto simp: step_record_def Let_def split: prod.splits if_splits)
      let ?g = "pln_frame_index plan"
      have g: "f < ?g" using plan_next_frame(1) [of ?w] plan st(2) by auto
      have fr: "frontier_inv ?w" using assms(2) by (simp add: window_inv_def)
      have "unat ?g \<le> unat (win_materialized_through ?w)"
        using plan(1,2) plan_frame_bounds(2) [OF fr]
        by (auto simp: plan_next_def frozen_plan_def materialize_plan_def Let_def split: if_splits prod.splits)
      then have "unat (?g + 1) = unat ?g + 1"
        using assms(3) unat_add_small [of ?g 1] by simp
      then have g1: "f < ?g + 1" using g by (simp add: word_less_nat_alt)
      have w: "sch_window ?t = snd (mark_planned (snd (plan_next ?w)) ?g (pln_predicted_port_mask plan))"
        using True Some x plan(3) by (simp add: step_window)
      have "f < win_step_frontier (sch_window ?t)"
        using mark_planned_frontier(1) [of "snd (plan_next ?w)" ?g "pln_predicted_port_mask plan"]
          plan_next_frame(2) [of ?w] g1 st(2) unfolding w by auto
      moreover have "ring_data ?t = ring_data (record_digest s plan d)"
        using ring_data_step [of port s] True Some x by simp
      moreover have "?g \<noteq> f" using g by simp
      ultimately show ?thesis using ver st
        by (auto simp: stuck_def ring_data_def record_digest_def Let_def nth_list_update)
    qed
  qed
qed

text \<open>
  C40: The watermark stops at the first frame that was executed with a prediction: if the watermark is at
  a frame that the runtime has passed and whose digest was recorded with a predicted port, then no
  sequence of calls without a new \<open>begin\<close> moves the watermark again, even after the missing input
  arrived and both engines agree.
\<close>
theorem watermark_stops_at_prediction:
  assumes "window_inv (sch_window s)"
    "unat (win_materialized_through (sch_window s)) + 2 * length cs < 2 ^ 64 - 18"
    "length (sch_digest_frame s) = 20" "length (sch_predicted s) = 20"
    "sch_state_verified_through s < win_step_frontier (sch_window s)"
    "sch_digest_frame s ! digest_slot (sch_state_verified_through s) = sch_state_verified_through s"
    "sch_predicted s ! digest_slot (sch_state_verified_through s)"
  shows "sch_state_verified_through (run_calls (sched_step port) s cs) = sch_state_verified_through s"
proof -
  have "stuck (sch_state_verified_through s) s" using assms(3-7) by (simp add: stuck_def)
  moreover have "stuck f s \<Longrightarrow> window_inv (sch_window s)
    \<Longrightarrow> unat (win_materialized_through (sch_window s)) + 2 * length cs < 2 ^ 64 - 18
    \<Longrightarrow> stuck f (run_calls (sched_step port) s cs)" for f s
  proof (induction cs arbitrary: s)
    case Nil
    then show ?case by simp
  next
    case (Cons c cs)
    obtain ws where ws: "length ws \<le> 2"
      "sch_window (snd (sched_step port s c)) = run_calls window_step (sch_window s) ws"
      using sched_step_window by blast
    have room: "unat (win_materialized_through (sch_window s)) + length ws < 2 ^ 64 - 16"
      using ws(1) Cons.prems(3) by simp
    note t = run_window_mat [OF Cons.prems(2) room, folded ws(2)]
    have "unat (win_materialized_through (sch_window (snd (sched_step port s c)))) + 2 * length cs < 2 ^ 64 - 18"
      using t(2) ws(1) Cons.prems(3) by simp
    moreover have "stuck f (snd (sched_step port s c))"
      using Cons.prems(3) by (intro stuck_step [OF Cons.prems(1,2)]) simp
    ultimately show ?case using Cons.IH [OF _ t(1)] by simp
  qed
  ultimately have "stuck (sch_state_verified_through s) (run_calls (sched_step port) s cs)"
    using assms(1,2) by blast
  then show ?thesis by (simp add: stuck_def)
qed

theorem watermark_stops_at_prediction_witness:
  "let s = run_calls (sched_step echo_port) pair_sched [SAnnounce, SRemote (pair_bundle 0 8 0), SStep] in
   sch_state_verified_through (run_calls (sched_step echo_port) s
     [SRemote (pair_bundle 1 8 0), SAckDigest 0 zero_digest]) = 0"
proof -
  let ?cs = "[SAnnounce, SRemote (pair_bundle 0 8 0), SStep]"
  let ?s = "run_calls (sched_step echo_port) pair_sched ?cs"
  have "win_materialized_through (sch_window ?s) = 1 \<and> sch_state_verified_through ?s = 0
      \<and> win_step_frontier (sch_window ?s) = 1 \<and> length (sch_digest_frame ?s) = 20
      \<and> length (sch_predicted ?s) = 20 \<and> sch_digest_frame ?s ! digest_slot 0 = 0
      \<and> sch_predicted ?s ! digest_slot 0" by code_simp
  moreover have "window_inv (sch_window ?s)"
    using scheduler_window_inv [OF pair_sched_begin pair_owners_length, of ?cs] by simp
  ultimately show ?thesis
    using watermark_stops_at_prediction [of ?s "[SRemote (pair_bundle 1 8 0), SAckDigest 0 zero_digest]" echo_port]
    unfolding Let_def by simp
qed

end
