(* ===== verification/Recovery_Model.thy ===== *)
theory Recovery_Model
  imports Fly_Sha256
begin

unbundle bit_operations_syntax

text \<open>
  Recovery of an interrupted two-player session, \<^verbatim>\<open>shared/src/session/recovery\<close>: the link
  activity watchdog, the input sequence ledger, the durable root store and the reducer that owns
  one of each. A byte pointer with its size is a \<open>bytes option\<close>, \<open>None\<close> when the pointer is null
  and the size is not zero. Allocation failure is not modelled.
\<close>

section \<open>Link activity watchdog\<close>

definition kLinkFreezeNsV1 :: u64 where "kLinkFreezeNsV1 = 300 * 1000 * 1000"
definition kReconnectDeadlineNsV1 :: u64 where "kReconnectDeadlineNsV1 = 30 * 1000 * 1000 * 1000"

datatype LinkActivityStateV1 = LinkLive | LinkFrozen | LinkReconnectExpired

record LinkActivityWatchdogV1 =
  wd_state :: LinkActivityStateV1
  wd_last_activity_ns :: u64
  wd_freeze_ns :: u64
  wd_clock_seen :: bool

definition new_watchdog :: LinkActivityWatchdogV1 where
  "new_watchdog = \<lparr>wd_state = LinkLive, wd_last_activity_ns = 0, wd_freeze_ns = 0, wd_clock_seen = False\<rparr>"

definition wd_reset :: "LinkActivityWatchdogV1 \<Rightarrow> u64 \<Rightarrow> LinkActivityWatchdogV1" where
  "wd_reset w continuous_ns = w\<lparr>wd_state := LinkLive, wd_last_activity_ns := continuous_ns,
     wd_freeze_ns := 0, wd_clock_seen := True\<rparr>"

definition refresh :: "LinkActivityWatchdogV1 \<Rightarrow> u64 \<Rightarrow> LinkActivityWatchdogV1" where
  "refresh w continuous_ns =
     (if wd_state w = LinkReconnectExpired then w
      else let w1 = w\<lparr>wd_last_activity_ns := continuous_ns\<rparr>
           in if wd_state w1 = LinkFrozen then w1
              else w1\<lparr>wd_state := LinkLive, wd_freeze_ns := 0\<rparr>)"

definition on_verified_peer_activity :: "LinkActivityWatchdogV1 \<Rightarrow> u64 \<Rightarrow> LinkActivityWatchdogV1" where
  "on_verified_peer_activity w continuous_ns = refresh w continuous_ns"

definition on_authenticated_peer_ack :: "LinkActivityWatchdogV1 \<Rightarrow> u64 \<Rightarrow> LinkActivityWatchdogV1" where
  "on_authenticated_peer_ack w continuous_ns = refresh w continuous_ns"

definition on_local_send_complete :: "LinkActivityWatchdogV1 \<Rightarrow> u64 \<Rightarrow> LinkActivityWatchdogV1" where
  "on_local_send_complete w continuous_ns = w"

definition on_transport_ack :: "LinkActivityWatchdogV1 \<Rightarrow> u64 \<Rightarrow> LinkActivityWatchdogV1" where
  "on_transport_ack w continuous_ns = w"

definition on_queued_callback :: "LinkActivityWatchdogV1 \<Rightarrow> u64 \<Rightarrow> LinkActivityWatchdogV1" where
  "on_queued_callback w continuous_ns = w"

definition on_clock :: "LinkActivityWatchdogV1 \<Rightarrow> u64 \<Rightarrow> LinkActivityStateV1 \<times> LinkActivityWatchdogV1" where
  "on_clock w continuous_ns =
     (if \<not> wd_clock_seen w
      then (wd_state w, w\<lparr>wd_last_activity_ns := continuous_ns, wd_clock_seen := True\<rparr>)
      else if wd_state w = LinkLive
      then let w1 = (if continuous_ns \<ge> wd_last_activity_ns w
                        \<and> continuous_ns - wd_last_activity_ns w \<ge> kLinkFreezeNsV1
                     then w\<lparr>wd_state := LinkFrozen, wd_freeze_ns := continuous_ns\<rparr> else w)
           in (wd_state w1, w1)
      else let w1 = (if wd_state w = LinkFrozen \<and> continuous_ns \<ge> wd_freeze_ns w
                        \<and> continuous_ns - wd_freeze_ns w \<ge> kReconnectDeadlineNsV1
                     then w\<lparr>wd_state := LinkReconnectExpired\<rparr> else w)
           in (wd_state w1, w1))"

definition wd_frozen :: "LinkActivityWatchdogV1 \<Rightarrow> bool" where
  "wd_frozen w = (wd_state w \<noteq> LinkLive)"

definition reconnect_expired :: "LinkActivityWatchdogV1 \<Rightarrow> bool" where
  "reconnect_expired w = (wd_state w = LinkReconnectExpired)"

datatype watchdog_call =
    PeerActivity u64 | PeerAck u64 | LocalSendComplete u64 | TransportAck u64 | QueuedCallback u64
  | Clock u64

fun watchdog_step :: "LinkActivityWatchdogV1 \<Rightarrow> watchdog_call \<Rightarrow> LinkActivityStateV1 \<times> LinkActivityWatchdogV1"
where
  "watchdog_step w (PeerActivity t) = (let w1 = on_verified_peer_activity w t in (wd_state w1, w1))"
| "watchdog_step w (PeerAck t) = (let w1 = on_authenticated_peer_ack w t in (wd_state w1, w1))"
| "watchdog_step w (LocalSendComplete t) = (let w1 = on_local_send_complete w t in (wd_state w1, w1))"
| "watchdog_step w (TransportAck t) = (let w1 = on_transport_ack w t in (wd_state w1, w1))"
| "watchdog_step w (QueuedCallback t) = (let w1 = on_queued_callback w t in (wd_state w1, w1))"
| "watchdog_step w (Clock t) = on_clock w t"

section \<open>Input sequence ledger\<close>

definition kLedgerSeatCountV1 :: nat where "kLedgerSeatCountV1 = 2"

datatype ReservationKindV1 = Res_Normal | Res_Prime | Res_Terminal | Res_AuthorityClear

record SeatLedgerV1 =
  seat_reserved_through :: u64
  seat_ledger_generation :: u64
  seat_last_reservation_hash :: bytes
  seat_consumed_through :: u64

record InputSequenceLedgerV1 =
  led_seats :: "SeatLedgerV1 list"
  led_granted :: bool
  led_closed :: bool
  led_aborted_prestart :: bool
  led_source_writer_alive :: bool
  led_repair_blocked :: bool
  led_ever_nonzero :: bool

definition zero_seat :: SeatLedgerV1 where
  "zero_seat = \<lparr>seat_reserved_through = 0, seat_ledger_generation = 0,
     seat_last_reservation_hash = replicate 32 0, seat_consumed_through = 0\<rparr>"

definition new_ledger :: InputSequenceLedgerV1 where
  "new_ledger = \<lparr>led_seats = replicate kLedgerSeatCountV1 zero_seat, led_granted = False,
     led_closed = False, led_aborted_prestart = False, led_source_writer_alive = True,
     led_repair_blocked = False, led_ever_nonzero = False\<rparr>"

definition reservation_hash :: "u8 \<Rightarrow> u64 \<Rightarrow> u64 \<Rightarrow> u64 \<Rightarrow> bytes \<Rightarrow> bytes" where
  "reservation_hash seat from through generation previous =
     domain_hash ''flynes-ledger-reservation-v1''
       (seat # store_be 8 from @ store_be 8 through @ store_be 8 generation @ previous)"

definition genesis :: "InputSequenceLedgerV1 \<Rightarrow> fly_session_result" where
  "genesis l = (if led_ever_nonzero l then FLY_INVALID_STATE else FLY_OK)"

definition expected_from :: "SeatLedgerV1 \<Rightarrow> u64" where
  "expected_from slot = (if seat_reserved_through slot = 0 then 1 else seat_reserved_through slot + 1)"

definition grant ::
  "InputSequenceLedgerV1 \<Rightarrow> u8 \<Rightarrow> u64 \<Rightarrow> u64 \<Rightarrow> ReservationKindV1
     \<Rightarrow> fly_session_result \<times> InputSequenceLedgerV1" where
  "grant l seat from_inclusive through_inclusive kind =
     (if unat seat \<ge> kLedgerSeatCountV1 \<or> from_inclusive = 0 \<or> through_inclusive < from_inclusive
      then (FLY_INVALID_ARGUMENT, l)
      else if led_repair_blocked l \<or> led_closed l \<or> \<not> led_source_writer_alive l
      then (FLY_INVALID_STATE, l)
      else
        let slot = led_seats l ! unat seat
        in if from_inclusive \<noteq> expected_from slot then (FLY_INVALID_STATE, l)
           else
             let next_generation = seat_ledger_generation slot + 1;
                 slot1 = slot\<lparr>seat_last_reservation_hash :=
                    reservation_hash seat from_inclusive through_inclusive next_generation
                      (seat_last_reservation_hash slot),
                    seat_reserved_through := through_inclusive,
                    seat_ledger_generation := next_generation\<rparr>
             in (FLY_OK, l\<lparr>led_seats := (led_seats l)[unat seat := slot1], led_granted := True,
                   led_ever_nonzero := True, led_aborted_prestart := False\<rparr>))"

definition consume :: "InputSequenceLedgerV1 \<Rightarrow> u8 \<Rightarrow> u64 \<Rightarrow> fly_session_result \<times> InputSequenceLedgerV1" where
  "consume l seat sequence =
     (if unat seat \<ge> kLedgerSeatCountV1 \<or> sequence = 0 then (FLY_INVALID_ARGUMENT, l)
      else if \<not> led_granted l \<or> led_closed l \<or> led_repair_blocked l then (FLY_INVALID_STATE, l)
      else
        let slot = led_seats l ! unat seat
        in if sequence \<le> seat_consumed_through slot \<or> sequence > seat_reserved_through slot
           then (FLY_INVALID_STATE, l)
           else (FLY_OK, l\<lparr>led_seats :=
                   (led_seats l)[unat seat := slot\<lparr>seat_consumed_through := sequence\<rparr>]\<rparr>))"

definition close_child :: "InputSequenceLedgerV1 \<Rightarrow> fly_session_result \<times> InputSequenceLedgerV1" where
  "close_child l =
     (if \<not> led_granted l \<or> led_closed l then (FLY_INVALID_STATE, l)
      else (FLY_OK, l\<lparr>led_seats := map (\<lambda>slot. slot\<lparr>seat_consumed_through := seat_reserved_through slot\<rparr>)
                        (led_seats l), led_closed := True\<rparr>))"

definition led_abort_prestart :: "InputSequenceLedgerV1 \<Rightarrow> fly_session_result \<times> InputSequenceLedgerV1" where
  "led_abort_prestart l =
     (if led_closed l \<or> led_repair_blocked l then (FLY_INVALID_STATE, l)
      else if list_ex (\<lambda>slot. seat_consumed_through slot \<noteq> 0) (led_seats l) then (FLY_INVALID_STATE, l)
      else (FLY_OK, l\<lparr>led_aborted_prestart := True, led_closed := True, led_granted := False\<rparr>))"

definition handoff_successor :: "InputSequenceLedgerV1 \<Rightarrow> fly_session_result \<times> InputSequenceLedgerV1" where
  "handoff_successor l =
     (if \<not> led_closed l then (FLY_INVALID_STATE, l)
      else (FLY_OK, l\<lparr>led_seats := map (\<lambda>slot. slot\<lparr>seat_ledger_generation := seat_ledger_generation slot + 1\<rparr>)
                        (led_seats l), led_closed := False, led_granted := False,
                      led_aborted_prestart := False\<rparr>))"

definition release_source_writer :: "InputSequenceLedgerV1 \<Rightarrow> fly_session_result \<times> InputSequenceLedgerV1" where
  "release_source_writer l = (FLY_OK, l\<lparr>led_source_writer_alive := False\<rparr>)"

definition reset_to_zero :: "InputSequenceLedgerV1 \<Rightarrow> fly_session_result" where
  "reset_to_zero l = (if led_ever_nonzero l then FLY_INVALID_STATE else FLY_OK)"

definition led_seat :: "InputSequenceLedgerV1 \<Rightarrow> u8 \<Rightarrow> SeatLedgerV1" where
  "led_seat l index = led_seats l ! (if unat index < kLedgerSeatCountV1 then unat index else 0)"

definition may_start :: "InputSequenceLedgerV1 \<Rightarrow> bool" where
  "may_start l = (led_source_writer_alive l \<and> \<not> led_closed l \<and> \<not> led_repair_blocked l
     \<and> \<not> led_aborted_prestart l \<and> led_granted l)"

datatype ledger_call =
    LGenesis | LGrant u8 u64 u64 ReservationKindV1 | LConsume u8 u64 | LClose | LAbort | LHandoff
  | LRelease | LReset

fun ledger_step :: "InputSequenceLedgerV1 \<Rightarrow> ledger_call \<Rightarrow> fly_session_result \<times> InputSequenceLedgerV1" where
  "ledger_step l LGenesis = (genesis l, l)"
| "ledger_step l (LGrant seat from through kind) = grant l seat from through kind"
| "ledger_step l (LConsume seat sequence) = consume l seat sequence"
| "ledger_step l LClose = close_child l"
| "ledger_step l LAbort = led_abort_prestart l"
| "ledger_step l LHandoff = handoff_successor l"
| "ledger_step l LRelease = release_source_writer l"
| "ledger_step l LReset = (reset_to_zero l, l)"

section \<open>Durable root store\<close>

datatype CrashPointV1 = Crash_None | BeforeFlush | AfterFlushBeforeCas | AfterCasBeforeAck

record RootViewV1 =
  root_revision :: u64
  root_hash :: bytes
  root_bytes :: bytes

record DurableRootStoreV1 =
  st_durable :: "bytes \<rightharpoonup> bytes"
  st_pending :: "bytes \<rightharpoonup> bytes"
  st_root :: "RootViewV1 option"
  st_crash :: CrashPointV1

definition new_store :: DurableRootStoreV1 where
  "new_store = \<lparr>st_durable = Map.empty, st_pending = Map.empty, st_root = None, st_crash = Crash_None\<rparr>"

definition put_immutable ::
  "DurableRootStoreV1 \<Rightarrow> bytes option \<Rightarrow> bool
     \<Rightarrow> (fly_session_result \<times> DurableRootStoreV1) \<times> bytes option" where
  "put_immutable s bytes out =
     (case bytes of
        None \<Rightarrow> ((FLY_INVALID_ARGUMENT, s), None)
      | Some bs \<Rightarrow>
          if \<not> out then ((FLY_INVALID_ARGUMENT, s), None)
          else ((FLY_OK, s\<lparr>st_pending := (st_pending s)(sha256 bs \<mapsto> bs)\<rparr>), Some (sha256 bs)))"

definition flush :: "DurableRootStoreV1 \<Rightarrow> fly_session_result \<times> DurableRootStoreV1" where
  "flush s =
     (if st_crash s = BeforeFlush then (FLY_UNAVAILABLE, s)
      else (FLY_OK, s\<lparr>st_durable := st_durable s ++ st_pending s, st_pending := Map.empty\<rparr>))"

definition cas_replace ::
  "DurableRootStoreV1 \<Rightarrow> u64 \<Rightarrow> bytes \<Rightarrow> bytes option \<Rightarrow> fly_session_result \<times> DurableRootStoreV1" where
  "cas_replace s expected_revision expected_hash new_bytes =
     (case new_bytes of
        None \<Rightarrow> (FLY_INVALID_ARGUMENT, s)
      | Some bs \<Rightarrow>
          if (case st_root s of
                Some r \<Rightarrow> root_revision r \<noteq> expected_revision \<or> root_hash r \<noteq> expected_hash
              | None \<Rightarrow> expected_revision \<noteq> 0) then (FLY_STALE, s)
          else
            let ((put, s1), new_hash) = put_immutable s (Some bs) True
            in if put \<noteq> FLY_OK then (put, s1)
               else
                 let (flushed, s2) = flush s1
                 in if flushed \<noteq> FLY_OK then (flushed, s2)
                    else if st_crash s2 = AfterFlushBeforeCas then (FLY_UNAVAILABLE, s2)
                    else (FLY_OK, s2\<lparr>st_root := Some
                           \<lparr>root_revision = (case st_root s2 of Some r \<Rightarrow> root_revision r + 1 | None \<Rightarrow> 1),
                            root_hash = the new_hash, root_bytes = bs\<rparr>\<rparr>))"

definition read_root :: "DurableRootStoreV1 \<Rightarrow> bool \<Rightarrow> fly_session_result + RootViewV1" where
  "read_root s out =
     (if \<not> out then Inl FLY_INVALID_ARGUMENT
      else case st_root s of None \<Rightarrow> Inl FLY_UNAVAILABLE | Some r \<Rightarrow> Inr r)"

definition read_object :: "DurableRootStoreV1 \<Rightarrow> bytes \<Rightarrow> bool \<Rightarrow> fly_session_result + bytes" where
  "read_object s hash out =
     (if \<not> out then Inl FLY_INVALID_ARGUMENT
      else case st_durable s hash of None \<Rightarrow> Inl FLY_UNAVAILABLE | Some b \<Rightarrow> Inr b)"

definition inject_crash :: "DurableRootStoreV1 \<Rightarrow> CrashPointV1 \<Rightarrow> DurableRootStoreV1" where
  "inject_crash s point = s\<lparr>st_crash := point\<rparr>"

definition st_restart :: "DurableRootStoreV1 \<Rightarrow> DurableRootStoreV1" where
  "st_restart s = s\<lparr>st_pending := Map.empty, st_crash := Crash_None\<rparr>"

definition st_revision :: "DurableRootStoreV1 \<Rightarrow> u64" where
  "st_revision s = (case st_root s of Some r \<Rightarrow> root_revision r | None \<Rightarrow> 0)"

definition has_root :: "DurableRootStoreV1 \<Rightarrow> bool" where
  "has_root s = (st_root s \<noteq> None)"

datatype store_call =
    PutImmutable "bytes option" bool | Flush | CasReplace u64 bytes "bytes option"
  | InjectCrash CrashPointV1 | Restart

fun store_step :: "DurableRootStoreV1 \<Rightarrow> store_call \<Rightarrow> fly_session_result \<times> DurableRootStoreV1" where
  "store_step s (PutImmutable bs out) = fst (put_immutable s bs out)"
| "store_step s Flush = flush s"
| "store_step s (CasReplace revision hash bs) = cas_replace s revision hash bs"
| "store_step s (InjectCrash point) = (FLY_OK, inject_crash s point)"
| "store_step s Restart = (FLY_OK, st_restart s)"

section \<open>Recovery reducer\<close>

datatype ChildPhaseV1 =
    Child_None | Child_Pending | Child_Active | Child_Frozen | Child_Ending | Child_Ended
  | Child_AbortedPrestart | Child_RepairBlocked

datatype ResumePhaseV1 =
    Resume_Idle | Resume_RouteOnly | Resume_TailPrelude | Resume_ReadRoot | Resume_Reconcile
  | Resume_Ready

record RecoveryReducerV1 =
  rec_store :: DurableRootStoreV1
  rec_ledger :: InputSequenceLedgerV1
  rec_watch :: LinkActivityWatchdogV1
  rec_local :: ChildPhaseV1
  rec_peer :: ChildPhaseV1
  rec_resume :: ResumePhaseV1
  rec_paused :: bool
  rec_prelude_complete :: bool
  rec_end_proof :: bool
  rec_close_proof :: bool
  rec_clock_generation :: u64
  rec_last_clock_ns :: u64
  rec_expected_root_revision :: u64
  rec_expected_root_hash :: bytes

definition new_reducer :: RecoveryReducerV1 where
  "new_reducer = \<lparr>rec_store = new_store, rec_ledger = new_ledger, rec_watch = new_watchdog,
     rec_local = Child_None, rec_peer = Child_None, rec_resume = Resume_Idle, rec_paused = False,
     rec_prelude_complete = False, rec_end_proof = False, rec_close_proof = False,
     rec_clock_generation = 1, rec_last_clock_ns = 0, rec_expected_root_revision = 0,
     rec_expected_root_hash = replicate 32 0\<rparr>"

definition merge_children :: "ChildPhaseV1 \<Rightarrow> ChildPhaseV1 \<Rightarrow> bool \<Rightarrow> ChildPhaseV1" where
  "merge_children local peer paused =
     (if paused \<and> local = Child_Active \<and> peer = Child_Active then Child_Active
      else if local = Child_RepairBlocked \<or> peer = Child_RepairBlocked then Child_RepairBlocked
      else if local = Child_None \<and> peer = Child_None then Child_None
      else if local = Child_None \<and> peer = Child_Pending then Child_Pending
      else if local = Child_None \<and> peer = Child_Active then Child_RepairBlocked
      else if (local = Child_Ended \<and> (peer = Child_Active \<or> peer = Child_Ending \<or> peer = Child_Ended))
           \<or> (peer = Child_Ended \<and> (local = Child_Active \<or> local = Child_Ending \<or> local = Child_Ended))
           then Child_Ended
      else if local = Child_Active \<and> peer = Child_Active then Child_Frozen
      else if local = Child_AbortedPrestart \<and> peer = Child_None then Child_None
      else if local = Child_Pending \<and> peer = Child_Ended then Child_RepairBlocked
      else if local = Child_Ended \<and> peer = Child_Pending then Child_RepairBlocked
      else local)"

definition genesis_link :: "RecoveryReducerV1 \<Rightarrow> fly_session_result \<times> RecoveryReducerV1" where
  "genesis_link r =
     (if genesis (rec_ledger r) \<noteq> FLY_OK then (genesis (rec_ledger r), r)
      else (FLY_OK, r\<lparr>rec_local := Child_None, rec_peer := Child_None, rec_resume := Resume_Idle,
              rec_paused := False, rec_prelude_complete := False, rec_end_proof := False,
              rec_close_proof := False\<rparr>))"

definition grant_and_start :: "RecoveryReducerV1 \<Rightarrow> fly_session_result \<times> RecoveryReducerV1" where
  "grant_and_start r =
     (if rec_local r = Child_Ended \<and> rec_end_proof r then (FLY_INVALID_STATE, r)
      else if \<not> led_source_writer_alive (rec_ledger r) then (FLY_INVALID_STATE, r)
      else
        let from0 = expected_from (led_seat (rec_ledger r) 0);
            from1 = expected_from (led_seat (rec_ledger r) 1);
            (granted0, ledger0) = grant (rec_ledger r) 0 from0 (from0 + 99) Res_Normal;
            r0 = r\<lparr>rec_ledger := ledger0\<rparr>
        in if granted0 \<noteq> FLY_OK then (granted0, r0)
           else
             let (granted1, ledger1) = grant (rec_ledger r0) 1 from1 (from1 + 99) Res_Normal;
                 r1 = r0\<lparr>rec_ledger := ledger1\<rparr>
             in if granted1 \<noteq> FLY_OK then (granted1, r1)
                else (FLY_OK, r1\<lparr>rec_local := Child_Active, rec_paused := False,
                        rec_end_proof := False\<rparr>))"

definition may_step :: "RecoveryReducerV1 \<Rightarrow> bool" where
  "may_step r = (rec_local r = Child_Active \<and> \<not> rec_paused r \<and> \<not> wd_frozen (rec_watch r)
     \<and> may_start (rec_ledger r))"

definition step_game :: "RecoveryReducerV1 \<Rightarrow> fly_session_result" where
  "step_game r = (if \<not> may_step r then FLY_INVALID_STATE else FLY_OK)"

definition request_stream :: "RecoveryReducerV1 \<Rightarrow> fly_session_result" where
  "request_stream r = FLY_UNAVAILABLE"

definition pause_game :: "RecoveryReducerV1 \<Rightarrow> fly_session_result \<times> RecoveryReducerV1" where
  "pause_game r =
     (if rec_local r \<noteq> Child_Active then (FLY_INVALID_STATE, r)
      else (FLY_OK, r\<lparr>rec_paused := True\<rparr>))"

definition end_game :: "RecoveryReducerV1 \<Rightarrow> fly_session_result \<times> RecoveryReducerV1" where
  "end_game r =
     (if rec_local r \<noteq> Child_Active \<and> rec_local r \<noteq> Child_Frozen then (FLY_INVALID_STATE, r)
      else
        let (closed, ledger1) = close_child (rec_ledger r);
            r1 = r\<lparr>rec_ledger := ledger1\<rparr>
        in if closed \<noteq> FLY_OK then (closed, r1)
           else
             let r2 = r1\<lparr>rec_close_proof := True, rec_end_proof := True, rec_local := Child_Ended,
                         rec_paused := False\<rparr>;
                 (released, ledger2) = release_source_writer (rec_ledger r2)
             in (released, r2\<lparr>rec_ledger := ledger2\<rparr>))"

definition export_user_save :: "RecoveryReducerV1 \<Rightarrow> fly_session_result" where
  "export_user_save r =
     (if \<not> rec_end_proof r \<or> \<not> rec_close_proof r \<or> rec_local r \<noteq> Child_Ended
      then FLY_INVALID_STATE else FLY_OK)"

definition close_then_handoff :: "RecoveryReducerV1 \<Rightarrow> fly_session_result \<times> RecoveryReducerV1" where
  "close_then_handoff r =
     (let (closed, r1) =
            (if \<not> led_closed (rec_ledger r)
             then let (closed, ledger1) = close_child (rec_ledger r)
                  in if closed \<noteq> FLY_OK then (closed, r\<lparr>rec_ledger := ledger1\<rparr>)
                     else (FLY_OK, r\<lparr>rec_ledger := ledger1, rec_close_proof := True\<rparr>)
             else (FLY_OK, r))
      in if closed \<noteq> FLY_OK then (closed, r1)
         else let (handed, ledger2) = handoff_successor (rec_ledger r1)
              in (handed, r1\<lparr>rec_ledger := ledger2\<rparr>))"

definition rec_abort_prestart :: "RecoveryReducerV1 \<Rightarrow> fly_session_result \<times> RecoveryReducerV1" where
  "rec_abort_prestart r =
     (let (aborted, ledger1) = led_abort_prestart (rec_ledger r);
          r1 = r\<lparr>rec_ledger := ledger1\<rparr>
      in if aborted \<noteq> FLY_OK then (aborted, r1)
         else (FLY_OK, r1\<lparr>rec_local := Child_AbortedPrestart\<rparr>))"

definition note_clock :: "RecoveryReducerV1 \<Rightarrow> u64 \<Rightarrow> fly_session_result \<times> RecoveryReducerV1" where
  "note_clock r continuous_ns =
     (let r1 = r\<lparr>rec_last_clock_ns := continuous_ns\<rparr>;
          (state, watch) = on_clock (rec_watch r1) continuous_ns;
          r2 = r1\<lparr>rec_watch := watch\<rparr>
      in (FLY_OK, if state \<noteq> LinkLive \<and> rec_local r2 = Child_Active
                  then r2\<lparr>rec_local := Child_Frozen\<rparr> else r2))"

definition reconnect ::
  "RecoveryReducerV1 \<Rightarrow> u64 \<Rightarrow> u64 \<Rightarrow> ChildPhaseV1 \<Rightarrow> fly_session_result \<times> RecoveryReducerV1" where
  "reconnect r now_ns clock_generation peer_phase =
     (let r1 = r\<lparr>rec_peer := peer_phase\<rparr>
      in if clock_generation \<noteq> rec_clock_generation r1 \<and> reconnect_expired (rec_watch r1)
         then (FLY_INVALID_STATE, r1)
         else
           let r2 = r1\<lparr>rec_resume := Resume_RouteOnly\<rparr>;
               needs_tail = (rec_local r2 \<in> {Child_Active, Child_Frozen, Child_Ending, Child_Ended}
                             \<or> peer_phase \<in> {Child_Active, Child_Ending, Child_Ended});
               r3 = (if needs_tail
                     then r2\<lparr>rec_resume := Resume_TailPrelude\<rparr>\<lparr>rec_prelude_complete := True\<rparr>
                            \<lparr>rec_resume := Resume_ReadRoot\<rparr>
                     else r2\<lparr>rec_prelude_complete := True\<rparr>);
               r4 = r3\<lparr>rec_resume := Resume_Reconcile\<rparr>;
               r5 = r4\<lparr>rec_local := merge_children (rec_local r4) peer_phase (rec_paused r4)\<rparr>
           in if rec_local r5 = Child_RepairBlocked then (FLY_OK, r5)
              else if rec_local r5 = Child_Frozen then (FLY_OK, r5)
              else (FLY_OK, r5\<lparr>rec_resume := Resume_Ready, rec_last_clock_ns := now_ns\<rparr>))"

definition publish_root ::
  "RecoveryReducerV1 \<Rightarrow> bytes option \<Rightarrow> CrashPointV1 \<Rightarrow> fly_session_result \<times> RecoveryReducerV1" where
  "publish_root r bytes crash =
     (let r1 = r\<lparr>rec_store := inject_crash (rec_store r) crash\<rparr>;
          (published, store2) = cas_replace (rec_store r1) (rec_expected_root_revision r1)
             (rec_expected_root_hash r1) bytes;
          r2 = r1\<lparr>rec_store := store2\<rparr>
      in if published \<noteq> FLY_OK then (published, r2)
         else case read_root (rec_store r2) True of
                Inl e \<Rightarrow> (e, r2)
              | Inr view \<Rightarrow> (FLY_OK, r2\<lparr>rec_expected_root_revision := root_revision view,
                                rec_expected_root_hash := root_hash view\<rparr>))"

definition cas_after_conflict :: "RecoveryReducerV1 \<Rightarrow> fly_session_result \<times> RecoveryReducerV1" where
  "cas_after_conflict r =
     (case read_root (rec_store r) True of
        Inl e \<Rightarrow> (e, r)
      | Inr view \<Rightarrow> (FLY_OK, r\<lparr>rec_expected_root_revision := root_revision view,
                        rec_expected_root_hash := root_hash view\<rparr>))"

text \<open>The calls of the reducer's owner; the public members receive theirs directly.\<close>

datatype recovery_call =
    RGenesisLink | RGrantAndStart | RPauseGame | REndGame | RCloseThenHandoff | RAbortPrestart
  | RNoteClock u64 | RReconnect u64 u64 ChildPhaseV1 | RPublishRoot "bytes option" CrashPointV1
  | RCasAfterConflict | RLedger ledger_call | RWatch watchdog_call | RStore store_call

fun recovery_step :: "RecoveryReducerV1 \<Rightarrow> recovery_call \<Rightarrow> fly_session_result \<times> RecoveryReducerV1" where
  "recovery_step r RGenesisLink = genesis_link r"
| "recovery_step r RGrantAndStart = grant_and_start r"
| "recovery_step r RPauseGame = pause_game r"
| "recovery_step r REndGame = end_game r"
| "recovery_step r RCloseThenHandoff = close_then_handoff r"
| "recovery_step r RAbortPrestart = rec_abort_prestart r"
| "recovery_step r (RNoteClock t) = note_clock r t"
| "recovery_step r (RReconnect t g p) = reconnect r t g p"
| "recovery_step r (RPublishRoot bs crash) = publish_root r bs crash"
| "recovery_step r RCasAfterConflict = cas_after_conflict r"
| "recovery_step r (RLedger c) =
     (let (res, l) = ledger_step (rec_ledger r) c in (res, r\<lparr>rec_ledger := l\<rparr>))"
| "recovery_step r (RWatch c) = (FLY_OK, r\<lparr>rec_watch := snd (watchdog_step (rec_watch r) c)\<rparr>)"
| "recovery_step r (RStore c) =
     (let (res, s) = store_step (rec_store r) c in (res, r\<lparr>rec_store := s\<rparr>))"

end
