(* ===== verification/Recovery_Properties.thy ===== *)
theory Recovery_Properties
  imports Recovery_Model
begin

unbundle bit_operations_syntax

text \<open>
  Properties of the recovery components: input sequences are never reused over the life of a parent
  link, the durable root changes only as a whole group, the reconnect deadline cannot be pushed
  back, and a link whose game has ended never steps again.
\<close>

section \<open>The ledger\<close>

definition ledger_inv :: "InputSequenceLedgerV1 \<Rightarrow> bool" where
  "ledger_inv l \<longleftrightarrow> length (led_seats l) = 2
     \<and> (\<forall>i<2. seat_consumed_through (led_seats l ! i) \<le> seat_reserved_through (led_seats l ! i))"

definition ledger_le :: "InputSequenceLedgerV1 \<Rightarrow> InputSequenceLedgerV1 \<Rightarrow> bool" where
  "ledger_le l k \<longleftrightarrow>
     (\<forall>i<2. seat_reserved_through (led_seats l ! i) \<le> seat_reserved_through (led_seats k ! i)
        \<and> seat_consumed_through (led_seats l ! i) \<le> seat_consumed_through (led_seats k ! i))
     \<and> (led_source_writer_alive k \<longrightarrow> led_source_writer_alive l)
     \<and> (led_ever_nonzero l \<longrightarrow> led_ever_nonzero k)"

lemma ledger_le_refl: "ledger_le l l"
  by (simp add: ledger_le_def)

lemma ledger_le_trans: "ledger_le l k \<Longrightarrow> ledger_le k m \<Longrightarrow> ledger_le l m"
  unfolding ledger_le_def by (meson order_trans)

lemma word_succ_gt:
  fixes r f :: "'a::len word"
  assumes "f = (if r = 0 then 1 else r + 1)" "f \<noteq> 0"
  shows "r < f" "unat f = unat r + 1"
proof -
  have "r + 1 \<noteq> 0" using assms by (auto split: if_splits)
  then have one: "unat (r + 1) = unat r + 1" using unatSuc [of r] by (simp add: add.commute)
  have f: "f = r + 1" using assms by (auto split: if_splits)
  show "unat f = unat r + 1" using f one by simp
  then show "r < f" by (simp add: word_less_nat_alt)
qed

lemma grant_ok:
  assumes "grant l seat from through kind = (FLY_OK, k)"
  shows "unat seat < 2" "unat from = unat (seat_reserved_through (led_seats l ! unat seat)) + 1"
    "from \<le> through" "led_source_writer_alive l"
    "\<exists>slot. led_seats k = (led_seats l)[unat seat := slot] \<and> seat_reserved_through slot = through
       \<and> seat_consumed_through slot = seat_consumed_through (led_seats l ! unat seat)"
    "led_source_writer_alive k" "led_ever_nonzero k"
  using assms word_succ_gt(2) [of "from" "seat_reserved_through (led_seats l ! unat seat)"]
  by (auto simp: grant_def Let_def kLedgerSeatCountV1_def expected_from_def not_le not_less split: if_splits)

lemma seat_update_ok:
  assumes "ledger_inv l" "led_seats k = (led_seats l)[n := slot]" "n < 2"
    "seat_consumed_through slot \<le> seat_reserved_through slot"
    "seat_reserved_through (led_seats l ! n) \<le> seat_reserved_through slot"
    "seat_consumed_through (led_seats l ! n) \<le> seat_consumed_through slot"
    "led_source_writer_alive k \<longrightarrow> led_source_writer_alive l" "led_ever_nonzero l \<longrightarrow> led_ever_nonzero k"
  shows "ledger_inv k \<and> ledger_le l k"
  using assms by (auto simp: ledger_inv_def ledger_le_def nth_list_update)

lemma grant_step:
  assumes "ledger_inv l"
  shows "ledger_inv (snd (grant l seat from through kind)) \<and> ledger_le l (snd (grant l seat from through kind))"
proof (cases "fst (grant l seat from through kind) = FLY_OK")
  case False
  then show ?thesis using assms by (auto simp: grant_def Let_def ledger_le_refl split: if_splits)
next
  case True
  let ?k = "snd (grant l seat from through kind)" and ?old = "led_seats l ! unat seat"
  have g: "grant l seat from through kind = (FLY_OK, ?k)" using True by (simp add: prod_eq_iff)
  note ok = grant_ok [OF g]
  from ok(5) obtain slot where slot: "led_seats ?k = (led_seats l)[unat seat := slot]"
    "seat_reserved_through slot = through" "seat_consumed_through slot = seat_consumed_through ?old" by blast
  have "seat_reserved_through ?old \<le> through"
    using ok(2,3) by (simp add: word_le_nat_alt)
  moreover have "seat_consumed_through ?old \<le> seat_reserved_through ?old"
    using assms ok(1) by (simp add: ledger_inv_def)
  ultimately show ?thesis using slot ok by (intro seat_update_ok [OF assms slot(1)]) auto
qed

lemma consume_step:
  assumes "ledger_inv l"
  shows "ledger_inv (snd (consume l seat q)) \<and> ledger_le l (snd (consume l seat q))"
proof (cases "fst (consume l seat q) = FLY_OK")
  case False
  then show ?thesis using assms by (auto simp: consume_def Let_def ledger_le_refl split: if_splits)
next
  case True
  then have "unat seat < 2" "seat_consumed_through (led_seats l ! unat seat) \<le> q"
    "q \<le> seat_reserved_through (led_seats l ! unat seat)"
    "led_seats (snd (consume l seat q))
       = (led_seats l)[unat seat := (led_seats l ! unat seat)\<lparr>seat_consumed_through := q\<rparr>]"
    "led_source_writer_alive (snd (consume l seat q)) = led_source_writer_alive l"
    "led_ever_nonzero (snd (consume l seat q)) = led_ever_nonzero l"
    by (auto simp: consume_def Let_def kLedgerSeatCountV1_def not_le not_less split: if_splits)
  then show ?thesis by (intro seat_update_ok [OF assms]) auto
qed

lemma ledger_step_ok:
  assumes "ledger_inv l"
  shows "ledger_inv (snd (ledger_step l c))" "ledger_le l (snd (ledger_step l c))"
proof -
  have "ledger_inv (snd (ledger_step l c)) \<and> ledger_le l (snd (ledger_step l c))"
    using assms grant_step [OF assms] consume_step [OF assms]
    by (cases c) (auto simp: ledger_le_refl close_child_def led_abort_prestart_def handoff_successor_def
        release_source_writer_def ledger_inv_def ledger_le_def)
  then show "ledger_inv (snd (ledger_step l c))" "ledger_le l (snd (ledger_step l c))" by blast+
qed

interpretation ledger: monotone_machine ledger_step "\<lambda>l c. True" ledger_inv ledger_le
  by unfold_locales (auto intro: ledger_step_ok ledger_le_refl ledger_le_trans)

lemma new_ledger_inv: "ledger_inv new_ledger"
  by (simp add: ledger_inv_def new_ledger_def zero_seat_def kLedgerSeatCountV1_def)

lemma consume_ok:
  assumes "fst (consume l seat q) = FLY_OK" "ledger_inv l"
  shows "unat seat < 2" "seat_consumed_through (led_seats l ! unat seat) < q"
    "seat_consumed_through (led_seats (snd (consume l seat q)) ! unat seat) = q"
  using assms
  by (auto simp: consume_def Let_def kLedgerSeatCountV1_def ledger_inv_def not_le not_less split: if_splits)

text \<open>
  C39: No input sequence is spent twice: over the whole life of a parent link, across grants, closing,
  aborting and handing over to a successor, two successful consumptions on the same seat carry
  strictly increasing sequence numbers.
\<close>
theorem consumed_sequences_increase:
  assumes "l1 = run_calls ledger_step new_ledger cs"
    "fst (consume l1 seat p) = FLY_OK"
    "l2 = run_calls ledger_step (snd (consume l1 seat p)) ds"
    "fst (consume l2 seat q) = FLY_OK"
  shows "p < q"
proof -
  have l1: "ledger_inv l1" unfolding assms(1) by (rule ledger.run_inv [OF new_ledger_inv]) simp
  have mid: "ledger_inv (snd (consume l1 seat p))" using consume_step [OF l1] by blast
  note a = consume_ok [OF assms(2) l1]
  have "ledger_inv l2" unfolding assms(3) by (rule ledger.run_inv [OF mid]) simp
  note b = consume_ok [OF assms(4) this]
  have "ledger_le (snd (consume l1 seat p)) l2" unfolding assms(3) by (rule ledger.run_le [OF mid]) simp
  then show ?thesis using a(1,3) b(2) unfolding ledger_le_def by fastforce
qed

theorem consumed_sequences_increase_witness:
  "let l = run_calls ledger_step new_ledger [LGrant 0 1 10 Res_Normal] in
   fst (consume l 0 3) = FLY_OK
   \<and> fst (consume (run_calls ledger_step (snd (consume l 0 3)) [LConsume 0 5]) 0 7) = FLY_OK \<and> (3 :: u64) < 7"
proof -
  let ?l = "run_calls ledger_step new_ledger [LGrant 0 1 10 Res_Normal]"
  have a: "fst (consume ?l 0 3) = FLY_OK"
    "fst (consume (run_calls ledger_step (snd (consume ?l 0 3)) [LConsume 0 5]) 0 7) = FLY_OK"
    by (simp_all add: grant_def consume_def new_ledger_def zero_seat_def kLedgerSeatCountV1_def
        expected_from_def Let_def)
  then show ?thesis using consumed_sequences_increase [OF refl a(1) refl a(2)] by (simp only: Let_def simp_thms)
qed

text \<open>
  Reserved intervals never overlap: of two successful grants on one seat, whatever happens in
  between, the later one starts above the end of the earlier one, and each starts directly above
  what is reserved when it is made.
\<close>
theorem granted_intervals_disjoint:
  assumes "l1 = run_calls ledger_step new_ledger cs"
    "grant l1 seat from1 through1 kind1 = (FLY_OK, l2)"
    "l3 = run_calls ledger_step l2 ds"
    "grant l3 seat from2 through2 kind2 = (FLY_OK, l4)"
  shows "from1 \<le> through1 \<and> through1 < from2 \<and> from2 \<le> through2
     \<and> unat from2 = unat (seat_reserved_through (led_seats l3 ! unat seat)) + 1"
proof -
  have l1: "ledger_inv l1" unfolding assms(1) by (rule ledger.run_inv [OF new_ledger_inv]) simp
  have l2: "ledger_inv l2" using grant_step [OF l1, of seat from1 through1 kind1] assms(2) by simp
  note a = grant_ok [OF assms(2)] and b = grant_ok [OF assms(4)]
  have "seat_reserved_through (led_seats l2 ! unat seat) = through1"
    using a(1,5) l1 by (auto simp: ledger_inv_def)
  moreover have "ledger_le l2 l3" unfolding assms(3) by (rule ledger.run_le [OF l2]) simp
  ultimately have "through1 \<le> seat_reserved_through (led_seats l3 ! unat seat)"
    using a(1) by (auto simp: ledger_le_def)
  then show ?thesis using a(3) b(2,3) by (simp add: word_le_nat_alt word_less_nat_alt)
qed

theorem granted_intervals_disjoint_witness:
  "let l2 = snd (grant new_ledger 0 1 10 Res_Normal);
     l4 = snd (grant (run_calls ledger_step l2 [LConsume 0 4]) 0 11 20 Res_Prime) in
   seat_reserved_through (led_seats l4 ! 0) = 20 \<and> (10 :: u64) < 11"
proof -
  define l2 where "l2 = snd (grant new_ledger 0 1 10 Res_Normal)"
  have a: "grant new_ledger 0 1 10 Res_Normal = (FLY_OK, l2)"
    by (simp add: l2_def grant_def new_ledger_def zero_seat_def kLedgerSeatCountV1_def expected_from_def Let_def)
  have b: "fst (grant (run_calls ledger_step l2 [LConsume 0 4]) 0 11 20 Res_Prime) = FLY_OK"
    by (simp add: l2_def grant_def consume_def new_ledger_def zero_seat_def kLedgerSeatCountV1_def
        expected_from_def Let_def)
  have "run_calls ledger_step new_ledger [] = new_ledger" by simp
  from granted_intervals_disjoint [OF this [symmetric] a refl, of "[LConsume 0 4]" 11 20 Res_Prime
      "snd (grant (run_calls ledger_step l2 [LConsume 0 4]) 0 11 20 Res_Prime)"] b
  have "(10 :: u64) < 11" by (simp add: prod_eq_iff)
  moreover have "seat_reserved_through (led_seats (snd (grant (run_calls ledger_step l2 [LConsume 0 4])
      0 11 20 Res_Prime)) ! 0) = 20"
    by (simp add: l2_def grant_def consume_def new_ledger_def zero_seat_def kLedgerSeatCountV1_def
        expected_from_def Let_def)
  ultimately show ?thesis unfolding Let_def l2_def by blast
qed

section \<open>The durable root\<close>

definition store_inv :: "DurableRootStoreV1 \<Rightarrow> bool" where
  "store_inv s \<longleftrightarrow>
     (\<forall>h b. st_durable s h = Some b \<longrightarrow> sha256 b = h) \<and> (\<forall>h b. st_pending s h = Some b \<longrightarrow> sha256 b = h)
     \<and> (\<forall>r. st_root s = Some r \<longrightarrow> root_hash r = sha256 (root_bytes r) \<and> root_hash r \<in> dom (st_durable s))"

lemma put_inv: "store_inv s \<Longrightarrow> store_inv (snd (fst (put_immutable s bs out)))"
  by (auto simp: put_immutable_def store_inv_def split: option.split)

lemma flush_inv: "store_inv s \<Longrightarrow> store_inv (snd (flush s))"
  by (auto simp: flush_def store_inv_def map_add_Some_iff)

definition expectation_met :: "DurableRootStoreV1 \<Rightarrow> u64 \<Rightarrow> bytes \<Rightarrow> bool" where
  "expectation_met s revision hash \<longleftrightarrow>
     (case st_root s of Some r \<Rightarrow> root_revision r = revision \<and> root_hash r = hash | None \<Rightarrow> revision = 0)"

lemma cas_cases:
  obtains (refused) "fst (cas_replace s revision hash new_bytes) \<noteq> FLY_OK"
      "snd (cas_replace s revision hash new_bytes) = s"
  | (crashed) bs where "new_bytes = Some bs" "expectation_met s revision hash"
      "st_crash s \<in> {BeforeFlush, AfterFlushBeforeCas}"
      "fst (cas_replace s revision hash new_bytes) = FLY_UNAVAILABLE"
      "snd (cas_replace s revision hash new_bytes) = snd (flush (snd (fst (put_immutable s (Some bs) True))))"
  | (replaced) bs where "new_bytes = Some bs" "expectation_met s revision hash"
      "st_crash s \<notin> {BeforeFlush, AfterFlushBeforeCas}"
      "fst (cas_replace s revision hash new_bytes) = FLY_OK"
      "snd (cas_replace s revision hash new_bytes) =
         (snd (flush (snd (fst (put_immutable s (Some bs) True)))))
           \<lparr>st_root := Some \<lparr>root_revision = st_revision s + 1, root_hash = sha256 bs, root_bytes = bs\<rparr>\<rparr>"
proof (cases new_bytes)
  case None
  then show thesis using refused by (simp add: cas_replace_def)
next
  case (Some bs)
  show thesis
  proof (cases "expectation_met s revision hash")
    case False
    then show thesis using refused Some
      by (auto simp: cas_replace_def expectation_met_def split: option.splits if_splits)
  next
    case True
    then have go: "\<not> (case st_root s of Some r \<Rightarrow> root_revision r \<noteq> revision \<or> root_hash r \<noteq> hash
        | None \<Rightarrow> revision \<noteq> 0)" by (auto simp: expectation_met_def split: option.splits)
    show thesis
    proof (cases "st_crash s \<in> {BeforeFlush, AfterFlushBeforeCas}")
      case crash: True
      then show thesis using Some True go
        by (intro crashed) (auto simp: cas_replace_def put_immutable_def flush_def Let_def)
    next
      case ok: False
      then show thesis using Some True go
        by (intro replaced)
          (auto simp: cas_replace_def put_immutable_def flush_def Let_def st_revision_def split: option.split)
    qed
  qed
qed

lemma store_inv_root:
  "\<lbrakk>store_inv s; h = sha256 b; h \<in> dom (st_durable s)\<rbrakk> \<Longrightarrow>
     store_inv (s\<lparr>st_root := Some \<lparr>root_revision = n, root_hash = h, root_bytes = b\<rparr>\<rparr>)"
  by (simp add: store_inv_def)

lemma crash_restart_inv: "store_inv s \<Longrightarrow> store_inv (inject_crash s point)" "store_inv s \<Longrightarrow> store_inv (st_restart s)"
  unfolding store_inv_def inject_crash_def st_restart_def by (simp; metis)+

lemma cas_inv:
  assumes "store_inv s" shows "store_inv (snd (cas_replace s revision hash new_bytes))"
proof (cases rule: cas_cases [of s revision hash new_bytes])
  case refused
  then show ?thesis using assms by simp
next
  case (crashed bs)
  then show ?thesis using flush_inv [OF put_inv [OF assms]] by simp
next
  case (replaced bs)
  let ?s = "snd (flush (snd (fst (put_immutable s (Some bs) True))))"
  have inv: "store_inv ?s" using flush_inv [OF put_inv [OF assms]] by simp
  have "st_durable ?s (sha256 bs) = Some bs"
    using replaced(3) by (simp add: put_immutable_def flush_def)
  then show ?thesis unfolding replaced(5) by (intro store_inv_root [OF inv refl]) (rule domI)
qed

interpretation root_store: guarded_machine store_step "\<lambda>s c. True" store_inv
proof
  fix s c assume "store_inv s"
  then show "store_inv (snd (store_step s c))"
    by (cases c) (simp_all add: put_inv flush_inv cas_inv crash_restart_inv)
qed

text \<open>
  C40: The store is content addressed and the published root is never torn: after any sequence of puts,
  flushes, compare-and-swap publications, injected crashes and restarts, every durable object is
  stored under its own SHA-256, and the root's revision comes with bytes that hash to the root hash
  and with a durable object under that hash.
\<close>
theorem root_never_torn:
  assumes "s = run_calls store_step new_store cs" "read_root s True = Inr view"
  shows "root_hash view = sha256 (root_bytes view)
    \<and> (\<exists>b. read_object s (root_hash view) True = Inr b \<and> sha256 b = root_hash view)"
proof -
  have "store_inv new_store" by (simp add: store_inv_def new_store_def)
  then have inv: "store_inv s" unfolding assms(1) by (rule root_store.run_inv) simp
  have "st_root s = Some view" using assms(2) by (simp add: read_root_def split: option.splits)
  then have "root_hash view = sha256 (root_bytes view)" "root_hash view \<in> dom (st_durable s)"
    using inv by (auto simp: store_inv_def)
  then show ?thesis using inv unfolding store_inv_def by (auto simp: read_object_def)
qed

theorem root_never_torn_witness:
  "\<exists>view. read_root (run_calls store_step new_store [CasReplace 0 [] (Some [1, 2])]) True = Inr view
     \<and> root_hash view = sha256 (root_bytes view) \<and> root_bytes view = [1, 2]"
proof -
  let ?s = "run_calls store_step new_store [CasReplace 0 [] (Some [1, 2])]"
  have "read_root ?s True = Inr \<lparr>root_revision = 1, root_hash = sha256 [1, 2], root_bytes = [1, 2]\<rparr>"
    by (simp add: new_store_def cas_replace_def put_immutable_def flush_def read_root_def Let_def)
  with root_never_torn [OF refl this] show ?thesis by auto
qed

text \<open>
  Publishing a root is all or nothing: it succeeds only if the caller's revision and hash are the
  current ones, and then the root is the new bytes, their hash and the next revision; on every other
  result, crashes included, the root after a restart is exactly the root before the call.
\<close>
theorem cas_all_or_nothing:
  "case cas_replace s revision hash new_bytes of (result, t) \<Rightarrow>
     (result = FLY_OK \<longrightarrow> expectation_met s revision hash \<and> (\<exists>bs. new_bytes = Some bs
        \<and> st_root t = Some \<lparr>root_revision = st_revision s + 1, root_hash = sha256 bs, root_bytes = bs\<rparr>))
     \<and> (result \<noteq> FLY_OK \<longrightarrow> st_root (st_restart t) = st_root s)
     \<and> (new_bytes \<noteq> None \<longrightarrow> expectation_met s revision hash
          \<longrightarrow> st_crash s \<in> {Crash_None, AfterCasBeforeAck} \<longrightarrow> result = FLY_OK)"
proof (cases rule: cas_cases [of s revision hash new_bytes])
  case refused
  then have "\<not> (new_bytes \<noteq> None \<and> expectation_met s revision hash)
      \<or> st_crash s \<notin> {Crash_None, AfterCasBeforeAck}"
    by (auto simp: cas_replace_def expectation_met_def put_immutable_def flush_def Let_def
        split: option.splits if_splits)
  then show ?thesis using refused by (auto simp: st_restart_def split: prod.split)
next
  case (crashed bs)
  then have "st_root (snd (cas_replace s revision hash new_bytes)) = st_root s"
    by (simp add: put_immutable_def flush_def)
  then show ?thesis using crashed by (auto simp: st_restart_def split: prod.split)
next
  case (replaced bs)
  then show ?thesis by (auto split: prod.split)
qed

theorem cas_all_or_nothing_witness:
  "st_root (st_restart (snd (cas_replace (inject_crash new_store AfterFlushBeforeCas) 0 [] (Some [1])))) = None"
proof -
  have "fst (cas_replace (inject_crash new_store AfterFlushBeforeCas) 0 [] (Some [1])) \<noteq> FLY_OK"
    by (simp add: new_store_def inject_crash_def cas_replace_def put_immutable_def flush_def Let_def)
  then show ?thesis
    using cas_all_or_nothing [of "inject_crash new_store AfterFlushBeforeCas" 0 "[]" "Some [1]"]
    by (auto simp: new_store_def inject_crash_def split: prod.splits)
qed

text \<open>
  One winner per revision: of two writers that publish against the same observed revision and hash,
  the second is refused as stale and its bytes never become the root.
\<close>
theorem cas_one_winner:
  assumes "cas_replace s revision hash new1 = (FLY_OK, t)"
  shows "cas_replace t revision hash (Some bs) = (FLY_STALE, t)"
proof (cases rule: cas_cases [of s revision hash new1])
  case refused
  then show ?thesis using assms by simp
next
  case (crashed bs)
  then show ?thesis using assms by simp
next
  case (replaced bs1)
  then have "st_revision s = revision" "root_revision (the (st_root t)) = st_revision s + 1" "st_root t \<noteq> None"
    using assms by (auto simp: expectation_met_def st_revision_def split: option.splits)
  then show ?thesis by (auto simp: cas_replace_def split: option.split)
qed

theorem cas_one_winner_witness:
  "let t = snd (cas_replace new_store 0 [] (Some [1])) in cas_replace t 0 [] (Some [2]) = (FLY_STALE, t)"
proof -
  have "cas_replace new_store 0 [] (Some [1]) = (FLY_OK, snd (cas_replace new_store 0 [] (Some [1])))"
    by (simp add: new_store_def cas_replace_def put_immutable_def flush_def Let_def)
  from cas_one_winner [OF this] show ?thesis unfolding Let_def .
qed

section \<open>The watchdog\<close>

text \<open>A watchdog that froze at \<open>f\<close> stays frozen since \<open>f\<close> or has expired.\<close>

definition frozen_since :: "u64 \<Rightarrow> LinkActivityWatchdogV1 \<Rightarrow> bool" where
  "frozen_since f w \<longleftrightarrow> wd_clock_seen w
     \<and> (wd_state w = LinkFrozen \<and> wd_freeze_ns w = f \<or> wd_state w = LinkReconnectExpired)"

interpretation frozen_watch: guarded_machine watchdog_step "\<lambda>w c. True" "frozen_since f" for f
proof
  fix w c assume "frozen_since f w"
  then show "frozen_since f (snd (watchdog_step w c))"
    by (cases c) (auto simp: frozen_since_def on_verified_peer_activity_def on_authenticated_peer_ack_def
        on_local_send_complete_def on_transport_ack_def on_queued_callback_def refresh_def on_clock_def Let_def)
qed

lemma deadline_passed:
  fixes f t :: u64
  assumes "unat f + 30000000000 \<le> unat t"
  shows "f \<le> t" "kReconnectDeadlineNsV1 \<le> t - f"
proof -
  show le: "f \<le> t" using assms by (simp add: word_le_nat_alt)
  have "unat (t - f) = unat t - unat f" using le by (rule unat_sub)
  then show "kReconnectDeadlineNsV1 \<le> t - f"
    using assms by (simp add: kReconnectDeadlineNsV1_def word_le_nat_alt)
qed

text \<open>
  C39: The reconnect deadline cannot be extended: once the clock froze the link at time \<open>f\<close>, no peer
  activity, acknowledgement, local send, transport acknowledgement or queued callback unfreezes it
  or moves the deadline; the first clock reading thirty seconds after the freeze expires it, and
  expiry is permanent.
\<close>
theorem reconnect_deadline_fixed:
  assumes "on_clock w f = (LinkFrozen, w0)" "wd_state w = LinkLive" "w1 = run_calls watchdog_step w0 cs"
  shows "wd_frozen w1
     \<and> (unat f + 30000000000 \<le> unat t \<longrightarrow> fst (on_clock w1 t) = LinkReconnectExpired)
     \<and> (reconnect_expired w1 \<longrightarrow> reconnect_expired (run_calls watchdog_step w1 ds))"
proof -
  have "frozen_since f w0"
    using assms(1,2) by (auto simp: on_clock_def frozen_since_def Let_def split: if_splits)
  then have w1: "frozen_since f w1" unfolding assms(3) by (rule frozen_watch.run_inv) simp
  have "reconnect_expired (snd (watchdog_step v c))" if "reconnect_expired v" for v c
    using that by (cases c) (auto simp: reconnect_expired_def on_verified_peer_activity_def
        on_authenticated_peer_ack_def on_local_send_complete_def on_transport_ack_def
        on_queued_callback_def refresh_def on_clock_def Let_def)
  then have "reconnect_expired w1 \<Longrightarrow> reconnect_expired (run_calls watchdog_step w1 ds)"
    by (induction ds arbitrary: w1) auto
  moreover have "fst (on_clock w1 t) = LinkReconnectExpired" if "unat f + 30000000000 \<le> unat t"
    using w1 deadline_passed [OF that] by (auto simp: frozen_since_def on_clock_def Let_def)
  ultimately show ?thesis using w1 by (auto simp: frozen_since_def wd_frozen_def)
qed

theorem reconnect_deadline_fixed_witness:
  "let w1 = run_calls watchdog_step (snd (on_clock (wd_reset new_watchdog 0) 300000000)) [PeerActivity 400000000]
   in wd_frozen w1 \<and> fst (on_clock w1 40000000000) = LinkReconnectExpired"
proof -
  have a: "on_clock (wd_reset new_watchdog 0) 300000000
      = (LinkFrozen, snd (on_clock (wd_reset new_watchdog 0) 300000000))"
    "wd_state (wd_reset new_watchdog 0) = LinkLive" by code_simp+
  have b: "unat (300000000 :: u64) + 30000000000 \<le> unat (40000000000 :: u64)" by simp
  show ?thesis unfolding Let_def
    using reconnect_deadline_fixed [OF a refl, of "[PeerActivity 400000000]" 40000000000 "[]"] b by blast
qed

text \<open>
  The link freezes exactly at 300 ms of silence: a running watchdog is frozen by a clock reading at
  least 300 ms after the last authenticated peer activity, and by no earlier one.
\<close>
theorem freezes_after_silence:
  assumes "wd_clock_seen w" "wd_state w = LinkLive"
  shows "fst (on_clock w t) = LinkFrozen \<longleftrightarrow> unat (wd_last_activity_ns w) + 300000000 \<le> unat t"
proof -
  let ?l = "wd_last_activity_ns w"
  have "(?l \<le> t \<and> kLinkFreezeNsV1 \<le> t - ?l) \<longleftrightarrow> unat ?l + 300000000 \<le> unat t"
  proof (cases "?l \<le> t")
    case True
    then have "unat (t - ?l) = unat t - unat ?l" by (rule unat_sub)
    then show ?thesis using True by (auto simp: kLinkFreezeNsV1_def word_le_nat_alt)
  next
    case False
    then show ?thesis by (simp add: word_le_nat_alt)
  qed
  then show ?thesis using assms by (auto simp: on_clock_def Let_def)
qed

theorem freezes_after_silence_witness:
  "fst (on_clock (wd_reset new_watchdog 5) 300000004) \<noteq> LinkFrozen
   \<and> fst (on_clock (wd_reset new_watchdog 5) 300000005) = LinkFrozen"
  using freezes_after_silence [of "wd_reset new_watchdog 5" 300000004]
    freezes_after_silence [of "wd_reset new_watchdog 5" 300000005] by (simp add: wd_reset_def)

section \<open>The reducer\<close>

text \<open>The writer of a parent link is released once and never comes back.\<close>

definition writer_gone :: "RecoveryReducerV1 \<Rightarrow> bool" where
  "writer_gone r \<longleftrightarrow> ledger_inv (rec_ledger r) \<and> \<not> led_source_writer_alive (rec_ledger r)"

lemma ledger_writer_gone:
  assumes "ledger_inv l" "\<not> led_source_writer_alive l"
  shows "ledger_inv (snd (ledger_step l c))" "\<not> led_source_writer_alive (snd (ledger_step l c))"
  using ledger_step_ok [OF assms(1)] assms(2) by (auto simp: ledger_le_def)

lemmas writer_gone_calls =
  ledger_writer_gone [where c = LClose, simplified] ledger_writer_gone [where c = LAbort, simplified]
  ledger_writer_gone [where c = LHandoff, simplified] ledger_writer_gone [where c = LRelease, simplified]

interpretation ended: guarded_machine recovery_step "\<lambda>r c. True" writer_gone
proof
  fix r c assume r: "writer_gone r"
  then have l: "ledger_inv (rec_ledger r)" "\<not> led_source_writer_alive (rec_ledger r)"
    by (simp_all add: writer_gone_def)
  note close = writer_gone_calls(1,2) [OF l] and abort = writer_gone_calls(3,4) [OF l]
  note hand = writer_gone_calls(5,6)
  show "writer_gone (snd (recovery_step r c))"
  proof (cases c)
    case RCloseThenHandoff
    show ?thesis
      using RCloseThenHandoff l close hand [OF l] hand [OF close]
      by (auto simp: close_then_handoff_def writer_gone_def Let_def split: prod.splits if_splits
          dest: arg_cong [of _ _ snd])
  next
    case (RLedger k)
    then show ?thesis using ledger_writer_gone [OF l, of k]
      by (auto simp: writer_gone_def split: prod.split)
  qed (use l close abort writer_gone_calls(7,8) in \<open>auto simp: writer_gone_def genesis_link_def grant_and_start_def
      pause_game_def end_game_def rec_abort_prestart_def note_clock_def reconnect_def publish_root_def
      cas_after_conflict_def release_source_writer_def Let_def ledger_inv_def
      split: prod.splits sum.splits if_splits dest: arg_cong [of _ _ snd]\<close>)
qed


text \<open>
  C40: A finished game stays finished: once \<open>end_game\<close> has succeeded, no sequence of later calls (new
  grants, hand-overs, reconnects, root publications, clock and peer events) makes \<open>step_game\<close> or
  \<open>grant_and_start\<close> succeed again on that link, and right after the end the save can be exported.
\<close>
theorem ended_game_never_steps:
  assumes "ledger_inv (rec_ledger r)" "end_game r = (FLY_OK, r1)" "r2 = run_calls recovery_step r1 cs"
  shows "export_user_save r1 = FLY_OK \<and> step_game r2 = FLY_INVALID_STATE
     \<and> fst (grant_and_start r2) = FLY_INVALID_STATE"
proof -
  have fin: "\<not> led_source_writer_alive (rec_ledger r1)" "ledger_inv (rec_ledger r1)"
    "export_user_save r1 = FLY_OK"
    using assms(1,2) ledger_step_ok(1) [OF assms(1), of LClose]
    by (auto simp: end_game_def release_source_writer_def close_child_def export_user_save_def
        ledger_inv_def Let_def split: if_splits prod.splits)
  then have "writer_gone r1" by (simp add: writer_gone_def)
  then have "writer_gone r2" unfolding assms(3) by (rule ended.run_inv) simp
  then show ?thesis
    using fin(3) by (simp add: writer_gone_def step_game_def may_step_def may_start_def grant_and_start_def)
qed

theorem ended_game_never_steps_witness:
  "let r1 = snd (end_game (snd (grant_and_start new_reducer))) in
   export_user_save r1 = FLY_OK \<and>
   step_game (run_calls recovery_step r1 [RCloseThenHandoff, RGrantAndStart]) = FLY_INVALID_STATE"
proof -
  let ?r = "snd (grant_and_start new_reducer)"
  have "end_game ?r = (FLY_OK, snd (end_game ?r))"
    by (simp add: grant_and_start_def new_reducer_def grant_def new_ledger_def zero_seat_def led_seat_def
        kLedgerSeatCountV1_def expected_from_def end_game_def close_child_def release_source_writer_def Let_def)
  moreover have "ledger_inv (rec_ledger ?r)"
    by (simp add: grant_and_start_def new_reducer_def grant_def new_ledger_def zero_seat_def led_seat_def
        kLedgerSeatCountV1_def expected_from_def ledger_inv_def Let_def nth_list_update less_2_cases_iff)
  ultimately show ?thesis unfolding Let_def using ended_game_never_steps by blast
qed

text \<open>
  C38: Stepping needs a live link: while the watchdog is frozen, \<open>step_game\<close> is refused, a clock reading
  that freezes the link freezes an active child, and no reconnect lifts the freeze of the watchdog.
\<close>
theorem frozen_link_blocks_stepping:
  "(wd_frozen (rec_watch r) \<longrightarrow> step_game r = FLY_INVALID_STATE)
   \<and> rec_watch (snd (reconnect r now generation peer)) = rec_watch r
   \<and> (wd_frozen (rec_watch (snd (note_clock r now))) \<longrightarrow> rec_local (snd (note_clock r now)) \<noteq> Child_Active)"
proof -
  have "fst (on_clock w t) = wd_state (snd (on_clock w t))" for w t
    by (auto simp: on_clock_def Let_def)
  then show ?thesis
    by (auto simp: step_game_def may_step_def reconnect_def note_clock_def wd_frozen_def Let_def
        split: prod.splits dest: arg_cong [of _ _ fst]) (metis fst_conv snd_conv)+
qed

theorem frozen_link_blocks_stepping_witness:
  "step_game (new_reducer\<lparr>rec_watch := new_watchdog\<lparr>wd_state := LinkFrozen\<rparr>\<rparr>) = FLY_INVALID_STATE"
  using frozen_link_blocks_stepping [of "new_reducer\<lparr>rec_watch := new_watchdog\<lparr>wd_state := LinkFrozen\<rparr>\<rparr>"]
  by (simp add: wd_frozen_def)

text \<open>
  What both ends make of a pair of phases: with neither side paused, the two ends of a link that merge
  the same two phases reach the same phase exactly for equal phases, for pairs with a blocked end, and
  for five mixed pairs (in either order). In particular an active end and an end with no child do not agree: the first stays active,
  the second is blocked for repair.
\<close>
theorem merge_children_agreement:
  "merge_children a b False = merge_children b a False \<longleftrightarrow>
     a = b \<or> a = Child_RepairBlocked \<or> b = Child_RepairBlocked
     \<or> {a, b} \<in> {{Child_None, Child_Pending}, {Child_None, Child_AbortedPrestart},
          {Child_Pending, Child_Ended}, {Child_Active, Child_Ended}, {Child_Ending, Child_Ended}}"
  by (cases a; cases b; simp add: merge_children_def doubleton_eq_iff)

end
