(* ===== verification/Lan_Wire.thy ===== *)
theory Lan_Wire
  imports Fly_Prelude "HOL-Library.Sublist"
begin

unbundle bit_operations_syntax

text \<open>
  Message framing of the local two-player session, \<^verbatim>\<open>shared/src/session/lan_mvp/wire.{hpp,cpp}\<close>:
  a two-byte body length, a kind byte and the payload, decoded from a byte stream that arrives in
  arbitrary pieces. Every byte is a legal value of the kind's underlying type, so a message carries
  the kind byte. \<open>pop\<close> returns its result, the message it wrote (if any) and the decoder.
\<close>

definition kMaxBodySize :: nat where "kMaxBodySize = 1024"

datatype Kind =
    Kind_Join | Kind_Accept | Kind_Config | Kind_Ready | Kind_Start | Kind_Input | Kind_Digest
  | Kind_End | Kind_LobbyRequest | Kind_Lobby | Kind_LobbyAck | Kind_Pause

fun kind_byte :: "Kind \<Rightarrow> u8" where
  "kind_byte Kind_Join = 1"
| "kind_byte Kind_Accept = 2"
| "kind_byte Kind_Config = 3"
| "kind_byte Kind_Ready = 4"
| "kind_byte Kind_Start = 5"
| "kind_byte Kind_Input = 6"
| "kind_byte Kind_Digest = 7"
| "kind_byte Kind_End = 8"
| "kind_byte Kind_LobbyRequest = 9"
| "kind_byte Kind_Lobby = 10"
| "kind_byte Kind_LobbyAck = 11"
| "kind_byte Kind_Pause = 12"

record Message =
  msg_kind :: u8
  msg_payload :: bytes

record Decoder =
  dec_bytes :: bytes
  dec_failed :: bool

definition new_decoder :: Decoder where
  "new_decoder = \<lparr>dec_bytes = [], dec_failed = False\<rparr>"

definition encode :: "bool \<Rightarrow> u8 \<Rightarrow> bytes \<Rightarrow> bytes option" where
  "encode out kind payload =
     (if \<not> out \<or> length payload + 1 > kMaxBodySize \<or> length payload + 1 > 65535 then None
      else let body_size = length payload + 1
           in Some ([of_nat (body_size div 256), of_nat (body_size mod 256), kind] @ payload))"

definition body_size_at :: "bytes \<Rightarrow> nat" where
  "body_size_at bs = 256 * unat (bs ! 0) + unat (bs ! 1)"

definition validate_front :: "Decoder \<Rightarrow> bool \<times> Decoder" where
  "validate_front d =
     (if dec_failed d \<or> length (dec_bytes d) < 2 then (\<not> dec_failed d, d)
      else let body_size = body_size_at (dec_bytes d)
           in if body_size = 0 \<or> body_size > kMaxBodySize
              then (False, d\<lparr>dec_failed := True, dec_bytes := []\<rparr>)
              else (True, d))"

definition push :: "Decoder \<Rightarrow> bytes option \<Rightarrow> bool \<times> Decoder" where
  "push d bytes =
     (if dec_failed d \<or> bytes = None then (False, d)
      else validate_front (d\<lparr>dec_bytes := dec_bytes d @ the bytes\<rparr>))"

definition pop :: "Decoder \<Rightarrow> bool \<Rightarrow> bool \<times> Message option \<times> Decoder" where
  "pop d out =
     (if \<not> out then (False, None, d)
      else
        let (valid, d1) = validate_front d
        in if \<not> valid \<or> length (dec_bytes d1) < 2 then (False, None, d1)
           else
             let body_size = body_size_at (dec_bytes d1)
             in if length (dec_bytes d1) < body_size + 2 then (False, None, d1)
                else
                  let message = \<lparr>msg_kind = dec_bytes d1 ! 2,
                                 msg_payload = take (body_size - 1) (drop 3 (dec_bytes d1))\<rparr>;
                      (valid', d2) = validate_front (d1\<lparr>dec_bytes := drop (body_size + 2) (dec_bytes d1)\<rparr>)
                  in (valid', Some message, d2))"

text \<open>
  The reader's loop \<^verbatim>\<open>while (decoder.pop(&message)) ...\<close> collects messages; every message
  takes at least three bytes, so the number of buffered bytes bounds the rounds. \<open>feed\<close> is a
  sequence of reads, each pushed and drained.
\<close>

fun drain :: "nat \<Rightarrow> Decoder \<Rightarrow> Message list \<times> Decoder" where
  "drain 0 d = ([], d)"
| "drain (Suc fuel) d =
     (case pop d True of
        (True, Some m, d1) \<Rightarrow> (let (ms, d2) = drain fuel d1 in (m # ms, d2))
      | (_, _, d1) \<Rightarrow> ([], d1))"

fun feed :: "Decoder \<Rightarrow> bytes list \<Rightarrow> Message list \<times> Decoder" where
  "feed d [] = ([], d)"
| "feed d (c # cs) =
     (let (ok, d1) = push d (Some c);
          (ms, d2) = drain (length (dec_bytes d1)) d1;
          (ms', d3) = feed d2 cs
      in (ms @ ms', d3))"

section \<open>Framing is a prefix code\<close>

definition msg_ok :: "Message \<Rightarrow> bool" where
  "msg_ok m \<longleftrightarrow> length (msg_payload m) < kMaxBodySize"

definition frame :: "Message \<Rightarrow> bytes" where
  "frame m = the (encode True (msg_kind m) (msg_payload m))"

definition decode_one :: "bytes \<Rightarrow> (Message \<times> bytes) option" where
  "decode_one bs =
     (if length bs < 2 \<or> body_size_at bs = 0 \<or> body_size_at bs > kMaxBodySize
         \<or> length bs < body_size_at bs + 2 then None
      else Some (\<lparr>msg_kind = bs ! 2, msg_payload = take (body_size_at bs - 1) (drop 3 bs)\<rparr>,
                 drop (body_size_at bs + 2) bs))"

lemma frame_eq:
  assumes "msg_ok m"
  shows "frame m = [of_nat ((length (msg_payload m) + 1) div 256), of_nat ((length (msg_payload m) + 1) mod 256),
           msg_kind m] @ msg_payload m"
  using assms by (simp add: frame_def encode_def msg_ok_def kMaxBodySize_def Let_def)

lemma length_frame: "msg_ok m \<Longrightarrow> length (frame m) = length (msg_payload m) + 3"
  by (simp add: frame_eq)

lemma body_size_prefix:
  assumes "msg_ok m" "prefix p (frame m @ rest)" "2 \<le> length p"
  shows "body_size_at p = length (msg_payload m) + 1"
proof -
  let ?n = "length (msg_payload m) + 1"
  have n: "?n \<le> 1024" using assms(1) by (simp add: msg_ok_def kMaxBodySize_def)
  have "p ! 0 = of_nat (?n div 256)" "p ! 1 = of_nat (?n mod 256)"
    using assms(2,3) by (auto simp: frame_eq [OF assms(1)] prefix_def nth_append
        dest!: arg_cong [where f = "\<lambda>xs. (xs ! 0, xs ! 1)"])
  moreover have "unat (of_nat (?n div 256) :: u8) = ?n div 256" "unat (of_nat (?n mod 256) :: u8) = ?n mod 256"
    using n by (simp_all add: unat_of_nat)
  ultimately have "body_size_at p = 256 * (?n div 256) + ?n mod 256" unfolding body_size_at_def by simp
  then show ?thesis by simp
qed

interpretation frame_codec: prefix_codec frame decode_one msg_ok
proof
  fix m rest assume m: "msg_ok m"
  have "body_size_at (frame m @ rest) = length (msg_payload m) + 1"
    using length_frame [OF m] by (intro body_size_prefix [OF m]) auto
  then show "decode_one (frame m @ rest) = Some (m, rest)"
    using m by (simp add: decode_one_def length_frame frame_eq msg_ok_def kMaxBodySize_def)
qed

section \<open>Decoding a stream that arrives in pieces\<close>

text \<open>\<open>open_tail p\<close>: \<open>p\<close> is the start of a frame that is not complete yet.\<close>

definition open_tail :: "bytes \<Rightarrow> bool" where
  "open_tail p \<longleftrightarrow> p = [] \<or> (\<exists>m. msg_ok m \<and> strict_prefix p (frame m))"

lemma open_tail_header:
  assumes "open_tail p" "2 \<le> length p"
  shows "0 < body_size_at p" "body_size_at p \<le> kMaxBodySize" "length p < body_size_at p + 2"
proof -
  obtain m where m: "msg_ok m" "strict_prefix p (frame m)" using assms by (auto simp: open_tail_def)
  then have pre: "prefix p (frame m @ [])" by (simp add: strict_prefix_def)
  note b = body_size_prefix [OF m(1) pre assms(2)]
  have "length p < length (frame m)" using m(2) by (rule prefix_length_less)
  then show "0 < body_size_at p" "body_size_at p \<le> kMaxBodySize" "length p < body_size_at p + 2"
    using b m(1) by (simp_all add: length_frame msg_ok_def)
qed

lemma validate_tail:
  assumes "open_tail p"
  shows "validate_front \<lparr>dec_bytes = p, dec_failed = False\<rparr> = (True, \<lparr>dec_bytes = p, dec_failed = False\<rparr>)"
  using open_tail_header [OF assms] by (cases "length p < 2") (auto simp: validate_front_def Let_def)

lemma validate_frames:
  assumes "list_all msg_ok ms" "open_tail p"
  shows "validate_front \<lparr>dec_bytes = concat (map frame ms) @ p, dec_failed = False\<rparr>
    = (True, \<lparr>dec_bytes = concat (map frame ms) @ p, dec_failed = False\<rparr>)"
proof (cases ms)
  case Nil
  then show ?thesis using validate_tail [OF assms(2)] by simp
next
  case (Cons m ms')
  then have m: "msg_ok m" using assms(1) by simp
  let ?bs = "frame m @ concat (map frame ms') @ p"
  have "body_size_at ?bs = length (msg_payload m) + 1"
    using length_frame [OF m] by (intro body_size_prefix [OF m, of _ "concat (map frame ms') @ p"]) auto
  then show ?thesis using Cons m by (simp add: validate_front_def Let_def msg_ok_def)
qed

lemma pop_frame:
  assumes "msg_ok m" "list_all msg_ok ms" "open_tail p"
  shows "pop \<lparr>dec_bytes = frame m @ concat (map frame ms) @ p, dec_failed = False\<rparr> True
    = (True, Some m, \<lparr>dec_bytes = concat (map frame ms) @ p, dec_failed = False\<rparr>)"
proof -
  let ?rest = "concat (map frame ms) @ p"
  have b: "body_size_at (frame m @ ?rest) = length (msg_payload m) + 1"
    using length_frame [OF assms(1)] by (intro body_size_prefix [OF assms(1), of _ ?rest]) auto
  have v: "validate_front \<lparr>dec_bytes = frame m @ ?rest, dec_failed = False\<rparr>
      = (True, \<lparr>dec_bytes = frame m @ ?rest, dec_failed = False\<rparr>)"
    using validate_frames [of "m # ms" p] assms by simp
  have parts: "(frame m @ ?rest) ! 2 = msg_kind m"
    "take (length (msg_payload m)) (drop 3 (frame m @ ?rest)) = msg_payload m"
    by (simp_all add: frame_eq [OF assms(1)])
  have "drop (length (msg_payload m) + 3) (frame m @ ?rest) = ?rest"
    using length_frame [OF assms(1)] by simp
  note parts = parts this
  show ?thesis
    using parts validate_frames [OF assms(2,3)] length_frame [OF assms(1)]
    by (simp add: pop_def v b Let_def)
qed

lemma pop_tail:
  assumes "open_tail p"
  shows "pop \<lparr>dec_bytes = p, dec_failed = False\<rparr> True = (False, None, \<lparr>dec_bytes = p, dec_failed = False\<rparr>)"
proof (cases "length p < 2")
  case True
  then show ?thesis using validate_tail [OF assms] by (simp add: pop_def)
next
  case False
  then show ?thesis using validate_tail [OF assms] open_tail_header(3) [OF assms] by (simp add: pop_def Let_def)
qed

lemma drain_frames:
  assumes "list_all msg_ok ms" "open_tail p" "length ms \<le> n"
  shows "drain n \<lparr>dec_bytes = concat (map frame ms) @ p, dec_failed = False\<rparr>
    = (ms, \<lparr>dec_bytes = p, dec_failed = False\<rparr>)"
  using assms
proof (induction ms arbitrary: n)
  case Nil
  then show ?case using pop_tail by (cases n) simp_all
next
  case (Cons m ms)
  then obtain k where "n = Suc k" "length ms \<le> k" by (cases n) auto
  then show ?case using Cons pop_frame [of m ms p] by simp
qed

lemma length_frames: "list_all msg_ok ms \<Longrightarrow> length ms \<le> length (concat (map frame ms))"
  by (induction ms) (auto simp: length_frame)

lemma frames_prefix_split:
  assumes "list_all msg_ok ms" "prefix xs (concat (map frame ms))"
  shows "\<exists>us vs p. ms = us @ vs \<and> xs = concat (map frame us) @ p \<and> open_tail p"
  using assms
proof (induction ms arbitrary: xs)
  case Nil
  then show ?case by (simp add: open_tail_def)
next
  case (Cons m ms)
  show ?case
  proof (cases "prefix (frame m) xs")
    case True
    then obtain ys where ys: "xs = frame m @ ys" by (auto simp: prefix_def)
    then have "prefix ys (concat (map frame ms))" using Cons.prems(2) by simp
    then obtain us vs p where "ms = us @ vs" "ys = concat (map frame us) @ p" "open_tail p"
      using Cons.IH [of ys] Cons.prems(1) by auto
    then have "m # ms = (m # us) @ vs \<and> xs = concat (map frame (m # us)) @ p \<and> open_tail p"
      using ys by simp
    then show ?thesis by blast
  next
    case False
    have "prefix (frame m) (frame m @ concat (map frame ms))" by simp
    then have "strict_prefix xs (frame m)"
      using False Cons.prems(2) prefix_same_cases [of xs "frame m @ concat (map frame ms)" "frame m"]
      by (auto simp: strict_prefix_def)
    then have "m # ms = [] @ (m # ms) \<and> xs = concat (map frame []) @ xs \<and> open_tail xs"
      using Cons.prems(1) by (auto simp: open_tail_def)
    then show ?thesis by blast
  qed
qed

text \<open>
  What is still to come is the rest of the stream after the open tail; feeding it in pieces delivers
  the remaining messages.
\<close>

lemma feed_frames:
  assumes "list_all msg_ok ms" "open_tail p" "p @ concat cs = concat (map frame ms)"
  shows "feed \<lparr>dec_bytes = p, dec_failed = False\<rparr> cs = (ms, \<lparr>dec_bytes = [], dec_failed = False\<rparr>)"
  using assms
proof (induction cs arbitrary: ms p)
  case Nil
  then have "drain (length p) \<lparr>dec_bytes = concat (map frame ms) @ [], dec_failed = False\<rparr>
      = (ms, \<lparr>dec_bytes = [], dec_failed = False\<rparr>)"
    using length_frames [of ms] by (intro drain_frames) (auto simp: open_tail_def)
  moreover have "drain (length p) \<lparr>dec_bytes = p, dec_failed = False\<rparr> = ([], \<lparr>dec_bytes = p, dec_failed = False\<rparr>)"
    using drain_frames [of "[]" p "length p"] Nil by simp
  ultimately show ?case using Nil by simp
next
  case (Cons c cs)
  have "prefix (p @ c) (concat (map frame ms))"
    using Cons.prems(3) [symmetric] by (intro prefixI [of _ _ "concat cs"]) simp
  then obtain us vs q where s: "ms = us @ vs" "p @ c = concat (map frame us) @ q" "open_tail q"
    using frames_prefix_split [OF Cons.prems(1)] by metis
  then have us: "list_all msg_ok us" "list_all msg_ok vs" using Cons.prems(1) by auto
  have "push \<lparr>dec_bytes = p, dec_failed = False\<rparr> (Some c)
      = (True, \<lparr>dec_bytes = concat (map frame us) @ q, dec_failed = False\<rparr>)"
    using validate_frames [OF us(1) s(3)] s(2) by (simp add: push_def)
  moreover have "drain (length (concat (map frame us) @ q)) \<lparr>dec_bytes = concat (map frame us) @ q, dec_failed = False\<rparr>
      = (us, \<lparr>dec_bytes = q, dec_failed = False\<rparr>)"
    using length_frames [OF us(1)] by (intro drain_frames [OF us(1) s(3)]) simp
  moreover have "q @ concat cs = concat (map frame vs)"
  proof -
    have "(p @ c) @ concat cs = concat (map frame us) @ concat (map frame vs)"
      using Cons.prems(3) s(1) by simp
    then show ?thesis unfolding s(2) by simp
  qed
  ultimately show ?case using Cons.IH [OF us(2) s(3)] s(1) by simp
qed

text \<open>
  C37: Framing survives any segmentation: the frames of a list of messages, cut into reads of any sizes, are
  decoded to exactly that list in order; the decoder does not fail and keeps no byte.
\<close>
theorem stream_roundtrip:
  assumes "list_all (\<lambda>m. length (msg_payload m) + 1 \<le> kMaxBodySize) ms"
    "concat reads = concat (map (\<lambda>m. the (encode True (msg_kind m) (msg_payload m))) ms)"
  shows "feed new_decoder reads = (ms, new_decoder)"
proof -
  have "list_all msg_ok ms" using assms(1) by (simp add: msg_ok_def Suc_le_eq list_all_iff)
  then show ?thesis
    using feed_frames [of ms "[]" reads] assms(2)
    by (simp add: open_tail_def new_decoder_def frame_def [abs_def])
qed

theorem stream_roundtrip_witness:
  "feed new_decoder [[0], [3, 6, 7, 8, 0, 1], [9]]
     = ([\<lparr>msg_kind = 6, msg_payload = [7, 8]\<rparr>, \<lparr>msg_kind = 9, msg_payload = []\<rparr>], new_decoder)"
  by (rule stream_roundtrip) (simp_all add: kMaxBodySize_def encode_def)

end
