(* ===== verification/Lan_Lockstep.thy ===== *)
theory Lan_Lockstep
  imports Fly_Prelude
begin

unbundle bit_operations_syntax

text \<open>
  The lockstep input buffer, \<^verbatim>\<open>shared/src/session/lan_mvp/lockstep.{hpp,cpp}\<close>, and its
  agreement property: two players whose buffers exchange their inputs feed the same pair of button
  masks to every frame both of them complete.
\<close>

datatype Put = Put_Accepted | Put_Duplicate | Put_Conflict | Put_Late | Put_OutOfWindow

record Frame =
  frm_index :: u64
  frm_local_mask :: u32
  frm_remote_mask :: u32

record Slot =
  slot_local :: "u32 option"
  slot_remote :: "u32 option"

record Buffer =
  buf_window :: nat
  buf_next_frame :: u64
  buf_slots :: "u64 \<rightharpoonup> Slot"

definition new_buffer :: "nat \<Rightarrow> nat \<Rightarrow> Buffer" where
  "new_buffer input_delay window = \<lparr>buf_window = window, buf_next_frame = 0, buf_slots = Map.empty\<rparr>"

definition empty_slot :: Slot where
  "empty_slot = \<lparr>slot_local = None, slot_remote = None\<rparr>"

definition put :: "Buffer \<Rightarrow> u64 \<Rightarrow> u32 \<Rightarrow> bool \<Rightarrow> Put \<times> Buffer" where
  "put b index mask0 local =
     (if index < buf_next_frame b then (Put_Late, b)
      else if unat (index - buf_next_frame b) \<ge> buf_window b then (Put_OutOfWindow, b)
      else
        let slot = (case buf_slots b index of Some s \<Rightarrow> s | None \<Rightarrow> empty_slot);
            b1 = b\<lparr>buf_slots := (buf_slots b)(index \<mapsto> slot)\<rparr>
        in case (if local then slot_local slot else slot_remote slot) of
             None \<Rightarrow> (Put_Accepted, b\<lparr>buf_slots := (buf_slots b)(index \<mapsto>
                       (if local then slot\<lparr>slot_local := Some mask0\<rparr>
                        else slot\<lparr>slot_remote := Some mask0\<rparr>))\<rparr>)
           | Some value \<Rightarrow> (if value = mask0 then Put_Duplicate else Put_Conflict, b1))"

definition put_local :: "Buffer \<Rightarrow> u64 \<Rightarrow> u32 \<Rightarrow> Put \<times> Buffer" where
  "put_local b index mask0 = put b index mask0 True"

definition put_remote :: "Buffer \<Rightarrow> u64 \<Rightarrow> u32 \<Rightarrow> Put \<times> Buffer" where
  "put_remote b index mask0 = put b index mask0 False"

definition pop_ready :: "Buffer \<Rightarrow> bool \<Rightarrow> Frame option \<times> Buffer" where
  "pop_ready b out =
     (if \<not> out then (None, b)
      else case buf_slots b (buf_next_frame b) of
             None \<Rightarrow> (None, b)
           | Some slot \<Rightarrow>
               (case (slot_local slot, slot_remote slot) of
                  (Some local_mask, Some remote_mask) \<Rightarrow>
                    (Some \<lparr>frm_index = buf_next_frame b, frm_local_mask = local_mask,
                           frm_remote_mask = remote_mask\<rparr>,
                     b\<lparr>buf_slots := (buf_slots b)(buf_next_frame b := None),
                       buf_next_frame := buf_next_frame b + 1\<rparr>)
                | _ \<Rightarrow> (None, b)))"

section \<open>The history of a buffer\<close>

text \<open>
  \<open>Log\<close> collects, beside the buffer, the mask that was accepted for each frame on each side and the
  frames that were popped.
\<close>

datatype buf_call = PutLocal u64 u32 | PutRemote u64 u32 | PopReady

record Log =
  log_buffer :: Buffer
  log_local :: "u64 \<rightharpoonup> u32"
  log_remote :: "u64 \<rightharpoonup> u32"
  log_frames :: "Frame list"

definition new_log :: "nat \<Rightarrow> Log" where
  "new_log window = \<lparr>log_buffer = new_buffer 2 window, log_local = Map.empty, log_remote = Map.empty,
     log_frames = []\<rparr>"

fun log_step :: "Log \<Rightarrow> buf_call \<Rightarrow> bool \<times> Log" where
  "log_step g (PutLocal i m) =
     (case put_local (log_buffer g) i m of
        (r, b) \<Rightarrow> (r = Put_Accepted, g\<lparr>log_buffer := b,
           log_local := (if r = Put_Accepted then (log_local g)(i \<mapsto> m) else log_local g)\<rparr>))"
| "log_step g (PutRemote i m) =
     (case put_remote (log_buffer g) i m of
        (r, b) \<Rightarrow> (r = Put_Accepted, g\<lparr>log_buffer := b,
           log_remote := (if r = Put_Accepted then (log_remote g)(i \<mapsto> m) else log_remote g)\<rparr>))"
| "log_step g PopReady =
     (case pop_ready (log_buffer g) True of
        (None, b) \<Rightarrow> (False, g\<lparr>log_buffer := b\<rparr>)
      | (Some f, b) \<Rightarrow> (True, g\<lparr>log_buffer := b, log_frames := log_frames g @ [f]\<rparr>))"

definition slot_view :: "Buffer \<Rightarrow> u64 \<Rightarrow> Slot" where
  "slot_view b i = (case buf_slots b i of Some s \<Rightarrow> s | None \<Rightarrow> empty_slot)"

definition log_inv :: "Log \<Rightarrow> bool" where
  "log_inv g \<longleftrightarrow>
     unat (buf_next_frame (log_buffer g)) = length (log_frames g)
     \<and> (\<forall>i. buf_next_frame (log_buffer g) \<le> i \<longrightarrow>
          slot_local (slot_view (log_buffer g) i) = log_local g i
          \<and> slot_remote (slot_view (log_buffer g) i) = log_remote g i)
     \<and> (\<forall>k<length (log_frames g). frm_index (log_frames g ! k) = of_nat k
          \<and> log_local g (of_nat k) = Some (frm_local_mask (log_frames g ! k))
          \<and> log_remote g (of_nat k) = Some (frm_remote_mask (log_frames g ! k)))"

definition log_le :: "Log \<Rightarrow> Log \<Rightarrow> bool" where
  "log_le g h \<longleftrightarrow> log_local g \<subseteq>\<^sub>m log_local h \<and> log_remote g \<subseteq>\<^sub>m log_remote h
     \<and> (\<exists>fs. log_frames h = log_frames g @ fs)"

definition frames_left :: "Log \<Rightarrow> buf_call \<Rightarrow> bool" where
  "frames_left g c \<longleftrightarrow> length (log_frames g) < 2 ^ 64 - 1"

lemma log_le_refl: "log_le g g"
  by (simp add: log_le_def)

lemma log_le_trans: "log_le g h \<Longrightarrow> log_le h k \<Longrightarrow> log_le g k"
  unfolding log_le_def by (metis append.assoc map_le_trans)

lemma put_slots:
  assumes "put b i m side = (r, b')"
  shows "buf_next_frame b' = buf_next_frame b"
    "r = Put_Accepted \<Longrightarrow> buf_next_frame b \<le> i
       \<and> (if side then slot_local else slot_remote) (slot_view b i) = None
       \<and> slot_view b' i = (if side then (slot_view b i)\<lparr>slot_local := Some m\<rparr>
            else (slot_view b i)\<lparr>slot_remote := Some m\<rparr>)"
    "r \<noteq> Put_Accepted \<Longrightarrow> slot_view b' i = slot_view b i"
    "j \<noteq> i \<Longrightarrow> slot_view b' j = slot_view b j"
  using assms
  by (auto simp: put_def slot_view_def Let_def not_less split: if_splits option.splits)

lemma log_put:
  assumes inv: "log_inv g" and p: "put (log_buffer g) i m side = (r, b)"
    and h: "h = g\<lparr>log_buffer := b,
        log_local := (if side \<and> r = Put_Accepted then (log_local g)(i \<mapsto> m) else log_local g),
        log_remote := (if \<not> side \<and> r = Put_Accepted then (log_remote g)(i \<mapsto> m) else log_remote g)\<rparr>"
  shows "log_inv h \<and> log_le g h"
proof -
  note put = put_slots [OF p]
  let ?n = "buf_next_frame (log_buffer g)"
  have past: "of_nat k \<noteq> i" if "k < length (log_frames g)" "?n \<le> i" for k
  proof -
    have k: "k < unat ?n" using inv that(1) by (simp add: log_inv_def)
    have "unat ?n < 2 ^ LENGTH(64)" by (rule unsigned_less)
    then have "unat (of_nat k :: u64) = k" using k by (simp add: unat_of_nat)
    then show ?thesis using k that(2) by (auto simp: word_le_nat_alt)
  qed
  have fresh: "(if side then log_local g else log_remote g) i = None" if "r = Put_Accepted"
    using put(2) [OF that] inv by (auto simp: log_inv_def split: if_splits)
  have "log_inv h"
    unfolding log_inv_def
  proof (intro conjI allI impI)
    show "unat (buf_next_frame (log_buffer h)) = length (log_frames h)"
      using inv put(1) by (simp add: log_inv_def h)
  next
    fix j assume "buf_next_frame (log_buffer h) \<le> j"
    then have j: "?n \<le> j" using put(1) by (simp add: h)
    then have old: "slot_local (slot_view (log_buffer g) j) = log_local g j"
      "slot_remote (slot_view (log_buffer g) j) = log_remote g j" using inv by (simp_all add: log_inv_def)
    show "slot_local (slot_view (log_buffer h) j) = log_local h j"
      "slot_remote (slot_view (log_buffer h) j) = log_remote h j"
      using old put(2,3) put(4) [of j]
      by (cases "j = i"; cases "r = Put_Accepted"; auto simp: h split: if_splits)+
  next
    fix k assume k: "k < length (log_frames h)"
    then have k': "k < length (log_frames g)" by (simp add: h)
    have "r = Put_Accepted \<Longrightarrow> of_nat k \<noteq> i" using past [OF k'] put(2) by blast
    with k' inv show "frm_index (log_frames h ! k) = of_nat k"
      "log_local h (of_nat k) = Some (frm_local_mask (log_frames h ! k))"
      "log_remote h (of_nat k) = Some (frm_remote_mask (log_frames h ! k))"
      by (auto simp: log_inv_def h)
  qed
  moreover have "log_le g h"
    using fresh by (auto simp: log_le_def h map_le_def)
  ultimately show ?thesis ..
qed

lemma log_pop:
  assumes inv: "log_inv g" and left: "length (log_frames g) < 2 ^ 64 - 1"
    and p: "pop_ready (log_buffer g) True = (Some f, b)"
  shows "log_inv (g\<lparr>log_buffer := b, log_frames := log_frames g @ [f]\<rparr>)"
proof -
  let ?b = "log_buffer g" and ?n = "buf_next_frame (log_buffer g)"
  from p obtain slot l rm where s: "buf_slots ?b ?n = Some slot" "slot_local slot = Some l"
    "slot_remote slot = Some rm" "f = \<lparr>frm_index = ?n, frm_local_mask = l, frm_remote_mask = rm\<rparr>"
    "b = ?b\<lparr>buf_slots := (buf_slots ?b)(?n := None), buf_next_frame := ?n + 1\<rparr>"
    by (auto simp: pop_ready_def split: option.splits)
  have len: "unat ?n = length (log_frames g)" using inv by (simp add: log_inv_def)
  have one: "unat (?n + 1) = unat ?n + 1" using left len unat_add_small [of ?n 1] by simp
  have n: "of_nat (length (log_frames g)) = ?n" using len by (simp flip: len)
  have now: "log_local g ?n = Some l" "log_remote g ?n = Some rm"
    using inv s(1-3) by (auto simp: log_inv_def slot_view_def)
  have later: "slot_view b j = slot_view ?b j" if "?n + 1 \<le> j" for j
    using that one by (auto simp: slot_view_def s(5) word_le_nat_alt)
  have "?n + 1 \<le> j \<Longrightarrow> ?n \<le> j" for j using one by (simp add: word_le_nat_alt)
  then have slots: "slot_local (slot_view b j) = log_local g j \<and> slot_remote (slot_view b j) = log_remote g j"
    if "?n + 1 \<le> j" for j using inv later [OF that] that by (simp add: log_inv_def)
  have frames: "frm_index ((log_frames g @ [f]) ! k) = of_nat k
      \<and> log_local g (of_nat k) = Some (frm_local_mask ((log_frames g @ [f]) ! k))
      \<and> log_remote g (of_nat k) = Some (frm_remote_mask ((log_frames g @ [f]) ! k))"
    if "k < length (log_frames g @ [f])" for k
  proof (cases "k = length (log_frames g)")
    case True
    then show ?thesis using now n s(4) by simp
  next
    case False
    then have "k < length (log_frames g)" using that by simp
    then show ?thesis using inv by (simp add: log_inv_def nth_append)
  qed
  show ?thesis
    using slots frames one len by (simp add: log_inv_def s(5))
qed

lemma log_step_ok:
  assumes "log_inv g" "frames_left g c"
  shows "log_inv (snd (log_step g c)) \<and> log_le g (snd (log_step g c))"
proof (cases c)
  case (PutLocal i m)
  obtain r b where p: "put (log_buffer g) i m True = (r, b)" by fastforce
  show ?thesis using log_put [OF assms(1) p refl] PutLocal by (simp add: put_local_def p)
next
  case (PutRemote i m)
  obtain r b where p: "put (log_buffer g) i m False = (r, b)" by fastforce
  show ?thesis using log_put [OF assms(1) p refl] PutRemote by (simp add: put_remote_def p)
next
  case PopReady
  show ?thesis
  proof (cases "pop_ready (log_buffer g) True")
    case (Pair x b)
    show ?thesis
    proof (cases x)
      case None
      then have "b = log_buffer g" using Pair by (auto simp: pop_ready_def split: option.splits)
      then show ?thesis using assms(1) PopReady Pair None by (simp add: log_le_refl)
    next
      case (Some f)
      then show ?thesis
        using log_pop [OF assms(1)] assms(2) PopReady Pair by (simp add: frames_left_def log_le_def)
    qed
  qed
qed

interpretation lockstep: monotone_machine log_step frames_left log_inv log_le
  by unfold_locales (use log_step_ok log_le_refl log_le_trans in blast)+

lemma new_log_inv: "log_inv (new_log w)"
  by (simp add: log_inv_def new_log_def new_buffer_def slot_view_def empty_slot_def)

lemma log_frames_grow: "length (log_frames (snd (log_step g c))) \<le> length (log_frames g) + 1"
  by (cases c) (auto split: prod.splits option.splits)

lemma frames_left_short:
  "length (log_frames g) + length cs < 2 ^ 64 - 1 \<Longrightarrow> calls_within log_step frames_left g cs"
proof (induction cs arbitrary: g)
  case Nil
  then show ?case by simp
next
  case (Cons c cs)
  then have "length (log_frames (snd (log_step g c))) + length cs < 2 ^ 64 - 1"
    using log_frames_grow [of g c] by simp
  then show ?case using Cons by (simp add: frames_left_def)
qed

lemma run_log_inv: "length cs < 2 ^ 64 - 1 \<Longrightarrow> log_inv (run_calls log_step (new_log w) cs)"
  using lockstep.run_inv [OF new_log_inv frames_left_short, of w cs] by (simp add: new_log_def)

text \<open>Two buffers that exchange their inputs agree on the masks of every frame both popped.\<close>

lemma agreement_masks:
  assumes "length cs < 2 ^ 64 - 1" "length ds < 2 ^ 64 - 1"
    "host = run_calls log_step (new_log w) cs" "guest = run_calls log_step (new_log w') ds"
    "log_remote host \<subseteq>\<^sub>m log_local guest" "log_remote guest \<subseteq>\<^sub>m log_local host"
    "k < length (log_frames host)" "k < length (log_frames guest)"
  shows "(frm_local_mask (log_frames host ! k), frm_remote_mask (log_frames host ! k))
       = (frm_remote_mask (log_frames guest ! k), frm_local_mask (log_frames guest ! k))"
proof -
  have h: "log_inv host" and g: "log_inv guest" unfolding assms(3,4) using assms(1,2) run_log_inv by blast+
  have hk: "log_local host (of_nat k) = Some (frm_local_mask (log_frames host ! k))"
    "log_remote host (of_nat k) = Some (frm_remote_mask (log_frames host ! k))"
    using h assms(7) by (simp_all add: log_inv_def)
  have gk: "log_local guest (of_nat k) = Some (frm_local_mask (log_frames guest ! k))"
    "log_remote guest (of_nat k) = Some (frm_remote_mask (log_frames guest ! k))"
    using g assms(8) by (simp_all add: log_inv_def)
  have "log_local guest (of_nat k) = Some (frm_remote_mask (log_frames host ! k))"
    using assms(5) hk(2) by (metis domI map_le_def)
  moreover have "log_local host (of_nat k) = Some (frm_remote_mask (log_frames guest ! k))"
    using assms(6) gk(2) by (metis domI map_le_def)
  ultimately show ?thesis using hk(1) gk(1) by simp
qed

section \<open>Properties\<close>

text \<open>
  The buffer delivers every frame once, in order, with the first mask of each side: after any calls,
  the popped frames are numbered 0, 1, 2, ... without a gap, each carries exactly the local and the
  remote mask that were accepted for its index, and a later call never changes an accepted mask or a
  popped frame.
\<close>
theorem lockstep_frames_in_order:
  assumes "length cs + length ds < 2 ^ 64 - 1"
  shows "let g = run_calls log_step (new_log w) cs; h = run_calls log_step g ds in
     (\<forall>k<length (log_frames g). frm_index (log_frames g ! k) = of_nat k
        \<and> log_local g (of_nat k) = Some (frm_local_mask (log_frames g ! k))
        \<and> log_remote g (of_nat k) = Some (frm_remote_mask (log_frames g ! k)))
     \<and> log_local g \<subseteq>\<^sub>m log_local h \<and> log_remote g \<subseteq>\<^sub>m log_remote h
     \<and> (\<exists>fs. log_frames h = log_frames g @ fs)"
proof -
  let ?g = "run_calls log_step (new_log w) cs"
  have inv: "log_inv ?g" using assms by (intro run_log_inv) simp
  have "calls_within log_step frames_left (new_log w) (cs @ ds)"
    using assms by (intro frames_left_short) (simp add: new_log_def)
  then have "calls_within log_step frames_left ?g ds" by (simp add: calls_within_append)
  then have "log_le ?g (run_calls log_step ?g ds)" using lockstep.run_le [OF inv] by blast
  with inv show ?thesis by (simp add: log_inv_def log_le_def Let_def)
qed

theorem lockstep_frames_in_order_witness:
  "let g = run_calls log_step (new_log 256) [PutLocal 0 5, PutRemote 0 6, PutRemote 0 7, PopReady] in
   log_frames g = [\<lparr>frm_index = 0, frm_local_mask = 5, frm_remote_mask = 6\<rparr>] \<and> log_local g 0 = Some 5"
proof -
  let ?cs = "[PutLocal 0 5, PutRemote 0 6, PutRemote 0 7, PopReady]"
  let ?g = "run_calls log_step (new_log 256) ?cs"
  have f: "log_frames ?g = [\<lparr>frm_index = 0, frm_local_mask = 5, frm_remote_mask = 6\<rparr>]"
    by (simp add: new_log_def new_buffer_def put_local_def put_remote_def put_def pop_ready_def
        empty_slot_def Let_def)
  have "length ?cs + length ([] :: buf_call list) < 2 ^ 64 - 1" by simp
  from lockstep_frames_in_order [OF this, of 256] have "\<forall>k<length (log_frames ?g).
      log_local ?g (of_nat k) = Some (frm_local_mask (log_frames ?g ! k))" unfolding Let_def by blast
  then have "log_local ?g (of_nat 0) = Some (frm_local_mask (log_frames ?g ! 0))" using f by force
  then show ?thesis using f by simp
qed

end
