(* ===== verification/Lan_Invite.thy ===== *)
theory Lan_Invite
  imports Fly_Prelude
begin

unbundle bit_operations_syntax

text \<open>
  The invitation text of a local session, \<^verbatim>\<open>shared/src/session/lan_mvp/invite.{hpp,cpp}\<close>:
  formatting, parsing and the address filter. Text is a HOL string. The decimal accumulator of the
  code is an unsigned int bounded by \<open>maximum\<close> after every digit, so it is a natural number here.
\<close>

record Invite =
  inv_ipv4 :: bytes
  inv_port :: u16
  inv_spki_pin :: bytes
  inv_token :: bytes

definition kPrefix :: string where "kPrefix = ''flynes-lan-v1:''"
definition kHex :: string where "kHex = ''0123456789abcdef''"

definition char_code :: "char \<Rightarrow> nat" where
  "char_code c = of_char c"

definition is_digit :: "char \<Rightarrow> bool" where
  "is_digit c = (48 \<le> char_code c \<and> char_code c \<le> 57)"

fun decimal_loop :: "nat \<Rightarrow> nat \<Rightarrow> string \<Rightarrow> nat option" where
  "decimal_loop maximum v [] = Some v"
| "decimal_loop maximum v (c # cs) =
     (if \<not> is_digit c then None
      else let v' = v * 10 + (char_code c - 48)
           in if v' > maximum then None else decimal_loop maximum v' cs)"

definition parse_decimal :: "string \<Rightarrow> nat \<Rightarrow> nat option" where
  "parse_decimal text maximum =
     (if text = [] \<or> (length text > 1 \<and> hd text = CHR ''0'') then None
      else decimal_loop maximum 0 text)"

definition allowed_address :: "bytes \<Rightarrow> bool" where
  "allowed_address ip =
     (ip ! 0 \<noteq> 0 \<and> ip ! 0 \<noteq> 127 \<and> ip ! 0 < 224 \<and> \<not> (ip ! 0 = 169 \<and> ip ! 1 = 254)
      \<and> ip ! 3 \<noteq> 0 \<and> ip ! 3 \<noteq> 255)"

definition find_char :: "string \<Rightarrow> char \<Rightarrow> nat option" where
  "find_char text c = (if c \<in> set text then Some (length (takeWhile (\<lambda>x. x \<noteq> c) text)) else None)"

text \<open>The loop of \<open>parse_ip\<close>, with the number of octets still to read: the last one takes the rest.\<close>

fun parse_octets :: "nat \<Rightarrow> string \<Rightarrow> bytes option" where
  "parse_octets 0 text = Some []"
| "parse_octets (Suc k) text =
     (let dot = find_char text (CHR ''.'')
      in if (k > 0 \<and> dot = None) \<or> (k = 0 \<and> dot \<noteq> None) then None
         else let part = (if k = 0 then text else take (the dot) text)
              in case parse_decimal part 255 of
                   None \<Rightarrow> None
                 | Some octet \<Rightarrow>
                     (case parse_octets k (if k > 0 then drop (the dot + 1) text else text) of
                        None \<Rightarrow> None
                      | Some ip \<Rightarrow> Some (of_nat octet # ip)))"

definition parse_ip :: "string \<Rightarrow> bytes option" where
  "parse_ip text =
     (case parse_octets 4 text of
        None \<Rightarrow> None
      | Some ip \<Rightarrow> if \<not> allowed_address ip then None else Some ip)"

definition hex_value :: "char \<Rightarrow> int" where
  "hex_value c =
     (if 48 \<le> char_code c \<and> char_code c \<le> 57 then int (char_code c) - 48
      else if 97 \<le> char_code c \<and> char_code c \<le> 102 then int (char_code c) - 97 + 10
      else if 65 \<le> char_code c \<and> char_code c \<le> 70 then int (char_code c) - 65 + 10
      else - 1)"

fun hex_pairs :: "string \<Rightarrow> bytes option" where
  "hex_pairs (h # l # cs) =
     (if hex_value h < 0 \<or> hex_value l < 0 then None
      else case hex_pairs cs of
             None \<Rightarrow> None
           | Some bs \<Rightarrow> Some (word_of_int (push_bit 4 (hex_value h) OR hex_value l) # bs))"
| "hex_pairs _ = Some []"

definition parse_hex :: "nat \<Rightarrow> string \<Rightarrow> bytes option" where
  "parse_hex n text = (if length text \<noteq> n * 2 then None else hex_pairs text)"

definition append_hex :: "bytes \<Rightarrow> string" where
  "append_hex bytes = concat (map (\<lambda>b. [kHex ! unat (drop_bit 4 b), kHex ! unat (b AND 15)]) bytes)"

definition take_field :: "string \<Rightarrow> (string \<times> string) option" where
  "take_field remaining =
     (case find_char remaining (CHR '':'') of
        None \<Rightarrow> None
      | Some separator \<Rightarrow> Some (take separator remaining, drop (separator + 1) remaining))"

definition parse_lan_ipv4 :: "string \<Rightarrow> bool \<Rightarrow> bytes option" where
  "parse_lan_ipv4 text out = (if \<not> out then None else parse_ip text)"

text \<open>\<^verbatim>\<open>std::to_string\<close> of an unsigned value.\<close>

fun to_string :: "nat \<Rightarrow> string" where
  "to_string n = (if n < 10 then [char_of (48 + n)] else to_string (n div 10) @ [char_of (48 + n mod 10)])"

declare to_string.simps [simp del]

definition dotted :: "bytes \<Rightarrow> string" where
  "dotted ip = to_string (unat (ip ! 0)) @ ''.'' @ to_string (unat (ip ! 1)) @ ''.''
     @ to_string (unat (ip ! 2)) @ ''.'' @ to_string (unat (ip ! 3))"

definition format_invite :: "Invite \<Rightarrow> bool \<Rightarrow> string option" where
  "format_invite invite out =
     (if \<not> out \<or> \<not> allowed_address (inv_ipv4 invite) \<or> inv_port invite = 0 then None
      else Some (kPrefix @ dotted (inv_ipv4 invite) @ '':'' @ to_string (unat (inv_port invite)) @ '':''
             @ append_hex (inv_spki_pin invite) @ '':'' @ append_hex (inv_token invite)))"

definition parse_invite :: "string \<Rightarrow> bool \<Rightarrow> Invite option" where
  "parse_invite text out =
     (if \<not> out \<or> take (length kPrefix) text \<noteq> kPrefix then None
      else
        case take_field (drop (length kPrefix) text) of None \<Rightarrow> None
        | Some (ip_text, text1) \<Rightarrow>
        case take_field text1 of None \<Rightarrow> None
        | Some (port_text, text2) \<Rightarrow>
        case take_field text2 of None \<Rightarrow> None
        | Some (pin_text, text3) \<Rightarrow>
        case parse_ip ip_text of None \<Rightarrow> None
        | Some ipv4 \<Rightarrow>
        case parse_decimal port_text 65535 of None \<Rightarrow> None
        | Some port \<Rightarrow>
          if port = 0 then None else
        case parse_hex 32 pin_text of None \<Rightarrow> None
        | Some pin \<Rightarrow>
        case parse_hex 16 text3 of None \<Rightarrow> None
        | Some token \<Rightarrow>
          Some \<lparr>inv_ipv4 = ipv4, inv_port = of_nat port, inv_spki_pin = pin, inv_token = token\<rparr>)"

section \<open>Decimal numbers\<close>

definition dec_value :: "nat \<Rightarrow> string \<Rightarrow> nat" where
  "dec_value v cs = foldl (\<lambda>v c. v * 10 + (char_code c - 48)) v cs"

lemma dec_value_ge: "v \<le> dec_value v cs"
proof (induction cs arbitrary: v)
  case Nil
  then show ?case by (simp add: dec_value_def)
next
  case (Cons c cs)
  have "v \<le> v * 10 + (char_code c - 48)" by simp
  also have "\<dots> \<le> dec_value (v * 10 + (char_code c - 48)) cs" by (rule Cons)
  finally show ?case by (simp add: dec_value_def)
qed

lemma decimal_loop_iff:
  "v \<le> maximum \<Longrightarrow>
     decimal_loop maximum v cs = Some n \<longleftrightarrow> list_all is_digit cs \<and> n = dec_value v cs \<and> n \<le> maximum"
proof (induction cs arbitrary: v)
  case Nil
  then show ?case by (auto simp: dec_value_def)
next
  case (Cons c cs)
  let ?v = "v * 10 + (char_code c - 48)"
  have "dec_value v (c # cs) = dec_value ?v cs" by (simp add: dec_value_def)
  moreover have "?v \<le> dec_value ?v cs" by (rule dec_value_ge)
  ultimately show ?case using Cons.IH [of ?v] by (auto simp: Let_def)
qed

lemma char_code_of [simp]: "n < 256 \<Longrightarrow> char_code (char_of n) = n"
  by (simp add: char_code_def)

lemma char_eqI: "char_code c = char_code d \<Longrightarrow> c = d"
  by (simp add: char_code_def)

lemma digit_of: "d < 10 \<Longrightarrow> is_digit (char_of (48 + d :: nat))"
  by (simp add: is_digit_def)

lemma to_string_digits: "list_all is_digit (to_string n)"
  by (induction n rule: to_string.induct) (subst to_string.simps, simp add: digit_of)

lemma to_string_value: "dec_value 0 (to_string n) = n"
proof (induction n rule: to_string.induct)
  case (1 n)
  show ?case
  proof (cases "n < 10")
    case True
    then show ?thesis by (subst to_string.simps) (simp add: dec_value_def)
  next
    case False
    then show ?thesis using 1 by (subst to_string.simps) (simp add: dec_value_def)
  qed
qed

lemma to_string_nonempty [simp]: "to_string n \<noteq> []"
  by (subst to_string.simps) simp

lemma char_code_zero: "char_code c = 48 \<longleftrightarrow> c = CHR ''0''"
proof
  assume "char_code c = 48"
  then show "c = CHR ''0''" by (intro char_eqI) (simp add: char_code_def)
qed (simp add: char_code_def)

lemma to_string_hd: "0 < n \<Longrightarrow> hd (to_string n) \<noteq> CHR ''0''"
proof (induction n rule: to_string.induct)
  case (1 n)
  show ?case
  proof (cases "n < 10")
    case True
    then have "char_code (char_of (48 + n)) \<noteq> 48" using 1(2) by simp
    then have "char_of (48 + n) \<noteq> CHR ''0''" using char_code_zero by blast
    then show ?thesis using True by (subst to_string.simps) simp
  next
    case False
    then have "hd (to_string (n div 10)) \<noteq> CHR ''0''" using 1(1) by simp
    then show ?thesis using False by (subst to_string.simps) (simp add: hd_append)
  qed
qed

lemma to_string_zero: "to_string 0 = ''0''"
proof -
  have "char_of (48 :: nat) = CHR ''0''" using char_code_zero [of "char_of (48 :: nat)"] by simp
  then show ?thesis by (subst to_string.simps) simp
qed

lemma to_string_snoc:
  assumes "0 < m" "d < 10"
  shows "to_string (m * 10 + d) = to_string m @ [char_of (48 + d)]"
proof -
  have "(m * 10 + d) div 10 = m" "(m * 10 + d) mod 10 = d" "\<not> m * 10 + d < 10" using assms by auto
  then show ?thesis by (subst to_string.simps) (simp only: if_False)
qed

lemma parse_to_string: "n \<le> maximum \<Longrightarrow> parse_decimal (to_string n) maximum = Some n"
proof -
  assume n: "n \<le> maximum"
  have "\<not> (length (to_string n) > 1 \<and> hd (to_string n) = CHR ''0'')"
    using to_string_hd [of n] by (cases "n = 0") (auto simp: to_string_zero)
  then show ?thesis
    using decimal_loop_iff [of 0 maximum "to_string n" n] n
    by (simp add: parse_decimal_def to_string_digits to_string_value)
qed

lemma digits_to_string:
  assumes "list_all is_digit cs" "cs \<noteq> []" "length cs > 1 \<Longrightarrow> hd cs \<noteq> CHR ''0''"
  shows "to_string (dec_value 0 cs) = cs"
  using assms
proof (induction cs rule: rev_induct)
  case Nil
  then show ?case by simp
next
  case (snoc c cs)
  let ?d = "char_code c - 48"
  have c: "char_code c = 48 + ?d" "?d < 10" using snoc.prems(1) by (auto simp: is_digit_def)
  then have ch: "char_of (48 + ?d) = c" by (intro char_eqI) simp
  show ?case
  proof (cases "cs = []")
    case True
    then show ?thesis using c ch by (subst to_string.simps) (simp add: dec_value_def)
  next
    case False
    then have hd: "hd cs \<noteq> CHR ''0''" using snoc.prems(3) by (simp add: hd_append)
    have val: "dec_value 0 (cs @ [c]) = dec_value 0 cs * 10 + ?d" by (simp add: dec_value_def)
    have "is_digit (hd cs)" using snoc.prems(1) False by (cases cs) auto
    then have "0 < char_code (hd cs) - 48"
      using hd char_code_zero [of "hd cs"] by (auto simp: is_digit_def)
    moreover have "char_code (hd cs) - 48 \<le> dec_value 0 cs"
      using False dec_value_ge [of "char_code (hd cs) - 48" "tl cs"] by (cases cs) (simp_all add: dec_value_def)
    ultimately have pos: "0 < dec_value 0 cs" by simp
    have "to_string (dec_value 0 cs) = cs" using snoc False hd by simp
    then show ?thesis unfolding val using to_string_snoc [OF pos c(2)] ch by simp
  qed
qed

lemma parse_decimal_Some:
  assumes "parse_decimal s maximum = Some n"
  shows "to_string n = s" "n \<le> maximum"
proof -
  from assms have t: "s \<noteq> []" "length s > 1 \<Longrightarrow> hd s \<noteq> CHR ''0''"
    "decimal_loop maximum 0 s = Some n" by (auto simp: parse_decimal_def split: if_splits)
  then have "list_all is_digit s" "n = dec_value 0 s" "n \<le> maximum"
    using decimal_loop_iff [of 0 maximum s n] by auto
  then show "to_string n = s" "n \<le> maximum" using digits_to_string t by blast+
qed

section \<open>Fields\<close>

lemma find_char_append:
  "c \<notin> set xs \<Longrightarrow> find_char (xs @ c # ys) c = Some (length xs)"
  by (simp add: find_char_def takeWhile_append)

lemma find_char_None: "find_char xs c = None \<longleftrightarrow> c \<notin> set xs"
  by (simp add: find_char_def)

lemma find_char_Some:
  assumes "find_char xs c = Some n"
  shows "xs = take n xs @ c # drop (n + 1) xs" "c \<notin> set (take n xs)"
proof -
  from assms have c: "c \<in> set xs" and n: "n = length (takeWhile (\<lambda>x. x \<noteq> c) xs)"
    by (auto simp: find_char_def split: if_splits)
  have len: "n < length xs"
  proof (rule ccontr)
    assume "\<not> n < length xs"
    then have "takeWhile (\<lambda>x. x \<noteq> c) xs = xs" unfolding n by (metis takeWhile_eq_take take_all not_less)
    then show False using c by (auto simp: takeWhile_eq_all_conv)
  qed
  have "xs ! n = c" using nth_length_takeWhile [of "\<lambda>x. x \<noteq> c" xs] n len by simp
  then show "xs = take n xs @ c # drop (n + 1) xs" using id_take_nth_drop [OF len] by simp
  show "c \<notin> set (take n xs)"
    unfolding n by (metis set_takeWhileD takeWhile_eq_take)
qed

lemma digit_not_sep: "is_digit c \<Longrightarrow> c \<noteq> CHR ''.'' \<and> c \<noteq> CHR '':''"
  by (auto simp: is_digit_def char_code_def)

lemma to_string_no_sep: "CHR ''.'' \<notin> set (to_string n)" "CHR '':'' \<notin> set (to_string n)"
  using to_string_digits [of n] digit_not_sep by (auto simp: list_all_iff)

lemma take_field_append: "CHR '':'' \<notin> set xs \<Longrightarrow> take_field (xs @ CHR '':'' # ys) = Some (xs, ys)"
  by (simp add: take_field_def find_char_append)

lemma take_field_Some:
  "take_field xs = Some (f, r) \<Longrightarrow> xs = f @ CHR '':'' # r \<and> CHR '':'' \<notin> set f"
proof -
  assume "take_field xs = Some (f, r)"
  then obtain n where n: "find_char xs (CHR '':'') = Some n" "f = take n xs" "r = drop (n + 1) xs"
    by (auto simp: take_field_def split: option.splits)
  show ?thesis using find_char_Some [OF n(1)] unfolding n(2,3) by blast
qed

section \<open>Addresses\<close>

lemma byte_to_string: "parse_decimal (to_string (unat (b :: u8))) 255 = Some (unat b)"
proof -
  have "unat b < 256" using unsigned_less [of b] by simp
  then show ?thesis by (intro parse_to_string) simp
qed

lemma length_4: "length xs = 4 \<Longrightarrow> xs = [xs ! 0, xs ! 1, xs ! 2, xs ! 3]"
  by (simp add: list_eq_iff_nth_eq less_Suc_eq numeral_eq_Suc)

lemma parse_octets_last: "parse_octets (Suc 0) (to_string (unat (b :: u8))) = Some [b]"
proof -
  have "find_char (to_string (unat b)) (CHR ''.'') = None" by (simp add: find_char_def to_string_no_sep)
  then show ?thesis by (simp add: Let_def byte_to_string)
qed

lemma parse_octets_more:
  "0 < k \<Longrightarrow> parse_octets (Suc k) (to_string (unat (b :: u8)) @ CHR ''.'' # rest)
     = map_option (\<lambda>ip. b # ip) (parse_octets k rest)"
  by (simp add: find_char_append to_string_no_sep byte_to_string Let_def split: option.split)

lemma parse_dotted:
  assumes "length ip = 4" "allowed_address ip"
  shows "parse_ip (dotted ip) = Some ip"
proof -
  have "parse_octets (Suc (Suc (Suc (Suc 0)))) (dotted ip) = Some [ip ! 0, ip ! 1, ip ! 2, ip ! 3]"
    unfolding dotted_def by (simp add: parse_octets_more parse_octets_last del: parse_octets.simps)
  then show ?thesis using assms length_4 [OF assms(1)] by (simp add: parse_ip_def numeral_eq_Suc del: parse_octets.simps)
qed

lemma parse_octets_Some:
  assumes "parse_octets (Suc k) s = Some ip"
  shows "length ip = Suc k" "s = concat (map (\<lambda>b. to_string (unat b) @ ''.'') (butlast ip)) @ to_string (unat (last ip))"
  using assms
proof (induction k arbitrary: s ip)
  case 0
  case 1
  then show ?case by (auto simp: Let_def split: if_splits option.splits)
  case 2
  then obtain n where n: "parse_decimal s 255 = Some n" "ip = [of_nat n]"
    by (auto simp: Let_def split: if_splits option.splits)
  then have "unat (of_nat n :: u8) = n" using parse_decimal_Some(2) [OF n(1)] by (simp add: unat_of_nat)
  then show ?case using n parse_decimal_Some(1) [OF n(1)] by simp
next
  case (Suc k)
  have step: "\<exists>d n ip'. find_char s (CHR ''.'') = Some d \<and> parse_decimal (take d s) 255 = Some n
      \<and> parse_octets (Suc k) (drop (d + 1) s) = Some ip' \<and> ip = of_nat n # ip'"
    if "parse_octets (Suc (Suc k)) s = Some ip" for s ip
    using that by (subst (asm) parse_octets.simps(2)) (auto simp: Let_def simp del: parse_octets.simps split: if_splits option.splits)
  case 1
  then show ?case using step Suc.IH(1) by fastforce
  case 2
  then obtain d n ip' where s: "find_char s (CHR ''.'') = Some d" "parse_decimal (take d s) 255 = Some n"
    "parse_octets (Suc k) (drop (d + 1) s) = Some ip'" "ip = of_nat n # ip'" using step by blast
  have "unat (of_nat n :: u8) = n" using parse_decimal_Some(2) [OF s(2)] by (simp add: unat_of_nat)
  moreover have "ip' \<noteq> []" using Suc.IH(1) [OF s(3)] by auto
  ultimately show ?case
    using find_char_Some(1) [OF s(1)] Suc.IH(2) [OF s(3)] parse_decimal_Some(1) [OF s(2)] s(4) by simp
qed

lemma parse_ip_Some:
  assumes "parse_ip s = Some ip"
  shows "length ip = 4" "allowed_address ip" "s = dotted ip"
proof -
  have o: "parse_octets (Suc 3) s = Some ip" and "allowed_address ip"
    using assms by (auto simp: parse_ip_def eval_nat_numeral split: option.splits if_splits simp del: parse_octets.simps)
  then show "allowed_address ip" by simp
  note p = parse_octets_Some [OF o]
  then show len: "length ip = 4" by simp
  have "s = concat (map (\<lambda>b. to_string (unat b) @ ''.'') (butlast [ip ! 0, ip ! 1, ip ! 2, ip ! 3]))
      @ to_string (unat (last [ip ! 0, ip ! 1, ip ! 2, ip ! 3]))"
    using p(2) length_4 [OF len] by simp
  then show "s = dotted ip" by (simp add: dotted_def)
qed

section \<open>Hexadecimal\<close>

text \<open>Facts about single digits, checked on all of them.\<close>

lemma hex_value_kHex: "k < 16 \<Longrightarrow> hex_value (kHex ! k) = int k"
proof -
  have "list_all (\<lambda>k. hex_value (kHex ! k) = int k) [0..<16]" by code_simp
  then show "k < 16 \<Longrightarrow> hex_value (kHex ! k) = int k" by (simp add: list_all_iff)
qed

definition lower :: "char \<Rightarrow> char" where
  "lower c = (if 65 \<le> char_code c \<and> char_code c \<le> 70 then char_of (char_code c + 32) else c)"

lemma kHex_hex_value:
  assumes "0 \<le> hex_value c"
  shows "hex_value c < 16" "kHex ! nat (hex_value c) = lower c"
proof -
  have "list_all (\<lambda>k. char_code (kHex ! k) = (if k < 10 then 48 + k else 87 + k)) [0..<16]" by code_simp
  then have code: "char_code (kHex ! k) = (if k < 10 then 48 + k else 87 + k)" if "k < 16" for k
    using that by (simp add: list_all_iff)
  show lt: "hex_value c < 16" using assms by (auto simp: hex_value_def)
  have "nat (hex_value c) < 16" using lt assms by simp
  from code [OF this] have "char_code (kHex ! nat (hex_value c)) = char_code (lower c)"
    using assms by (auto simp: hex_value_def lower_def split: if_splits)
  then show "kHex ! nat (hex_value c) = lower c" by (rule char_eqI)
qed

lemma nibbles_of_byte:
  fixes b :: u8
  shows "unat (drop_bit 4 b) < 16" "unat (b AND 15) < 16"
    "word_of_int (push_bit 4 (int (unat (drop_bit 4 b))) OR int (unat (b AND 15))) = b"
proof -
  have fifteen: "(15 :: u8) = mask 4" by (simp add: mask_eq_exp_minus_1)
  have "unat (drop_bit 4 b) = unat b div 16" by (simp add: drop_bit_eq_div unat_div)
  moreover have "unat b < 256" using unsigned_less [of b] by simp
  ultimately show "unat (drop_bit 4 b) < 16" by simp
  have "b AND 15 = take_bit 4 b" unfolding fifteen by (simp add: take_bit_eq_mask)
  then have "unat (b AND 15) = take_bit 4 (unat b)" by (simp only: unsigned_take_bit_eq)
  then show "unat (b AND 15) < 16" using take_bit_nat_less_exp [of 4 "unat b"] by simp
  show "word_of_int (push_bit 4 (int (unat (drop_bit 4 b))) OR int (unat (b AND 15))) = b"
    unfolding fifteen
    by (rule bit_word_eqI) (auto simp: bit_simps unsigned_drop_bit_eq)
qed

lemma byte_of_nibbles:
  assumes "0 \<le> h" "h < 16" "0 \<le> l" "l < 16"
  shows "unat (drop_bit 4 (word_of_int (push_bit 4 h OR l) :: u8)) = nat h"
    "unat ((word_of_int (push_bit 4 h OR l) :: u8) AND 15) = nat l"
proof -
  have all: "list_all (\<lambda>h. list_all (\<lambda>l.
      unat (drop_bit 4 (word_of_int (push_bit 4 (int h) OR int l) :: u8)) = h
      \<and> unat ((word_of_int (push_bit 4 (int h) OR int l) :: u8) AND 15) = l) [0..<16]) [0..<16]"
    by code_simp
  have "nat h \<in> set [0..<16]" "nat l \<in> set [0..<16]" using assms by auto
  then show "unat (drop_bit 4 (word_of_int (push_bit 4 h OR l) :: u8)) = nat h"
    "unat ((word_of_int (push_bit 4 h OR l) :: u8) AND 15) = nat l"
    using all assms unfolding list_all_iff by (metis int_nat_eq)+
qed

lemma hex_pairs_append_hex: "hex_pairs (append_hex bs) = Some bs"
proof (induction bs)
  case Nil
  then show ?case by (simp add: append_hex_def)
next
  case (Cons b bs)
  have "append_hex (b # bs) = kHex ! unat (drop_bit 4 b) # kHex ! unat (b AND 15) # append_hex bs"
    by (simp add: append_hex_def)
  then show ?case using Cons nibbles_of_byte [of b] by (simp add: hex_value_kHex)
qed

lemma length_append_hex: "length (append_hex bs) = 2 * length bs"
  by (induction bs) (simp_all add: append_hex_def)

lemma parse_append_hex: "length bs = n \<Longrightarrow> parse_hex n (append_hex bs) = Some bs"
  by (simp add: parse_hex_def length_append_hex hex_pairs_append_hex)

lemma append_hex_pairs:
  "\<lbrakk>hex_pairs s = Some bs; even (length s)\<rbrakk> \<Longrightarrow> append_hex bs = map lower s \<and> 2 * length bs = length s"
proof (induction s arbitrary: bs rule: hex_pairs.induct)
  case (1 h l cs)
  then obtain bs' where b: "0 \<le> hex_value h" "0 \<le> hex_value l" "hex_pairs cs = Some bs'"
    "bs = word_of_int (push_bit 4 (hex_value h) OR hex_value l) # bs'"
    by (auto split: if_splits option.splits)
  note n = byte_of_nibbles [OF b(1) kHex_hex_value(1) [OF b(1)] b(2) kHex_hex_value(1) [OF b(2)]]
  have "append_hex bs = lower h # lower l # append_hex bs'"
    using kHex_hex_value(2) [OF b(1)] kHex_hex_value(2) [OF b(2)] n by (simp add: append_hex_def b(4))
  then show ?case using 1 b by simp
qed (simp_all add: append_hex_def)

lemma parse_hex_Some:
  assumes "parse_hex n s = Some bs"
  shows "length bs = n" "append_hex bs = map lower s"
proof -
  have "hex_pairs s = Some bs" "length s = n * 2" using assms by (auto simp: parse_hex_def split: if_splits)
  then show "length bs = n" "append_hex bs = map lower s" using append_hex_pairs [of s bs] by auto
qed

lemma hex_no_sep: "CHR '':'' \<notin> set (append_hex bs)"
proof -
  have "CHR '':'' \<notin> set kHex" by (simp add: kHex_def)
  moreover have "length kHex = 16" by (simp add: kHex_def)
  ultimately have "kHex ! k \<noteq> CHR '':''" if "k < 16" for k using that nth_mem by metis
  then have "kHex ! unat (drop_bit 4 b) \<noteq> CHR '':''" "kHex ! unat (b AND 15) \<noteq> CHR '':''" for b :: u8
    using nibbles_of_byte(1,2) by blast+
  then show ?thesis by (induction bs) (simp_all add: append_hex_def not_sym)
qed

section \<open>Properties\<close>

definition invite_shape :: "Invite \<Rightarrow> bool" where
  "invite_shape i \<longleftrightarrow> length (inv_ipv4 i) = 4 \<and> length (inv_spki_pin i) = 32 \<and> length (inv_token i) = 16"

lemma dotted_no_sep: "CHR '':'' \<notin> set (dotted ip)"
  by (simp add: dotted_def to_string_no_sep)

lemma port_to_string:
  "parse_decimal (to_string (unat (p :: u16))) 65535 = Some (unat p)"
proof -
  have "unat p < 65536" using unsigned_less [of p] by simp
  then show ?thesis by (intro parse_to_string) simp
qed

lemma parse_format:
  assumes "invite_shape i" "allowed_address (inv_ipv4 i)" "inv_port i \<noteq> 0"
  shows "parse_invite (the (format_invite i True)) True = Some i"
proof -
  let ?tail = "append_hex (inv_token i)"
  have "take_field (dotted (inv_ipv4 i) @ CHR '':'' # to_string (unat (inv_port i)) @ CHR '':''
      # append_hex (inv_spki_pin i) @ CHR '':'' # ?tail)
    = Some (dotted (inv_ipv4 i), to_string (unat (inv_port i)) @ CHR '':'' # append_hex (inv_spki_pin i) @ CHR '':'' # ?tail)"
    by (rule take_field_append) (rule dotted_no_sep)
  then show ?thesis
    using assms
    by (simp add: format_invite_def parse_invite_def take_field_append to_string_no_sep hex_no_sep
        parse_dotted port_to_string parse_append_hex invite_shape_def word_unat_eq_iff)
qed

lemma lower_digits: "list_all is_digit s \<Longrightarrow> map lower s = s"
  by (induction s) (auto simp: lower_def is_digit_def)

lemma lower_to_string: "map lower (to_string n) = to_string n"
  by (rule lower_digits) (rule to_string_digits)

lemma lower_punctuation: "lower (CHR ''.'') = CHR ''.''" "lower (CHR '':'') = CHR '':''" "map lower kPrefix = kPrefix"
  by code_simp+

lemma lower_dotted: "map lower (dotted ip) = dotted ip"
  by (simp add: dotted_def lower_to_string lower_punctuation)

lemma parse_invite_Some:
  assumes "parse_invite s True = Some i"
  shows "invite_shape i" "allowed_address (inv_ipv4 i)" "inv_port i \<noteq> 0"
    "format_invite i True = Some (map lower s)"
proof -
  obtain ip_text s1 port_text s2 pin_text s3 ip port pin token where
    p: "take (length kPrefix) s = kPrefix" "take_field (drop (length kPrefix) s) = Some (ip_text, s1)"
    "take_field s1 = Some (port_text, s2)" "take_field s2 = Some (pin_text, s3)"
    "parse_ip ip_text = Some ip" "parse_decimal port_text 65535 = Some port" "port \<noteq> 0"
    "parse_hex 32 pin_text = Some pin" "parse_hex 16 s3 = Some token"
    "i = \<lparr>inv_ipv4 = ip, inv_port = of_nat port, inv_spki_pin = pin, inv_token = token\<rparr>"
    using assms by (auto simp: parse_invite_def split: if_splits option.splits prod.splits)
  note ip = parse_ip_Some [OF p(5)] and port = parse_decimal_Some [OF p(6)]
  note pin = parse_hex_Some [OF p(8)] and token = parse_hex_Some [OF p(9)]
  have un: "unat (of_nat port :: u16) = port" using port(2) by (simp add: unat_of_nat)
  show "invite_shape i" "allowed_address (inv_ipv4 i)" using ip(1,2) pin token by (simp_all add: invite_shape_def p(10))
  show nz: "inv_port i \<noteq> 0" using un p(7,10) by auto
  have "s = kPrefix @ drop (length kPrefix) s" using p(1) by (metis append_take_drop_id)
  also have "drop (length kPrefix) s = ip_text @ CHR '':'' # port_text @ CHR '':'' # pin_text @ CHR '':'' # s3"
    using take_field_Some [OF p(2)] take_field_Some [OF p(3)] take_field_Some [OF p(4)] by simp
  finally have "map lower s = kPrefix @ dotted ip @ CHR '':'' # to_string port @ CHR '':'' # append_hex pin
      @ CHR '':'' # append_hex token"
    using ip(3) port(1) pin(2) token(2) lower_dotted [of ip] lower_to_string [of port]
    by (simp add: lower_punctuation)
  then show "format_invite i True = Some (map lower s)"
    using ip(2) nz un by (simp add: format_invite_def p(10))
qed

text \<open>
  C38: Round trip of an invitation: every well-formed invitation (an address the filter allows, a non-zero
  port, the fixed sizes) is formatted, and scanning the text gives back exactly that invitation.
\<close>
theorem invite_roundtrip:
  assumes "invite_shape i" "allowed_address (inv_ipv4 i)" "inv_port i \<noteq> 0"
  shows "\<exists>s. format_invite i True = Some s \<and> parse_invite s True = Some i"
  using parse_format [OF assms] assms(2,3) by (auto simp: format_invite_def)

definition sample_invite :: Invite where
  "sample_invite = \<lparr>inv_ipv4 = [192, 168, 0, 10], inv_port = 4433, inv_spki_pin = replicate 32 0xAB,
     inv_token = replicate 16 7\<rparr>"

theorem invite_roundtrip_witness:
  "\<exists>s. format_invite sample_invite True = Some s \<and> parse_invite s True = Some sample_invite"
  by (rule invite_roundtrip) (simp_all add: invite_shape_def sample_invite_def allowed_address_def)

text \<open>
  The scanner accepts nothing else: a text that parses is, up to the letter case of its hexadecimal
  digits, exactly the formatted text of the invitation it yields; so no leading zeros, signs, spaces,
  missing or extra fields, loopback, link-local, multicast, network or broadcast address, and no
  zero port gets through.
\<close>
theorem invite_accepts_only_formatted:
  assumes "parse_invite s True = Some i"
  shows "format_invite i True = Some (map lower s) \<and> invite_shape i \<and> allowed_address (inv_ipv4 i)
     \<and> inv_port i \<noteq> 0"
  using parse_invite_Some [OF assms] by blast

theorem invite_accepts_only_formatted_witness:
  "\<exists>s. parse_invite s True = Some sample_invite \<and> format_invite sample_invite True = Some (map lower s)"
proof -
  have "invite_shape sample_invite" "allowed_address (inv_ipv4 sample_invite)" "inv_port sample_invite \<noteq> 0"
    by (simp_all add: invite_shape_def sample_invite_def allowed_address_def)
  from invite_accepts_only_formatted [OF parse_format [OF this]] parse_format [OF this] show ?thesis by blast
qed

end
