(* ===== verification/Lan_Session.thy ===== *)
theory Lan_Session
  imports Lan_Wire Lan_Lockstep Lan_Invite Fly_Sha256 "HOL-Library.AList"
begin

unbundle bit_operations_syntax

text \<open>
  The two-player session on a local network, \<^verbatim>\<open>shared/src/session/lan_mvp/session.cpp\<close>: an
  invitation, a lobby, the exchange of game configurations, and a lockstep game over one
  bidirectional QUIC stream.

  Every public function takes the session's lock for its whole body, so a call is one atomic
  transition. What the session calls and does not implement is the environment record \<open>LanEnv\<close>, a
  parameter of every operation: the steady clock (in nanoseconds), the QUIC provider (the request
  and the code it returns at once; completions arrive later through \<open>completion\<close>) and the
  emulator runtime behind \<^verbatim>\<open>flynes_runtime.h\<close>. The environment's own state is the type \<open>'w\<close>, kept
  in \<open>ls_world\<close> and threaded through every call. Pointers to a runtime are addresses with 0 for
  null, like the provider's resource handles. The pending operations are an association list: the
  order in which \<open>end\<close> cancels them is the order of a hash table in the code. The diagnostic sink
  (\<^verbatim>\<open>trace\<close>) and the reference count of the session are not part of the state.
\<close>

section \<open>States and data\<close>

datatype LanState =
    FLY_LAN_MVP_IDLE | FLY_LAN_MVP_INVITING | FLY_LAN_MVP_JOINING | FLY_LAN_MVP_LOBBY
  | FLY_LAN_MVP_ENDED | FLY_LAN_MVP_CONFIGURING | FLY_LAN_MVP_RUNNING | FLY_LAN_MVP_RETURNING

datatype LanReason =
    REASON_NONE | REASON_INVALID_INVITE | REASON_CONNECTION | REASON_REJECTED | REASON_EXPIRED
  | REASON_CANCELLED | REASON_ROM_INVALID | REASON_ROM_MISMATCH | REASON_CONFIG_MISMATCH
  | REASON_STALL | REASON_DESYNC | REASON_PEER_ENDED

datatype LanRole = ROLE_NONE | ROLE_HOST_P1 | ROLE_GUEST_P2

text \<open>The snapshot's 0/1 fields are booleans.\<close>

record fly_lan_mvp_snapshot =
  vw_state :: LanState
  vw_reason :: LanReason
  vw_session_id :: bytes
  vw_transport_result :: int
  vw_transport_operation :: nat
  vw_role :: LanRole
  vw_local_configured :: bool
  vw_peer_configured :: bool
  vw_local_ready :: bool
  vw_peer_ready :: bool
  vw_completed_frames :: u64
  vw_config_hash :: bytes
  vw_last_digest_frame :: u64
  vw_last_state_digest :: bytes
  vw_applied_buttons :: "u32 list"
  vw_paused :: bool
  vw_peer_game_key :: bytes

datatype Operation =
    Op_Material | Op_Listen | Op_Accept | Op_Connect | Op_OpenStream | Op_AcceptStream | Op_Read
  | Op_Write

fun operation_number :: "Operation \<Rightarrow> nat" where
  "operation_number Op_Material = 1"
| "operation_number Op_Listen = 2"
| "operation_number Op_Accept = 3"
| "operation_number Op_Connect = 4"
| "operation_number Op_OpenStream = 5"
| "operation_number Op_AcceptStream = 6"
| "operation_number Op_Read = 7"
| "operation_number Op_Write = 8"

datatype Role = Role_None | Role_Host | Role_Guest

definition kInviteLife :: int where "kInviteLife = 120000000000"
definition kProgressTimeout :: int where "kProgressTimeout = 2000000000"
definition kInputDelay :: nat where "kInputDelay = 2"
definition kInputWindow :: nat where "kInputWindow = 256"
definition kDigestInterval :: u64 where "kDigestInterval = 60"

text \<open>The runtime's structures, without their size and version fields.\<close>

record fly_runtime_source_timing =
  tim_source_region :: u32
  tim_frame_rate_numerator :: u32
  tim_frame_rate_denominator :: u32
  tim_sample_rate :: u32

record fly_frame_input =
  fin_timeline_epoch :: u64
  fin_frame_index :: u64
  fin_buttons :: "u32 list"
  fin_input_sequence :: "u64 list"
  fin_predicted_port_mask :: u32
  fin_batch_sequence :: u64

record fly_frame_result =
  fre_audio_last_sample_sequence :: u64
  fre_pcm_published :: u32

record fly_pcm_block =
  pcm_sample_count :: u32
  pcm_first_sample_sequence :: u64
  pcm_media_time_ns :: u64

section \<open>The environment\<close>

datatype quic_request =
    GenerateSelfSigned u64
  | QuicListen u64 bytes u64 nat
  | QuicAccept u64 u64
  | QuicConnect u64 bytes bytes bytes nat
  | QuicOpenBidi u64 u64
  | QuicAcceptBidi u64 u64
  | QuicRead u64 u64 nat
  | QuicWrite u64 u64 bytes nat
  | QuicCancel u64
  | QuicClose u64 u64 nat

definition FLYNES_QUIC_ACCEPTED :: int where "FLYNES_QUIC_ACCEPTED = 1"
definition FLYNES_QUIC_OK :: int where "FLYNES_QUIC_OK = 0"
definition FLY_RESULT_OK :: int where "FLY_RESULT_OK = 0"

record 'w LanEnv =
  env_now :: "'w \<Rightarrow> int \<times> 'w"
  env_quic :: "quic_request \<Rightarrow> 'w \<Rightarrow> int \<times> 'w"
  env_runtime_create :: "'w \<Rightarrow> (int \<times> nat) \<times> 'w"
  env_runtime_destroy :: "nat \<Rightarrow> 'w \<Rightarrow> 'w"
  env_runtime_load_rom_fresh :: "nat \<Rightarrow> bytes \<Rightarrow> bytes \<Rightarrow> 'w \<Rightarrow> int \<times> 'w"
  env_runtime_get_source_timing :: "nat \<Rightarrow> 'w \<Rightarrow> (int \<times> fly_runtime_source_timing) \<times> 'w"
  env_runtime_step_frame :: "nat \<Rightarrow> fly_frame_input \<Rightarrow> 'w \<Rightarrow> (int \<times> fly_frame_result) \<times> 'w"
  env_runtime_copy_frame_digest :: "nat \<Rightarrow> u64 \<Rightarrow> u64 \<Rightarrow> 'w \<Rightarrow> (int \<times> bytes) \<times> 'w"
  env_runtime_copy_latest_frame :: "nat \<Rightarrow> nat \<Rightarrow> 'w \<Rightarrow> int \<times> 'w"
  env_runtime_pull_pcm :: "nat \<Rightarrow> u32 \<Rightarrow> 'w \<Rightarrow> (int \<times> fly_pcm_block) \<times> 'w"

section \<open>The session object\<close>

record Event =
  ev_operation :: u64
  ev_result :: int
  ev_resource :: u64
  ev_bytes :: bytes

record 'w LanSession =
  ls_world :: 'w
  ls_previous_pump :: int
  ls_read_bytes :: u64
  ls_written_bytes :: u64
  ls_events :: "Event list"
  ls_operations :: "(u64 \<times> Operation) list"
  ls_next_operation :: u64
  ls_role :: Role
  ls_view :: fly_lan_mvp_snapshot
  ls_invite :: Invite
  ls_qr :: string
  ls_deadline :: int
  ls_last_progress :: int
  ls_material :: u64
  ls_listener :: u64
  ls_connection :: u64
  ls_send_stream :: u64
  ls_recv_stream :: u64
  ls_decoder :: Decoder
  ls_read_inflight :: bool
  ls_write_inflight :: bool
  ls_writes :: "bytes list"
  ls_runtime :: nat
  ls_local_rom_hash :: bytes
  ls_remote_rom_hash :: bytes
  ls_local_config_hash :: bytes
  ls_remote_config_hash :: bytes
  ls_local_configured :: bool
  ls_peer_configured :: bool
  ls_local_ready :: bool
  ls_peer_ready :: bool
  ls_inputs :: "Buffer option"
  ls_next_submit_frame :: u64
  ls_last_submitted_buttons :: u32
  ls_last_applied_buttons :: "u32 list"
  ls_lobby_generation :: u64
  ls_pcm_produced :: u64
  ls_pcm_consumed :: u64
  ls_local_digests :: "u64 \<rightharpoonup> bytes"
  ls_remote_digests :: "u64 \<rightharpoonup> bytes"

definition new_snapshot :: fly_lan_mvp_snapshot where
  "new_snapshot = \<lparr>vw_state = FLY_LAN_MVP_IDLE, vw_reason = REASON_NONE, vw_session_id = replicate 16 0,
     vw_transport_result = 0, vw_transport_operation = 0, vw_role = ROLE_NONE,
     vw_local_configured = False, vw_peer_configured = False, vw_local_ready = False,
     vw_peer_ready = False, vw_completed_frames = 0, vw_config_hash = replicate 32 0,
     vw_last_digest_frame = 0, vw_last_state_digest = replicate 32 0, vw_applied_buttons = [0, 0],
     vw_paused = False, vw_peer_game_key = replicate 256 0\<rparr>"

definition new_invite :: Invite where
  "new_invite = \<lparr>inv_ipv4 = replicate 4 0, inv_port = 0, inv_spki_pin = replicate 32 0,
     inv_token = replicate 16 0\<rparr>"

definition new_session :: "'w LanEnv \<Rightarrow> 'w \<Rightarrow> 'w LanSession" where
  "new_session env w =
     (let (created, w1) = env_now env w
      in \<lparr>ls_world = w1, ls_previous_pump = created, ls_read_bytes = 0, ls_written_bytes = 0,
          ls_events = [], ls_operations = [], ls_next_operation = 1, ls_role = Role_None,
          ls_view = new_snapshot, ls_invite = new_invite, ls_qr = [], ls_deadline = 0,
          ls_last_progress = 0, ls_material = 0, ls_listener = 0, ls_connection = 0,
          ls_send_stream = 0, ls_recv_stream = 0, ls_decoder = new_decoder,
          ls_read_inflight = False, ls_write_inflight = False, ls_writes = [], ls_runtime = 0,
          ls_local_rom_hash = replicate 32 0, ls_remote_rom_hash = replicate 32 0,
          ls_local_config_hash = replicate 32 0, ls_remote_config_hash = replicate 32 0,
          ls_local_configured = False, ls_peer_configured = False, ls_local_ready = False,
          ls_peer_ready = False, ls_inputs = None, ls_next_submit_frame = of_nat kInputDelay,
          ls_last_submitted_buttons = 0, ls_last_applied_buttons = [0, 0],
          ls_lobby_generation = 0, ls_pcm_produced = 0, ls_pcm_consumed = 0,
          ls_local_digests = Map.empty, ls_remote_digests = Map.empty\<rparr>)"

abbreviation set_state :: "LanState \<Rightarrow> 'w LanSession \<Rightarrow> 'w LanSession" where
  "set_state st s \<equiv> ls_view_update (vw_state_update (\<lambda>_. st)) s"

abbreviation set_reason :: "LanReason \<Rightarrow> 'w LanSession \<Rightarrow> 'w LanSession" where
  "set_reason r s \<equiv> ls_view_update (vw_reason_update (\<lambda>_. r)) s"

abbreviation ls_state :: "'w LanSession \<Rightarrow> LanState" where
  "ls_state s \<equiv> vw_state (ls_view s)"

text \<open>\<^verbatim>\<open>std::chrono::steady_clock::now()\<close> and a request to the provider.\<close>

definition clock :: "'w LanEnv \<Rightarrow> 'w LanSession \<Rightarrow> int \<times> 'w LanSession" where
  "clock env s = (let (t, w) = env_now env (ls_world s) in (t, s\<lparr>ls_world := w\<rparr>))"

definition request :: "'w LanEnv \<Rightarrow> quic_request \<Rightarrow> 'w LanSession \<Rightarrow> int \<times> 'w LanSession" where
  "request env q s = (let (r, w) = env_quic env q (ls_world s) in (r, s\<lparr>ls_world := w\<rparr>))"

section \<open>Helpers\<close>

definition endpoint :: "Invite \<Rightarrow> string" where
  "endpoint invite = dotted (inv_ipv4 invite) @ '':'' @ to_string (unat (inv_port invite))"

definition same_bytes :: "bytes \<Rightarrow> bytes \<Rightarrow> nat \<Rightarrow> bool" where
  "same_bytes a b n =
     (foldl (\<lambda>difference i. difference OR (a ! i XOR b ! i)) 0 [0..<n] = 0)"

definition make_config_hash :: "bytes \<Rightarrow> fly_runtime_source_timing \<Rightarrow> bytes" where
  "make_config_hash rom_hash timing =
     sha256 (rom_hash @ ascii ''flynes-lan-mvp-nestopia-v1''
       @ store_be 4 (tim_source_region timing) @ store_be 4 (tim_frame_rate_numerator timing)
       @ store_be 4 (tim_frame_rate_denominator timing) @ store_be 4 (tim_sample_rate timing))"

definition sync_view :: "'w LanSession \<Rightarrow> 'w LanSession" where
  "sync_view s =
     s\<lparr>ls_view := (ls_view s)\<lparr>
         vw_role := (case ls_role s of Role_Host \<Rightarrow> ROLE_HOST_P1 | Role_Guest \<Rightarrow> ROLE_GUEST_P2
                     | Role_None \<Rightarrow> ROLE_NONE),
         vw_local_configured := ls_local_configured s,
         vw_peer_configured := ls_peer_configured s,
         vw_local_ready := ls_local_ready s,
         vw_peer_ready := ls_peer_ready s,
         vw_config_hash := (if ls_local_configured s then ls_local_config_hash s
                            else vw_config_hash (ls_view s))\<rparr>\<rparr>"

definition stop_runtime :: "'w LanEnv \<Rightarrow> 'w LanSession \<Rightarrow> 'w LanSession" where
  "stop_runtime env s =
     (if ls_runtime s \<noteq> 0
      then s\<lparr>ls_inputs := None, ls_world := env_runtime_destroy env (ls_runtime s) (ls_world s),
             ls_runtime := 0\<rparr>
      else s\<lparr>ls_inputs := None\<rparr>)"

fun cancel_operations :: "'w LanEnv \<Rightarrow> (u64 \<times> Operation) list \<Rightarrow> 'w LanSession \<Rightarrow> 'w LanSession" where
  "cancel_operations env [] s = s"
| "cancel_operations env (pending # rest) s =
     cancel_operations env rest (snd (request env (QuicCancel (fst pending)) s))"

definition close_resource :: "'w LanEnv \<Rightarrow> u64 \<Rightarrow> 'w LanSession \<Rightarrow> 'w LanSession" where
  "close_resource env resource s =
     (if resource \<noteq> 0
      then snd (request env (QuicClose (ls_next_operation s) resource 0)
             (s\<lparr>ls_next_operation := ls_next_operation s + 1\<rparr>))
      else s)"

definition session_end :: "'w LanEnv \<Rightarrow> LanReason \<Rightarrow> 'w LanSession \<Rightarrow> 'w LanSession" where
  "session_end env reason s =
     (if ls_state s = FLY_LAN_MVP_ENDED then s
      else
        let s1 = s\<lparr>ls_view := (ls_view s)\<lparr>vw_state := FLY_LAN_MVP_ENDED, vw_reason := reason\<rparr>,
                   ls_qr := [], ls_writes := [], ls_write_inflight := False,
                   ls_read_inflight := False\<rparr>;
            s2 = stop_runtime env s1;
            s3 = (cancel_operations env (ls_operations s2) s2)\<lparr>ls_operations := []\<rparr>;
            s4 = close_resource env (ls_connection s3) s3
        in close_resource env (ls_listener s4) s4)"

definition submit :: "'w LanEnv \<Rightarrow> Operation \<Rightarrow> (u64 \<Rightarrow> quic_request) \<Rightarrow> 'w LanSession
    \<Rightarrow> bool \<times> 'w LanSession" where
  "submit env kind call s =
     (let operation = ls_next_operation s;
          s1 = s\<lparr>ls_next_operation := operation + 1,
                 ls_operations := (case map_of (ls_operations s) operation of
                     None \<Rightarrow> (operation, kind) # ls_operations s | Some _ \<Rightarrow> ls_operations s)\<rparr>;
          (result, s2) = request env (call operation) s1
      in if result = FLYNES_QUIC_ACCEPTED then (True, s2)
         else (False, session_end env REASON_CONNECTION
                (s2\<lparr>ls_operations := AList.delete operation (ls_operations s2),
                    ls_view := (ls_view s2)\<lparr>vw_transport_result := result,
                                            vw_transport_operation := operation_number kind\<rparr>\<rparr>)))"

definition begin_read :: "'w LanEnv \<Rightarrow> 'w LanSession \<Rightarrow> bool \<times> 'w LanSession" where
  "begin_read env s =
     (if ls_read_inflight s \<or> ls_recv_stream s = 0 \<or> ls_state s = FLY_LAN_MVP_ENDED then (True, s)
      else case submit env Op_Read (\<lambda>op. QuicRead op (ls_recv_stream s) (kMaxBodySize + 2))
                  (s\<lparr>ls_read_inflight := True\<rparr>) of
             (True, s1) \<Rightarrow> (True, s1)
           | (False, s1) \<Rightarrow> (False, s1\<lparr>ls_read_inflight := False\<rparr>))"

definition begin_next_write :: "'w LanEnv \<Rightarrow> 'w LanSession \<Rightarrow> bool \<times> 'w LanSession" where
  "begin_next_write env s =
     (if ls_write_inflight s \<or> ls_writes s = [] \<or> ls_send_stream s = 0
         \<or> ls_state s = FLY_LAN_MVP_ENDED then (True, s)
      else case submit env Op_Write (\<lambda>op. QuicWrite op (ls_send_stream s) (hd (ls_writes s)) 0)
                  (s\<lparr>ls_write_inflight := True\<rparr>) of
             (True, s1) \<Rightarrow> (True, s1)
           | (False, s1) \<Rightarrow> (False, s1\<lparr>ls_write_inflight := False\<rparr>))"

definition queue_message :: "'w LanEnv \<Rightarrow> Kind \<Rightarrow> bytes \<Rightarrow> 'w LanSession \<Rightarrow> bool \<times> 'w LanSession" where
  "queue_message env kind payload s =
     (case encode True (kind_byte kind) payload of
        None \<Rightarrow> (False, session_end env REASON_REJECTED s)
      | Some bytes \<Rightarrow> begin_next_write env (s\<lparr>ls_writes := ls_writes s @ [bytes]\<rparr>))"

definition configs_match :: "'w LanSession \<Rightarrow> bool" where
  "configs_match s =
     (ls_local_configured s \<and> ls_peer_configured s
      \<and> same_bytes (ls_local_rom_hash s) (ls_remote_rom_hash s) (length (ls_local_rom_hash s))
      \<and> same_bytes (ls_local_config_hash s) (ls_remote_config_hash s)
          (length (ls_local_config_hash s)))"

definition compare_digest :: "'w LanEnv \<Rightarrow> u64 \<Rightarrow> 'w LanSession \<Rightarrow> 'w LanSession" where
  "compare_digest env frm s =
     (case (ls_local_digests s frm, ls_remote_digests s frm) of
        (Some local, Some remote) \<Rightarrow>
          if \<not> same_bytes local remote (length local) then session_end env REASON_DESYNC s
          else s\<lparr>ls_local_digests := (ls_local_digests s)(frm := None),
                 ls_remote_digests := (ls_remote_digests s)(frm := None)\<rparr>
      | _ \<Rightarrow> s)"

definition publish_digest :: "'w LanEnv \<Rightarrow> u64 \<Rightarrow> 'w LanSession \<Rightarrow> 'w LanSession" where
  "publish_digest env frm s =
     (let ((result, digest), w) = env_runtime_copy_frame_digest env (ls_runtime s) 1 frm (ls_world s);
          s1 = s\<lparr>ls_world := w\<rparr>
      in if result \<noteq> FLY_RESULT_OK then session_end env REASON_CONFIG_MISMATCH s1
         else
           let state = take 32 digest;
               s2 = s1\<lparr>ls_local_digests := (ls_local_digests s1)(frm \<mapsto> state),
                       ls_view := (ls_view s1)\<lparr>vw_last_digest_frame := frm,
                                               vw_last_state_digest := state\<rparr>\<rparr>;
               s3 = snd (queue_message env Kind_Digest (store_be 8 frm @ state) s2)
           in compare_digest env frm s3)"

section \<open>The lockstep loop\<close>

text \<open>
  \<open>frame_input\<close> is the input record of a popped frame and \<open>complete_frame\<close> the body of the loop of
  \<^verbatim>\<open>advance\<close>, with False where the body returns from the function. The loop's fuel is the window of
  the input buffer: every frame it completes removes a slot of the window.
\<close>

definition frame_input :: "Role \<Rightarrow> Frame \<Rightarrow> fly_frame_input" where
  "frame_input role frm =
     \<lparr>fin_timeline_epoch = 1, fin_frame_index = frm_index frm,
      fin_buttons = (if role = Role_Host then [frm_local_mask frm, frm_remote_mask frm, 0, 0]
                     else [frm_remote_mask frm, frm_local_mask frm, 0, 0]),
      fin_input_sequence = [frm_index frm + 1, frm_index frm + 1, 0, 0],
      fin_predicted_port_mask = 0, fin_batch_sequence = frm_index frm + 1\<rparr>"

definition note_applied :: "fly_frame_input \<Rightarrow> 'w LanSession \<Rightarrow> 'w LanSession" where
  "note_applied input s =
     (if fin_buttons input ! 0 \<noteq> ls_last_applied_buttons s ! 0
         \<or> fin_buttons input ! 1 \<noteq> ls_last_applied_buttons s ! 1
      then s\<lparr>ls_last_applied_buttons := [fin_buttons input ! 0, fin_buttons input ! 1]\<rparr>
      else s)"

definition complete_frame :: "'w LanEnv \<Rightarrow> Frame \<Rightarrow> 'w LanSession \<Rightarrow> bool \<times> 'w LanSession" where
  "complete_frame env frm s =
     (let input = frame_input (ls_role s) frm;
          s1 = note_applied input s;
          ((code, result), w) = env_runtime_step_frame env (ls_runtime s1) input (ls_world s1);
          s2 = s1\<lparr>ls_world := w\<rparr>
      in if code \<noteq> FLY_RESULT_OK then (False, session_end env REASON_CONFIG_MISMATCH s2)
         else
           let s3 = s2\<lparr>ls_view := (ls_view s2)\<lparr>vw_completed_frames := frm_index frm + 1,
                          vw_applied_buttons := [fin_buttons input ! 0, fin_buttons input ! 1]\<rparr>,
                       ls_pcm_produced := (if fre_pcm_published result \<noteq> 0
                          then fre_audio_last_sample_sequence result + 1 else ls_pcm_produced s2)\<rparr>;
               (now, s4) = clock env s3;
               s5 = s4\<lparr>ls_last_progress := now\<rparr>
           in (True, if vw_completed_frames (ls_view s5) mod kDigestInterval = 0
                     then publish_digest env (frm_index frm) s5 else s5))"

fun frame_loop :: "'w LanEnv \<Rightarrow> nat \<Rightarrow> 'w LanSession \<Rightarrow> 'w LanSession" where
  "frame_loop env 0 s = s"
| "frame_loop env (Suc fuel) s =
     (if ls_state s \<noteq> FLY_LAN_MVP_RUNNING then s
      else case ls_inputs s of
             None \<Rightarrow> s
           | Some inputs \<Rightarrow>
               (case pop_ready inputs True of
                  (None, inputs') \<Rightarrow> s\<lparr>ls_inputs := Some inputs'\<rparr>
                | (Some frm, inputs') \<Rightarrow>
                    (case complete_frame env frm (s\<lparr>ls_inputs := Some inputs'\<rparr>) of
                       (True, s1) \<Rightarrow> frame_loop env fuel s1
                     | (False, s1) \<Rightarrow> s1)))"

definition advance :: "'w LanEnv \<Rightarrow> 'w LanSession \<Rightarrow> 'w LanSession" where
  "advance env s =
     (if ls_state s \<noteq> FLY_LAN_MVP_RUNNING \<or> vw_paused (ls_view s) \<or> ls_inputs s = None
         \<or> ls_runtime s = 0 then s
      else frame_loop env (Suc (buf_window (the (ls_inputs s)))) s)"

fun prime_inputs :: "nat \<Rightarrow> Buffer \<Rightarrow> Buffer" where
  "prime_inputs 0 b = b"
| "prime_inputs (Suc n) b =
     (let b1 = prime_inputs n b;
          b2 = snd (put_local b1 (of_nat n) 0)
      in snd (put_remote b2 (of_nat n) 0))"

definition enter_running :: "'w LanEnv \<Rightarrow> 'w LanSession \<Rightarrow> 'w LanSession" where
  "enter_running env s =
     (if ls_state s = FLY_LAN_MVP_RUNNING \<or> ls_runtime s = 0 \<or> \<not> configs_match s
         \<or> \<not> ls_local_ready s \<or> \<not> ls_peer_ready s then s
      else
        let s1 = s\<lparr>ls_view := (ls_view s)\<lparr>vw_state := FLY_LAN_MVP_RUNNING, vw_reason := REASON_NONE,
                       vw_completed_frames := 0, vw_last_digest_frame := 0,
                       vw_last_state_digest := replicate 32 0\<rparr>,
                   ls_pcm_produced := 0, ls_pcm_consumed := 0,
                   ls_inputs := Some (prime_inputs kInputDelay (new_buffer kInputDelay kInputWindow)),
                   ls_next_submit_frame := of_nat kInputDelay,
                   ls_local_digests := Map.empty, ls_remote_digests := Map.empty\<rparr>;
            (now, s2) = clock env s1
        in advance env (s2\<lparr>ls_last_progress := now\<rparr>))"

definition maybe_start_host :: "'w LanEnv \<Rightarrow> 'w LanSession \<Rightarrow> 'w LanSession" where
  "maybe_start_host env s =
     (if ls_role s \<noteq> Role_Host \<or> ls_state s = FLY_LAN_MVP_RUNNING \<or> \<not> ls_local_ready s
         \<or> \<not> ls_peer_ready s \<or> \<not> configs_match s then s
      else case queue_message env Kind_Start (ls_local_config_hash s) s of
             (True, s1) \<Rightarrow> enter_running env s1
           | (False, s1) \<Rightarrow> s1)"

definition clear_game :: "'w LanEnv \<Rightarrow> 'w LanSession \<Rightarrow> 'w LanSession" where
  "clear_game env s =
     (let s1 = stop_runtime env s
      in s1\<lparr>ls_local_configured := False, ls_peer_configured := False, ls_local_ready := False,
            ls_peer_ready := False, ls_local_rom_hash := replicate 32 0,
            ls_remote_rom_hash := replicate 32 0, ls_local_config_hash := replicate 32 0,
            ls_remote_config_hash := replicate 32 0, ls_local_digests := Map.empty,
            ls_remote_digests := Map.empty, ls_pcm_produced := 0, ls_pcm_consumed := 0,
            ls_view := (ls_view s1)\<lparr>vw_completed_frames := 0, vw_last_digest_frame := 0,
                          vw_paused := False, vw_peer_game_key := replicate 256 0,
                          vw_applied_buttons := [0, 0], vw_config_hash := replicate 32 0,
                          vw_last_state_digest := replicate 32 0, vw_reason := REASON_NONE\<rparr>,
            ls_last_submitted_buttons := 0, ls_last_applied_buttons := [0, 0]\<rparr>)"

definition return_lobby :: "'w LanEnv \<Rightarrow> 'w LanSession \<Rightarrow> bool \<times> 'w LanSession" where
  "return_lobby env s =
     (if ls_state s = FLY_LAN_MVP_RETURNING then (True, s)
      else if ls_state s \<noteq> FLY_LAN_MVP_RUNNING \<and> ls_state s \<noteq> FLY_LAN_MVP_LOBBY
         \<and> ls_state s \<noteq> FLY_LAN_MVP_CONFIGURING then (False, s)
      else if ls_role s = Role_Guest
      then queue_message env Kind_LobbyRequest [] (set_state FLY_LAN_MVP_RETURNING s)
      else
        let s1 = set_state FLY_LAN_MVP_RETURNING (clear_game env s);
            s2 = s1\<lparr>ls_lobby_generation := ls_lobby_generation s1 + 1\<rparr>
        in queue_message env Kind_Lobby (store_be 8 (ls_lobby_generation s2)) s2)"

section \<open>Messages\<close>

text \<open>
  \<^verbatim>\<open>handle_message\<close> is a chain of conditionals on the kind of the message. Every branch that stands
  for one kind is a definition of its own; \<open>handle_message\<close> tries them in the order of the code.
\<close>

definition handle_pause :: "'w LanEnv \<Rightarrow> bytes \<Rightarrow> 'w LanSession \<Rightarrow> 'w LanSession" where
  "handle_pause env payload s =
     (if ls_state s \<noteq> FLY_LAN_MVP_RUNNING then s
      else
        let s1 = s\<lparr>ls_view := (ls_view s)\<lparr>vw_paused := (payload ! 0 \<noteq> 0)\<rparr>\<rparr>;
            (now, s2) = clock env s1;
            s3 = s2\<lparr>ls_last_progress := now\<rparr>;
            s4 = (if ls_role s3 = Role_Host then snd (queue_message env Kind_Pause payload s3) else s3)
        in if \<not> vw_paused (ls_view s4) then advance env s4 else s4)"

definition join_refused :: "'w LanEnv \<Rightarrow> 'w LanSession \<Rightarrow> 'w LanSession" where
  "join_refused env s =
     (let (now, s1) = clock env s
      in session_end env (if now \<ge> ls_deadline s1 then REASON_EXPIRED else REASON_REJECTED) s1)"

definition handle_join :: "'w LanEnv \<Rightarrow> bytes \<Rightarrow> 'w LanSession \<Rightarrow> 'w LanSession" where
  "handle_join env payload s =
     (if ls_role s \<noteq> Role_Host \<or> ls_state s \<noteq> FLY_LAN_MVP_INVITING
         \<or> length payload \<noteq> length (inv_token (ls_invite s)) then join_refused env s
      else
        let (now, s1) = clock env s
        in if now \<ge> ls_deadline s1
              \<or> \<not> same_bytes (inv_token (ls_invite s1)) payload (length (inv_token (ls_invite s1)))
           then join_refused env s1
           else
             let seed = take 16 (inv_token (ls_invite s1)) @ take 32 (inv_spki_pin (ls_invite s1));
                 s2 = s1\<lparr>ls_view := (ls_view s1)\<lparr>vw_session_id := take 16 (sha256 seed)\<rparr>, ls_qr := []\<rparr>
             in case queue_message env Kind_Accept (vw_session_id (ls_view s2)) s2 of
                  (True, s3) \<Rightarrow> set_state FLY_LAN_MVP_LOBBY s3
                | (False, s3) \<Rightarrow> s3)"

definition handle_accept :: "'w LanEnv \<Rightarrow> bytes \<Rightarrow> 'w LanSession \<Rightarrow> 'w LanSession" where
  "handle_accept env payload s =
     (if ls_role s \<noteq> Role_Guest \<or> ls_state s \<noteq> FLY_LAN_MVP_JOINING \<or> length payload \<noteq> 16
      then session_end env REASON_REJECTED s
      else s\<lparr>ls_view := (ls_view s)\<lparr>vw_session_id := payload, vw_state := FLY_LAN_MVP_LOBBY\<rparr>\<rparr>)"

definition handle_config :: "'w LanEnv \<Rightarrow> bytes \<Rightarrow> 'w LanSession \<Rightarrow> 'w LanSession" where
  "handle_config env payload s =
     (if (ls_state s \<noteq> FLY_LAN_MVP_LOBBY \<and> ls_state s \<noteq> FLY_LAN_MVP_CONFIGURING)
         \<or> length payload < 64 \<or> length payload \<ge> 64 + 256
      then session_end env REASON_REJECTED s
      else
        let changed = (ls_peer_configured s
              \<and> (\<not> same_bytes (ls_remote_rom_hash s) payload 32
                 \<or> \<not> same_bytes (ls_remote_config_hash s) (drop 32 payload) 32));
            key = drop 64 payload;
            s1 = s\<lparr>ls_remote_rom_hash := take 32 payload,
                   ls_remote_config_hash := take 32 (drop 32 payload),
                   ls_peer_configured := True,
                   ls_local_ready := (ls_local_ready s \<and> \<not> changed),
                   ls_peer_ready := (ls_peer_ready s \<and> \<not> changed),
                   ls_view := (ls_view s)\<lparr>vw_peer_game_key := key @ replicate (256 - length key) 0,
                                           vw_state := FLY_LAN_MVP_CONFIGURING\<rparr>\<rparr>
        in if ls_local_configured s1 \<and> \<not> same_bytes (ls_local_rom_hash s1) (ls_remote_rom_hash s1) 32
           then s1\<lparr>ls_view := (ls_view s1)\<lparr>vw_reason := REASON_ROM_MISMATCH\<rparr>,
                   ls_local_ready := False, ls_peer_ready := False\<rparr>
           else if ls_local_configured s1
              \<and> \<not> same_bytes (ls_local_config_hash s1) (ls_remote_config_hash s1) 32
           then s1\<lparr>ls_view := (ls_view s1)\<lparr>vw_reason := REASON_CONFIG_MISMATCH\<rparr>,
                   ls_local_ready := False, ls_peer_ready := False\<rparr>
           else maybe_start_host env s1)"

definition handle_ready :: "'w LanEnv \<Rightarrow> bytes \<Rightarrow> 'w LanSession \<Rightarrow> 'w LanSession" where
  "handle_ready env payload s =
     (if (ls_state s \<noteq> FLY_LAN_MVP_CONFIGURING \<and> ls_state s \<noteq> FLY_LAN_MVP_LOBBY)
         \<or> length payload \<noteq> 32 \<or> \<not> ls_peer_configured s
         \<or> \<not> same_bytes (ls_remote_config_hash s) payload 32
      then session_end env REASON_CONFIG_MISMATCH s
      else maybe_start_host env (s\<lparr>ls_peer_ready := True\<rparr>))"

definition handle_start :: "'w LanEnv \<Rightarrow> bytes \<Rightarrow> 'w LanSession \<Rightarrow> 'w LanSession" where
  "handle_start env payload s =
     (if ls_role s \<noteq> Role_Guest \<or> ls_state s \<noteq> FLY_LAN_MVP_CONFIGURING \<or> length payload \<noteq> 32
         \<or> \<not> ls_local_ready s \<or> \<not> ls_peer_ready s
         \<or> \<not> same_bytes (ls_local_config_hash s) payload 32 \<or> \<not> configs_match s
      then session_end env REASON_CONFIG_MISMATCH s
      else enter_running env s)"

definition handle_input :: "'w LanEnv \<Rightarrow> bytes \<Rightarrow> 'w LanSession \<Rightarrow> 'w LanSession" where
  "handle_input env payload s =
     (case ls_inputs s of
        None \<Rightarrow> session_end env REASON_REJECTED s
      | Some inputs \<Rightarrow>
          if ls_state s \<noteq> FLY_LAN_MVP_RUNNING \<or> length payload \<noteq> 12
          then session_end env REASON_REJECTED s
          else
            let (result, inputs') =
                  put_remote inputs (load_be (take 8 payload)) (load_be (take 4 (drop 8 payload)));
                s1 = s\<lparr>ls_inputs := Some inputs'\<rparr>
            in if result = Put_Conflict \<or> result = Put_OutOfWindow
               then session_end env REASON_REJECTED s1
               else advance env s1)"

definition handle_digest :: "'w LanEnv \<Rightarrow> bytes \<Rightarrow> 'w LanSession \<Rightarrow> 'w LanSession" where
  "handle_digest env payload s =
     (if ls_state s \<noteq> FLY_LAN_MVP_RUNNING \<or> length payload \<noteq> 40
      then session_end env REASON_REJECTED s
      else
        let digest = take 32 (drop 8 payload);
            frm = load_be (take 8 payload)
        in compare_digest env frm
             (s\<lparr>ls_remote_digests := (ls_remote_digests s)(frm \<mapsto> digest)\<rparr>))"

definition handle_lobby :: "'w LanEnv \<Rightarrow> bytes \<Rightarrow> 'w LanSession \<Rightarrow> 'w LanSession" where
  "handle_lobby env payload s =
     (let s1 = clear_game env s;
          s2 = s1\<lparr>ls_lobby_generation := load_be payload,
                  ls_view := (ls_view s1)\<lparr>vw_state := FLY_LAN_MVP_LOBBY\<rparr>\<rparr>
      in snd (queue_message env Kind_LobbyAck payload s2))"

definition handle_message :: "'w LanEnv \<Rightarrow> Message \<Rightarrow> 'w LanSession \<Rightarrow> 'w LanSession" where
  "handle_message env message s =
     (let kind = msg_kind message; payload = msg_payload message
      in if kind = kind_byte Kind_LobbyRequest \<and> ls_role s = Role_Host \<and> payload = []
         then snd (return_lobby env s)
         else if kind = kind_byte Kind_Lobby \<and> ls_role s = Role_Guest \<and> length payload = 8
         then handle_lobby env payload s
         else if kind = kind_byte Kind_LobbyAck \<and> ls_role s = Role_Host
            \<and> ls_state s = FLY_LAN_MVP_RETURNING \<and> length payload = 8
            \<and> load_be payload = ls_lobby_generation s
         then set_state FLY_LAN_MVP_LOBBY s
         else if ls_state s = FLY_LAN_MVP_RETURNING then s
         else if kind = kind_byte Kind_Pause \<and> length payload = 1 then handle_pause env payload s
         else if kind = kind_byte Kind_Join then handle_join env payload s
         else if kind = kind_byte Kind_Accept then handle_accept env payload s
         else if kind = kind_byte Kind_Config then handle_config env payload s
         else if kind = kind_byte Kind_Ready then handle_ready env payload s
         else if kind = kind_byte Kind_Start then handle_start env payload s
         else if kind = kind_byte Kind_Input then handle_input env payload s
         else if kind = kind_byte Kind_Digest then handle_digest env payload s
         else if kind = kind_byte Kind_End then session_end env REASON_PEER_ENDED s
         else session_end env REASON_REJECTED s)"

section \<open>Completions\<close>

text \<open>
  The loop of a completed read hands over the messages of the decoder one by one; its fuel is the
  number of buffered bytes.
\<close>

fun read_loop :: "'w LanEnv \<Rightarrow> nat \<Rightarrow> 'w LanSession \<Rightarrow> 'w LanSession" where
  "read_loop env 0 s = s"
| "read_loop env (Suc fuel) s =
     (if ls_state s = FLY_LAN_MVP_ENDED then s
      else case pop (ls_decoder s) True of
             (True, Some message, d) \<Rightarrow>
               read_loop env fuel (handle_message env message (s\<lparr>ls_decoder := d\<rparr>))
           | (_, _, d) \<Rightarrow> s\<lparr>ls_decoder := d\<rparr>)"

fun port_loop :: "nat \<Rightarrow> bytes \<Rightarrow> nat option" where
  "port_loop port [] = Some port"
| "port_loop port (b # bs) =
     (if b < 48 \<or> b > 57 then None
      else let port' = port * 10 + (unat b - 48)
           in if port' > 65535 then None else port_loop port' bs)"

definition bound_port :: "bytes \<Rightarrow> nat option" where
  "bound_port address =
     (if 58 \<notin> set address then None
      else case port_loop 0 (rev (takeWhile (\<lambda>b. b \<noteq> 58) (rev address))) of
             None \<Rightarrow> None
           | Some port \<Rightarrow> if port = 0 then None else Some port)"

definition consume_material :: "'w LanEnv \<Rightarrow> Event \<Rightarrow> 'w LanSession \<Rightarrow> 'w LanSession" where
  "consume_material env event s =
     (if ev_resource event = 0 \<or> ev_bytes event = [] then session_end env REASON_CONNECTION s
      else
        let s1 = s\<lparr>ls_material := ev_resource event,
                   ls_invite := (ls_invite s)\<lparr>inv_spki_pin := sha256 (ev_bytes event)\<rparr>\<rparr>;
            address = ascii (endpoint (ls_invite s1))
        in snd (submit env Op_Listen (\<lambda>op. QuicListen op address (ls_material s1) 30000) s1))"

definition consume_listen :: "'w LanEnv \<Rightarrow> Event \<Rightarrow> 'w LanSession \<Rightarrow> 'w LanSession" where
  "consume_listen env event s =
     (let s1 = s\<lparr>ls_listener := ev_resource event\<rparr>
      in if ls_listener s1 = 0 \<or> ev_bytes event = [] then session_end env REASON_CONNECTION s1
         else case bound_port (ev_bytes event) of
                None \<Rightarrow> session_end env REASON_CONNECTION s1
              | Some port \<Rightarrow>
                  let s2 = s1\<lparr>ls_invite := (ls_invite s1)\<lparr>inv_port := of_nat port\<rparr>\<rparr>
                  in case format_invite (ls_invite s2) True of
                       None \<Rightarrow> session_end env REASON_CONNECTION s2
                     | Some qr \<Rightarrow>
                         let (now, s3) = clock env (s2\<lparr>ls_qr := qr\<rparr>);
                             s4 = s3\<lparr>ls_deadline := now + kInviteLife\<rparr>
                         in snd (submit env Op_Accept (\<lambda>op. QuicAccept op (ls_listener s4)) s4))"

definition consume_accept :: "'w LanEnv \<Rightarrow> Event \<Rightarrow> 'w LanSession \<Rightarrow> 'w LanSession" where
  "consume_accept env event s =
     (let s1 = s\<lparr>ls_connection := ev_resource event\<rparr>
      in if ls_connection s1 = 0 then session_end env REASON_CONNECTION s1
         else snd (submit env Op_AcceptStream (\<lambda>op. QuicAcceptBidi op (ls_connection s1)) s1))"

definition consume_connect :: "'w LanEnv \<Rightarrow> Event \<Rightarrow> 'w LanSession \<Rightarrow> 'w LanSession" where
  "consume_connect env event s =
     (let s1 = s\<lparr>ls_connection := ev_resource event\<rparr>
      in if ls_connection s1 = 0 then session_end env REASON_CONNECTION s1
         else snd (submit env Op_OpenStream (\<lambda>op. QuicOpenBidi op (ls_connection s1)) s1))"

definition consume_stream :: "'w LanEnv \<Rightarrow> Event \<Rightarrow> 'w LanSession \<Rightarrow> 'w LanSession" where
  "consume_stream env event s =
     (if ev_resource event = 0 \<or> length (ev_bytes event) \<noteq> 8
      then session_end env REASON_CONNECTION s
      else
        let s1 = s\<lparr>ls_send_stream := ev_resource event, ls_recv_stream := load_be (ev_bytes event)\<rparr>;
            s2 = (if ls_role s1 = Role_Guest
                  then snd (queue_message env Kind_Join (inv_token (ls_invite s1)) s1) else s1);
            s3 = snd (begin_read env s2)
        in snd (begin_next_write env s3))"

definition consume_write :: "'w LanEnv \<Rightarrow> 'w LanSession \<Rightarrow> 'w LanSession" where
  "consume_write env s =
     snd (begin_next_write env
       (s\<lparr>ls_written_bytes := (if ls_writes s = [] then ls_written_bytes s
                               else ls_written_bytes s + of_nat (length (hd (ls_writes s)))),
          ls_write_inflight := False, ls_writes := tl (ls_writes s)\<rparr>))"

definition consume_read :: "'w LanEnv \<Rightarrow> Event \<Rightarrow> 'w LanSession \<Rightarrow> 'w LanSession" where
  "consume_read env event s =
     (let s1 = s\<lparr>ls_read_bytes := ls_read_bytes s + of_nat (length (ev_bytes event)),
                 ls_read_inflight := False\<rparr>
      in if ev_bytes event = [] then session_end env REASON_CONNECTION s1
         else
           let (ok, d) = push (ls_decoder s1) (Some (ev_bytes event));
               s2 = s1\<lparr>ls_decoder := d\<rparr>
           in if \<not> ok then session_end env REASON_REJECTED s2
              else
                let s3 = read_loop env (length (dec_bytes (ls_decoder s2)) + 1) s2
                in if \<not> dec_failed (ls_decoder s3) then snd (begin_read env s3) else s3)"

definition consume_event :: "'w LanEnv \<Rightarrow> Event \<Rightarrow> 'w LanSession \<Rightarrow> 'w LanSession" where
  "consume_event env event s =
     (if ls_state s = FLY_LAN_MVP_ENDED then s
      else case map_of (ls_operations s) (ev_operation event) of
             None \<Rightarrow> s
           | Some kind \<Rightarrow>
               let s1 = s\<lparr>ls_operations := AList.delete (ev_operation event) (ls_operations s)\<rparr>
               in if ev_result event \<noteq> FLYNES_QUIC_OK
                  then session_end env REASON_CONNECTION
                         (s1\<lparr>ls_view := (ls_view s1)\<lparr>vw_transport_result := ev_result event,
                                vw_transport_operation := operation_number kind\<rparr>\<rparr>)
                  else case kind of
                         Op_Material \<Rightarrow> consume_material env event s1
                       | Op_Listen \<Rightarrow> consume_listen env event s1
                       | Op_Accept \<Rightarrow> consume_accept env event s1
                       | Op_Connect \<Rightarrow> consume_connect env event s1
                       | Op_OpenStream \<Rightarrow> consume_stream env event s1
                       | Op_AcceptStream \<Rightarrow> consume_stream env event s1
                       | Op_Write \<Rightarrow> consume_write env s1
                       | Op_Read \<Rightarrow> consume_read env event s1)"

fun consume_all :: "'w LanEnv \<Rightarrow> Event list \<Rightarrow> 'w LanSession \<Rightarrow> 'w LanSession" where
  "consume_all env [] s = s"
| "consume_all env (event # work) s = consume_all env work (consume_event env event s)"

definition expire_invite :: "'w LanEnv \<Rightarrow> 'w LanSession \<Rightarrow> 'w LanSession" where
  "expire_invite env s =
     (if ls_role s = Role_Host \<and> ls_state s = FLY_LAN_MVP_INVITING \<and> ls_qr s \<noteq> []
      then let (now, s1) = clock env s
           in if now \<ge> ls_deadline s1 then session_end env REASON_EXPIRED s1 else s1
      else s)"

definition watch_progress :: "'w LanEnv \<Rightarrow> 'w LanSession \<Rightarrow> 'w LanSession" where
  "watch_progress env s =
     (if ls_state s = FLY_LAN_MVP_RUNNING \<and> \<not> vw_paused (ls_view s)
      then let (now, s1) = clock env s
           in if now - ls_last_progress s1 \<ge> kProgressTimeout then session_end env REASON_STALL s1 else s1
      else s)"

definition pump :: "'w LanEnv \<Rightarrow> 'w LanSession \<Rightarrow> 'w LanSession" where
  "pump env s =
     (let (now, s1) = clock env s;
          work = ls_events s1;
          s2 = consume_all env work (s1\<lparr>ls_previous_pump := now, ls_events := []\<rparr>)
      in sync_view (watch_progress env (expire_invite env s2)))"

definition completion :: "u64 \<Rightarrow> int \<Rightarrow> u64 \<Rightarrow> bytes option \<Rightarrow> 'w LanSession \<Rightarrow> 'w LanSession" where
  "completion operation result resource bytes s =
     s\<lparr>ls_events := ls_events s @ [\<lparr>ev_operation = operation, ev_result = result,
        ev_resource = resource, ev_bytes = (case bytes of None \<Rightarrow> [] | Some bs \<Rightarrow> bs)\<rparr>]\<rparr>"

section \<open>The public functions\<close>

text \<open>
  Functions that return 0 or 1 return a boolean. The session pointer is never null here; the other
  pointers are options. A copied-out value is part of the result.
\<close>

definition fly_lan_mvp_host :: "'w LanEnv \<Rightarrow> string option \<Rightarrow> bytes option \<Rightarrow> 'w LanSession
    \<Rightarrow> bool \<times> 'w LanSession" where
  "fly_lan_mvp_host env host_ipv4 token16 s =
     (case (host_ipv4, token16) of
        (Some host, Some token) \<Rightarrow>
          (case parse_lan_ipv4 host True of
             None \<Rightarrow> (False, s)
           | Some ip \<Rightarrow>
               if ls_state s \<noteq> FLY_LAN_MVP_IDLE then (False, s)
               else
                 let s1 = s\<lparr>ls_role := Role_Host,
                            ls_invite := (ls_invite s)\<lparr>inv_ipv4 := ip, inv_port := 0,
                                           inv_token := take 16 token\<rparr>,
                            ls_view := (ls_view s)\<lparr>vw_state := FLY_LAN_MVP_INVITING\<rparr>\<rparr>
                 in submit env Op_Material GenerateSelfSigned (sync_view s1))
      | _ \<Rightarrow> (False, s))"

definition fly_lan_mvp_join :: "'w LanEnv \<Rightarrow> string option \<Rightarrow> string option \<Rightarrow> 'w LanSession
    \<Rightarrow> bool \<times> 'w LanSession" where
  "fly_lan_mvp_join env local_ipv4 qr_text s =
     (case (local_ipv4, qr_text) of
        (Some local_text, Some qr) \<Rightarrow>
          (case parse_invite qr True of
             None \<Rightarrow> (False, s)
           | Some invite \<Rightarrow>
               (case parse_lan_ipv4 local_text True of
                  None \<Rightarrow> (False, s)
                | Some local_ip \<Rightarrow>
                    if ls_state s \<noteq> FLY_LAN_MVP_IDLE then (False, s)
                    else
                      let s1 = sync_view (s\<lparr>ls_role := Role_Guest, ls_invite := invite,
                                 ls_view := (ls_view s)\<lparr>vw_state := FLY_LAN_MVP_JOINING\<rparr>\<rparr>);
                          address = ascii (endpoint invite);
                          bind = ascii (endpoint (new_invite\<lparr>inv_ipv4 := local_ip\<rparr>))
                      in submit env Op_Connect
                           (\<lambda>op. QuicConnect op bind address (inv_spki_pin (ls_invite s1)) 10000) s1))
      | _ \<Rightarrow> (False, s))"

text \<open>\<open>copy_invite\<close> returns the size it needs, and the text it copied out.\<close>

definition fly_lan_mvp_copy_invite :: "'w LanEnv \<Rightarrow> bool \<Rightarrow> nat \<Rightarrow> 'w LanSession
    \<Rightarrow> (nat \<times> string option) \<times> 'w LanSession" where
  "fly_lan_mvp_copy_invite env out capacity s =
     (let s1 = pump env s
      in if ls_qr s1 = [] \<or> ls_state s1 \<noteq> FLY_LAN_MVP_INVITING then ((0, None), s1)
         else let needed = length (ls_qr s1) + 1
              in ((needed, if out \<and> capacity \<ge> needed then Some (ls_qr s1) else None), s1))"

definition fly_lan_mvp_snapshot_read :: "'w LanEnv \<Rightarrow> bool \<Rightarrow> 'w LanSession
    \<Rightarrow> fly_lan_mvp_snapshot option \<times> 'w LanSession" where
  "fly_lan_mvp_snapshot_read env out s =
     (if \<not> out then (None, s) else let s1 = pump env s in (Some (ls_view s1), s1))"

text \<open>
  \<open>load_candidate\<close> creates a runtime and loads the ROM: it yields the address, the two hashes and
  the environment, or nothing and the reason to report.
\<close>

definition load_candidate :: "'w LanEnv \<Rightarrow> bytes \<Rightarrow> 'w LanSession
    \<Rightarrow> (nat \<times> bytes \<times> bytes) option \<times> 'w LanSession" where
  "load_candidate env bytes s =
     (let ((created, candidate), w1) = env_runtime_create env (ls_world s);
          s1 = s\<lparr>ls_world := w1\<rparr>
      in if created \<noteq> FLY_RESULT_OK \<or> candidate = 0 then (None, s1)
         else
           let rom_hash = sha256 bytes;
               (loaded, w2) = env_runtime_load_rom_fresh env candidate bytes rom_hash (ls_world s1);
               s2 = s1\<lparr>ls_world := w2\<rparr>
           in if loaded \<noteq> FLY_RESULT_OK
              then (None, set_reason REASON_ROM_INVALID
                      (s2\<lparr>ls_world := env_runtime_destroy env candidate (ls_world s2)\<rparr>))
              else
                let ((timed, timing), w3) = env_runtime_get_source_timing env candidate (ls_world s2);
                    s3 = s2\<lparr>ls_world := w3\<rparr>
                in if timed \<noteq> FLY_RESULT_OK
                   then (None, set_reason REASON_ROM_INVALID
                           (s3\<lparr>ls_world := env_runtime_destroy env candidate (ls_world s3)\<rparr>))
                   else (Some (candidate, rom_hash, make_config_hash rom_hash timing), s3))"

definition fly_lan_mvp_select_game :: "'w LanEnv \<Rightarrow> bytes option \<Rightarrow> string option \<Rightarrow> 'w LanSession
    \<Rightarrow> bool \<times> 'w LanSession" where
  "fly_lan_mvp_select_game env rom game_key s =
     (case (rom, game_key) of
        (Some bytes, Some key) \<Rightarrow>
          if bytes = [] \<or> length key \<ge> 256 then (False, s)
          else
            let s1 = pump env s
            in if ls_state s1 \<noteq> FLY_LAN_MVP_LOBBY \<and> ls_state s1 \<noteq> FLY_LAN_MVP_CONFIGURING
               then (False, s1)
               else case load_candidate env bytes s1 of
                      (None, s2) \<Rightarrow> (False, s2)
                    | (Some (candidate, rom_hash, config_hash), s2) \<Rightarrow>
                        if ls_peer_configured s2
                           \<and> \<not> same_bytes rom_hash (ls_remote_rom_hash s2) (length rom_hash)
                        then (False, set_reason REASON_ROM_MISMATCH
                                (s2\<lparr>ls_world := env_runtime_destroy env candidate (ls_world s2)\<rparr>))
                        else if ls_peer_configured s2
                           \<and> \<not> same_bytes config_hash (ls_remote_config_hash s2) (length config_hash)
                        then (False, set_reason REASON_CONFIG_MISMATCH
                                (s2\<lparr>ls_world := env_runtime_destroy env candidate (ls_world s2)\<rparr>))
                        else
                          let s3 = (if ls_runtime s2 \<noteq> 0
                                    then s2\<lparr>ls_world := env_runtime_destroy env (ls_runtime s2)
                                               (ls_world s2)\<rparr> else s2);
                              s4 = s3\<lparr>ls_runtime := candidate, ls_local_rom_hash := rom_hash,
                                      ls_local_config_hash := config_hash, ls_local_configured := True,
                                      ls_local_ready := False, ls_peer_ready := False,
                                      ls_view := (ls_view s3)\<lparr>vw_reason := REASON_NONE,
                                        vw_state := FLY_LAN_MVP_CONFIGURING\<rparr>\<rparr>
                          in queue_message env Kind_Config (rom_hash @ config_hash @ ascii key)
                               (sync_view s4)
      | _ \<Rightarrow> (False, s))"

definition fly_lan_mvp_select_rom :: "'w LanEnv \<Rightarrow> bytes option \<Rightarrow> 'w LanSession
    \<Rightarrow> bool \<times> 'w LanSession" where
  "fly_lan_mvp_select_rom env rom s = fly_lan_mvp_select_game env rom (Some []) s"

definition fly_lan_mvp_confirm :: "'w LanEnv \<Rightarrow> 'w LanSession \<Rightarrow> bool \<times> 'w LanSession" where
  "fly_lan_mvp_confirm env s =
     (let s1 = pump env s
      in if ls_state s1 \<noteq> FLY_LAN_MVP_CONFIGURING \<or> \<not> ls_local_configured s1 \<or> ls_runtime s1 = 0
         then (False, s1)
         else if ls_local_ready s1 then (True, s1)
         else
           let (sent, s2) = queue_message env Kind_Ready (ls_local_config_hash s1)
                              (s1\<lparr>ls_local_ready := True\<rparr>)
           in (sent, sync_view (maybe_start_host env s2)))"

definition fly_lan_mvp_submit_input :: "'w LanEnv \<Rightarrow> u32 \<Rightarrow> 'w LanSession \<Rightarrow> bool \<times> 'w LanSession" where
  "fly_lan_mvp_submit_input env buttons s =
     (let s1 = pump env s
      in case ls_inputs s1 of
           None \<Rightarrow> (False, s1)
         | Some inputs \<Rightarrow>
             if ls_state s1 \<noteq> FLY_LAN_MVP_RUNNING \<or> vw_paused (ls_view s1) then (False, s1)
             else
               let frm = ls_next_submit_frame s1
               in if frm \<ge> vw_completed_frames (ls_view s1) + of_nat kInputDelay then (False, s1)
                  else
                    let (result, inputs') = put_local inputs frm buttons;
                        s2 = s1\<lparr>ls_inputs := Some inputs'\<rparr>
                    in if result \<noteq> Put_Accepted then (False, s2)
                       else case queue_message env Kind_Input (store_be 8 frm @ store_be 4 buttons) s2 of
                              (False, s3) \<Rightarrow> (False, s3)
                            | (True, s3) \<Rightarrow>
                                (True, advance env
                                   (s3\<lparr>ls_next_submit_frame := ls_next_submit_frame s3 + 1,
                                       ls_last_submitted_buttons := buttons\<rparr>)))"

definition fly_lan_mvp_set_paused :: "'w LanEnv \<Rightarrow> int \<Rightarrow> 'w LanSession \<Rightarrow> bool \<times> 'w LanSession" where
  "fly_lan_mvp_set_paused env paused s =
     (let s1 = pump env s
      in if ls_state s1 \<noteq> FLY_LAN_MVP_RUNNING then (False, s1)
         else
           let s3 = (if ls_role s1 = Role_Host
                     then let (now, s2) = clock env
                                (s1\<lparr>ls_view := (ls_view s1)\<lparr>vw_paused := (paused \<noteq> 0)\<rparr>\<rparr>);
                              s2' = s2\<lparr>ls_last_progress := now\<rparr>
                          in if paused = 0 then advance env s2' else s2'
                     else s1)
           in queue_message env Kind_Pause [if paused \<noteq> 0 then 1 else 0] s3)"

definition fly_lan_mvp_return_lobby :: "'w LanEnv \<Rightarrow> 'w LanSession \<Rightarrow> bool \<times> 'w LanSession" where
  "fly_lan_mvp_return_lobby env s = return_lobby env (pump env s)"

definition fly_lan_mvp_copy_latest_frame :: "'w LanEnv \<Rightarrow> bool \<Rightarrow> nat \<Rightarrow> 'w LanSession
    \<Rightarrow> bool \<times> 'w LanSession" where
  "fly_lan_mvp_copy_latest_frame env out capacity s =
     (if \<not> out then (False, s)
      else
        let s1 = pump env s
        in if ls_runtime s1 = 0 then (False, s1)
           else let (code, w) = env_runtime_copy_latest_frame env (ls_runtime s1) capacity (ls_world s1)
                in (code = FLY_RESULT_OK, s1\<lparr>ls_world := w\<rparr>))"

text \<open>\<open>out\<close> stands for the checks of the pointers and of the block's size and version.\<close>

definition fly_lan_mvp_pull_pcm :: "'w LanEnv \<Rightarrow> bool \<Rightarrow> u32 \<Rightarrow> 'w LanSession
    \<Rightarrow> fly_pcm_block option \<times> 'w LanSession" where
  "fly_lan_mvp_pull_pcm env out sample_capacity s =
     (if \<not> out \<or> sample_capacity = 0 then (None, s)
      else
        let s1 = pump env s
        in if ls_runtime s1 = 0 then (None, s1)
           else
             let available = ls_pcm_produced s1 - ls_pcm_consumed s1
             in if available = 0
                then (Some \<lparr>pcm_sample_count = 0, pcm_first_sample_sequence = ls_pcm_consumed s1,
                            pcm_media_time_ns = 0\<rparr>, s1)
                else
                  let capacity = ucast (min available (ucast sample_capacity));
                      ((code, blk), w) = env_runtime_pull_pcm env (ls_runtime s1) capacity (ls_world s1);
                      s2 = s1\<lparr>ls_world := w\<rparr>
                  in if code \<noteq> FLY_RESULT_OK then (None, s2)
                     else (Some blk, s2\<lparr>ls_pcm_consumed :=
                             pcm_first_sample_sequence blk + ucast (pcm_sample_count blk)\<rparr>))"

definition fly_lan_mvp_cancel :: "'w LanEnv \<Rightarrow> 'w LanSession \<Rightarrow> 'w LanSession" where
  "fly_lan_mvp_cancel env s = session_end env REASON_CANCELLED s"

section \<open>A session and its calls\<close>

datatype lan_call =
    LanHost "string option" "bytes option"
  | LanJoin "string option" "string option"
  | LanCompletion u64 int u64 "bytes option"
  | LanCopyInvite bool nat
  | LanSnapshot bool
  | LanSelectGame "bytes option" "string option"
  | LanConfirm
  | LanSubmitInput u32
  | LanSetPaused int
  | LanReturnLobby
  | LanCopyFrame bool nat
  | LanPullPcm bool u32
  | LanCancel

fun lan_step :: "'w LanEnv \<Rightarrow> 'w LanSession \<Rightarrow> lan_call \<Rightarrow> bool \<times> 'w LanSession" where
  "lan_step env s (LanHost host token) = fly_lan_mvp_host env host token s"
| "lan_step env s (LanJoin local qr) = fly_lan_mvp_join env local qr s"
| "lan_step env s (LanCompletion operation result resource bytes) =
     (True, completion operation result resource bytes s)"
| "lan_step env s (LanCopyInvite out capacity) =
     (case fly_lan_mvp_copy_invite env out capacity s of ((needed, _), s1) \<Rightarrow> (needed \<noteq> 0, s1))"
| "lan_step env s (LanSnapshot out) =
     (case fly_lan_mvp_snapshot_read env out s of (view, s1) \<Rightarrow> (view \<noteq> None, s1))"
| "lan_step env s (LanSelectGame rom key) = fly_lan_mvp_select_game env rom key s"
| "lan_step env s LanConfirm = fly_lan_mvp_confirm env s"
| "lan_step env s (LanSubmitInput buttons) = fly_lan_mvp_submit_input env buttons s"
| "lan_step env s (LanSetPaused paused) = fly_lan_mvp_set_paused env paused s"
| "lan_step env s LanReturnLobby = fly_lan_mvp_return_lobby env s"
| "lan_step env s (LanCopyFrame out capacity) = fly_lan_mvp_copy_latest_frame env out capacity s"
| "lan_step env s (LanPullPcm out capacity) =
     (case fly_lan_mvp_pull_pcm env out capacity s of (blk, s1) \<Rightarrow> (blk \<noteq> None, s1))"
| "lan_step env s LanCancel = (True, fly_lan_mvp_cancel env s)"

end
