(* ===== verification/Lan_Session_Core.thy ===== *)
theory Lan_Session_Core
  imports Lan_Session
begin

unbundle bit_operations_syntax

text \<open>
  The game state of a local session and its invariant. \<open>core\<close> abstracts a session to the fields
  that decide whether it may run: its state, role, pause flag, configurations, runtime and input
  buffer. Transport operations either leave the core alone or end it (\<open>end_core\<close>), so the
  invariant \<open>core_inv\<close> is proved on cores and holds of every session reached by any sequence of
  calls, for every environment.
\<close>

record Core =
  co_state :: LanState
  co_role :: Role
  co_paused :: bool
  co_completed :: u64
  co_runtime :: nat
  co_inputs :: "Buffer option"
  co_next_submit :: u64
  co_local_rom :: bytes
  co_remote_rom :: bytes
  co_local_config :: bytes
  co_remote_config :: bytes
  co_local_configured :: bool
  co_peer_configured :: bool
  co_local_ready :: bool
  co_peer_ready :: bool

definition core :: "'w LanSession \<Rightarrow> Core" where
  "core s = \<lparr>co_state = ls_state s, co_role = ls_role s, co_paused = vw_paused (ls_view s),
     co_completed = vw_completed_frames (ls_view s), co_runtime = ls_runtime s,
     co_inputs = ls_inputs s, co_next_submit = ls_next_submit_frame s,
     co_local_rom = ls_local_rom_hash s, co_remote_rom = ls_remote_rom_hash s,
     co_local_config = ls_local_config_hash s, co_remote_config = ls_remote_config_hash s,
     co_local_configured = ls_local_configured s, co_peer_configured = ls_peer_configured s,
     co_local_ready = ls_local_ready s, co_peer_ready = ls_peer_ready s\<rparr>"

definition end_core :: "Core \<Rightarrow> Core" where
  "end_core c = (if co_state c = FLY_LAN_MVP_ENDED then c
     else c\<lparr>co_state := FLY_LAN_MVP_ENDED, co_runtime := 0, co_inputs := None\<rparr>)"

lemma core_sel:
  "co_state (core s) = ls_state s" "co_role (core s) = ls_role s"
  "co_paused (core s) = vw_paused (ls_view s)"
  "co_completed (core s) = vw_completed_frames (ls_view s)" "co_runtime (core s) = ls_runtime s"
  "co_inputs (core s) = ls_inputs s" "co_next_submit (core s) = ls_next_submit_frame s"
  "co_local_rom (core s) = ls_local_rom_hash s" "co_remote_rom (core s) = ls_remote_rom_hash s"
  "co_local_config (core s) = ls_local_config_hash s"
  "co_remote_config (core s) = ls_remote_config_hash s"
  "co_local_configured (core s) = ls_local_configured s"
  "co_peer_configured (core s) = ls_peer_configured s"
  "co_local_ready (core s) = ls_local_ready s" "co_peer_ready (core s) = ls_peer_ready s"
  by (simp_all add: core_def)

lemma core_clock [simp]: "core (snd (clock env s)) = core s"
  by (simp add: clock_def core_def split: prod.splits)

lemma core_request [simp]: "core (snd (request env q s)) = core s"
  by (simp add: request_def core_def split: prod.splits)

lemma core_clockD: "clock env s = (t, s') \<Longrightarrow> core s' = core s"
  by (metis core_clock snd_conv)

section \<open>Ending\<close>

lemma core_stop_runtime: "core (stop_runtime env s) = (core s)\<lparr>co_runtime := 0, co_inputs := None\<rparr>"
  by (simp add: stop_runtime_def core_def)

lemma core_cancel_operations [simp]: "core (cancel_operations env ops s) = core s"
  by (induction ops arbitrary: s) simp_all

lemma core_close_resource [simp]: "core (close_resource env r s) = core s"
proof -
  have "core (s\<lparr>ls_next_operation := n\<rparr>) = core s" for n by (simp add: core_def)
  then show ?thesis by (simp add: close_resource_def)
qed

lemma core_session_end: "core (session_end env r s) = end_core (core s)"
proof (cases "ls_state s = FLY_LAN_MVP_ENDED")
  case True
  then show ?thesis by (simp add: session_end_def end_core_def core_sel)
next
  case False
  have ops: "core (x\<lparr>ls_operations := ops\<rparr>) = core x" for x :: "'a LanSession" and ops
    by (simp add: core_def)
  show ?thesis
    using False by (simp add: session_end_def Let_def ops core_stop_runtime end_core_def core_sel)
qed

definition may_end :: "bool \<Rightarrow> Core \<Rightarrow> Core \<Rightarrow> bool" where
  "may_end ok c c' \<longleftrightarrow> c' = (if ok then c else end_core c)"

lemma core_submit:
  assumes "submit env k call s = (ok, s')"
  shows "may_end ok (core s) (core s')"
proof -
  let ?s1 = "s\<lparr>ls_next_operation := ls_next_operation s + 1,
    ls_operations := (case map_of (ls_operations s) (ls_next_operation s) of
       None \<Rightarrow> (ls_next_operation s, k) # ls_operations s | Some _ \<Rightarrow> ls_operations s)\<rparr>"
  obtain r s2 where q: "request env (call (ls_next_operation s)) ?s1 = (r, s2)" by fastforce
  have "core s2 = core ?s1" by (metis q core_request snd_conv)
  also have "core ?s1 = core s" by (simp add: core_def)
  finally have s2: "core s2 = core s" .
  have upd: "core (s2\<lparr>ls_operations := a, ls_view := (ls_view s2)\<lparr>vw_transport_result := b,
      vw_transport_operation := c\<rparr>\<rparr>) = core s2" for a b c
    by (simp add: core_def)
  show ?thesis
    using assms q s2 by (auto simp: submit_def Let_def may_end_def core_session_end upd split: if_splits)
qed

lemma core_flags:
  "core (s\<lparr>ls_read_inflight := x\<rparr>) = core s" "core (s\<lparr>ls_write_inflight := x\<rparr>) = core s"
  "core (s\<lparr>ls_writes := ws\<rparr>) = core s" "core (s\<lparr>ls_world := w\<rparr>) = core s"
  "core (s\<lparr>ls_last_progress := t\<rparr>) = core s" "core (s\<lparr>ls_decoder := d\<rparr>) = core s"
  "core (s\<lparr>ls_operations := ops\<rparr>) = core s" "core (s\<lparr>ls_qr := qr\<rparr>) = core s"
  "core (s\<lparr>ls_local_digests := ld\<rparr>) = core s" "core (s\<lparr>ls_remote_digests := rd\<rparr>) = core s"
  "core (s\<lparr>ls_lobby_generation := g\<rparr>) = core s"
  by (simp_all add: core_def)

lemma core_begin_read:
  assumes "begin_read env s = (ok, s')"
  shows "may_end ok (core s) (core s')"
  using assms core_submit [of env Op_Read _ "s\<lparr>ls_read_inflight := True\<rparr>"]
  by (auto simp: begin_read_def may_end_def core_flags split: if_splits prod.splits bool.splits)

lemma core_begin_next_write:
  assumes "begin_next_write env s = (ok, s')"
  shows "may_end ok (core s) (core s')"
  using assms core_submit [of env Op_Write _ "s\<lparr>ls_write_inflight := True\<rparr>"]
  by (auto simp: begin_next_write_def may_end_def core_flags split: if_splits prod.splits bool.splits)

lemma core_queue_message:
  assumes "queue_message env k p s = (ok, s')"
  shows "may_end ok (core s) (core s')"
  using assms core_begin_next_write [of env "s\<lparr>ls_writes := ws\<rparr>" ok s' for ws]
  by (auto simp: queue_message_def may_end_def core_flags core_session_end split: option.splits)

lemma core_compare_digest: "\<exists>ok. may_end ok (core s) (core (compare_digest env f s))"
  by (auto simp: compare_digest_def may_end_def core_session_end core_flags split: option.splits)

lemma end_core_idem [simp]: "end_core (end_core c) = end_core c"
  by (simp add: end_core_def)

lemma may_end_trans: "may_end a c d \<Longrightarrow> may_end b d e \<Longrightarrow> \<exists>ok. may_end ok c e"
  by (auto simp: may_end_def split: if_splits)

lemma core_publish_digest: "\<exists>ok. may_end ok (core s) (core (publish_digest env f s))"
proof -
  obtain r d w where q: "env_runtime_copy_frame_digest env (ls_runtime s) 1 f (ls_world s) = ((r, d), w)"
    by (metis surj_pair)
  show ?thesis
  proof (cases "r = FLY_RESULT_OK")
    case False
    then show ?thesis
      by (simp add: publish_digest_def q core_session_end core_flags) (metis may_end_def)
  next
    case True
    let ?s2 = "s\<lparr>ls_world := w, ls_local_digests := (ls_local_digests s)(f \<mapsto> take 32 d),
      ls_view := (ls_view s)\<lparr>vw_last_digest_frame := f, vw_last_state_digest := take 32 d\<rparr>\<rparr>"
    obtain ok s3 where m: "queue_message env Kind_Digest (store_be 8 f @ take 32 d) ?s2 = (ok, s3)"
      by fastforce
    have "publish_digest env f s = compare_digest env f s3"
      using True m by (simp add: publish_digest_def q Let_def)
    moreover have "core ?s2 = core s" by (simp add: core_def)
    ultimately show ?thesis
      using core_queue_message [OF m] core_compare_digest [of s3 env f] may_end_trans by metis
  qed
qed

section \<open>The input buffer of a running game\<close>

text \<open>
  The buffer holds slots of the window only, and its local masks are exactly those of the frames
  between the next frame to complete and the next frame to submit, at most two of them.
\<close>

definition game_buffer :: "Buffer \<Rightarrow> u64 \<Rightarrow> bool" where
  "game_buffer b ns \<longleftrightarrow>
     buf_window b = kInputWindow
     \<and> (\<forall>i. buf_slots b i \<noteq> None \<longrightarrow> unat (i - buf_next_frame b) < buf_window b)
     \<and> unat (ns - buf_next_frame b) \<le> kInputDelay
     \<and> (\<forall>i. slot_local (slot_view b i) \<noteq> None \<longleftrightarrow>
          unat (i - buf_next_frame b) < unat (ns - buf_next_frame b))"

lemma unat_minus_Suc:
  fixes i n :: "'a::len word"
  assumes "i \<noteq> n"
  shows "unat (i - (n + 1)) + 1 = unat (i - n)"
proof -
  have "i - n \<noteq> 0" using assms by simp
  then have "unat (i - n - 1) = unat (i - n) - 1" "unat (i - n) \<noteq> 0"
    by (simp_all add: unat_minus_one unat_eq_0)
  then show ?thesis by (simp add: diff_diff_eq)
qed

lemma pop_game_buffer:
  assumes "game_buffer b ns" "pop_ready b True = (Some f, b')"
  shows "game_buffer b' ns" "frm_index f = buf_next_frame b" "buf_next_frame b' = buf_next_frame b + 1"
    "buf_window b' = buf_window b"
proof -
  let ?n = "buf_next_frame b"
  obtain s lm rm where s: "buf_slots b ?n = Some s" "slot_local s = Some lm" "slot_remote s = Some rm"
    and f: "frm_index f = ?n"
    and b': "b' = b\<lparr>buf_slots := (buf_slots b)(?n := None), buf_next_frame := ?n + 1\<rparr>"
    using assms(2) by (auto simp: pop_ready_def split: option.splits)
  show "frm_index f = ?n" "buf_next_frame b' = ?n + 1" "buf_window b' = buf_window b"
    using f b' by simp_all
  have "slot_local (slot_view b ?n) \<noteq> None" using s by (simp add: slot_view_def)
  then have "0 < unat (ns - ?n)" using assms(1) by (auto simp: game_buffer_def)
  then have ns: "ns \<noteq> ?n" by auto
  have m1: "\<not> unat (?n - (?n + 1)) < unat (ns - (?n + 1))"
  proof -
    have e: "?n - (?n + 1) = - 1" by simp
    have "unat (ns - (?n + 1)) \<le> unat (- 1 :: u64)" by (metis word_le_nat_alt word_order.extremum)
    then show ?thesis by (simp only: e not_less)
  qed
  have view: "slot_view b' i = (if i = ?n then empty_slot else slot_view b i)" for i
    by (simp add: b' slot_view_def)
  have loc: "slot_local (slot_view b' i) \<noteq> None \<longleftrightarrow> unat (i - (?n + 1)) < unat (ns - (?n + 1))" for i
  proof (cases "i = ?n")
    case True
    then show ?thesis using m1 by (simp add: view empty_slot_def)
  next
    case False
    then show ?thesis
      using assms(1) unat_minus_Suc [OF False] unat_minus_Suc [OF ns] by (auto simp: game_buffer_def view)
  qed
  show "game_buffer b' ns"
    unfolding game_buffer_def
  proof (intro conjI)
    show "buf_window b' = kInputWindow" using assms(1) by (simp add: b' game_buffer_def)
    show "\<forall>i. buf_slots b' i \<noteq> None \<longrightarrow> unat (i - buf_next_frame b') < buf_window b'"
    proof (intro allI impI)
      fix i assume "buf_slots b' i \<noteq> None"
      then have "i \<noteq> ?n" "buf_slots b i \<noteq> None" by (auto simp: b' split: if_splits)
      then show "unat (i - buf_next_frame b') < buf_window b'"
        using assms(1) unat_minus_Suc [of i ?n] by (fastforce simp: game_buffer_def b')
    qed
    show "unat (ns - buf_next_frame b') \<le> kInputDelay"
      using assms(1) unat_minus_Suc [OF ns] by (simp add: b' game_buffer_def)
    show "\<forall>i. slot_local (slot_view b' i) \<noteq> None \<longleftrightarrow>
        unat (i - buf_next_frame b') < unat (ns - buf_next_frame b')"
      using loc by (simp add: b')
  qed
qed

lemma put_window:
  assumes "put b i m side = (r, b')"
    and "\<forall>j. buf_slots b j \<noteq> None \<longrightarrow> unat (j - buf_next_frame b) < buf_window b"
  shows "\<forall>j. buf_slots b' j \<noteq> None \<longrightarrow> unat (j - buf_next_frame b') < buf_window b'"
    "buf_window b' = buf_window b"
  using assms by (auto simp: put_def Let_def split: if_splits option.splits)

lemma put_remote_game_buffer:
  assumes "game_buffer b ns" "put_remote b i m = (r, b')"
  shows "game_buffer b' ns \<and> buf_next_frame b' = buf_next_frame b"
proof -
  have p: "put b i m False = (r, b')" using assms(2) by (simp add: put_remote_def)
  have w: "\<forall>j. buf_slots b j \<noteq> None \<longrightarrow> unat (j - buf_next_frame b) < buf_window b"
    using assms(1) unfolding game_buffer_def by blast
  have "slot_local (slot_view b' j) = slot_local (slot_view b j)" for j
    using put_slots(2-4) [OF p] by (cases "j = i"; cases "r = Put_Accepted") simp_all
  then show ?thesis
    using assms(1) put_slots(1) [OF p] put_window [OF p w] by (simp add: game_buffer_def)
qed

lemma put_local_game_buffer:
  assumes g: "game_buffer b ns" and p: "put_local b ns m = (Put_Accepted, b')"
    and room: "ns < buf_next_frame b + of_nat kInputDelay"
  shows "game_buffer b' (ns + 1) \<and> buf_next_frame b' = buf_next_frame b"
proof -
  let ?n = "buf_next_frame b"
  have p': "put b ns m True = (Put_Accepted, b')" using p by (simp add: put_local_def)
  have le: "?n \<le> ns" using put_slots(2) [OF p'] by simp
  have w: "\<forall>j. buf_slots b j \<noteq> None \<longrightarrow> unat (j - ?n) < buf_window b"
    using g unfolding game_buffer_def by blast
  have d: "unat (ns - ?n) < 2"
  proof -
    have "ns - ?n < 2"
      using le room by (simp add: kInputDelay_def word_less_nat_alt word_le_nat_alt unat_sub_if_size
          unat_word_ariths split: if_splits) (metis)?
    then show ?thesis by (simp add: word_less_nat_alt)
  qed
  have s: "unat (ns + 1 - ?n) = unat (ns - ?n) + 1"
  proof -
    have "ns + 1 - ?n = (ns - ?n) + 1" by simp
    moreover have "unat (ns - ?n) < unat (2 :: u64)" using d by simp
    ultimately show ?thesis by (metis unat_inc_below)
  qed
  have eq: "j = ns \<longleftrightarrow> unat (j - ?n) = unat (ns - ?n)" for j
    by (metis word_unat_eq_iff diff_add_cancel)
  have view: "slot_local (slot_view b' j) \<noteq> None \<longleftrightarrow> j = ns \<or> slot_local (slot_view b j) \<noteq> None" for j
    using put_slots(2,4) [OF p'] by (cases "j = ns") simp_all
  have "slot_local (slot_view b' j) \<noteq> None \<longleftrightarrow> unat (j - ?n) < unat (ns - ?n) + 1" for j
    using g eq [of j] unfolding view game_buffer_def by auto
  then show ?thesis
    using g d put_slots(1) [OF p'] put_window [OF p' w]
    by (simp add: game_buffer_def s kInputDelay_def)
qed

lemma prime_game_buffer:
  defines "b \<equiv> prime_inputs kInputDelay (new_buffer kInputDelay kInputWindow)"
  shows "game_buffer b (of_nat kInputDelay)" "buf_next_frame b = 0"
proof -
  let ?s = "\<lparr>slot_local = Some 0, slot_remote = Some 0\<rparr> :: Slot"
  have b: "b = \<lparr>buf_window = 256, buf_next_frame = 0, buf_slots = [0 \<mapsto> ?s, 1 \<mapsto> ?s]\<rparr>"
    by (simp add: b_def numeral_2_eq_2 kInputDelay_def kInputWindow_def new_buffer_def put_local_def
        put_remote_def put_def empty_slot_def Let_def)
  show "buf_next_frame b = 0" by (simp add: b)
  have less2: "unat (i :: u64) < 2 \<longleftrightarrow> i = 0 \<or> i = 1" for i
    unfolding less_2_cases_iff by (simp add: word_unat_eq_iff)
  show "game_buffer b (of_nat kInputDelay)"
    by (auto simp: game_buffer_def b kInputDelay_def kInputWindow_def slot_view_def empty_slot_def less2)
qed

section \<open>The invariant\<close>

definition base_inv :: "Core \<Rightarrow> bool" where
  "base_inv c \<longleftrightarrow>
     (co_state c = FLY_LAN_MVP_ENDED \<longrightarrow> co_runtime c = 0 \<and> co_inputs c = None)
     \<and> (co_state c \<noteq> FLY_LAN_MVP_IDLE \<and> co_state c \<noteq> FLY_LAN_MVP_ENDED \<longrightarrow> co_role c \<noteq> Role_None)
     \<and> (co_paused c \<longrightarrow> co_state c = FLY_LAN_MVP_RUNNING \<or> co_state c = FLY_LAN_MVP_ENDED
          \<or> co_state c = FLY_LAN_MVP_RETURNING \<and> co_role c = Role_Guest)
     \<and> length (co_local_rom c) = 32 \<and> length (co_remote_rom c) = 32
     \<and> length (co_local_config c) = 32 \<and> length (co_remote_config c) = 32
     \<and> (co_state c \<noteq> FLY_LAN_MVP_ENDED \<longrightarrow> (co_local_configured c \<longleftrightarrow> co_runtime c \<noteq> 0))
     \<and> (co_local_configured c \<longrightarrow> co_role c \<noteq> Role_None)
     \<and> (co_local_ready c \<longrightarrow> co_local_configured c) \<and> (co_peer_ready c \<longrightarrow> co_peer_configured c)"

definition running_inv :: "Core \<Rightarrow> bool" where
  "running_inv c \<longleftrightarrow>
     co_runtime c \<noteq> 0 \<and> co_local_ready c \<and> co_peer_ready c
     \<and> co_local_rom c = co_remote_rom c \<and> co_local_config c = co_remote_config c
     \<and> (\<exists>b. co_inputs c = Some b \<and> buf_next_frame b = co_completed c \<and> game_buffer b (co_next_submit c))"

definition core_inv :: "Core \<Rightarrow> bool" where
  "core_inv c \<longleftrightarrow> base_inv c \<and> (co_state c = FLY_LAN_MVP_RUNNING \<longrightarrow> running_inv c)"

lemma end_core_inv: "base_inv c \<Longrightarrow> core_inv (end_core c)"
  by (auto simp: core_inv_def base_inv_def end_core_def)

lemma end_core_state [simp]: "co_state (end_core c) = FLY_LAN_MVP_ENDED"
  by (simp add: end_core_def)

lemma may_end_inv: "may_end ok c c' \<Longrightarrow> core_inv c \<Longrightarrow> core_inv c'"
  using end_core_inv by (auto simp: may_end_def core_inv_def)

subsection \<open>The lockstep loop\<close>

lemma complete_frame_run:
  assumes "s1 = note_applied (frame_input (ls_role s) f) s"
    "env_runtime_step_frame env (ls_runtime s1) (frame_input (ls_role s) f) (ls_world s1) = ((FLY_RESULT_OK, r), w)"
    "s3 = s1\<lparr>ls_world := w,
       ls_view := (ls_view s1)\<lparr>vw_completed_frames := frm_index f + 1,
         vw_applied_buttons := [fin_buttons (frame_input (ls_role s) f) ! 0,
                                fin_buttons (frame_input (ls_role s) f) ! 1]\<rparr>,
       ls_pcm_produced := (if fre_pcm_published r \<noteq> 0 then fre_audio_last_sample_sequence r + 1
                           else ls_pcm_produced s1)\<rparr>"
  shows "complete_frame env f s = (case clock env s3 of (now, s4) \<Rightarrow>
    (True, if vw_completed_frames (ls_view (s4\<lparr>ls_last_progress := now\<rparr>)) mod kDigestInterval = 0
       then publish_digest env (frm_index f) (s4\<lparr>ls_last_progress := now\<rparr>)
       else s4\<lparr>ls_last_progress := now\<rparr>))"
  unfolding complete_frame_def Let_def assms(1) [symmetric] assms(2) assms(3) by simp

lemma core_complete_frame:
  assumes "complete_frame env f s = (ok, s')"
  shows "if ok then \<exists>k. may_end k ((core s)\<lparr>co_completed := frm_index f + 1\<rparr>) (core s')
         else core s' = end_core (core s)"
proof -
  let ?in = "frame_input (ls_role s) f"
  define s1 where "s1 = note_applied ?in s"
  obtain c r w where q: "env_runtime_step_frame env (ls_runtime s1) ?in (ls_world s1) = ((c, r), w)"
    by (metis surj_pair)
  define s3 where "s3 = s1\<lparr>ls_world := w,
    ls_view := (ls_view s1)\<lparr>vw_completed_frames := frm_index f + 1,
      vw_applied_buttons := [fin_buttons ?in ! 0, fin_buttons ?in ! 1]\<rparr>,
    ls_pcm_produced := (if fre_pcm_published r \<noteq> 0 then fre_audio_last_sample_sequence r + 1
                        else ls_pcm_produced s1)\<rparr>"
  obtain t s4 where ck: "clock env s3 = (t, s4)" by fastforce
  have c1: "core s1 = core s" by (simp add: s1_def note_applied_def core_def)
  have c3: "core s3 = (core s)\<lparr>co_completed := frm_index f + 1\<rparr>"
    by (simp add: s3_def s1_def note_applied_def core_def)
  have c4: "core (s4\<lparr>ls_last_progress := t\<rparr>) = (core s)\<lparr>co_completed := frm_index f + 1\<rparr>"
    using core_clockD [OF ck] c3 by (simp add: core_flags)
  show ?thesis
  proof (cases "c = FLY_RESULT_OK")
    case False
    then have "(ok, s') = (False, session_end env REASON_CONFIG_MISMATCH (s1\<lparr>ls_world := w\<rparr>))"
      using assms q by (simp add: complete_frame_def Let_def s1_def)
    then show ?thesis by (simp add: core_session_end core_flags c1)
  next
    case True
    let ?s5 = "s4\<lparr>ls_last_progress := t\<rparr>"
    have "complete_frame env f s = (case clock env s3 of (now, s4) \<Rightarrow>
        (True, if vw_completed_frames (ls_view (s4\<lparr>ls_last_progress := now\<rparr>)) mod kDigestInterval = 0
           then publish_digest env (frm_index f) (s4\<lparr>ls_last_progress := now\<rparr>)
           else s4\<lparr>ls_last_progress := now\<rparr>))"
      by (rule complete_frame_run [OF s1_def q [unfolded True] s3_def])
    then have "(ok, s') = (True, if vw_completed_frames (ls_view ?s5) mod kDigestInterval = 0
        then publish_digest env (frm_index f) ?s5 else ?s5)"
      using assms ck by simp
    then show ?thesis
      using c4 core_publish_digest [of ?s5 env "frm_index f"] by (auto simp: may_end_def split: if_splits)
  qed
qed

lemma complete_frame_inv:
  assumes "core_inv (core s)" "ls_state s = FLY_LAN_MVP_RUNNING" "ls_inputs s = Some b"
    "pop_ready b True = (Some f, b')" "complete_frame env f (s\<lparr>ls_inputs := Some b'\<rparr>) = (ok, s')"
  shows "core_inv (core s')"
    "ls_state s' = FLY_LAN_MVP_RUNNING \<Longrightarrow> ls_inputs s' = Some b'"
proof -
  let ?t = "s\<lparr>ls_inputs := Some b'\<rparr>"
  have g: "game_buffer b (ls_next_submit_frame s)" "buf_next_frame b = vw_completed_frames (ls_view s)"
    using assms(1-3) by (auto simp: core_inv_def running_inv_def core_sel)
  note p = pop_game_buffer [OF g(1) assms(4)]
  let ?c = "(core ?t)\<lparr>co_completed := frm_index f + 1\<rparr>"
  have "base_inv (core s)" "running_inv (core s)"
    using assms(1,2) by (simp_all add: core_inv_def core_sel)
  then have base: "base_inv (core ?t)" and inv: "core_inv ?c"
    using p assms(2) by (simp_all add: base_inv_def core_inv_def running_inv_def core_sel)
  have fate: "if ok then \<exists>k. may_end k ?c (core s') else core s' = end_core (core ?t)"
    by (rule core_complete_frame [OF assms(5)])
  then show "core_inv (core s')"
    using inv base end_core_inv may_end_inv by (metis (full_types))
  show "ls_inputs s' = Some b'" if run: "ls_state s' = FLY_LAN_MVP_RUNNING"
  proof -
    have "co_state (core s') = FLY_LAN_MVP_RUNNING" using run by (simp add: core_sel)
    then have "core s' = ?c"
      using fate by (auto simp: may_end_def split: if_splits)
    then have "co_inputs (core s') = co_inputs ?c" by simp
    then show ?thesis by (simp add: core_sel)
  qed
qed

lemma frame_loop_inv: "core_inv (core s) \<Longrightarrow> core_inv (core (frame_loop env n s))"
proof (induction n arbitrary: s)
  case 0
  then show ?case by simp
next
  case (Suc n)
  show ?case
  proof (cases "ls_state s = FLY_LAN_MVP_RUNNING")
    case False
    then show ?thesis using Suc.prems by simp
  next
    case True
    then obtain b where b: "ls_inputs s = Some b"
      using Suc.prems by (auto simp: core_inv_def running_inv_def core_sel)
    obtain r b' where p: "pop_ready b True = (r, b')" by fastforce
    show ?thesis
    proof (cases r)
      case None
      then have "b' = b" using p by (auto simp: pop_ready_def split: option.splits)
      then have "core (s\<lparr>ls_inputs := Some b'\<rparr>) = core s" using b by (simp add: core_def)
      then show ?thesis using Suc.prems True b p None by simp
    next
      case (Some f)
      obtain ok s' where cf: "complete_frame env f (s\<lparr>ls_inputs := Some b'\<rparr>) = (ok, s')" by fastforce
      have "core_inv (core s')"
        using complete_frame_inv(1) [OF Suc.prems True b] p cf Some by blast
      then show ?thesis using Suc.IH True b p Some cf by (cases ok) simp_all
    qed
  qed
qed

text \<open>The loop stops by its own condition: the window bounds the frames it can complete.\<close>

definition settled :: "'w LanSession \<Rightarrow> bool" where
  "settled s \<longleftrightarrow> ls_state s \<noteq> FLY_LAN_MVP_RUNNING
     \<or> (\<exists>b. ls_inputs s = Some b \<and> fst (pop_ready b True) = None)"

lemma frame_loop_settles:
  assumes "core_inv (core s)"
    "\<And>b i. ls_inputs s = Some b \<Longrightarrow> buf_slots b i \<noteq> None \<Longrightarrow> unat (i - buf_next_frame b) < n"
  shows "settled (frame_loop env (Suc n) s)"
  using assms
proof (induction n arbitrary: s)
  case 0
  show ?case
  proof (cases "ls_state s = FLY_LAN_MVP_RUNNING")
    case False
    then show ?thesis by (simp add: settled_def)
  next
    case True
    then obtain b where b: "ls_inputs s = Some b"
      using 0(1) by (auto simp: core_inv_def running_inv_def core_sel)
    then have "buf_slots b (buf_next_frame b) = None" using 0(2) by blast
    then show ?thesis using True b by (simp add: settled_def pop_ready_def)
  qed
next
  case (Suc n)
  show ?case
  proof (cases "ls_state s = FLY_LAN_MVP_RUNNING")
    case False
    then show ?thesis by (simp add: settled_def)
  next
    case True
    then obtain b where b: "ls_inputs s = Some b" and g: "game_buffer b (ls_next_submit_frame s)"
      using Suc.prems(1) by (auto simp: core_inv_def running_inv_def core_sel)
    obtain r b' where p: "pop_ready b True = (r, b')" by fastforce
    show ?thesis
    proof (cases r)
      case None
      then have "b' = b" using p by (auto simp: pop_ready_def split: option.splits)
      then show ?thesis using True b p None by (simp add: settled_def)
    next
      case (Some f)
      obtain ok s' where cf: "complete_frame env f (s\<lparr>ls_inputs := Some b'\<rparr>) = (ok, s')" by fastforce
      note cfi = complete_frame_inv [OF Suc.prems(1) True b p [unfolded Some] cf]
      have stop: "settled s'" if "ls_state s' \<noteq> FLY_LAN_MVP_RUNNING"
        using that by (simp add: settled_def)
      have step: "settled (frame_loop env (Suc n) s')"
      proof (rule Suc.IH [OF cfi(1)])
        fix d i assume d: "ls_inputs s' = Some d" and i: "buf_slots d i \<noteq> None"
        show "unat (i - buf_next_frame d) < n"
        proof (cases "ls_state s' = FLY_LAN_MVP_RUNNING")
          case True
          then have "d = b'" using cfi(2) d by simp
          then have "i \<noteq> buf_next_frame b" "buf_slots b i \<noteq> None" "buf_next_frame d = buf_next_frame b + 1"
            using i p Some by (auto simp: pop_ready_def split: option.splits if_splits)
          then show ?thesis
            using Suc.prems(2) [OF b, of i] unat_minus_Suc [of i "buf_next_frame b"] by simp
        next
          case False
          have "co_state (core s') \<in> {co_state (core (s\<lparr>ls_inputs := Some b'\<rparr>)), FLY_LAN_MVP_ENDED}"
            using core_complete_frame [OF cf] by (auto simp: may_end_def split: if_splits)
          then have "ls_state s' = FLY_LAN_MVP_ENDED" using False True by (simp add: core_sel)
          then have "ls_inputs s' = None" using cfi(1) by (simp add: core_inv_def base_inv_def core_sel)
          then show ?thesis using d by simp
        qed
      qed
      show ?thesis
      proof (cases ok)
        case True
        then show ?thesis using step \<open>ls_state s = FLY_LAN_MVP_RUNNING\<close> b p Some cf
          by (simp del: frame_loop.simps add: frame_loop.simps(2) [of env "Suc n"])
      next
        case False
        then have "co_state (core s') = FLY_LAN_MVP_ENDED" using core_complete_frame [OF cf] by simp
        then have "settled s'" using stop by (simp add: core_sel)
        then show ?thesis using \<open>ls_state s = FLY_LAN_MVP_RUNNING\<close> b p Some cf False by simp
      qed
    qed
  qed
qed

text \<open>
  \<open>live_inv\<close> adds that an unpaused running session never sits on a frame whose inputs are complete.
\<close>

definition live_inv :: "Core \<Rightarrow> bool" where
  "live_inv c \<longleftrightarrow> core_inv c
     \<and> (co_state c = FLY_LAN_MVP_RUNNING \<and> \<not> co_paused c \<longrightarrow>
          (\<exists>b. co_inputs c = Some b \<and> fst (pop_ready b True) = None))"

lemma advance_live:
  assumes "core_inv (core s)"
  shows "live_inv (core (advance env s))"
proof (cases "ls_state s \<noteq> FLY_LAN_MVP_RUNNING \<or> vw_paused (ls_view s) \<or> ls_inputs s = None \<or> ls_runtime s = 0")
  case True
  then have "advance env s = s" by (simp add: advance_def)
  then show ?thesis using True assms by (auto simp: live_inv_def core_inv_def running_inv_def core_sel)
next
  case False
  then obtain b where b: "ls_inputs s = Some b" and g: "game_buffer b (ls_next_submit_frame s)"
    using assms by (auto simp: core_inv_def running_inv_def core_sel)
  have "advance env s = frame_loop env (Suc (buf_window b)) s" using False b by (simp add: advance_def)
  moreover have "settled (frame_loop env (Suc (buf_window b)) s)"
    using assms b g by (intro frame_loop_settles) (auto simp: game_buffer_def)
  ultimately show ?thesis
    using frame_loop_inv [OF assms]
    by (auto simp: live_inv_def settled_def core_sel simp del: frame_loop.simps)
qed

lemma paused_live: "core_inv c \<Longrightarrow> co_paused c \<Longrightarrow> live_inv c"
  by (simp add: live_inv_def)

lemma end_core_live: "base_inv c \<Longrightarrow> live_inv (end_core c)"
  by (simp add: live_inv_def end_core_inv)

lemma may_end_live: "may_end ok c c' \<Longrightarrow> live_inv c \<Longrightarrow> live_inv c'"
  using end_core_live by (auto simp: may_end_def live_inv_def core_inv_def)

lemma ended_inv: "live_inv (core s) \<Longrightarrow> live_inv (core (session_end env r s))"
  unfolding core_session_end by (rule end_core_live) (simp add: live_inv_def core_inv_def)

lemma queue_inv: "live_inv (core s) \<Longrightarrow> live_inv (core (snd (queue_message env k p s)))"
  by (metis core_queue_message may_end_live prod.collapse)

lemma queue_core_inv: "core_inv (core s) \<Longrightarrow> core_inv (core (snd (queue_message env k p s)))"
  by (metis core_queue_message may_end_inv prod.collapse)

lemma read_inv: "live_inv (core s) \<Longrightarrow> live_inv (core (snd (begin_read env s)))"
  by (metis core_begin_read may_end_live prod.collapse)

lemma write_inv: "live_inv (core s) \<Longrightarrow> live_inv (core (snd (begin_next_write env s)))"
  by (metis core_begin_next_write may_end_live prod.collapse)

lemma submit_inv: "live_inv (core s) \<Longrightarrow> live_inv (core (snd (submit env k call s)))"
  by (metis core_submit may_end_live prod.collapse)

lemma compare_inv: "live_inv (core s) \<Longrightarrow> live_inv (core (compare_digest env f s))"
  by (metis core_compare_digest may_end_live)

end
