(* ===== verification/Lan_Session_Inv.thy ===== *)
theory Lan_Session_Inv
  imports Lan_Session_Core
begin

unbundle bit_operations_syntax

text \<open>
  Every operation of a local session keeps the invariant \<open>live_inv\<close>, from the handlers of single
  messages up to the public functions; \<open>lan\<close> is the resulting machine.
\<close>

section \<open>Comparing hashes\<close>

lemma foldl_or_zero:
  "foldl (\<lambda>d i. d OR f i) (a :: 'a::len word) xs = 0 \<longleftrightarrow> a = 0 \<and> (\<forall>i \<in> set xs. f i = 0)"
  by (induction xs arbitrary: a) (auto simp: or_eq_0_iff)

lemma same_bytes_iff: "same_bytes a b n \<longleftrightarrow> (\<forall>i<n. a ! i = b ! i)"
proof -
  have "x XOR y = 0 \<longleftrightarrow> x = y" for x y :: u8
    by (metis bit.xor_self bit.xor_left_self xor.right_neutral)
  then show ?thesis by (auto simp: same_bytes_def foldl_or_zero)
qed

lemma same_bytes_eq: "length a = n \<Longrightarrow> length b = n \<Longrightarrow> same_bytes a b n \<longleftrightarrow> a = b"
  by (auto simp: same_bytes_iff list_eq_iff_nth_eq)

lemma configs_match_iff:
  assumes "base_inv (core s)"
  shows "configs_match s \<longleftrightarrow> ls_local_configured s \<and> ls_peer_configured s
    \<and> ls_local_rom_hash s = ls_remote_rom_hash s \<and> ls_local_config_hash s = ls_remote_config_hash s"
  using assms by (simp add: configs_match_def base_inv_def core_sel same_bytes_eq)

section \<open>Starting and leaving a game\<close>

lemmas inv_defs = live_inv_def core_inv_def base_inv_def running_inv_def core_sel

lemma enter_running_inv:
  assumes inv: "live_inv (core s)"
  shows "live_inv (core (enter_running env s))"
proof (cases "ls_state s = FLY_LAN_MVP_RUNNING \<or> ls_runtime s = 0 \<or> \<not> configs_match s
    \<or> \<not> ls_local_ready s \<or> \<not> ls_peer_ready s")
  case True
  then show ?thesis using inv by (simp add: enter_running_def)
next
  case False
  define s1 where "s1 = s\<lparr>ls_view := (ls_view s)\<lparr>vw_state := FLY_LAN_MVP_RUNNING, vw_reason := REASON_NONE,
      vw_completed_frames := 0, vw_last_digest_frame := 0, vw_last_state_digest := replicate 32 0\<rparr>,
    ls_pcm_produced := 0, ls_pcm_consumed := 0,
    ls_inputs := Some (prime_inputs kInputDelay (new_buffer kInputDelay kInputWindow)),
    ls_next_submit_frame := of_nat kInputDelay,
    ls_local_digests := Map.empty, ls_remote_digests := Map.empty\<rparr>"
  obtain t s2 where ck: "clock env s1 = (t, s2)" by fastforce
  have e: "enter_running env s = advance env (s2\<lparr>ls_last_progress := t\<rparr>)"
    using False ck unfolding enter_running_def s1_def by simp
  have base: "base_inv (core s)" using inv by (simp add: live_inv_def core_inv_def)
  then have "core_inv (core s1)"
    using False prime_game_buffer
    by (auto simp: core_inv_def base_inv_def running_inv_def core_def s1_def configs_match_iff)
  then show ?thesis
    unfolding e by (intro advance_live) (simp add: core_flags core_clockD [OF ck])
qed

lemma maybe_start_inv:
  assumes "live_inv (core s)"
  shows "live_inv (core (maybe_start_host env s))"
proof -
  obtain ok s1 where q: "queue_message env Kind_Start (ls_local_config_hash s) s = (ok, s1)" by fastforce
  then have "live_inv (core s1)" using queue_inv [OF assms, of env Kind_Start "ls_local_config_hash s"] by simp
  then show ?thesis using assms q enter_running_inv by (cases ok) (auto simp: maybe_start_host_def)
qed

lemma core_clear_game:
  "core (clear_game env s) = (core s)\<lparr>co_paused := False, co_completed := 0, co_runtime := 0,
     co_inputs := None, co_local_rom := replicate 32 0, co_remote_rom := replicate 32 0,
     co_local_config := replicate 32 0, co_remote_config := replicate 32 0,
     co_local_configured := False, co_peer_configured := False, co_local_ready := False,
     co_peer_ready := False\<rparr>"
  by (simp add: clear_game_def stop_runtime_def core_def Let_def)

lemma core_set_state: "core (set_state st s) = (core s)\<lparr>co_state := st\<rparr>"
  by (simp add: core_def)

lemma core_set_reason: "core (set_reason r s) = core s"
  by (simp add: core_def)

lemma core_sync_view [simp]: "core (sync_view s) = core s"
  by (simp add: sync_view_def core_def)

lemma return_lobby_inv:
  assumes "live_inv (core s)"
  shows "live_inv (core (snd (return_lobby env s)))"
proof -
  have guest: "live_inv (core (set_state FLY_LAN_MVP_RETURNING s))"
    if "ls_state s = FLY_LAN_MVP_RUNNING \<or> ls_state s = FLY_LAN_MVP_LOBBY
      \<or> ls_state s = FLY_LAN_MVP_CONFIGURING" "ls_role s = Role_Guest"
    using assms that unfolding core_set_state by (auto simp: inv_defs)
  have host: "live_inv (core ((set_state FLY_LAN_MVP_RETURNING (clear_game env s))\<lparr>ls_lobby_generation := g\<rparr>))"
    if "ls_state s = FLY_LAN_MVP_RUNNING \<or> ls_state s = FLY_LAN_MVP_LOBBY
      \<or> ls_state s = FLY_LAN_MVP_CONFIGURING" for g
    using assms that unfolding core_flags core_set_state core_clear_game by (auto simp: inv_defs)
  show ?thesis
    using assms guest host unfolding return_lobby_def Let_def by (auto intro!: queue_inv)
qed

section \<open>Messages\<close>

lemma handle_pause_inv:
  assumes "live_inv (core s)"
  shows "live_inv (core (handle_pause env p s))"
proof (cases "ls_state s = FLY_LAN_MVP_RUNNING")
  case True
  define s1 where "s1 = s\<lparr>ls_view := (ls_view s)\<lparr>vw_paused := (p ! 0 \<noteq> 0)\<rparr>\<rparr>"
  obtain t s2 where ck: "clock env s1 = (t, s2)" by fastforce
  define s4 where "s4 = (if ls_role s2 = Role_Host
    then snd (queue_message env Kind_Pause p (s2\<lparr>ls_last_progress := t\<rparr>)) else s2\<lparr>ls_last_progress := t\<rparr>)"
  have "core s1 = (core s)\<lparr>co_paused := (p ! 0 \<noteq> 0)\<rparr>" by (simp add: s1_def core_def)
  then have "core_inv (core s1)" using assms True by (auto simp: inv_defs)
  then have "core_inv (core (s2\<lparr>ls_last_progress := t\<rparr>))"
    by (simp add: core_flags core_clockD [OF ck])
  then have "core_inv (core s4)" unfolding s4_def by (auto intro: queue_core_inv)
  then have "live_inv (core (if \<not> vw_paused (ls_view s4) then advance env s4 else s4))"
    by (simp add: advance_live paused_live core_sel)
  moreover have "handle_pause env p s = (if \<not> vw_paused (ls_view s4) then advance env s4 else s4)"
    using True ck unfolding handle_pause_def s1_def s4_def Let_def by simp
  ultimately show ?thesis by simp
qed (simp add: handle_pause_def assms)

lemma join_refused_inv: "live_inv (core s) \<Longrightarrow> live_inv (core (join_refused env s))"
  by (auto simp: join_refused_def core_clockD split: prod.splits intro!: ended_inv)

lemma handle_join_inv:
  assumes "live_inv (core s)"
  shows "live_inv (core (handle_join env p s))"
proof -
  obtain t s1 where ck: "clock env s = (t, s1)" by fastforce
  define s2 where "s2 = s1\<lparr>ls_view := (ls_view s1)\<lparr>vw_session_id := take 16 (sha256
     (take 16 (inv_token (ls_invite s1)) @ take 32 (inv_spki_pin (ls_invite s1))))\<rparr>, ls_qr := []\<rparr>"
  obtain ok s3 where q: "queue_message env Kind_Accept (vw_session_id (ls_view s2)) s2 = (ok, s3)"
    by fastforce
  have c1: "core s1 = core s" by (rule core_clockD [OF ck])
  have c2: "core s2 = core s" using c1 by (simp add: s2_def core_def)
  have c3: "live_inv (core s3)"
    using queue_inv [of s2 env Kind_Accept "vw_session_id (ls_view s2)"] assms c2 q by simp
  have lobby: "live_inv (core (set_state FLY_LAN_MVP_LOBBY s3))"
    if ok "ls_state s = FLY_LAN_MVP_INVITING"
  proof -
    have "core s3 = core s" using core_queue_message [OF q] c2 that(1) by (simp add: may_end_def)
    then show ?thesis using assms that(2) unfolding core_set_state by (auto simp: inv_defs)
  qed
  show ?thesis
  proof (cases "ls_role s \<noteq> Role_Host \<or> ls_state s \<noteq> FLY_LAN_MVP_INVITING
      \<or> length p \<noteq> length (inv_token (ls_invite s))")
    case True
    then show ?thesis using assms join_refused_inv by (simp add: handle_join_def)
  next
    case False
    then have "handle_join env p s =
      (if t \<ge> ls_deadline s1 \<or> \<not> same_bytes (inv_token (ls_invite s1)) p (length (inv_token (ls_invite s1)))
       then join_refused env s1 else if ok then set_state FLY_LAN_MVP_LOBBY s3 else s3)"
      unfolding handle_join_def ck Let_def using q unfolding s2_def by simp
    moreover have "live_inv (core (join_refused env s1))" using join_refused_inv assms c1 by metis
    ultimately show ?thesis using c3 lobby False by simp
  qed
qed

lemma handle_accept_inv:
  assumes "live_inv (core s)"
  shows "live_inv (core (handle_accept env p s))"
proof -
  have "core (s\<lparr>ls_view := (ls_view s)\<lparr>vw_session_id := p, vw_state := FLY_LAN_MVP_LOBBY\<rparr>\<rparr>)
      = (core s)\<lparr>co_state := FLY_LAN_MVP_LOBBY\<rparr>" by (simp add: core_def)
  moreover have "live_inv ((core s)\<lparr>co_state := FLY_LAN_MVP_LOBBY\<rparr>)" if "ls_state s = FLY_LAN_MVP_JOINING"
    using assms that by (auto simp: inv_defs)
  ultimately show ?thesis using ended_inv [OF assms] by (simp add: handle_accept_def)
qed

lemma handle_config_inv:
  assumes "live_inv (core s)"
  shows "live_inv (core (handle_config env p s))"
proof (cases "(ls_state s \<noteq> FLY_LAN_MVP_LOBBY \<and> ls_state s \<noteq> FLY_LAN_MVP_CONFIGURING)
    \<or> length p < 64 \<or> length p \<ge> 64 + 256")
  case True
  then show ?thesis using ended_inv [OF assms] by (simp add: handle_config_def)
next
  case False
  define ch where "ch = (ls_peer_configured s \<and> (\<not> same_bytes (ls_remote_rom_hash s) p 32
     \<or> \<not> same_bytes (ls_remote_config_hash s) (drop 32 p) 32))"
  define s1 where "s1 = s\<lparr>ls_remote_rom_hash := take 32 p, ls_remote_config_hash := take 32 (drop 32 p),
    ls_peer_configured := True, ls_local_ready := (ls_local_ready s \<and> \<not> ch),
    ls_peer_ready := (ls_peer_ready s \<and> \<not> ch),
    ls_view := (ls_view s)\<lparr>vw_peer_game_key := drop 64 p @ replicate (256 - length (drop 64 p)) 0,
      vw_state := FLY_LAN_MVP_CONFIGURING\<rparr>\<rparr>"
  have c1: "core s1 = (core s)\<lparr>co_state := FLY_LAN_MVP_CONFIGURING, co_remote_rom := take 32 p,
      co_remote_config := take 32 (drop 32 p), co_peer_configured := True,
      co_local_ready := (ls_local_ready s \<and> \<not> ch), co_peer_ready := (ls_peer_ready s \<and> \<not> ch)\<rparr>"
    by (simp add: s1_def core_def)
  have i1: "live_inv (core s1)"
  proof -
    have "base_inv (core s)" "64 \<le> length p" "ls_state s \<noteq> FLY_LAN_MVP_IDLE"
        "ls_state s \<noteq> FLY_LAN_MVP_ENDED" "ls_state s \<noteq> FLY_LAN_MVP_RUNNING"
        "ls_state s \<noteq> FLY_LAN_MVP_RETURNING"
      using assms False by (auto simp: live_inv_def core_inv_def)
    then show ?thesis unfolding c1 by (simp add: live_inv_def core_inv_def base_inv_def core_sel) blast
  qed
  have "core (s1\<lparr>ls_view := (ls_view s1)\<lparr>vw_reason := r\<rparr>, ls_local_ready := False,
      ls_peer_ready := False\<rparr>) = (core s1)\<lparr>co_local_ready := False, co_peer_ready := False\<rparr>" for r
    by (simp add: core_def)
  moreover have "live_inv ((core s1)\<lparr>co_local_ready := False, co_peer_ready := False\<rparr>)"
    using i1 unfolding c1 by (simp add: live_inv_def core_inv_def base_inv_def)
  ultimately have i2: "live_inv (core (s1\<lparr>ls_view := (ls_view s1)\<lparr>vw_reason := r\<rparr>, ls_local_ready := False,
      ls_peer_ready := False\<rparr>))" for r
    by simp
  have "handle_config env p s =
     (if ls_local_configured s1 \<and> \<not> same_bytes (ls_local_rom_hash s1) (ls_remote_rom_hash s1) 32
      then s1\<lparr>ls_view := (ls_view s1)\<lparr>vw_reason := REASON_ROM_MISMATCH\<rparr>, ls_local_ready := False,
              ls_peer_ready := False\<rparr>
      else if ls_local_configured s1 \<and> \<not> same_bytes (ls_local_config_hash s1) (ls_remote_config_hash s1) 32
      then s1\<lparr>ls_view := (ls_view s1)\<lparr>vw_reason := REASON_CONFIG_MISMATCH\<rparr>, ls_local_ready := False,
              ls_peer_ready := False\<rparr>
      else maybe_start_host env s1)"
    unfolding handle_config_def if_not_P [OF False] Let_def ch_def [symmetric] s1_def [symmetric]
    by (rule refl)
  then show ?thesis using i2 maybe_start_inv [OF i1] by presburger
qed

lemma handle_ready_inv:
  assumes "live_inv (core s)"
  shows "live_inv (core (handle_ready env p s))"
proof -
  have "live_inv (core (s\<lparr>ls_peer_ready := True\<rparr>))"
    if "ls_state s = FLY_LAN_MVP_CONFIGURING \<or> ls_state s = FLY_LAN_MVP_LOBBY" "ls_peer_configured s"
    using assms that by (auto simp: live_inv_def core_inv_def base_inv_def core_def)
  then show ?thesis using ended_inv [OF assms] maybe_start_inv by (auto simp: handle_ready_def)
qed

lemma handle_input_inv:
  assumes "live_inv (core s)"
  shows "live_inv (core (handle_input env p s))"
proof (cases "ls_inputs s = None \<or> ls_state s \<noteq> FLY_LAN_MVP_RUNNING \<or> length p \<noteq> 12")
  case True
  then show ?thesis using ended_inv [OF assms] by (auto simp: handle_input_def split: option.splits)
next
  case False
  then obtain b where b: "ls_inputs s = Some b" by auto
  have g: "game_buffer b (ls_next_submit_frame s)" "buf_next_frame b = vw_completed_frames (ls_view s)"
    using assms False b by (auto simp: inv_defs)
  obtain r b' where put: "put_remote b (load_be (take 8 p)) (load_be (take 4 (drop 8 p))) = (r, b')"
    by fastforce
  have i: "core_inv (core (s\<lparr>ls_inputs := Some b'\<rparr>))"
    using assms put_remote_game_buffer [OF g(1) put] g(2) False
    by (auto simp: live_inv_def core_inv_def base_inv_def running_inv_def core_def)
  then have "live_inv (core (session_end env r (s\<lparr>ls_inputs := Some b'\<rparr>)))" for r
    unfolding core_session_end by (intro end_core_live) (simp add: core_inv_def)
  then show ?thesis
    using False b put advance_live [OF i] by (simp add: handle_input_def Let_def)
qed

lemma handle_digest_inv: "live_inv (core s) \<Longrightarrow> live_inv (core (handle_digest env p s))"
  by (simp add: handle_digest_def Let_def ended_inv compare_inv core_flags)

lemma handle_lobby_inv:
  assumes "live_inv (core s)" "ls_role s \<noteq> Role_None" "ls_state s \<noteq> FLY_LAN_MVP_ENDED"
  shows "live_inv (core (handle_lobby env p s))"
proof -
  let ?c = "clear_game env s"
  let ?s2 = "?c\<lparr>ls_lobby_generation := load_be p, ls_view := (ls_view ?c)\<lparr>vw_state := FLY_LAN_MVP_LOBBY\<rparr>\<rparr>"
  have "core ?s2 = (core ?c)\<lparr>co_state := FLY_LAN_MVP_LOBBY\<rparr>" by (simp add: core_def)
  then have "live_inv (core ?s2)" using assms unfolding core_clear_game by (auto simp: inv_defs)
  then show ?thesis unfolding handle_lobby_def Let_def by (rule queue_inv)
qed

lemma handle_message_inv:
  assumes "live_inv (core s)" "ls_state s \<noteq> FLY_LAN_MVP_ENDED"
  shows "live_inv (core (handle_message env m s))"
proof -
  have "live_inv (core (set_state FLY_LAN_MVP_LOBBY s))" if "ls_state s = FLY_LAN_MVP_RETURNING"
      "ls_role s = Role_Host"
    using assms that unfolding core_set_state by (auto simp: inv_defs)
  then show ?thesis
    using assms unfolding handle_message_def Let_def
    by (auto simp: return_lobby_inv handle_pause_inv handle_join_inv handle_accept_inv
        handle_config_inv handle_ready_inv handle_input_inv handle_digest_inv handle_lobby_inv ended_inv
        handle_start_def enter_running_inv)
qed

section \<open>Completions\<close>

lemma read_loop_inv: "live_inv (core s) \<Longrightarrow> live_inv (core (read_loop env n s))"
proof (induction n arbitrary: s)
  case (Suc n)
  show ?case
  proof (cases "ls_state s = FLY_LAN_MVP_ENDED")
    case False
    obtain ok m d where p: "pop (ls_decoder s) True = (ok, m, d)" by (metis prod_cases3)
    let ?s = "s\<lparr>ls_decoder := d\<rparr>"
    have "live_inv (core ?s)" using Suc.prems by (simp add: core_flags)
    moreover have "live_inv (core (handle_message env x ?s))" for x
      using calculation False by (intro handle_message_inv) simp_all
    ultimately show ?thesis
      using False p Suc.IH by (simp split: option.splits bool.splits)
  qed (use Suc.prems in simp)
qed simp

lemma core_transport:
  "core (s\<lparr>ls_material := a\<rparr>) = core s" "core (s\<lparr>ls_listener := a\<rparr>) = core s"
  "core (s\<lparr>ls_invite := i\<rparr>) = core s" "core (s\<lparr>ls_deadline := t\<rparr>) = core s"
  "core (s\<lparr>ls_connection := a\<rparr>) = core s"
  "core (s\<lparr>ls_send_stream := a\<rparr>) = core s" "core (s\<lparr>ls_recv_stream := a\<rparr>) = core s"
  "core (s\<lparr>ls_written_bytes := n\<rparr>) = core s" "core (s\<lparr>ls_read_bytes := n\<rparr>) = core s"
  "core (s\<lparr>ls_view := (ls_view s)\<lparr>vw_transport_result := r, vw_transport_operation := k\<rparr>\<rparr>) = core s"
  "core (s\<lparr>ls_previous_pump := t\<rparr>) = core s"
  "core (s\<lparr>ls_events := es\<rparr>) = core s" "core (s\<lparr>ls_pcm_consumed := n\<rparr>) = core s"
  by (simp_all add: core_def)

lemma consume_listen_inv:
  assumes "live_inv (core s)"
  shows "live_inv (core (consume_listen env e s))"
proof -
  have a: "live_inv (core (s\<lparr>ls_listener := l\<rparr>))" "live_inv (core (s\<lparr>ls_listener := l, ls_invite := i\<rparr>))"
    for l i
    using assms by (simp_all add: core_def)
  have "live_inv (core (s'\<lparr>ls_deadline := t\<rparr>))"
    if "clock env (s\<lparr>ls_listener := l, ls_invite := i, ls_qr := q\<rparr>) = (u, s')" for l i q t u s'
    using core_clockD [OF that] assms unfolding core_transport by (simp add: core_def)
  then show ?thesis
    using a unfolding consume_listen_def Let_def
    by (auto split: option.splits prod.splits intro!: ended_inv submit_inv)
qed

lemma consume_stream_inv:
  assumes "live_inv (core s)"
  shows "live_inv (core (consume_stream env e s))"
proof -
  have "live_inv (core (s\<lparr>ls_send_stream := a, ls_recv_stream := b\<rparr>))" for a b
    using assms by (simp add: core_transport)
  then show ?thesis
    unfolding consume_stream_def Let_def
    by (auto intro!: ended_inv [OF assms] write_inv read_inv queue_inv)
qed

lemma consume_read_inv:
  assumes "live_inv (core s)"
  shows "live_inv (core (consume_read env e s))"
proof -
  show ?thesis
    unfolding consume_read_def Let_def
    by (auto split: prod.splits intro!: ended_inv read_inv read_loop_inv
        simp: core_flags core_transport assms simp del: read_loop.simps)
qed

lemma consume_event_inv:
  assumes "live_inv (core s)"
  shows "live_inv (core (consume_event env e s))"
proof -
  define s1 where "s1 = s\<lparr>ls_operations := AList.delete (ev_operation e) (ls_operations s)\<rparr>"
  have i: "live_inv (core s1)" using assms by (simp add: s1_def core_flags)
  have t: "live_inv (core (s1\<lparr>ls_view := (ls_view s1)\<lparr>vw_transport_result := r,
      vw_transport_operation := k\<rparr>\<rparr>))" for r k
    using i by (simp add: core_transport)
  have m: "live_inv (core (consume_material env e s1))"
    unfolding consume_material_def Let_def
    by (auto intro!: ended_inv [OF i] submit_inv simp: core_transport i)
  have a: "live_inv (core (consume_accept env e s1))" "live_inv (core (consume_connect env e s1))"
    unfolding consume_accept_def consume_connect_def Let_def
    by (auto intro!: ended_inv submit_inv simp: core_transport i)
  have w: "live_inv (core (consume_write env s1))"
    unfolding consume_write_def by (rule write_inv) (simp add: core_transport core_flags i)
  show ?thesis
    unfolding consume_event_def Let_def s1_def [symmetric]
    using assms ended_inv [OF t] m a w consume_listen_inv [OF i] consume_stream_inv [OF i]
      consume_read_inv [OF i]
    by (auto split: option.splits Operation.splits)
qed

lemma consume_all_inv: "live_inv (core s) \<Longrightarrow> live_inv (core (consume_all env es s))"
  by (induction es arbitrary: s) (simp_all add: consume_event_inv)

lemma expire_inv: "live_inv (core s) \<Longrightarrow> live_inv (core (expire_invite env s))"
  by (auto simp: expire_invite_def core_clockD split: prod.splits intro!: ended_inv)

lemma watch_inv: "live_inv (core s) \<Longrightarrow> live_inv (core (watch_progress env s))"
  by (auto simp: watch_progress_def core_clockD split: prod.splits intro!: ended_inv)

lemma pump_inv:
  assumes "live_inv (core s)"
  shows "live_inv (core (pump env s))"
proof -
  obtain t s1 where ck: "clock env s = (t, s1)" by fastforce
  have "live_inv (core (s1\<lparr>ls_previous_pump := t, ls_events := []\<rparr>))"
    using assms core_clockD [OF ck] by (simp add: core_transport)
  then show ?thesis
    unfolding pump_def ck Let_def by (simp add: watch_inv expire_inv consume_all_inv)
qed

section \<open>Public functions\<close>

lemma submit_input_inv:
  assumes "live_inv (core s)"
  shows "live_inv (core (snd (fly_lan_mvp_submit_input env buttons s)))"
proof -
  define s1 where "s1 = pump env s"
  have i1: "live_inv (core s1)" using pump_inv [OF assms] by (simp add: s1_def)
  show ?thesis
  proof (cases "ls_inputs s1 = None \<or> ls_state s1 \<noteq> FLY_LAN_MVP_RUNNING \<or> vw_paused (ls_view s1)
      \<or> ls_next_submit_frame s1 \<ge> vw_completed_frames (ls_view s1) + of_nat kInputDelay")
    case True
    then show ?thesis
      using i1 unfolding fly_lan_mvp_submit_input_def s1_def [symmetric] Let_def
      by (cases "ls_inputs s1") auto
  next
    case False
    then obtain b where b: "ls_inputs s1 = Some b" by auto
    let ?f = "ls_next_submit_frame s1"
    obtain r b' where put: "put_local b ?f buttons = (r, b')" by fastforce
    let ?s2 = "s1\<lparr>ls_inputs := Some b'\<rparr>"
    obtain ok s3 where q: "queue_message env Kind_Input (store_be 8 ?f @ store_be 4 buttons) ?s2 = (ok, s3)"
      by fastforce
    have g: "game_buffer b ?f" "buf_next_frame b = vw_completed_frames (ls_view s1)"
      using i1 False b by (auto simp: inv_defs)
    have c2: "core ?s2 = (core s1)\<lparr>co_inputs := Some b'\<rparr>" by (simp add: core_def)
    have base: "base_inv (core ?s2)"
      using i1 False unfolding c2 by (auto simp: live_inv_def core_inv_def base_inv_def core_sel)
    show ?thesis
    proof (cases "r = Put_Accepted")
      case False
      have "unat (?f - buf_next_frame b) < unat (?f - buf_next_frame b) \<longleftrightarrow> False" by simp
      then have n: "slot_local (slot_view b ?f) = None" using g(1) unfolding game_buffer_def by blast
      have "b' = b"
        using put False n
        by (auto simp: put_local_def put_def slot_view_def Let_def split: if_splits option.splits)
      then have "core ?s2 = core s1" using b by (simp add: core_def)
      then show ?thesis
        using i1 b put \<open>\<not> (ls_inputs s1 = None \<or> _ \<or> _ \<or> _)\<close> False
        unfolding fly_lan_mvp_submit_input_def s1_def [symmetric] Let_def by simp
    next
      case True
      have n: "game_buffer b' (?f + 1) \<and> buf_next_frame b' = buf_next_frame b"
        using put_local_game_buffer [OF g(1) put [unfolded True]] g(2) False by (simp add: not_le)
      define s4 where "s4 = s3\<lparr>ls_next_submit_frame := ls_next_submit_frame s3 + 1,
        ls_last_submitted_buttons := buttons\<rparr>"
      have res: "snd (fly_lan_mvp_submit_input env buttons s) = (if ok then advance env s4 else s3)"
        using b put False True q
        unfolding fly_lan_mvp_submit_input_def s1_def [symmetric] s4_def Let_def by simp
      note fate = core_queue_message [OF q]
      have "live_inv (core s3)" if "\<not> ok"
        using fate that base end_core_live by (simp add: may_end_def)
      moreover have "core_inv (core s4)" if ok
      proof -
        have c3: "core s3 = core ?s2" using fate that by (simp add: may_end_def)
        have "core s4 = (core s3)\<lparr>co_next_submit := co_next_submit (core s3) + 1\<rparr>"
          by (simp add: s4_def core_def)
        also have "\<dots> = (core s1)\<lparr>co_inputs := Some b', co_next_submit := ?f + 1\<rparr>"
          by (simp add: c3 c2 core_sel)
        finally show ?thesis
          using i1 False n g(2) by (auto simp: live_inv_def core_inv_def base_inv_def running_inv_def core_sel)
      qed
      ultimately show ?thesis by (simp add: res advance_live)
    qed
  qed
qed

lemma load_candidate_core:
  assumes "load_candidate env rom s = (r, s')"
  shows "core s' = core s"
    "r = Some (cand, rh, ch) \<Longrightarrow> cand \<noteq> 0 \<and> length rh = 32 \<and> length ch = 32"
  using assms
  by (auto simp: load_candidate_def make_config_hash_def Let_def core_set_reason core_flags
      split: prod.splits if_splits)

lemma select_game_inv:
  assumes "live_inv (core s)"
  shows "live_inv (core (snd (fly_lan_mvp_select_game env rom key s)))"
proof (cases "\<exists>bs k. rom = Some bs \<and> key = Some k \<and> bs \<noteq> [] \<and> length k < 256
    \<and> (ls_state (pump env s) = FLY_LAN_MVP_LOBBY \<or> ls_state (pump env s) = FLY_LAN_MVP_CONFIGURING)")
  case False
  then show ?thesis
    using assms pump_inv [OF assms]
    by (auto simp: fly_lan_mvp_select_game_def Let_def split: option.splits)
next
  case True
  define s1 where "s1 = pump env s"
  from True obtain bs k where rk: "rom = Some bs" "key = Some k" "bs \<noteq> []" "length k < 256"
    and st: "ls_state s1 = FLY_LAN_MVP_LOBBY \<or> ls_state s1 = FLY_LAN_MVP_CONFIGURING"
    by (auto simp: s1_def)
  have i1: "live_inv (core s1)" using pump_inv [OF assms] by (simp add: s1_def)
  obtain r s2 where ld: "load_candidate env bs s1 = (r, s2)" by fastforce
  note lc = load_candidate_core [OF ld]
  have i2: "live_inv (core s2)" using lc(1) i1 by simp
  show ?thesis
  proof (cases r)
    case None
    then show ?thesis
      using rk st ld i2 unfolding fly_lan_mvp_select_game_def s1_def [symmetric] Let_def by auto
  next
    case (Some x)
    then obtain cand rh ch where x: "r = Some (cand, rh, ch)" by (cases x) auto
    define s3 where "s3 = (if ls_runtime s2 \<noteq> 0
      then s2\<lparr>ls_world := env_runtime_destroy env (ls_runtime s2) (ls_world s2)\<rparr> else s2)"
    define s4 where "s4 = s3\<lparr>ls_runtime := cand, ls_local_rom_hash := rh, ls_local_config_hash := ch,
      ls_local_configured := True, ls_local_ready := False, ls_peer_ready := False,
      ls_view := (ls_view s3)\<lparr>vw_reason := REASON_NONE, vw_state := FLY_LAN_MVP_CONFIGURING\<rparr>\<rparr>"
    have c3: "core s3 = core s1" using lc(1) by (simp add: s3_def core_flags)
    have "core s4 = (core s3)\<lparr>co_state := FLY_LAN_MVP_CONFIGURING, co_runtime := cand, co_local_rom := rh,
        co_local_config := ch, co_local_configured := True, co_local_ready := False, co_peer_ready := False\<rparr>"
      by (simp add: s4_def core_def)
    then have i4: "live_inv (core s4)"
      using i1 st lc(2) [OF x] unfolding c3
      by (elim disjE) (simp_all add: live_inv_def core_inv_def base_inv_def core_sel)
    have st': "(ls_state s1 \<noteq> FLY_LAN_MVP_LOBBY \<and> ls_state s1 \<noteq> FLY_LAN_MVP_CONFIGURING) = False"
      using st by auto
    have fails: "live_inv (core (set_reason q (s2\<lparr>ls_world := w\<rparr>)))" for q w
      using i2 by (simp add: core_set_reason core_flags)
    have "snd (fly_lan_mvp_select_game env rom key s) =
       (if ls_peer_configured s2 \<and> \<not> same_bytes rh (ls_remote_rom_hash s2) (length rh)
        then set_reason REASON_ROM_MISMATCH (s2\<lparr>ls_world := env_runtime_destroy env cand (ls_world s2)\<rparr>)
        else if ls_peer_configured s2 \<and> \<not> same_bytes ch (ls_remote_config_hash s2) (length ch)
        then set_reason REASON_CONFIG_MISMATCH (s2\<lparr>ls_world := env_runtime_destroy env cand (ls_world s2)\<rparr>)
        else snd (queue_message env Kind_Config (rh @ ch @ ascii k) (sync_view s4)))"
      using rk ld x
      unfolding fly_lan_mvp_select_game_def s1_def [symmetric] Let_def s4_def s3_def
      by (simp add: not_le st' del: de_Morgan_conj)
    moreover have "live_inv (core (snd (queue_message env Kind_Config (rh @ ch @ ascii k) (sync_view s4))))"
      by (rule queue_inv) (simp add: i4)
    ultimately show ?thesis using fails by presburger
  qed
qed

lemma confirm_inv:
  assumes "live_inv (core s)"
  shows "live_inv (core (snd (fly_lan_mvp_confirm env s)))"
proof -
  define s1 where "s1 = pump env s"
  have i1: "live_inv (core s1)" using pump_inv [OF assms] by (simp add: s1_def)
  obtain ok s2 where q: "queue_message env Kind_Ready (ls_local_config_hash s1)
      (s1\<lparr>ls_local_ready := True\<rparr>) = (ok, s2)" by fastforce
  have "live_inv (core (s1\<lparr>ls_local_ready := True\<rparr>))"
    if "ls_state s1 = FLY_LAN_MVP_CONFIGURING" "ls_local_configured s1"
  proof -
    have "core (s1\<lparr>ls_local_ready := True\<rparr>) = (core s1)\<lparr>co_local_ready := True\<rparr>" by (simp add: core_def)
    then show ?thesis using i1 that by (auto simp: live_inv_def core_inv_def base_inv_def core_sel)
  qed
  then have "live_inv (core s2)" if "ls_state s1 = FLY_LAN_MVP_CONFIGURING" "ls_local_configured s1"
    using queue_inv [of "s1\<lparr>ls_local_ready := True\<rparr>" env Kind_Ready "ls_local_config_hash s1"] q that by simp
  then show ?thesis
    using i1 q unfolding fly_lan_mvp_confirm_def s1_def [symmetric] Let_def
    by (auto intro: maybe_start_inv)
qed

lemma set_paused_inv:
  assumes "live_inv (core s)"
  shows "live_inv (core (snd (fly_lan_mvp_set_paused env paused s)))"
proof -
  define s1 where "s1 = pump env s"
  have i1: "live_inv (core s1)" using pump_inv [OF assms] by (simp add: s1_def)
  let ?p = "s1\<lparr>ls_view := (ls_view s1)\<lparr>vw_paused := (paused \<noteq> 0)\<rparr>\<rparr>"
  obtain t s2 where ck: "clock env ?p = (t, s2)" by fastforce
  show ?thesis
  proof (cases "ls_state s1 = FLY_LAN_MVP_RUNNING")
    case False
    then show ?thesis
      using i1 unfolding fly_lan_mvp_set_paused_def s1_def [symmetric] Let_def by simp
  next
    case True
    have "core ?p = (core s1)\<lparr>co_paused := (paused \<noteq> 0)\<rparr>" by (simp add: core_def)
    then have p: "core_inv (core ?p)" "co_paused (core ?p) \<longleftrightarrow> paused \<noteq> 0"
      using i1 True by (auto simp: live_inv_def core_inv_def base_inv_def running_inv_def core_sel)
    let ?q = "s2\<lparr>ls_last_progress := t\<rparr>"
    have "core ?q = core ?p" by (simp only: core_flags core_clockD [OF ck])
    then have "core_inv (core ?q)" "co_paused (core ?q) \<longleftrightarrow> paused \<noteq> 0" using p by simp_all
    then have "live_inv (core (if paused = 0 then advance env ?q else ?q))"
      by (simp add: advance_live paused_live)
    then show ?thesis
      using i1 True ck unfolding fly_lan_mvp_set_paused_def s1_def [symmetric] Let_def
      by (auto intro!: queue_inv)
  qed
qed

lemma host_join_inv:
  assumes "live_inv (core s)"
  shows "live_inv (core (snd (fly_lan_mvp_host env ip tok s)))"
    "live_inv (core (snd (fly_lan_mvp_join env loc qr s)))"
proof -
  have "live_inv (core (s\<lparr>ls_role := role, ls_invite := i, ls_view := (ls_view s)\<lparr>vw_state := st\<rparr>\<rparr>))"
    if "ls_state s = FLY_LAN_MVP_IDLE" "role \<noteq> Role_None"
      "st = FLY_LAN_MVP_INVITING \<or> st = FLY_LAN_MVP_JOINING" for role i st
  proof -
    have "core (s\<lparr>ls_role := role, ls_invite := i, ls_view := (ls_view s)\<lparr>vw_state := st\<rparr>\<rparr>)
        = (core s)\<lparr>co_role := role, co_state := st\<rparr>" by (simp add: core_def)
    then show ?thesis using assms that by (auto simp: live_inv_def core_inv_def base_inv_def core_sel)
  qed
  then show "live_inv (core (snd (fly_lan_mvp_host env ip tok s)))"
    "live_inv (core (snd (fly_lan_mvp_join env loc qr s)))"
    using assms unfolding fly_lan_mvp_host_def fly_lan_mvp_join_def Let_def
    by (auto split: option.splits intro!: submit_inv)
qed

lemma lan_step_inv:
  assumes "live_inv (core s)"
  shows "live_inv (core (snd (lan_step env s c)))"
proof -
  note p = pump_inv [OF assms]
  have "live_inv (core (snd (fly_lan_mvp_copy_latest_frame env out cap s)))" for out cap
    using assms p by (auto simp: fly_lan_mvp_copy_latest_frame_def Let_def core_flags split: prod.splits)
  moreover have "live_inv (core (snd (fly_lan_mvp_pull_pcm env out cap' s)))" for out cap'
    using assms p
    by (auto simp: fly_lan_mvp_pull_pcm_def Let_def core_flags core_transport split: prod.splits)
  moreover have "live_inv (core (snd (fly_lan_mvp_copy_invite env out cap s)))"
      "live_inv (core (snd (fly_lan_mvp_snapshot_read env out s)))" for out cap
    using assms p by (auto simp: fly_lan_mvp_copy_invite_def fly_lan_mvp_snapshot_read_def Let_def)
  moreover have
    "snd (lan_step env s (LanCopyInvite out cap)) = snd (fly_lan_mvp_copy_invite env out cap s)"
    "snd (lan_step env s (LanSnapshot out)) = snd (fly_lan_mvp_snapshot_read env out s)"
    "snd (lan_step env s (LanPullPcm out cap')) = snd (fly_lan_mvp_pull_pcm env out cap' s)" for out cap cap'
    by (simp_all split: prod.splits)
  ultimately show ?thesis
    using assms p host_join_inv [OF assms] select_game_inv [OF assms] confirm_inv [OF assms]
      submit_input_inv [OF assms] set_paused_inv [OF assms] return_lobby_inv [OF p] ended_inv [OF assms]
    by (cases c) (simp_all add: completion_def core_transport fly_lan_mvp_return_lobby_def
        fly_lan_mvp_cancel_def del: lan_step.simps(4,5,12))
qed

lemma new_session_inv: "live_inv (core (new_session env w))"
  by (simp add: new_session_def new_snapshot_def live_inv_def core_inv_def base_inv_def core_def Let_def split: prod.splits)

interpretation lan: guarded_machine "lan_step env" "\<lambda>s c. True" "\<lambda>s. live_inv (core s)"
  for env :: "'w LanEnv"
  by unfold_locales (rule lan_step_inv)

lemma session_inv: "live_inv (core (run_calls (lan_step env) (new_session env w) cs))"
  by (rule lan.run_inv [OF new_session_inv]) simp

end
