(* ===== verification/Lan_Session_Properties.thy ===== *)
theory Lan_Session_Properties
  imports Lan_Session_Inv
begin

unbundle bit_operations_syntax

text \<open>
  What a local session guarantees, for every environment: its invariant, that an ended session stays
  ended and idle, that only the invited peer gets in, that frames are completed as far as inputs
  allow, the bound on input latency, and the detection of diverging games.
\<close>

section \<open>Transport operations and the view\<close>

lemma state_session_end [simp]: "ls_state (session_end env r s) = FLY_LAN_MVP_ENDED"
proof -
  have "co_state (core (session_end env r s)) = FLY_LAN_MVP_ENDED"
    unfolding core_session_end by simp
  then show ?thesis by (simp add: core_sel)
qed

lemma view_cancel [simp]: "ls_view (cancel_operations env ops s) = ls_view s"
  by (induction ops arbitrary: s) (simp_all add: request_def split: prod.splits)

lemma view_close [simp]: "ls_view (close_resource env r s) = ls_view s"
  by (simp add: close_resource_def request_def split: prod.splits)

lemma reason_session_end:
  "ls_state s \<noteq> FLY_LAN_MVP_ENDED \<Longrightarrow> vw_reason (ls_view (session_end env r s)) = r"
  by (simp add: session_end_def stop_runtime_def Let_def)

lemma queue_state:
  assumes "queue_message env k p s = (ok, s')"
  shows "ls_state s' = (if ok then ls_state s else FLY_LAN_MVP_ENDED)"
proof -
  have "co_state (core s') = (if ok then co_state (core s) else FLY_LAN_MVP_ENDED)"
    using core_queue_message [OF assms] by (simp add: may_end_def)
  then show ?thesis by (simp add: core_sel)
qed

lemma clock_sel:
  assumes "clock env s = (t, s')"
  shows "ls_view s' = ls_view s" "ls_deadline s' = ls_deadline s" "ls_invite s' = ls_invite s"
    "t = fst (env_now env (ls_world s))"
  using assms by (auto simp: clock_def split: prod.splits)

section \<open>Ended sessions\<close>

text \<open>\<open>clocked env w w'\<close>: the environment went from \<open>w\<close> to \<open>w'\<close> by readings of the clock only.\<close>

inductive clocked :: "'w LanEnv \<Rightarrow> 'w \<Rightarrow> 'w \<Rightarrow> bool" for env where
  none: "clocked env w w"
| tick: "clocked env w w' \<Longrightarrow> clocked env w (snd (env_now env w'))"

inductive_cases clockedE: "clocked env w w'"

lemma clocked_trans: "clocked env w' w'' \<Longrightarrow> clocked env w w' \<Longrightarrow> clocked env w w''"
  by (induction rule: clocked.induct) (auto intro: clocked.intros)

definition idle_end :: "'w LanEnv \<Rightarrow> 'w LanSession \<Rightarrow> 'w LanSession \<Rightarrow> bool" where
  "idle_end env s s' \<longleftrightarrow> ls_state s' = ls_state s \<and> vw_reason (ls_view s') = vw_reason (ls_view s)
     \<and> clocked env (ls_world s) (ls_world s')"

lemma consume_all_ended: "ls_state s = FLY_LAN_MVP_ENDED \<Longrightarrow> consume_all env es s = s"
  by (induction es) (simp_all add: consume_event_def)

lemma pump_ended:
  assumes "ls_state s = FLY_LAN_MVP_ENDED"
  shows "idle_end env s (pump env s)" "ls_runtime (pump env s) = ls_runtime s"
    "ls_inputs (pump env s) = ls_inputs s"
proof -
  obtain t w where w: "env_now env (ls_world s) = (t, w)" by fastforce
  have "pump env s = sync_view (s\<lparr>ls_world := w, ls_previous_pump := t, ls_events := []\<rparr>)"
    using assms by (simp add: pump_def clock_def w Let_def consume_all_ended expire_invite_def
        watch_progress_def)
  moreover have "clocked env (ls_world s) w"
    using clocked.tick [OF clocked.none, of env "ls_world s"] w by simp
  ultimately show "idle_end env s (pump env s)" "ls_runtime (pump env s) = ls_runtime s"
    "ls_inputs (pump env s) = ls_inputs s"
    by (simp_all add: idle_end_def sync_view_def)
qed

lemma idle_refl: "idle_end env s s"
  by (simp add: idle_end_def clocked.none)

lemma lan_step_ended:
  assumes "live_inv (core s)" "ls_state s = FLY_LAN_MVP_ENDED"
  shows "idle_end env s (snd (lan_step env s c))"
proof -
  note p = pump_ended [OF assms(2), of env]
  have z: "ls_runtime s = 0" "ls_inputs s = None"
    using assms by (simp_all add: live_inv_def core_inv_def base_inv_def core_sel)
  have st: "ls_state (pump env s) = FLY_LAN_MVP_ENDED"
    using p(1) assms(2) by (simp add: idle_end_def)
  have "snd (lan_step env s c) \<in> {s, pump env s}" if "\<And>a b d e. c \<noteq> LanCompletion a b d e"
    using that assms(2) st p z
    by (cases c)
      (auto simp: fly_lan_mvp_host_def fly_lan_mvp_join_def fly_lan_mvp_copy_invite_def Let_def
        fly_lan_mvp_snapshot_read_def fly_lan_mvp_select_game_def fly_lan_mvp_confirm_def
        fly_lan_mvp_submit_input_def fly_lan_mvp_set_paused_def fly_lan_mvp_return_lobby_def
        return_lobby_def fly_lan_mvp_copy_latest_frame_def fly_lan_mvp_pull_pcm_def
        fly_lan_mvp_cancel_def session_end_def split: option.splits)
  moreover have "idle_end env s (snd (lan_step env s c))" if "c = LanCompletion a b d e" for a b d e
    using that by (simp add: completion_def idle_end_def clocked.none)
  ultimately show ?thesis using p(1) idle_refl by (metis (no_types) insertE singletonD)
qed

lemma ended_run:
  assumes "live_inv (core s)" "ls_state s = FLY_LAN_MVP_ENDED"
  shows "idle_end env s (run_calls (lan_step env) s cs)"
  using assms
proof (induction cs arbitrary: s)
  case Nil
  then show ?case by (simp add: idle_refl)
next
  case (Cons c cs)
  have e: "idle_end env s (snd (lan_step env s c))" by (rule lan_step_ended [OF Cons.prems])
  then have "idle_end env (snd (lan_step env s c)) (run_calls (lan_step env) (snd (lan_step env s c)) cs)"
    using Cons by (intro Cons.IH lan_step_inv) (simp_all add: idle_end_def)
  then show ?case using e by (auto simp: idle_end_def intro: clocked_trans)
qed

section \<open>Properties\<close>

text \<open>
  C25: Every session keeps its invariant under every sequence of calls and completions, whatever the
  clock, the transport and the runtime do: an ended session holds no runtime and no input buffer; a
  session in any other state than idle has a role; a runtime exists exactly when a game is
  configured; and a running session has confirmed games on both sides with equal ROM and
  configuration hashes, an input buffer whose next frame is the number of completed frames, slots
  inside the window only, and local inputs exactly for the at most two frames ahead that were
  submitted and not yet completed; and when it is not paused, it has completed every frame for which
  both inputs are there.
\<close>
theorem session_invariant: "live_inv (core (run_calls (lan_step env) (new_session env w) cs))"
  by (rule session_inv)

text \<open>
  C26: Ending is final: once a session has ended, no sequence of calls or late completions changes its
  state or reason, and nothing but the clock is asked of the environment any more (no request to
  the transport, no step of the runtime).
\<close>
theorem session_ended_final:
  assumes "s = run_calls (lan_step env) (new_session env w) cs" "ls_state s = FLY_LAN_MVP_ENDED"
    "s' = run_calls (lan_step env) s ds"
  shows "ls_state s' = FLY_LAN_MVP_ENDED \<and> vw_reason (ls_view s') = vw_reason (ls_view s)
    \<and> clocked env (ls_world s) (ls_world s')"
proof -
  have "live_inv (core s)" unfolding assms(1) by (rule session_inv)
  then have "idle_end env s s'" unfolding assms(3) using assms(2) by (rule ended_run)
  then show ?thesis using assms(2) by (simp add: idle_end_def)
qed

definition sample_env :: "nat LanEnv" where
  "sample_env = \<lparr>env_now = (\<lambda>w. (int w, w + 1)), env_quic = (\<lambda>q w. (FLYNES_QUIC_ACCEPTED, w)),
     env_runtime_create = (\<lambda>w. ((FLY_RESULT_OK, 1), w)), env_runtime_destroy = (\<lambda>r w. w),
     env_runtime_load_rom_fresh = (\<lambda>r b h w. (FLY_RESULT_OK, w)),
     env_runtime_get_source_timing = (\<lambda>r w. ((FLY_RESULT_OK,
        \<lparr>tim_source_region = 1, tim_frame_rate_numerator = 60, tim_frame_rate_denominator = 1,
         tim_sample_rate = 48000\<rparr>), w)),
     env_runtime_step_frame = (\<lambda>r i w. ((FLY_RESULT_OK,
        \<lparr>fre_audio_last_sample_sequence = 0, fre_pcm_published = 0\<rparr>), w)),
     env_runtime_copy_frame_digest = (\<lambda>r e f w. ((FLY_RESULT_OK, replicate 32 0), w)),
     env_runtime_copy_latest_frame = (\<lambda>r n w. (FLY_RESULT_OK, w)),
     env_runtime_pull_pcm = (\<lambda>r n w. ((FLY_RESULT_OK,
        \<lparr>pcm_sample_count = n, pcm_first_sample_sequence = 0, pcm_media_time_ns = 0\<rparr>), w))\<rparr>"

theorem session_ended_final_witness:
  "let s = run_calls (lan_step sample_env) (new_session sample_env 5) [LanCancel];
       s' = run_calls (lan_step sample_env) s [LanSubmitInput 1, LanReturnLobby] in
   ls_state s = FLY_LAN_MVP_ENDED \<and> ls_state s' = FLY_LAN_MVP_ENDED
   \<and> vw_reason (ls_view s') = REASON_CANCELLED"
proof -
  let ?s = "run_calls (lan_step sample_env) (new_session sample_env 5) [LanCancel]"
  have e: "ls_state ?s = FLY_LAN_MVP_ENDED" "vw_reason (ls_view ?s) = REASON_CANCELLED"
    by (simp_all add: fly_lan_mvp_cancel_def reason_session_end new_session_def new_snapshot_def Let_def
        split: prod.splits)
  show ?thesis
    using session_ended_final [OF refl e(1) refl, of "[LanSubmitInput 1, LanReturnLobby]"] e
    by (simp only: Let_def simp_thms)
qed

text \<open>
  C28: Only the invited peer enters the lobby: the single message that takes a hosting session from
  inviting to another state without ending it is a join whose payload is the whole token of the
  invitation, read before the invitation's deadline; it leads to the lobby.
\<close>
theorem join_needs_token:
  assumes "ls_role s = Role_Host" "ls_state s = FLY_LAN_MVP_INVITING"
    "ls_state (handle_message env m s) \<noteq> FLY_LAN_MVP_INVITING"
    "ls_state (handle_message env m s) \<noteq> FLY_LAN_MVP_ENDED"
  shows "msg_kind m = kind_byte Kind_Join \<and> msg_payload m = inv_token (ls_invite s)
    \<and> fst (env_now env (ls_world s)) < ls_deadline s
    \<and> ls_state (handle_message env m s) = FLY_LAN_MVP_LOBBY"
proof -
  have other: "handle_message env m s = handle_join env (msg_payload m) s \<and> msg_kind m = kind_byte Kind_Join"
    using assms unfolding handle_message_def Let_def
    by (auto simp: return_lobby_def handle_pause_def handle_accept_def handle_config_def handle_ready_def
        handle_start_def handle_input_def handle_digest_def split: if_splits option.splits)
  obtain t s1 where ck: "clock env s = (t, s1)" by fastforce
  note cs = clock_sel [OF ck]
  let ?tok = "inv_token (ls_invite s)"
  let ?s2 = "s1\<lparr>ls_view := (ls_view s1)\<lparr>vw_session_id := take 16 (sha256
     (take 16 (inv_token (ls_invite s1)) @ take 32 (inv_spki_pin (ls_invite s1))))\<rparr>, ls_qr := []\<rparr>"
  obtain ok s3 where q: "queue_message env Kind_Accept (vw_session_id (ls_view ?s2)) ?s2 = (ok, s3)" by fastforce
  have refused: "ls_state (join_refused env x) = FLY_LAN_MVP_ENDED" for x
    by (simp add: join_refused_def split: prod.splits)
  have len: "length (msg_payload m) = length ?tok"
  proof (rule ccontr)
    assume "length (msg_payload m) \<noteq> length ?tok"
    then have "handle_join env (msg_payload m) s = join_refused env s" by (simp add: handle_join_def)
    then show False using other assms(4) refused by simp
  qed
  then have run: "handle_join env (msg_payload m) s =
      (if t \<ge> ls_deadline s \<or> \<not> same_bytes ?tok (msg_payload m) (length ?tok) then join_refused env s1
       else if ok then set_state FLY_LAN_MVP_LOBBY s3 else s3)"
    using assms(1,2) q cs unfolding handle_join_def ck Let_def by simp
  then have cond: "t < ls_deadline s" "same_bytes ?tok (msg_payload m) (length ?tok)"
    using other assms(4) refused by (auto split: if_splits)
  then have "msg_payload m = ?tok" using len same_bytes_eq by metis
  moreover have ok using run cond other assms(4) queue_state [OF q] by (auto split: if_splits)
  ultimately show ?thesis using other run cond cs by simp
qed

definition sample_host :: "nat LanSession" where
  "sample_host = (new_session sample_env 5)\<lparr>ls_role := Role_Host, ls_deadline := 1000,
     ls_invite := new_invite\<lparr>inv_token := replicate 16 7\<rparr>,
     ls_view := new_snapshot\<lparr>vw_state := FLY_LAN_MVP_INVITING\<rparr>\<rparr>"

theorem join_needs_token_witness:
  "let m = \<lparr>msg_kind = 1, msg_payload = replicate 16 7\<rparr> in
   ls_state sample_host = FLY_LAN_MVP_INVITING \<and> msg_payload m = inv_token (ls_invite sample_host)
   \<and> ls_state (handle_message sample_env m sample_host) = FLY_LAN_MVP_LOBBY"
proof -
  let ?m = "\<lparr>msg_kind = 1, msg_payload = replicate 16 7\<rparr>"
  have h: "ls_role sample_host = Role_Host" "ls_state sample_host = FLY_LAN_MVP_INVITING"
    by (simp_all add: sample_host_def)
  have "ls_state (handle_message sample_env ?m sample_host) = FLY_LAN_MVP_LOBBY"
    by (simp add: handle_message_def handle_join_def sample_host_def sample_env_def new_session_def
        new_invite_def clock_def same_bytes_eq queue_message_def begin_next_write_def encode_def
        kMaxBodySize_def Let_def)
  then show ?thesis using join_needs_token [OF h, of sample_env ?m] h by (simp add: Let_def)
qed

lemma queue_accepts:
  assumes "\<forall>q w. fst (env_quic env q w) = FLYNES_QUIC_ACCEPTED" "length p < kMaxBodySize"
  shows "fst (queue_message env k p s)"
proof -
  have "fst (submit env op call x)" for op call and x :: "'a LanSession"
    using assms(1) by (auto simp: submit_def request_def Let_def split: prod.splits) (metis fst_conv)+
  then have "fst (begin_next_write env x)" for x
    by (auto simp: begin_next_write_def split: prod.splits bool.splits) (metis fst_conv)
  then show ?thesis using assms(2) by (simp add: queue_message_def encode_def kMaxBodySize_def)
qed

text \<open>
  C29: Input latency is bounded and submissions inside the bound always succeed: in a running, unpaused
  session the next frame to submit is between the number of completed frames and two more; and while
  the transport accepts requests, a submission is accepted exactly when that number is below the
  completed frames plus two.
\<close>
theorem submit_input_window:
  assumes "live_inv (core s)" "s1 = pump env s" "ls_state s1 = FLY_LAN_MVP_RUNNING"
    "\<not> vw_paused (ls_view s1)" "unat (vw_completed_frames (ls_view s1)) < 2 ^ 64 - 2"
    "\<forall>q w. fst (env_quic env q w) = FLYNES_QUIC_ACCEPTED"
  shows "unat (vw_completed_frames (ls_view s1)) \<le> unat (ls_next_submit_frame s1)
    \<and> unat (ls_next_submit_frame s1) \<le> unat (vw_completed_frames (ls_view s1)) + 2
    \<and> (fst (fly_lan_mvp_submit_input env buttons s) \<longleftrightarrow>
         unat (ls_next_submit_frame s1) < unat (vw_completed_frames (ls_view s1)) + 2)"
proof -
  let ?ns = "ls_next_submit_frame s1" and ?n = "vw_completed_frames (ls_view s1)"
  have "live_inv (core s1)" unfolding assms(2) by (rule pump_inv [OF assms(1)])
  then obtain b where b: "ls_inputs s1 = Some b" "buf_next_frame b = ?n" "game_buffer b ?ns"
    using assms(3) by (auto simp: inv_defs)
  have d: "unat (?ns - ?n) \<le> 2" using b by (simp add: game_buffer_def kInputDelay_def)
  have "unat ?ns = unat (?n + (?ns - ?n))" by simp
  also have "\<dots> = unat ?n + unat (?ns - ?n)" using d assms(5) by (intro unat_add_small) simp
  finally have ns: "unat ?ns = unat ?n + unat (?ns - ?n)" .
  then have range: "unat ?n \<le> unat ?ns" "unat ?ns \<le> unat ?n + 2" using d by simp_all
  have n2: "unat (?n + of_nat kInputDelay) = unat ?n + 2"
    using assms(5) unat_add_small [of ?n 2] by (simp add: kInputDelay_def)
  have none: "slot_local (slot_view b ?ns) = None"
    using b(2,3) unfolding game_buffer_def by blast
  have "buf_window b = 256" using b(3) by (simp add: game_buffer_def kInputWindow_def)
  then obtain b' where put: "put_local b ?ns buttons = (Put_Accepted, b')"
    using none b(2) ns d
    by (auto simp: put_local_def put_def slot_view_def Let_def word_less_nat_alt split: option.splits)
  have "fst (queue_message env Kind_Input (store_be 8 ?ns @ store_be 4 buttons) x)" for x
    by (rule queue_accepts [OF assms(6)]) (simp add: kMaxBodySize_def)
  then have "fst (fly_lan_mvp_submit_input env buttons s) \<longleftrightarrow> unat ?ns < unat ?n + 2"
    using b(1) assms(3,4) put n2
    unfolding fly_lan_mvp_submit_input_def assms(2) [symmetric] Let_def
    by (auto simp: word_le_nat_alt split: prod.splits bool.splits) (metis fst_conv)
  with range show ?thesis by simp
qed

definition sample_running :: "nat LanSession" where
  "sample_running = (new_session sample_env 5)\<lparr>ls_role := Role_Guest, ls_runtime := 1,
     ls_local_configured := True, ls_peer_configured := True, ls_local_ready := True,
     ls_peer_ready := True, ls_inputs := Some \<lparr>buf_window = 256, buf_next_frame = 2, buf_slots = Map.empty\<rparr>,
     ls_view := new_snapshot\<lparr>vw_state := FLY_LAN_MVP_RUNNING, vw_completed_frames := 2\<rparr>\<rparr>"

theorem submit_input_window_witness:
  "live_inv (core sample_running) \<and> fst (fly_lan_mvp_submit_input sample_env 9 sample_running)"
proof -
  have i: "live_inv (core sample_running)"
    by (simp add: sample_running_def new_session_def new_snapshot_def sample_env_def inv_defs core_def
        game_buffer_def slot_view_def empty_slot_def kInputWindow_def kInputDelay_def pop_ready_def)
  have p: "ls_state (pump sample_env sample_running) = FLY_LAN_MVP_RUNNING"
      "vw_completed_frames (ls_view (pump sample_env sample_running)) = 2"
      "ls_next_submit_frame (pump sample_env sample_running) = 2"
      "\<not> vw_paused (ls_view (pump sample_env sample_running))"
    by (simp_all add: sample_running_def new_session_def new_snapshot_def sample_env_def pump_def clock_def
        expire_invite_def watch_progress_def sync_view_def kProgressTimeout_def kInputDelay_def Let_def)
  have q: "\<forall>q w. fst (env_quic sample_env q w) = FLYNES_QUIC_ACCEPTED" by (simp add: sample_env_def)
  have "unat (vw_completed_frames (ls_view (pump sample_env sample_running))) < 2 ^ 64 - 2"
    by (simp add: p)
  from submit_input_window [OF i refl p(1,4) this q, of 9] show ?thesis using i by (simp add: p)
qed

section \<open>Starting a game\<close>

definition steps_ok :: "'w LanEnv \<Rightarrow> bool" where
  "steps_ok env \<longleftrightarrow> (\<forall>r i w. fst (fst (env_runtime_step_frame env r i w)) = FLY_RESULT_OK)"

lemma complete_frame_ok:
  assumes "steps_ok env" "(frm_index f + 1) mod kDigestInterval \<noteq> 0"
  shows "\<exists>s'. complete_frame env f s = (True, s') \<and> core s' = (core s)\<lparr>co_completed := frm_index f + 1\<rparr>
    \<and> vw_applied_buttons (ls_view s') = take 2 (fin_buttons (frame_input (ls_role s) f))"
proof -
  let ?in = "frame_input (ls_role s) f"
  define s1 where "s1 = note_applied ?in s"
  obtain c r w where q: "env_runtime_step_frame env (ls_runtime s1) ?in (ls_world s1) = ((c, r), w)"
    by (metis surj_pair)
  have c: "c = FLY_RESULT_OK" using assms(1) q by (metis steps_ok_def fst_conv)
  define s3 where "s3 = s1\<lparr>ls_world := w,
    ls_view := (ls_view s1)\<lparr>vw_completed_frames := frm_index f + 1,
      vw_applied_buttons := [fin_buttons ?in ! 0, fin_buttons ?in ! 1]\<rparr>,
    ls_pcm_produced := (if fre_pcm_published r \<noteq> 0 then fre_audio_last_sample_sequence r + 1
                        else ls_pcm_produced s1)\<rparr>"
  obtain t s4 where ck: "clock env s3 = (t, s4)" by fastforce
  have v: "ls_view s4 = ls_view s3" by (rule clock_sel(1) [OF ck])
  have "complete_frame env f s = (True, s4\<lparr>ls_last_progress := t\<rparr>)"
    unfolding complete_frame_run [OF s1_def q [unfolded c] s3_def] ck
    using v assms(2) by (simp add: s3_def)
  moreover have "core s3 = (core s)\<lparr>co_completed := frm_index f + 1\<rparr>"
    by (simp add: s3_def s1_def note_applied_def core_def)
  moreover have "vw_applied_buttons (ls_view s3) = take 2 (fin_buttons ?in)"
    by (simp add: s3_def frame_input_def)
  ultimately show ?thesis using core_clockD [OF ck] v by (simp add: core_flags)
qed

lemma primed: "prime_inputs kInputDelay (new_buffer kInputDelay kInputWindow) =
   \<lparr>buf_window = 256, buf_next_frame = 0, buf_slots =
     [0 \<mapsto> \<lparr>slot_local = Some 0, slot_remote = Some 0\<rparr>, 1 \<mapsto> \<lparr>slot_local = Some 0, slot_remote = Some 0\<rparr>]\<rparr>"
  by (simp add: numeral_2_eq_2 kInputDelay_def kInputWindow_def new_buffer_def put_local_def
      put_remote_def put_def empty_slot_def Let_def)

lemma advance_round:
  assumes "steps_ok env" "ls_state s = FLY_LAN_MVP_RUNNING" "ls_inputs s = Some b"
    "pop_ready b True = (Some f, b')" "(frm_index f + 1) mod kDigestInterval \<noteq> 0"
  shows "\<exists>s'. frame_loop env (Suc n) s = frame_loop env n s'
    \<and> core s' = (core s)\<lparr>co_inputs := Some b', co_completed := frm_index f + 1\<rparr>"
proof -
  have "core (s\<lparr>ls_inputs := Some b'\<rparr>) = (core s)\<lparr>co_inputs := Some b'\<rparr>" by (simp add: core_def)
  then show ?thesis
    using complete_frame_ok [OF assms(1,5), of "s\<lparr>ls_inputs := Some b'\<rparr>"] assms by auto
qed

lemma advance_primed:
  assumes ok: "steps_ok env" and run: "ls_state s = FLY_LAN_MVP_RUNNING"
    and inputs: "ls_inputs s = Some (prime_inputs kInputDelay (new_buffer kInputDelay kInputWindow))"
  shows "core (frame_loop env (Suc (Suc (Suc n))) s) = (core s)\<lparr>co_completed := 2,
    co_inputs := Some \<lparr>buf_window = 256, buf_next_frame = 2, buf_slots = Map.empty\<rparr>\<rparr>"
proof -
  let ?z = "\<lparr>slot_local = Some 0, slot_remote = Some 0\<rparr> :: Slot"
  let ?b = "\<lambda>n m. \<lparr>buf_window = 256, buf_next_frame = n, buf_slots = m\<rparr> :: Buffer"
  let ?f = "\<lambda>k. \<lparr>frm_index = k, frm_local_mask = 0, frm_remote_mask = 0\<rparr> :: Frame"
  have pops: "pop_ready (?b 0 [0 \<mapsto> ?z, 1 \<mapsto> ?z]) True = (Some (?f 0), ?b 1 [1 \<mapsto> ?z])"
      "pop_ready (?b 1 [1 \<mapsto> ?z]) True = (Some (?f 1), ?b 2 Map.empty)"
      "pop_ready (?b 2 Map.empty) True = (None, ?b 2 Map.empty)"
    by (auto simp: pop_ready_def)
  have digests: "(frm_index (?f 0) + 1) mod kDigestInterval \<noteq> 0" "(frm_index (?f 1) + 1) mod kDigestInterval \<noteq> 0"
    by (simp_all add: kDigestInterval_def)
  obtain s1 where s1: "frame_loop env (Suc (Suc (Suc n))) s = frame_loop env (Suc (Suc n)) s1"
      "core s1 = (core s)\<lparr>co_inputs := Some (?b 1 [1 \<mapsto> ?z]), co_completed := 1\<rparr>"
    using advance_round [OF ok run inputs [unfolded primed] pops(1) digests(1), of "Suc (Suc n)"]
    by (auto simp del: frame_loop.simps)
  have s1': "ls_state s1 = FLY_LAN_MVP_RUNNING" "ls_inputs s1 = Some (?b 1 [1 \<mapsto> ?z])"
    using s1(2) run unfolding core_sel(1,6) [symmetric] by simp_all
  obtain s2 where s2: "frame_loop env (Suc (Suc n)) s1 = frame_loop env (Suc n) s2"
      "core s2 = (core s1)\<lparr>co_inputs := Some (?b 2 Map.empty), co_completed := 2\<rparr>"
    using advance_round [OF ok s1' pops(2) digests(2), of "Suc n"] by (auto simp del: frame_loop.simps)
  have s2': "ls_state s2 = FLY_LAN_MVP_RUNNING" "ls_inputs s2 = Some (?b 2 Map.empty)"
    using s2(2) s1'(1) unfolding core_sel(1,6) [symmetric] by simp_all
  have "frame_loop env (Suc n) s2 = s2\<lparr>ls_inputs := Some (?b 2 Map.empty)\<rparr>"
    unfolding frame_loop.simps(2) using s2' pops(3) by simp
  moreover have "core (s2\<lparr>ls_inputs := Some (?b 2 Map.empty)\<rparr>) = core s2"
    using s2'(2) by (simp add: core_def)
  ultimately show ?thesis unfolding s1(1) s2(1) using s2(2) s1(2) by simp
qed

text \<open>
  C30: A ready game starts: a guest that has confirmed the same game as its peer and receives the host's
  start message for its configuration enters the running state, and, when the runtime completes
  frames, has completed the two frames of the input delay and asks for input from the third on.
\<close>
theorem guest_starts:
  assumes "steps_ok env" "ls_role s = Role_Guest" "ls_state s = FLY_LAN_MVP_CONFIGURING"
    "ls_runtime s \<noteq> 0" "configs_match s" "ls_local_ready s" "ls_peer_ready s"
    "\<not> vw_paused (ls_view s)" "length (ls_local_config_hash s) = 32"
  shows "let s' = handle_message env \<lparr>msg_kind = kind_byte Kind_Start, msg_payload = ls_local_config_hash s\<rparr> s
     in ls_state s' = FLY_LAN_MVP_RUNNING \<and> vw_completed_frames (ls_view s') = 2
        \<and> ls_next_submit_frame s' = 2"
proof -
  define s1 where "s1 = s\<lparr>ls_view := (ls_view s)\<lparr>vw_state := FLY_LAN_MVP_RUNNING, vw_reason := REASON_NONE,
      vw_completed_frames := 0, vw_last_digest_frame := 0, vw_last_state_digest := replicate 32 0\<rparr>,
    ls_pcm_produced := 0, ls_pcm_consumed := 0,
    ls_inputs := Some (prime_inputs kInputDelay (new_buffer kInputDelay kInputWindow)),
    ls_next_submit_frame := of_nat kInputDelay,
    ls_local_digests := Map.empty, ls_remote_digests := Map.empty\<rparr>"
  obtain t s2 where ck: "clock env s1 = (t, s2)" by fastforce
  define s3 where "s3 = s2\<lparr>ls_last_progress := t\<rparr>"
  have c3: "core s3 = core s1" by (simp add: s3_def core_flags core_clockD [OF ck])
  have s3: "ls_state s3 = FLY_LAN_MVP_RUNNING" "\<not> vw_paused (ls_view s3)" "ls_runtime s3 \<noteq> 0"
      "ls_inputs s3 = Some (prime_inputs kInputDelay (new_buffer kInputDelay kInputWindow))"
    using c3 assms(4,8) unfolding core_sel(1,3,5,6) [symmetric] by (simp_all add: s1_def core_def)
  have "same_bytes (ls_local_config_hash s) (ls_local_config_hash s) 32" by (simp add: same_bytes_iff)
  then have "handle_message env \<lparr>msg_kind = kind_byte Kind_Start, msg_payload = ls_local_config_hash s\<rparr> s
      = enter_running env s"
    using assms by (simp add: handle_message_def handle_start_def)
  also have "\<dots> = advance env s3"
    using assms ck unfolding enter_running_def s3_def s1_def by simp
  also have "\<dots> = frame_loop env (Suc (Suc (Suc 254))) s3"
    using s3 by (simp add: advance_def primed del: frame_loop.simps)
  finally have run: "handle_message env \<lparr>msg_kind = kind_byte Kind_Start,
      msg_payload = ls_local_config_hash s\<rparr> s = frame_loop env (Suc (Suc (Suc 254))) s3" .
  have "core (frame_loop env (Suc (Suc (Suc 254))) s3) = (core s3)\<lparr>co_completed := 2,
      co_inputs := Some \<lparr>buf_window = 256, buf_next_frame = 2, buf_slots = Map.empty\<rparr>\<rparr>"
    by (rule advance_primed [OF assms(1) s3(1,4)])
  then show ?thesis
    using c3 s3(1) unfolding run Let_def core_sel(1,4,7) [symmetric]
    by (simp add: s1_def core_def kInputDelay_def del: frame_loop.simps)
qed

definition sample_ready :: "nat LanSession" where
  "sample_ready = (new_session sample_env 5)\<lparr>ls_role := Role_Guest, ls_runtime := 1,
     ls_local_configured := True, ls_peer_configured := True, ls_local_ready := True,
     ls_peer_ready := True, ls_view := new_snapshot\<lparr>vw_state := FLY_LAN_MVP_CONFIGURING\<rparr>\<rparr>"

theorem guest_starts_witness:
  "let s' = handle_message sample_env \<lparr>msg_kind = kind_byte Kind_Start, msg_payload = replicate 32 0\<rparr> sample_ready
   in ls_state s' = FLY_LAN_MVP_RUNNING \<and> vw_completed_frames (ls_view s') = 2"
proof -
  have h: "ls_role sample_ready = Role_Guest" "ls_state sample_ready = FLY_LAN_MVP_CONFIGURING"
      "ls_runtime sample_ready \<noteq> 0" "ls_local_ready sample_ready" "ls_peer_ready sample_ready"
      "\<not> vw_paused (ls_view sample_ready)" "ls_local_config_hash sample_ready = replicate 32 0"
      "length (ls_local_config_hash sample_ready) = 32" "configs_match sample_ready"
    by (simp_all add: sample_ready_def new_session_def new_snapshot_def sample_env_def configs_match_def
        same_bytes_eq)
  have "steps_ok sample_env" by (simp add: steps_ok_def sample_env_def)
  from guest_starts [OF this h(1-3,9,4-6,8)] show ?thesis unfolding h(7) by (simp add: Let_def)
qed

lemma digests_session_end:
  "ls_local_digests (session_end env r s) = ls_local_digests s"
  "ls_remote_digests (session_end env r s) = ls_remote_digests s"
proof -
  have "ls_local_digests (cancel_operations env ops x) = ls_local_digests x"
    "ls_remote_digests (cancel_operations env ops x) = ls_remote_digests x"
    for ops and x :: "'a LanSession"
    by (induction ops arbitrary: x) (simp_all add: request_def split: prod.splits)
  moreover have "ls_local_digests (close_resource env n x) = ls_local_digests x"
    "ls_remote_digests (close_resource env n x) = ls_remote_digests x" for n and x :: "'a LanSession"
    by (simp_all add: close_resource_def request_def split: prod.splits)
  ultimately show "ls_local_digests (session_end env r s) = ls_local_digests s"
    "ls_remote_digests (session_end env r s) = ls_remote_digests s"
    by (simp_all add: session_end_def stop_runtime_def Let_def)
qed

lemma digests_queue:
  "ls_local_digests (snd (queue_message env k p s)) = ls_local_digests s"
  "ls_remote_digests (snd (queue_message env k p s)) = ls_remote_digests s"
proof -
  have sub: "ls_local_digests (snd (submit env op c x)) = ls_local_digests x"
    "ls_remote_digests (snd (submit env op c x)) = ls_remote_digests x" for op c and x :: "'a LanSession"
    unfolding submit_def request_def Let_def
    by (simp_all add: digests_session_end case_prod_beta)
  have "ls_local_digests (snd (begin_next_write env x)) = ls_local_digests x"
    "ls_remote_digests (snd (begin_next_write env x)) = ls_remote_digests x" for x :: "'a LanSession"
  proof -
    obtain ok y where y: "submit env Op_Write (\<lambda>op. QuicWrite op (ls_send_stream x) (hd (ls_writes x)) 0)
        (x\<lparr>ls_write_inflight := True\<rparr>) = (ok, y)" by fastforce
    have "ls_local_digests y = ls_local_digests x" "ls_remote_digests y = ls_remote_digests x"
      using sub [of Op_Write "\<lambda>op. QuicWrite op (ls_send_stream x) (hd (ls_writes x)) 0"
          "x\<lparr>ls_write_inflight := True\<rparr>"] y by simp_all
    then show "ls_local_digests (snd (begin_next_write env x)) = ls_local_digests x"
      "ls_remote_digests (snd (begin_next_write env x)) = ls_remote_digests x"
      using y by (cases ok; simp add: begin_next_write_def)+
  qed
  then show "ls_local_digests (snd (queue_message env k p s)) = ls_local_digests s"
    "ls_remote_digests (snd (queue_message env k p s)) = ls_remote_digests s"
    by (auto simp: queue_message_def digests_session_end split: option.splits)
qed

text \<open>
  Diverging games are detected in whichever order the digests meet: a peer's digest for a frame whose
  own digest is kept leaves the game running if the two are equal and ends it as desynchronised if
  they differ; and publishing an own digest that differs from the peer's kept one ends the session.
\<close>
theorem digest_comparison:
  assumes "ls_state s = FLY_LAN_MVP_RUNNING" "length own = 32" "length peer = 32"
  shows "(ls_local_digests s f = Some own \<longrightarrow>
      ls_state (handle_digest env (store_be 8 f @ peer) s)
        = (if peer = own then FLY_LAN_MVP_RUNNING else FLY_LAN_MVP_ENDED)
      \<and> (peer \<noteq> own \<longrightarrow> vw_reason (ls_view (handle_digest env (store_be 8 f @ peer) s)) = REASON_DESYNC))
    \<and> (ls_remote_digests s f = Some peer \<and> peer \<noteq> own
        \<and> env_runtime_copy_frame_digest env (ls_runtime s) 1 f (ls_world s) = ((FLY_RESULT_OK, own), w) \<longrightarrow>
      ls_state (publish_digest env f s) = FLY_LAN_MVP_ENDED)"
proof -
  have neq: "same_bytes own peer 32 \<longleftrightarrow> peer = own" using assms(2,3) by (auto simp: same_bytes_eq)
  have frame: "load_be (store_be 8 f) = f" by (rule load_store_be_full) simp
  have "ls_state (handle_digest env (store_be 8 f @ peer) s)
        = (if peer = own then FLY_LAN_MVP_RUNNING else FLY_LAN_MVP_ENDED)
      \<and> (peer \<noteq> own \<longrightarrow> vw_reason (ls_view (handle_digest env (store_be 8 f @ peer) s)) = REASON_DESYNC)"
    if "ls_local_digests s f = Some own"
    using that assms neq by (simp add: handle_digest_def Let_def frame compare_digest_def reason_session_end)
  moreover have "ls_state (publish_digest env f s) = FLY_LAN_MVP_ENDED"
    if r: "ls_remote_digests s f = Some peer" and "peer \<noteq> own"
      and d: "env_runtime_copy_frame_digest env (ls_runtime s) 1 f (ls_world s) = ((FLY_RESULT_OK, own), w)"
    using r d assms(2) neq \<open>peer \<noteq> own\<close>
    by (simp add: publish_digest_def Let_def compare_digest_def digests_queue)
  ultimately show ?thesis by blast
qed

theorem digest_comparison_witness:
  "ls_state (handle_digest sample_env (store_be 8 (59 :: u64) @ replicate 32 1)
     (sample_running\<lparr>ls_local_digests := [59 \<mapsto> replicate 32 2]\<rparr>)) = FLY_LAN_MVP_ENDED"
proof -
  let ?s = "sample_running\<lparr>ls_local_digests := [59 \<mapsto> replicate 32 2]\<rparr>"
  have s: "ls_state ?s = FLY_LAN_MVP_RUNNING" "ls_local_digests ?s 59 = Some (replicate 32 2)"
    by (simp_all add: sample_running_def)
  have l: "length (replicate 32 (2 :: u8)) = 32" "length (replicate 32 (1 :: u8)) = 32"
    "(replicate 32 (1 :: u8) = replicate 32 2) = False" by simp_all
  have "ls_state (handle_digest sample_env (store_be 8 (59 :: u64) @ replicate 32 1) ?s)
      = (if replicate 32 (1 :: u8) = replicate 32 2 then FLY_LAN_MVP_RUNNING else FLY_LAN_MVP_ENDED)"
    using digest_comparison [OF s(1) l(1,2), of 59 sample_env] s(2) by blast
  then show ?thesis unfolding l(3) if_False .
qed



section \<open>A malformed header after a message\<close>

lemma pop_bad_header:
  assumes "msg_ok m"
  shows "pop \<lparr>dec_bytes = frame m @ [0, 0], dec_failed = False\<rparr> True
    = (False, Some m, \<lparr>dec_bytes = [], dec_failed = True\<rparr>)"
proof -
  have b: "body_size_at (frame m @ [0, 0]) = length (msg_payload m) + 1"
    using length_frame [OF assms] by (intro body_size_prefix [OF assms, of _ "[0, 0]"]) auto
  have v: "validate_front \<lparr>dec_bytes = frame m @ [0, 0], dec_failed = False\<rparr>
      = (True, \<lparr>dec_bytes = frame m @ [0, 0], dec_failed = False\<rparr>)"
    using b assms by (simp add: validate_front_def Let_def msg_ok_def)
  have parts: "(frame m @ [0, 0]) ! 2 = msg_kind m"
    "take (length (msg_payload m)) (drop 3 (frame m @ [0, 0])) = msg_payload m"
    by (simp_all add: frame_eq [OF assms])
  have "drop (length (msg_payload m) + 3) (frame m @ [0, 0]) = [0, 0]"
    using length_frame [OF assms] by simp
  note parts = parts this
  have z: "validate_front \<lparr>dec_bytes = [0, 0], dec_failed = False\<rparr> = (False, \<lparr>dec_bytes = [], dec_failed = True\<rparr>)"
    by (simp add: validate_front_def body_size_at_def Let_def)
  show ?thesis using parts z length_frame [OF assms] by (simp add: pop_def v b Let_def)
qed

text \<open>
  A read that holds a complete message followed by an invalid header silences a session without
  ending it: the message is dropped, no state or reason is set, no further read is requested, and the
  decoder refuses every later byte (an invalid header alone ends the session as rejected).
\<close>
theorem bad_header_silences_session:
  fixes m :: Message
  assumes "ls_state s \<noteq> FLY_LAN_MVP_ENDED" "ls_decoder s = new_decoder"
    "length (msg_payload m) < kMaxBodySize" "encode True (msg_kind m) (msg_payload m) = Some bs"
    "ev_bytes event = bs @ [0, 0]"
  shows "consume_read env event s = s\<lparr>ls_read_bytes := ls_read_bytes s + of_nat (length (ev_bytes event)),
      ls_read_inflight := False, ls_decoder := \<lparr>dec_bytes = [], dec_failed = True\<rparr>\<rparr>"
proof -
  have ok: "msg_ok m" using assms(3) by (simp add: msg_ok_def)
  have bs: "ev_bytes event = frame m @ [0, 0]" using assms(4,5) by (simp add: frame_def)
  have b: "body_size_at (frame m @ [0, 0]) = length (msg_payload m) + 1"
    using length_frame [OF ok] by (intro body_size_prefix [OF ok, of _ "[0, 0]"]) auto
  have push: "push new_decoder (Some (frame m @ [0, 0]))
      = (True, \<lparr>dec_bytes = frame m @ [0, 0], dec_failed = False\<rparr>)"
    using b assms(3) by (simp add: push_def validate_front_def new_decoder_def Let_def)
  show ?thesis
    using assms(1,2) bs push pop_bad_header [OF ok] by (simp add: consume_read_def Let_def)
qed

theorem bad_header_silences_session_witness:
  "let event = \<lparr>ev_operation = 4, ev_result = 0, ev_resource = 0, ev_bytes = [0, 2, 12, 1, 0, 0]\<rparr>;
       s' = consume_read sample_env event sample_running in
   ls_state s' = FLY_LAN_MVP_RUNNING \<and> dec_failed (ls_decoder s') \<and> \<not> ls_read_inflight s'"
proof -
  let ?e = "\<lparr>ev_operation = 4, ev_result = 0, ev_resource = 0, ev_bytes = [0, 2, 12, 1, 0, 0]\<rparr>"
  let ?m = "\<lparr>msg_kind = 12, msg_payload = [1]\<rparr>"
  have s: "ls_state sample_running = FLY_LAN_MVP_RUNNING" "ls_decoder sample_running = new_decoder"
    by (simp_all add: sample_running_def new_session_def sample_env_def)
  have h: "ls_state sample_running \<noteq> FLY_LAN_MVP_ENDED" "length (msg_payload ?m) < kMaxBodySize"
    "encode True (msg_kind ?m) (msg_payload ?m) = Some [0, 2, 12, 1]" "ev_bytes ?e = [0, 2, 12, 1] @ [0, 0]"
    by (simp_all add: s kMaxBodySize_def encode_def)
  from bad_header_silences_session [OF h(1) s(2) h(2-4), of sample_env] show ?thesis
    by (simp add: Let_def s)
qed

end
