(* ===== verification/Gatt_Fragment.thy ===== *)
theory Gatt_Fragment
  imports Fly_Sha256
begin

unbundle bit_operations_syntax

text \<open>
  Messages over Bluetooth GATT, \<^verbatim>\<open>shared/src/session/wire/gatt_fragment.{hpp,cpp}\<close>: logical messages
  with a domain-separated hash, their acknowledgements, the fragmenter for small attribute values and
  the reassembler that collects the fragments of at most two messages at a time.

  A physical direction and a logical type are bytes, as any byte is a value of their enumerations. An
  output pointer is a flag, an input pointer an option. Sizes are natural numbers.
\<close>

definition kGattPhysicalHeaderSize :: nat where "kGattPhysicalHeaderSize = 14"
definition kGattLogicalMinSize :: nat where "kGattLogicalMinSize = 40"
definition kGattLogicalMaxSize :: nat where "kGattLogicalMaxSize = 4096"
definition kGattMaxIncompleteMessages :: nat where "kGattMaxIncompleteMessages = 2"
definition kGattMaxBufferedBytes :: nat where "kGattMaxBufferedBytes = 8192"
definition kGattNoProgressTimeoutNs :: u64 where "kGattNoProgressTimeoutNs = 5000000000"
definition kGattLogicalAckBodySize :: nat where "kGattLogicalAckBodySize = 36"

lemmas gatt_sizes = kGattPhysicalHeaderSize_def kGattLogicalMinSize_def kGattLogicalMaxSize_def
  kGattMaxIncompleteMessages_def kGattMaxBufferedBytes_def kGattLogicalAckBodySize_def

definition CentralToPeripheral :: u8 where "CentralToPeripheral = 1"
definition PeripheralToCentral :: u8 where "PeripheralToCentral = 2"
definition GattPhysicalAck :: u8 where "GattPhysicalAck = 16"

datatype GattFragmentResult =
    Gatt_Accepted | Gatt_Duplicate | Gatt_Complete | Gatt_Stale | Gatt_InvalidArgument
  | Gatt_NotSupported | Gatt_Backpressure | Gatt_ProtocolViolation

section \<open>Acknowledgements\<close>

record GattLogicalAckV1 =
  ack_original_sender_physical_role :: u8
  ack_acked_logical_type :: u8
  ack_message_id :: u16
  ack_logical_hash :: bytes

definition encode_gatt_logical_ack_v1 ::
  "GattLogicalAckV1 \<Rightarrow> bool \<Rightarrow> GattFragmentResult \<times> bytes option" where
  "encode_gatt_logical_ack_v1 ack out =
     (if \<not> out then (Gatt_InvalidArgument, None)
      else
        let role = ack_original_sender_physical_role ack
        in if (role \<noteq> CentralToPeripheral \<and> role \<noteq> PeripheralToCentral)
              \<or> ack_acked_logical_type ack = 0 \<or> ack_acked_logical_type ack = GattPhysicalAck
              \<or> ack_message_id ack = 0
           then (Gatt_ProtocolViolation, Some (replicate kGattLogicalAckBodySize 0))
           else (Gatt_Accepted, Some ([role, ack_acked_logical_type ack]
                   @ store_be 2 (ack_message_id ack) @ ack_logical_hash ack)))"

definition decode_gatt_logical_ack_v1 ::
  "bytes option \<Rightarrow> bool \<Rightarrow> GattFragmentResult \<times> GattLogicalAckV1 option" where
  "decode_gatt_logical_ack_v1 input out =
     (case input of
        None \<Rightarrow> (Gatt_InvalidArgument, None)
      | Some bytes \<Rightarrow>
          if \<not> out then (Gatt_InvalidArgument, None)
          else if length bytes \<noteq> kGattLogicalAckBodySize then (Gatt_ProtocolViolation, None)
          else
            let decoded = \<lparr>ack_original_sender_physical_role = bytes ! 0,
                           ack_acked_logical_type = bytes ! 1,
                           ack_message_id = load_be (take 2 (drop 2 bytes)),
                           ack_logical_hash = take 32 (drop 4 bytes)\<rparr>
            in case encode_gatt_logical_ack_v1 decoded True of
                 (result, canonical) \<Rightarrow>
                   if result \<noteq> Gatt_Accepted \<or> canonical \<noteq> Some bytes then (Gatt_ProtocolViolation, None)
                   else (Gatt_Complete, Some decoded))"

section \<open>Logical messages\<close>

record GattLogicalMessageView =
  glm_version :: u8
  glm_logical_type :: u8
  glm_body :: bytes
  glm_logical_hash :: bytes

definition gatt_domain :: "u8 \<Rightarrow> u8 \<Rightarrow> string option" where
  "gatt_domain version type0 =
     (if version = 1 \<and> type0 \<ge> 1 \<and> type0 \<le> 26 then Some ''flynes-gatt-logical-v1''
      else if version = 2 \<and> (type0 = 27 \<or> type0 = 28) then Some ''flynes-gatt-logical-v2''
      else None)"

definition decode_gatt_logical_message ::
  "bytes option \<Rightarrow> u8 \<Rightarrow> bool \<Rightarrow> GattFragmentResult \<times> GattLogicalMessageView option" where
  "decode_gatt_logical_message input expected_type out =
     (case input of
        None \<Rightarrow> (Gatt_InvalidArgument, None)
      | Some bytes \<Rightarrow>
          if \<not> out then (Gatt_InvalidArgument, None)
          else if length bytes < kGattLogicalMinSize \<or> length bytes > kGattLogicalMaxSize
             \<or> expected_type = 0 \<or> bytes ! 1 \<noteq> expected_type \<or> bytes ! 2 \<noteq> 0 \<or> bytes ! 3 \<noteq> 0
          then (Gatt_ProtocolViolation, None)
          else
            let body_size = unat (load_be (take 4 (drop 4 bytes)) :: u32)
            in if body_size > kGattLogicalMaxSize - 40 \<or> length bytes \<noteq> 8 + body_size + 32
               then (Gatt_ProtocolViolation, None)
               else case gatt_domain (bytes ! 0) expected_type of
                      None \<Rightarrow> (Gatt_ProtocolViolation, None)
                    | Some domain \<Rightarrow>
                        let calculated = domain_hash domain (take (8 + body_size) bytes);
                            logical_hash = drop (8 + body_size) bytes
                        in if calculated \<noteq> take 32 logical_hash then (Gatt_ProtocolViolation, None)
                           else (Gatt_Complete, Some
                             \<lparr>glm_version = bytes ! 0, glm_logical_type = bytes ! 1,
                              glm_body = take body_size (drop 8 bytes),
                              glm_logical_hash = take 32 logical_hash\<rparr>))"

definition encode_gatt_logical_message ::
  "u8 \<Rightarrow> bytes \<Rightarrow> bool \<Rightarrow> GattFragmentResult \<times> bytes option" where
  "encode_gatt_logical_message logical_type body out =
     (if \<not> out then (Gatt_InvalidArgument, None)
      else
        let v1 = (logical_type \<ge> 1 \<and> logical_type \<le> 26);
            v2 = (logical_type = 27 \<or> logical_type = 28)
        in if \<not> v1 \<and> \<not> v2 then (Gatt_NotSupported, Some [])
           else if length body > kGattLogicalMaxSize - kGattLogicalMinSize then (Gatt_Backpressure, Some [])
           else
             let encoded = [if v1 then 1 else 2, logical_type, 0, 0]
                             @ store_be 4 (of_nat (length body) :: u32) @ body
             in (Gatt_Accepted, Some (encoded
                   @ domain_hash (if v1 then ''flynes-gatt-logical-v1'' else ''flynes-gatt-logical-v2'')
                       encoded)))"

definition exact_logical_message :: "bytes \<Rightarrow> u8 \<Rightarrow> bool" where
  "exact_logical_message bytes expected_type =
     (fst (decode_gatt_logical_message (Some bytes) expected_type True) = Gatt_Complete)"

section \<open>Fragmentation\<close>

definition fragment_value :: "bytes \<Rightarrow> u8 \<Rightarrow> u16 \<Rightarrow> nat \<Rightarrow> nat \<Rightarrow> nat \<Rightarrow> bytes" where
  "fragment_value logical logical_type message_id data_cap count index =
     (let offset = index * data_cap;
          data_size = min data_cap (length logical - offset);
          flags = (if index = 0 then 1 else 0) OR (if index + 1 = count then 2 else 0)
      in [1, logical_type, flags, 0] @ store_be 2 message_id @ store_be 2 (of_nat index :: u16)
         @ store_be 2 (of_nat count :: u16) @ store_be 2 (of_nat offset :: u16)
         @ store_be 2 (of_nat (length logical) :: u16) @ take data_size (drop offset logical))"

definition fragment_gatt_logical ::
  "bytes option \<Rightarrow> u8 \<Rightarrow> u16 \<Rightarrow> nat \<Rightarrow> bool \<Rightarrow> GattFragmentResult \<times> bytes list option" where
  "fragment_gatt_logical input logical_type message_id att_value_cap out =
     (case input of
        None \<Rightarrow> (Gatt_InvalidArgument, None)
      | Some logical \<Rightarrow>
          if \<not> out then (Gatt_InvalidArgument, None)
          else if att_value_cap < 20 then (Gatt_NotSupported, Some [])
          else if length logical < kGattLogicalMinSize \<or> length logical > kGattLogicalMaxSize
          then (Gatt_Backpressure, Some [])
          else if message_id = 0 \<or> logical_type = 0 \<or> \<not> exact_logical_message logical logical_type
          then (Gatt_ProtocolViolation, Some [])
          else
            let data_cap = att_value_cap - kGattPhysicalHeaderSize;
                count_size = (length logical + data_cap - 1) div data_cap
            in if count_size = 0 \<or> count_size > 683 \<or> count_size > 65535 then (Gatt_Backpressure, Some [])
               else (Gatt_Accepted, Some (map (fragment_value logical logical_type message_id data_cap
                       count_size) [0..<count_size])))"

section \<open>Reassembly\<close>

record Piece =
  pc_index :: u16
  pc_offset :: u16
  pc_bytes :: bytes

record Assembly =
  as_logical_type :: u8
  as_message_id :: u16
  as_fragment_count :: u16
  as_total_length :: u16
  as_last_progress_ns :: u64
  as_pieces :: "Piece list"

record Completed =
  cp_logical_type :: u8
  cp_message_id :: u16
  cp_fragment_count :: u16
  cp_total_length :: u16
  cp_logical :: bytes

record GattReassembler =
  ra_generation :: u64
  ra_direction :: u8
  ra_buffered_bytes :: nat
  ra_assemblies :: "Assembly list"
  ra_completed :: "Completed list"

record GattCompletedMetadata =
  gmd_logical_type :: u8
  gmd_message_id :: u16
  gmd_logical_hash :: bytes

definition new_reassembler :: "u64 \<Rightarrow> u8 \<Rightarrow> GattReassembler" where
  "new_reassembler generation direction = \<lparr>ra_generation = generation, ra_direction = direction,
     ra_buffered_bytes = 0, ra_assemblies = [], ra_completed = []\<rparr>"

definition erase :: "GattReassembler \<Rightarrow> nat \<Rightarrow> GattReassembler" where
  "erase s index =
     s\<lparr>ra_buffered_bytes := ra_buffered_bytes s - unat (as_total_length (ra_assemblies s ! index)),
       ra_assemblies := take index (ra_assemblies s) @ drop (Suc index) (ra_assemblies s)\<rparr>"

definition ranges_overlap :: "u16 \<Rightarrow> nat \<Rightarrow> u16 \<Rightarrow> nat \<Rightarrow> bool" where
  "ranges_overlap first_offset first_size second_offset second_size =
     (unat first_offset < unat second_offset + second_size
      \<and> unat second_offset < unat first_offset + first_size)"

text \<open>The header of a physical value, once it passed its checks, with the data that follows it.\<close>

record Fragment =
  fg_logical_type :: u8
  fg_message_id :: u16
  fg_index :: u16
  fg_count :: u16
  fg_offset :: u16
  fg_total :: u16
  fg_data :: bytes

definition parse_fragment :: "bytes \<Rightarrow> Fragment option" where
  "parse_fragment value =
     (if length value \<le> kGattPhysicalHeaderSize \<or> length value > 244 \<or> value ! 0 \<noteq> 1 \<or> value ! 1 = 0
         \<or> value ! 2 AND NOT 3 \<noteq> 0 \<or> value ! 3 \<noteq> 0 then None
      else
        let flags = value ! 2;
            message_id = load_be (take 2 (drop 4 value)) :: u16;
            index = load_be (take 2 (drop 6 value)) :: u16;
            count = load_be (take 2 (drop 8 value)) :: u16;
            offset = load_be (take 2 (drop 10 value)) :: u16;
            total = load_be (take 2 (drop 12 value)) :: u16;
            data_size = length value - kGattPhysicalHeaderSize
        in if message_id = 0 \<or> count = 0 \<or> count > 683 \<or> index \<ge> count
              \<or> unat total < kGattLogicalMinSize \<or> unat total > kGattLogicalMaxSize
              \<or> unat offset + data_size > unat total
              \<or> (flags AND 1 \<noteq> 0) \<noteq> (index = 0)
              \<or> (flags AND 2 \<noteq> 0) \<noteq> (unat index + 1 = unat count) then None
           else Some \<lparr>fg_logical_type = value ! 1, fg_message_id = message_id, fg_index = index,
                      fg_count = count, fg_offset = offset, fg_total = total,
                      fg_data = drop kGattPhysicalHeaderSize value\<rparr>)"

definition metadata_of :: "u8 \<Rightarrow> u16 \<Rightarrow> bytes \<Rightarrow> GattCompletedMetadata" where
  "metadata_of type0 id0 logical = \<lparr>gmd_logical_type = type0, gmd_message_id = id0,
     gmd_logical_hash = drop (length logical - 32) logical\<rparr>"

definition repeats_completed :: "Completed \<Rightarrow> Fragment \<Rightarrow> bool" where
  "repeats_completed prior f =
     (cp_logical_type prior = fg_logical_type f \<and> cp_fragment_count prior = fg_count f
      \<and> cp_total_length prior = fg_total f
      \<and> unat (fg_offset f) + length (fg_data f) \<le> length (cp_logical prior)
      \<and> take (length (fg_data f)) (drop (unat (fg_offset f)) (cp_logical prior)) = fg_data f)"

definition find_assembly :: "GattReassembler \<Rightarrow> u16 \<Rightarrow> nat option" where
  "find_assembly s id0 =
     find (\<lambda>i. as_message_id (ra_assemblies s ! i) = id0) [0..<length (ra_assemblies s)]"

datatype PieceCheck = PieceNew | PieceSame | PieceClash

fun check_pieces :: "Fragment \<Rightarrow> Piece list \<Rightarrow> PieceCheck" where
  "check_pieces f [] = PieceNew"
| "check_pieces f (piece # pieces) =
     (if pc_index piece = fg_index f
      then if pc_offset piece = fg_offset f \<and> pc_bytes piece = fg_data f then PieceSame else PieceClash
      else if ranges_overlap (pc_offset piece) (length (pc_bytes piece)) (fg_offset f) (length (fg_data f))
      then PieceClash
      else check_pieces f pieces)"

text \<open>\<open>join_pieces cursor\<close> is the copying loop over the sorted pieces: None where an offset differs
  from the cursor, and otherwise the bytes copied.\<close>

fun join_pieces :: "nat \<Rightarrow> Piece list \<Rightarrow> bytes option" where
  "join_pieces cursor [] = Some []"
| "join_pieces cursor (current # pieces) =
     (if unat (pc_offset current) \<noteq> cursor then None
      else case join_pieces (cursor + length (pc_bytes current)) pieces of
             None \<Rightarrow> None
           | Some rest \<Rightarrow> Some (pc_bytes current @ rest))"

definition add_assembly :: "GattReassembler \<Rightarrow> u64 \<Rightarrow> Fragment \<Rightarrow> GattReassembler" where
  "add_assembly s now_ns f =
     s\<lparr>ra_assemblies := ra_assemblies s @ [\<lparr>as_logical_type = fg_logical_type f,
          as_message_id = fg_message_id f, as_fragment_count = fg_count f,
          as_total_length = fg_total f, as_last_progress_ns = now_ns, as_pieces = []\<rparr>],
       ra_buffered_bytes := ra_buffered_bytes s + unat (fg_total f)\<rparr>"

definition finish_assembly :: "GattReassembler \<Rightarrow> nat \<Rightarrow> Assembly
    \<Rightarrow> GattFragmentResult \<times> bytes \<times> GattCompletedMetadata option \<times> GattReassembler" where
  "finish_assembly s i assembly =
     (case join_pieces 0 (sort_key pc_offset (as_pieces assembly)) of
        None \<Rightarrow> (Gatt_ProtocolViolation, [], None, erase s i)
      | Some logical \<Rightarrow>
          if length logical \<noteq> unat (as_total_length assembly)
             \<or> \<not> exact_logical_message logical (as_logical_type assembly)
          then (Gatt_ProtocolViolation, [], None, erase s i)
          else
            let prior = \<lparr>cp_logical_type = as_logical_type assembly,
                         cp_message_id = as_message_id assembly,
                         cp_fragment_count = as_fragment_count assembly,
                         cp_total_length = as_total_length assembly, cp_logical = logical\<rparr>;
                kept = (if length (ra_completed s) = kGattMaxIncompleteMessages
                        then tl (ra_completed s) else ra_completed s)
            in (Gatt_Complete, logical,
                Some (metadata_of (as_logical_type assembly) (as_message_id assembly) logical),
                erase (s\<lparr>ra_completed := kept @ [prior]\<rparr>) i))"

definition accept_piece :: "GattReassembler \<Rightarrow> u64 \<Rightarrow> Fragment \<Rightarrow> nat
    \<Rightarrow> GattFragmentResult \<times> bytes \<times> GattCompletedMetadata option \<times> GattReassembler" where
  "accept_piece s now_ns f i =
     (let assembly = ra_assemblies s ! i
      in if as_fragment_count assembly \<noteq> fg_count f \<or> as_total_length assembly \<noteq> fg_total f
         then (Gatt_ProtocolViolation, [], None, erase s i)
         else case check_pieces f (as_pieces assembly) of
                PieceSame \<Rightarrow> (Gatt_Duplicate, [], None, s)
              | PieceClash \<Rightarrow> (Gatt_ProtocolViolation, [], None, erase s i)
              | PieceNew \<Rightarrow>
                  let grown = assembly\<lparr>as_pieces := as_pieces assembly @ [\<lparr>pc_index = fg_index f,
                                 pc_offset = fg_offset f, pc_bytes = fg_data f\<rparr>],
                                 as_last_progress_ns := now_ns\<rparr>;
                      s1 = s\<lparr>ra_assemblies := (ra_assemblies s)[i := grown]\<rparr>
                  in if length (as_pieces grown) \<noteq> unat (as_fragment_count grown)
                     then (Gatt_Accepted, [], None, s1)
                     else finish_assembly s1 i grown)"

definition accept :: "GattReassembler \<Rightarrow> u64 \<Rightarrow> u64 \<Rightarrow> bytes option \<Rightarrow> bool
    \<Rightarrow> GattFragmentResult \<times> bytes \<times> GattCompletedMetadata option \<times> GattReassembler" where
  "accept s connection_generation now_ns input out =
     (case input of
        None \<Rightarrow> (Gatt_InvalidArgument, [], None, s)
      | Some value \<Rightarrow>
          if \<not> out then (Gatt_InvalidArgument, [], None, s)
          else if connection_generation \<noteq> ra_generation s then (Gatt_Stale, [], None, s)
          else if ra_direction s \<noteq> CentralToPeripheral \<and> ra_direction s \<noteq> PeripheralToCentral
          then (Gatt_InvalidArgument, [], None, s)
          else case parse_fragment value of
                 None \<Rightarrow> (Gatt_ProtocolViolation, [], None, s)
               | Some f \<Rightarrow>
                   (case find (\<lambda>prior. cp_message_id prior = fg_message_id f) (ra_completed s) of
                      Some prior \<Rightarrow>
                        if \<not> repeats_completed prior f then (Gatt_ProtocolViolation, [], None, s)
                        else (Gatt_Duplicate, [], Some (metadata_of (cp_logical_type prior)
                                (cp_message_id prior) (cp_logical prior)), s)
                    | None \<Rightarrow>
                        (case find_assembly s (fg_message_id f) of
                           Some i \<Rightarrow>
                             if as_logical_type (ra_assemblies s ! i) \<noteq> fg_logical_type f
                             then (Gatt_ProtocolViolation, [], None, erase s i)
                             else accept_piece s now_ns f i
                         | None \<Rightarrow>
                             if length (ra_assemblies s) \<ge> kGattMaxIncompleteMessages
                                \<or> ra_buffered_bytes s + unat (fg_total f) > kGattMaxBufferedBytes
                             then (Gatt_Backpressure, [], None, s)
                             else accept_piece (add_assembly s now_ns f) now_ns f
                                    (length (ra_assemblies s)))))"

fun expire_loop :: "u64 \<Rightarrow> nat \<Rightarrow> GattReassembler \<Rightarrow> nat \<times> GattReassembler" where
  "expire_loop now_ns 0 s = (0, s)"
| "expire_loop now_ns (Suc i) s =
     (let last0 = as_last_progress_ns (ra_assemblies s ! i)
      in if now_ns \<ge> last0 \<and> now_ns - last0 \<ge> kGattNoProgressTimeoutNs
         then let (expired, s1) = expire_loop now_ns i (erase s i) in (Suc expired, s1)
         else expire_loop now_ns i s)"

definition expire :: "GattReassembler \<Rightarrow> u64 \<Rightarrow> nat \<times> GattReassembler" where
  "expire s now_ns = expire_loop now_ns (length (ra_assemblies s)) s"

datatype gatt_call = GattAccept u64 u64 "bytes option" bool | GattExpire u64

fun gatt_step :: "GattReassembler \<Rightarrow> gatt_call \<Rightarrow> GattFragmentResult \<times> GattReassembler" where
  "gatt_step s (GattAccept generation now value out) =
     (case accept s generation now value out of (result, _, _, s1) \<Rightarrow> (result, s1))"
| "gatt_step s (GattExpire now) = (Gatt_Accepted, snd (expire s now))"

end
