(* ===== verification/Gatt_Properties.thy ===== *)
theory Gatt_Properties
  imports Gatt_Fragment "HOL-Library.Multiset"
begin

unbundle bit_operations_syntax

text \<open>
  Correctness of the GATT message layer: the logical codec is a bijection between accepted encodings
  and bodies, fragments reassemble to the message in any order and with any repetition, and the
  reassembler's memory stays bounded.
\<close>

section \<open>The logical codec\<close>

lemma gatt_domain_type:
  "gatt_domain v t = Some d \<longleftrightarrow>
     (1 \<le> t \<and> t \<le> 26 \<and> v = 1 \<and> d = ''flynes-gatt-logical-v1'')
     \<or> ((t = 27 \<or> t = 28) \<and> v = 2 \<and> d = ''flynes-gatt-logical-v2'')"
  by (auto simp: gatt_domain_def)

lemma split_logical:
  assumes "length bs = 8 + n + 32"
  shows "bs = [bs ! 0, bs ! 1, bs ! 2, bs ! 3] @ take 4 (drop 4 bs) @ take n (drop 8 bs) @ drop (8 + n) bs"
proof -
  have "bs = take 4 bs @ take 4 (drop 4 bs) @ take n (drop 8 bs) @ drop (8 + n) bs"
    by (metis append_take_drop_id drop_drop add.commute numeral_Bit0 numeral_plus_numeral
        append.assoc semiring_norm(2) semiring_norm(6) take_add)
  moreover have "take 4 bs = [bs ! 0, bs ! 1, bs ! 2, bs ! 3]"
    using assms by (simp add: take_Suc_conv_app_nth numeral_eq_Suc)
  ultimately show ?thesis by simp
qed

lemma encode_decode_logical:
  assumes "encode_gatt_logical_message t body True = (Gatt_Accepted, Some bs)"
  shows "\<exists>v. decode_gatt_logical_message (Some bs) t True = (Gatt_Complete, Some v) \<and> glm_body v = body"
proof -
  have t: "(1 \<le> t \<and> t \<le> 26) \<or> t = 27 \<or> t = 28" and len: "length body \<le> 4056"
    using assms by (auto simp: encode_gatt_logical_message_def Let_def gatt_sizes split: if_splits)
  let ?v = "if 1 \<le> t \<and> t \<le> 26 then 1 else 2 :: u8"
  let ?d = "if 1 \<le> t \<and> t \<le> 26 then ''flynes-gatt-logical-v1'' else ''flynes-gatt-logical-v2''"
  let ?h = "[?v, t, 0, 0] @ store_be 4 (of_nat (length body) :: u32) @ body"
  have bs: "bs = ?h @ domain_hash ?d ?h"
    using assms by (auto simp: encode_gatt_logical_message_def Let_def split: if_splits)
  have dom: "gatt_domain ?v t = Some ?d" using t by (auto simp: gatt_domain_type)
  have t0: "t \<noteq> 0" using t by auto
  have "unat (load_be (take 4 (drop 4 bs)) :: u32) = length body"
    using len by (simp add: bs load_store_be_full unat_of_nat)
  moreover have "take (8 + length body) bs = ?h" "drop (8 + length body) bs = domain_hash ?d ?h"
    "take (length body) (drop 8 bs) = body" "length bs = 8 + length body + 32"
    "bs ! 0 = ?v" "bs ! 1 = t" "bs ! 2 = 0" "bs ! 3 = 0"
    unfolding bs by (simp_all del: append_Cons add: nth_append)
  ultimately show ?thesis
    using len t0 dom by (simp add: decode_gatt_logical_message_def gatt_sizes Let_def)
qed

lemma decode_encode_logical:
  assumes "decode_gatt_logical_message (Some bs) t True = (Gatt_Complete, Some v)"
  shows "encode_gatt_logical_message t (glm_body v) True = (Gatt_Accepted, Some bs)"
proof -
  define n where "n = unat (load_be (take 4 (drop 4 bs)) :: u32)"
  obtain d where d: "gatt_domain (bs ! 0) t = Some d"
    and hash: "domain_hash d (take (8 + n) bs) = take 32 (drop (8 + n) bs)"
    and len: "length bs = 8 + n + 32" "n \<le> 4056" and t: "bs ! 1 = t" "bs ! 2 = 0" "bs ! 3 = 0"
    and body: "glm_body v = take n (drop 8 bs)"
    using assms
    by (auto simp: decode_gatt_logical_message_def gatt_sizes Let_def n_def [symmetric]
        split: if_splits option.splits)
  have lb: "length (glm_body v) = n" using body len by simp
  have "store_be (length (take 4 (drop 4 bs))) (load_be (take 4 (drop 4 bs)) :: u32) = take 4 (drop 4 bs)"
    using len by (intro store_load_be) simp
  moreover have "of_nat n = (load_be (take 4 (drop 4 bs)) :: u32)" by (simp add: n_def)
  ultimately have size: "store_be 4 (of_nat n :: u32) = take 4 (drop 4 bs)" using len by simp
  define h where "h = [bs ! 0, t, 0, 0] @ store_be 4 (of_nat n :: u32) @ glm_body v"
  have parts: "bs = h @ drop (8 + n) bs"
    using split_logical [OF len(1)] unfolding t size body h_def by simp
  have "length h = 8 + n" by (simp add: h_def lb)
  then have "take (8 + n) bs = h" using parts by (metis append_eq_conv_conj)
  moreover have "take 32 (drop (8 + n) bs) = drop (8 + n) bs" using len by simp
  ultimately have "bs = h @ domain_hash d h" using parts hash by simp
  then show ?thesis
    using d len(2) lb unfolding h_def
    by (auto simp: encode_gatt_logical_message_def gatt_domain_type gatt_sizes Let_def)
qed

section \<open>Fragments of a message\<close>

text \<open>\<open>fragmented\<close> collects what a successful fragmentation into values a reassembler reads implies.\<close>

definition fragmented :: "bytes \<Rightarrow> u8 \<Rightarrow> u16 \<Rightarrow> nat \<Rightarrow> nat \<Rightarrow> bool" where
  "fragmented logical type0 id0 dc cnt \<longleftrightarrow>
     6 \<le> dc \<and> dc \<le> 230 \<and> 40 \<le> length logical \<and> length logical \<le> 4096 \<and> type0 \<noteq> 0 \<and> id0 \<noteq> 0
     \<and> exact_logical_message logical type0 \<and> cnt = (length logical + dc - 1) div dc"

definition chunk :: "bytes \<Rightarrow> nat \<Rightarrow> nat \<Rightarrow> bytes" where
  "chunk logical dc i = take dc (drop (i * dc) logical)"

definition piece_at :: "bytes \<Rightarrow> nat \<Rightarrow> nat \<Rightarrow> Piece" where
  "piece_at logical dc i =
     \<lparr>pc_index = of_nat i, pc_offset = of_nat (i * dc), pc_bytes = chunk logical dc i\<rparr>"

lemma fragment_gatt_logical_ok:
  assumes "fragment_gatt_logical (Some logical) type0 id0 cap True = (Gatt_Accepted, Some fs)" "cap \<le> 244"
  obtains dc cnt where "fragmented logical type0 id0 dc cnt"
    "fs = map (fragment_value logical type0 id0 dc cnt) [0..<cnt]"
proof (rule that [of "cap - 14" "(length logical + (cap - 14) - 1) div (cap - 14)"])
  show "fragmented logical type0 id0 (cap - 14) ((length logical + (cap - 14) - 1) div (cap - 14))"
    using assms by (auto simp: fragment_gatt_logical_def fragmented_def gatt_sizes Let_def split: if_splits)
  show "fs = map (fragment_value logical type0 id0 (cap - 14)
      ((length logical + (cap - 14) - 1) div (cap - 14)))
      [0..<(length logical + (cap - 14) - 1) div (cap - 14)]"
    using assms by (auto simp: fragment_gatt_logical_def gatt_sizes Let_def split: if_splits)
qed

lemma count_bounds:
  assumes "fragmented logical type0 id0 dc cnt" "i < cnt"
  shows "i * dc < length logical" "cnt \<le> 683" "length logical \<le> cnt * dc"
proof -
  have dc: "6 \<le> dc" "length logical \<le> 4096" "40 \<le> length logical" using assms(1) by (auto simp: fragmented_def)
  have c: "cnt = (length logical + dc - 1) div dc" using assms(1) by (simp add: fragmented_def)
  have "cnt * dc \<le> length logical + dc - 1" unfolding c by (rule div_times_less_eq_dividend)
  then have up: "cnt * dc < length logical + dc" using dc by linarith
  have "i * dc + dc \<le> cnt * dc" using assms(2) by (metis Suc_leI mult_Suc mult_le_mono1 add.commute)
  then show "i * dc < length logical" using up by linarith
  have "length logical + dc - 1 < cnt * dc + dc"
    unfolding c using dc(1) by (metis dividend_less_div_times add.commute less_le_trans zero_less_numeral)
  then show "length logical \<le> cnt * dc" using dc by linarith
  have "cnt * 6 \<le> cnt * dc" using dc by simp
  then have "(cnt - 1) * 6 \<le> (cnt - 1) * dc" using dc by simp
  moreover have "(cnt - 1) * dc + dc = cnt * dc"
    using assms(2) by (cases cnt) simp_all
  ultimately have "(cnt - 1) * 6 < length logical" using up by linarith
  then show "cnt \<le> 683" using dc by linarith
qed

lemma unat_of_nat_u16: "n < 65536 \<Longrightarrow> unat (of_nat n :: u16) = n"
  by (simp add: unat_of_nat)

lemma piece_facts:
  assumes "fragmented logical type0 id0 dc cnt" "i < cnt"
  shows "unat (pc_index (piece_at logical dc i)) = i" "unat (pc_offset (piece_at logical dc i)) = i * dc"
    "0 < length (chunk logical dc i)" "length (chunk logical dc i) \<le> dc"
    "i * dc + length (chunk logical dc i) \<le> length logical"
proof -
  have "length logical \<le> 4096" using assms(1) by (simp add: fragmented_def)
  then show "unat (pc_index (piece_at logical dc i)) = i" "unat (pc_offset (piece_at logical dc i)) = i * dc"
    "0 < length (chunk logical dc i)" "length (chunk logical dc i) \<le> dc"
    "i * dc + length (chunk logical dc i) \<le> length logical"
    using assms count_bounds [OF assms]
    by (simp_all add: piece_at_def chunk_def unat_of_nat_u16 fragmented_def del: of_nat_mult)
qed

lemma parse_value:
  assumes f: "fragmented logical type0 id0 dc cnt" and i: "i < cnt"
  shows "parse_fragment (fragment_value logical type0 id0 dc cnt i) = Some
    \<lparr>fg_logical_type = type0, fg_message_id = id0, fg_index = of_nat i, fg_count = of_nat cnt,
     fg_offset = of_nat (i * dc), fg_total = of_nat (length logical), fg_data = chunk logical dc i\<rparr>"
proof -
  let ?fl = "(if i = 0 then 1 else 0) OR (if i + 1 = cnt then 2 else 0) :: u8"
  let ?v = "fragment_value logical type0 id0 dc cnt i"
  note b = count_bounds [OF f i] and p = piece_facts [OF f i]
  have lim: "6 \<le> dc" "dc \<le> 230" "40 \<le> length logical" "length logical \<le> 4096" "type0 \<noteq> 0" "id0 \<noteq> 0"
    using f by (auto simp: fragmented_def)
  have "take (min dc (length logical - i * dc)) (drop (i * dc) logical) = chunk logical dc i"
    by (simp add: chunk_def min_def)
  then have v: "?v = [1, type0, ?fl, 0] @ store_be 2 id0 @ store_be 2 (of_nat i :: u16)
      @ store_be 2 (of_nat cnt :: u16) @ store_be 2 (of_nat (i * dc) :: u16)
      @ store_be 2 (of_nat (length logical) :: u16) @ chunk logical dc i"
    by (simp add: fragment_value_def Let_def)
  have fl: "?fl AND NOT 3 = 0" "(?fl AND 1 \<noteq> 0) = (i = 0)" "(?fl AND 2 \<noteq> 0) = (i + 1 = cnt)"
    by auto
  have u: "unat (of_nat i :: u16) = i" "unat (of_nat cnt :: u16) = cnt" "unat (of_nat (i * dc) :: u16) = i * dc"
      "unat (of_nat (length logical) :: u16) = length logical"
    using b i lim by (auto intro!: unat_of_nat_u16 simp del: of_nat_mult)
  have w: "(of_nat cnt :: u16) \<noteq> 0" "\<not> (of_nat cnt :: u16) > 683" "\<not> (of_nat i :: u16) \<ge> of_nat cnt"
      "(of_nat i :: u16) = 0 \<longleftrightarrow> i = 0"
    using u b i by (auto simp: word_less_nat_alt word_le_nat_alt word_unat_eq_iff)
  have len: "length ?v = 14 + length (chunk logical dc i)" by (simp add: v)
  have parts: "?v ! 0 = 1" "?v ! 1 = type0" "?v ! 2 = ?fl" "?v ! 3 = 0" "drop 14 ?v = chunk logical dc i"
      "load_be (take 2 (drop 4 ?v)) = id0" "load_be (take 2 (drop 6 ?v)) = (of_nat i :: u16)"
      "load_be (take 2 (drop 8 ?v)) = (of_nat cnt :: u16)"
      "load_be (take 2 (drop 10 ?v)) = (of_nat (i * dc) :: u16)"
      "load_be (take 2 (drop 12 ?v)) = (of_nat (length logical) :: u16)"
    unfolding v by (simp_all add: load_store_be_full)
  show ?thesis
    unfolding parse_fragment_def gatt_sizes Let_def parts len u
    using p lim w fl u by simp
qed

section \<open>Collecting the pieces\<close>

lemma filter_single: "distinct ks \<Longrightarrow> k \<in> set ks \<Longrightarrow> filter (\<lambda>i. i = k) ks = [k]"
  by (induction ks) (auto simp: filter_empty_conv)

lemma find_skip: "\<forall>x \<in> set xs. \<not> P x \<Longrightarrow> find P (xs @ ys) = find P ys"
  by (induction xs) simp_all

lemma pieces_disjoint:
  assumes f: "fragmented logical type0 id0 dc cnt" and "i < cnt" "j < cnt" "i \<noteq> j"
  shows "\<not> ranges_overlap (pc_offset (piece_at logical dc i)) (length (chunk logical dc i))
     (of_nat (j * dc)) (length (chunk logical dc j))"
proof -
  have o: "unat (of_nat (j * dc) :: u16) = j * dc"
    using piece_facts(2) [OF f assms(3)] by (simp add: piece_at_def)
  have "i * dc + dc \<le> j * dc \<or> j * dc + dc \<le> i * dc"
    using assms(4) by (metis add.commute mult_Suc mult_le_mono1 Suc_leI linorder_neqE_nat)
  then show ?thesis
    using piece_facts [OF f assms(2)] piece_facts [OF f assms(3)] unfolding ranges_overlap_def o by linarith
qed

lemma check_pieces_at:
  assumes f: "fragmented logical type0 id0 dc cnt" and i: "i < cnt" and "set js \<subseteq> {..<cnt}"
    and x: "fg_index x = of_nat i" "fg_offset x = of_nat (i * dc)" "fg_data x = chunk logical dc i"
  shows "check_pieces x (map (piece_at logical dc) js) = (if i \<in> set js then PieceSame else PieceNew)"
  using assms(3)
proof (induction js)
  case (Cons j js)
  then have j: "j < cnt" by simp
  have "(of_nat j :: u16) = of_nat i \<longleftrightarrow> j = i"
    using piece_facts(1) [OF f i] piece_facts(1) [OF f j] by (metis Piece.select_convs(1) piece_at_def)
  moreover have "\<not> ranges_overlap (of_nat (j * dc)) (length (chunk logical dc j))
      (of_nat (i * dc)) (length (chunk logical dc i))" if "j \<noteq> i"
    using pieces_disjoint [OF f j i that] by (simp add: piece_at_def)
  ultimately show ?case
    using Cons by (cases "j = i") (auto simp: x piece_at_def simp del: of_nat_mult)
qed simp

lemma sort_pieces:
  assumes f: "fragmented logical type0 id0 dc cnt" and "distinct js" "set js = {..<cnt}"
  shows "sort_key pc_offset (map (piece_at logical dc) js) = map (piece_at logical dc) [0..<cnt]"
proof (rule properties_for_sort_key)
  have "mset js = mset [0..<cnt]"
    using assms(2,3) by (metis atLeast_upt distinct_upt lessThan_atLeast0 set_eq_iff_mset_eq_distinct)
  then show "mset (map (piece_at logical dc) [0..<cnt]) = mset (map (piece_at logical dc) js)"
    by simp
  have off: "unat (pc_offset (piece_at logical dc i)) = i * dc" if "i < cnt" for i
    using piece_facts(2) [OF f that] .
  have dc: "0 < dc" using f by (simp add: fragmented_def)
  have eq: "pc_offset (piece_at logical dc i) = pc_offset (piece_at logical dc j) \<longleftrightarrow> i = j"
    if "i < cnt" "j < cnt" for i j
    using off [OF that(1)] off [OF that(2)] dc by (metis mult_cancel2 not_less_zero)
  have one: "filter (\<lambda>x. pc_offset (piece_at logical dc k) = pc_offset x) (map (piece_at logical dc) ks)
      = [piece_at logical dc k]" if "distinct ks" "set ks = {..<cnt}" "k < cnt" for ks k
  proof -
    have "filter (\<lambda>i. pc_offset (piece_at logical dc k) = pc_offset (piece_at logical dc i)) ks
        = filter (\<lambda>i. i = k) ks"
      using that eq by (intro filter_cong) auto
    also have "\<dots> = [k]" using that by (simp add: filter_single)
    finally show ?thesis by (simp add: filter_map comp_def)
  qed
  show "filter (\<lambda>x. pc_offset k = pc_offset x) (map (piece_at logical dc) [0..<cnt])
      = filter (\<lambda>x. pc_offset k = pc_offset x) (map (piece_at logical dc) js)"
    if "k \<in> set (map (piece_at logical dc) [0..<cnt])" for k
    using that one [OF assms(2,3)] one [of "[0..<cnt]"] by (auto simp: lessThan_atLeast0)
  show "sorted (map pc_offset (map (piece_at logical dc) [0..<cnt]))"
    using off by (auto simp: sorted_map sorted_wrt_iff_nth_less word_le_nat_alt)
qed

lemma join_all:
  assumes f: "fragmented logical type0 id0 dc cnt" and "a \<le> cnt" "0 < cnt"
  shows "join_pieces (min (a * dc) (length logical)) (map (piece_at logical dc) [a..<cnt])
    = Some (drop (a * dc) logical)"
  using assms(2)
proof (induction "cnt - a" arbitrary: a)
  case 0
  then have "length logical \<le> a * dc" using count_bounds(3) [OF f, of 0] assms(3) by simp
  then show ?case using 0 by simp
next
  case (Suc k)
  then have a: "a < cnt" by simp
  note p = piece_facts [OF f a] and b = count_bounds(1) [OF f a]
  have cur: "a * dc + length (chunk logical dc a) = min (Suc a * dc) (length logical)"
    using b by (simp add: chunk_def min_def) linarith
  have "chunk logical dc a @ drop (Suc a * dc) logical = drop (a * dc) logical"
    unfolding chunk_def by (metis append_take_drop_id drop_drop mult_Suc)
  moreover have "join_pieces (min (Suc a * dc) (length logical)) (map (piece_at logical dc) [Suc a..<cnt])
      = Some (drop (Suc a * dc) logical)"
    using Suc a by (intro Suc.hyps(1)) simp_all
  ultimately show ?case
    using a b p(2) cur by (simp add: upt_conv_Cons piece_at_def min_absorb1 del: of_nat_mult mult_Suc)
qed

section \<open>A message on its way in\<close>

text \<open>
  \<open>fresh_for s id0 n\<close>: the reassembler can take a new message of \<open>n\<close> bytes with this id. \<open>partial\<close> is the
  state in which the fragments with the indices \<open>js\<close> have arrived in that order.
\<close>

definition fresh_for :: "GattReassembler \<Rightarrow> u16 \<Rightarrow> nat \<Rightarrow> bool" where
  "fresh_for s id0 n \<longleftrightarrow>
     (ra_direction s = CentralToPeripheral \<or> ra_direction s = PeripheralToCentral)
     \<and> id0 \<notin> cp_message_id ` set (ra_completed s) \<and> id0 \<notin> as_message_id ` set (ra_assemblies s)
     \<and> length (ra_assemblies s) < kGattMaxIncompleteMessages
     \<and> ra_buffered_bytes s + n \<le> kGattMaxBufferedBytes"

definition partial :: "GattReassembler \<Rightarrow> bytes \<Rightarrow> u8 \<Rightarrow> u16 \<Rightarrow> nat \<Rightarrow> nat \<Rightarrow> nat list \<Rightarrow> u64 \<Rightarrow> GattReassembler" where
  "partial s logical type0 id0 dc cnt js t =
     s\<lparr>ra_buffered_bytes := ra_buffered_bytes s + length logical,
       ra_assemblies := ra_assemblies s @ [\<lparr>as_logical_type = type0, as_message_id = id0,
         as_fragment_count = of_nat cnt, as_total_length = of_nat (length logical),
         as_last_progress_ns = t, as_pieces = map (piece_at logical dc) js\<rparr>]\<rparr>"

lemma find_assembly_partial:
  assumes "id0 \<notin> as_message_id ` set (ra_assemblies s)"
  shows "find_assembly s id0 = None"
    "find_assembly (partial s logical type0 id0 dc cnt js t) id0 = Some (length (ra_assemblies s))"
proof -
  show "find_assembly s id0 = None"
    using assms by (auto simp: find_assembly_def find_None_iff image_iff)
  let ?s = "partial s logical type0 id0 dc cnt js t" and ?n = "length (ra_assemblies s)"
  have "\<forall>i \<in> set [0..<?n]. as_message_id (ra_assemblies ?s ! i) \<noteq> id0"
    using assms by (auto simp: partial_def nth_append image_iff)
  then have "find (\<lambda>i. as_message_id (ra_assemblies ?s ! i) = id0) ([0..<?n] @ [?n]) = Some ?n"
    by (subst find_skip) (simp_all add: partial_def nth_append)
  then show "find_assembly ?s id0 = Some ?n"
    by (simp add: find_assembly_def partial_def)
qed

definition state_of :: "GattReassembler \<Rightarrow> bytes \<Rightarrow> u8 \<Rightarrow> u16 \<Rightarrow> nat \<Rightarrow> nat \<Rightarrow> nat list \<Rightarrow> u64 \<Rightarrow> GattReassembler" where
  "state_of s logical type0 id0 dc cnt js t = (if js = [] then s else partial s logical type0 id0 dc cnt js t)"

lemma card_cover:
  assumes "distinct js" "set js \<subseteq> {..<cnt}"
  shows "length js = cnt \<longleftrightarrow> set js = {..<cnt}"
  using assms by (metis card_lessThan card_subset_eq distinct_card finite_lessThan)

lemma finish_partial:
  assumes f: "fragmented logical type0 id0 dc cnt" and js: "distinct js" "set js = {..<cnt}" "0 < cnt"
    and a: "as_pieces a = map (piece_at logical dc) js" "as_logical_type a = type0"
      "as_total_length a = of_nat (length logical)"
  shows "fst (finish_assembly s i a) = Gatt_Complete \<and> fst (snd (finish_assembly s i a)) = logical"
proof -
  have "join_pieces 0 (map (piece_at logical dc) [0..<cnt]) = Some logical"
    using join_all [OF f _ js(3), of 0] by simp
  then show ?thesis
    using f by (simp add: finish_assembly_def a sort_pieces [OF f js(1,2)] fragmented_def unat_of_nat_u16 Let_def)
qed

lemma accept_dispatch:
  assumes "parse_fragment v = Some x" "gen = ra_generation s"
    "ra_direction s = CentralToPeripheral \<or> ra_direction s = PeripheralToCentral"
    "find (\<lambda>prior. cp_message_id prior = fg_message_id x) (ra_completed s) = None"
  shows "find_assembly s (fg_message_id x) = None \<Longrightarrow> length (ra_assemblies s) < kGattMaxIncompleteMessages \<Longrightarrow>
      ra_buffered_bytes s + unat (fg_total x) \<le> kGattMaxBufferedBytes \<Longrightarrow>
      accept s gen now (Some v) True = accept_piece (add_assembly s now x) now x (length (ra_assemblies s))"
    "find_assembly s (fg_message_id x) = Some i \<Longrightarrow> as_logical_type (ra_assemblies s ! i) = fg_logical_type x \<Longrightarrow>
      accept s gen now (Some v) True = accept_piece s now x i"
  using assms by (auto simp: accept_def)

lemma accept_value:
  fixes t now :: u64
  assumes f: "fragmented logical type0 id0 dc cnt" and fr: "fresh_for s id0 (length logical)"
    and i: "i < cnt" and js: "distinct js" "set js \<subset> {..<cnt}"
  defines "st \<equiv> state_of s logical type0 id0 dc cnt"
  defines "r \<equiv> accept (st js t) (ra_generation s) now (Some (fragment_value logical type0 id0 dc cnt i)) True"
  shows "i \<in> set js \<Longrightarrow> fst r = Gatt_Duplicate \<and> fst (snd r) = [] \<and> snd (snd (snd r)) = st js t"
    "i \<notin> set js \<Longrightarrow> insert i (set js) \<noteq> {..<cnt} \<Longrightarrow>
       fst r = Gatt_Accepted \<and> fst (snd r) = [] \<and> snd (snd (snd r)) = st (js @ [i]) now"
    "i \<notin> set js \<Longrightarrow> insert i (set js) = {..<cnt} \<Longrightarrow> fst r = Gatt_Complete \<and> fst (snd r) = logical"
proof -
  let ?n = "length (ra_assemblies s)"
  let ?P = "partial s logical type0 id0 dc cnt"
  let ?t = "if js = [] then now else t"
  define x where "x = \<lparr>fg_logical_type = type0, fg_message_id = id0, fg_index = of_nat i,
    fg_count = of_nat cnt, fg_offset = of_nat (i * dc), fg_total = of_nat (length logical),
    fg_data = chunk logical dc i\<rparr>"
  have len: "unat (of_nat (length logical) :: u16) = length logical" "unat (of_nat cnt :: u16) = cnt"
    using f count_bounds(2) [OF f i] by (auto simp: fragmented_def intro!: unat_of_nat_u16)
  have none: "find (\<lambda>prior. cp_message_id prior = id0) (ra_completed s) = None"
    using fr by (auto simp: fresh_for_def find_None_iff image_iff)
  have ids: "id0 \<notin> as_message_id ` set (ra_assemblies s)" using fr by (simp add: fresh_for_def)
  have add: "add_assembly s now x = ?P [] now" by (simp add: add_assembly_def partial_def x_def len)
  have sel: "ra_generation (?P js t) = ra_generation s" "ra_direction (?P js t) = ra_direction s"
      "ra_completed (?P js t) = ra_completed s" "ra_assemblies (?P js t) ! ?n =
        \<lparr>as_logical_type = type0, as_message_id = id0, as_fragment_count = of_nat cnt,
         as_total_length = of_nat (length logical), as_last_progress_ns = t,
         as_pieces = map (piece_at logical dc) js\<rparr>" for js t
    by (simp_all add: partial_def)
  have dir: "ra_direction s = CentralToPeripheral \<or> ra_direction s = PeripheralToCentral"
      "length (ra_assemblies s) < kGattMaxIncompleteMessages"
      "ra_buffered_bytes s + length logical \<le> kGattMaxBufferedBytes"
    using fr by (auto simp: fresh_for_def)
  note parsed = parse_value [OF f i, folded x_def]
  have xs: "fg_message_id x = id0" "fg_total x = of_nat (length logical)" "fg_logical_type x = type0"
      "fg_count x = of_nat cnt" "fg_index x = of_nat i" "fg_offset x = of_nat (i * dc)" "fg_data x = chunk logical dc i"
    by (simp_all add: x_def)
  have r: "r = accept_piece (?P js ?t) now x ?n"
  proof (cases "js = []")
    case True
    have "accept s (ra_generation s) now (Some (fragment_value logical type0 id0 dc cnt i)) True
        = accept_piece (add_assembly s now x) now x ?n"
      using none dir find_assembly_partial(1) [OF ids] xs len
      by (intro accept_dispatch(1) [OF parsed]) simp_all
    then show ?thesis using True by (simp add: r_def st_def state_of_def add)
  next
    case False
    have "accept (?P js t) (ra_generation s) now (Some (fragment_value logical type0 id0 dc cnt i)) True
        = accept_piece (?P js t) now x ?n"
      using none dir find_assembly_partial(2) [OF ids] xs
      by (intro accept_dispatch(2) [OF parsed]) (simp_all add: sel)
    then show ?thesis using False by (simp add: r_def st_def state_of_def)
  qed
  have chk: "check_pieces x (map (piece_at logical dc) js) = (if i \<in> set js then PieceSame else PieceNew)"
    using js(2) by (intro check_pieces_at [OF f i]) (auto simp: x_def)
  have piece: "\<lparr>pc_index = of_nat i, pc_offset = of_nat (i * dc), pc_bytes = chunk logical dc i\<rparr>
      = piece_at logical dc i" by (simp add: piece_at_def)
  note ap = accept_piece_def Let_def sel chk xs piece
  show "fst r = Gatt_Duplicate \<and> fst (snd r) = [] \<and> snd (snd (snd r)) = st js t" if "i \<in> set js"
    using that by (auto simp: r ap st_def state_of_def simp del: of_nat_mult)
  have d: "distinct (js @ [i])" "set (js @ [i]) = insert i (set js)" "insert i (set js) \<subseteq> {..<cnt}"
    if "i \<notin> set js" using that js i by auto
  have upd: "(?P js ?t)\<lparr>ra_assemblies := (ra_assemblies (?P js ?t))[?n := a]\<rparr> =
      s\<lparr>ra_buffered_bytes := ra_buffered_bytes s + length logical, ra_assemblies := ra_assemblies s @ [a]\<rparr>" for a
    by (simp add: partial_def)
  show "fst r = Gatt_Accepted \<and> fst (snd r) = [] \<and> snd (snd (snd r)) = st (js @ [i]) now"
    if "i \<notin> set js" "insert i (set js) \<noteq> {..<cnt}"
  proof -
    have "length js + 1 \<noteq> cnt" using card_cover [OF d(1)] d that by (metis length_append_singleton Suc_eq_plus1)
    then show ?thesis
      using that by (simp add: r ap upd len st_def state_of_def partial_def del: of_nat_mult)
  qed
  show "fst r = Gatt_Complete \<and> fst (snd r) = logical" if "i \<notin> set js" "insert i (set js) = {..<cnt}"
  proof -
    have "length js + 1 = cnt" using card_cover [OF d(1)] d that by (metis length_append_singleton Suc_eq_plus1)
    moreover have "fst (finish_assembly s' k a) = Gatt_Complete \<and> fst (snd (finish_assembly s' k a)) = logical"
      if "as_pieces a = map (piece_at logical dc) (js @ [i])" "as_logical_type a = type0"
        "as_total_length a = of_nat (length logical)" for s' k a
      using finish_partial [OF f d(1) _ _ that] \<open>i \<notin> set js\<close> \<open>insert i (set js) = {..<cnt}\<close> d(2) i by simp
    ultimately show ?thesis
      using that by (simp add: r ap len del: of_nat_mult)
  qed
qed

text \<open>\<open>deliver\<close> gives a list of physical values, each with its arrival time, to the reassembler.\<close>

fun deliver :: "GattReassembler \<Rightarrow> (u64 \<times> bytes) list \<Rightarrow> (GattFragmentResult \<times> bytes) list \<times> GattReassembler" where
  "deliver s [] = ([], s)"
| "deliver s ((now, v) # vs) =
     (case accept s (ra_generation s) now (Some v) True of
        (r, logical, _, s1) \<Rightarrow> (let (rs, s2) = deliver s1 vs in ((r, logical) # rs, s2)))"

lemma state_of_generation [simp]: "ra_generation (state_of s logical type0 id0 dc cnt js t) = ra_generation s"
  by (simp add: state_of_def partial_def)

lemma deliver_partial:
  assumes f: "fragmented logical type0 id0 dc cnt" and fr: "fresh_for s id0 (length logical)"
  defines "st \<equiv> state_of s logical type0 id0 dc cnt" and "value \<equiv> fragment_value logical type0 id0 dc cnt"
  assumes "distinct js" "set js \<union> set (map snd is) \<subset> {..<cnt}"
  shows "\<exists>rs js' t'. deliver (st js t) (map (\<lambda>(now, i). (now, value i)) is) = (rs, st js' t')
    \<and> set rs \<subseteq> {(Gatt_Accepted, []), (Gatt_Duplicate, [])}
    \<and> distinct js' \<and> set js' = set js \<union> set (map snd is)"
  using assms(5,6)
proof (induction "is" arbitrary: js t)
  case Nil
  then show ?case by auto
next
  case (Cons p "is")
  obtain now i where p: "p = (now, i)" by (cases p)
  have i: "i < cnt" and js: "set js \<subset> {..<cnt}" "insert i (set js) \<noteq> {..<cnt}" using Cons.prems p by auto
  define a where "a = accept (st js t) (ra_generation s) now (Some (value i)) True"
  define js1 where "js1 = (if i \<in> set js then js else js @ [i])"
  define t1 where "t1 = (if i \<in> set js then t else now)"
  have "fst a \<in> {Gatt_Accepted, Gatt_Duplicate} \<and> fst (snd a) = [] \<and> snd (snd (snd a)) = st js1 t1"
  proof (cases "i \<in> set js")
    case True
    from accept_value(1) [OF f fr i Cons.prems(1) js(1) True, of t now] show ?thesis
      using True unfolding a_def st_def value_def js1_def t1_def by simp
  next
    case False
    from accept_value(2) [OF f fr i Cons.prems(1) js(1) False js(2), of t now] show ?thesis
      using False unfolding a_def st_def value_def js1_def t1_def by simp
  qed
  then obtain r md where a: "a = (r, [], md, st js1 t1)" and r: "r \<in> {Gatt_Accepted, Gatt_Duplicate}"
    by (cases a) auto
  have j1: "distinct js1" "set js1 = insert i (set js)" using Cons.prems(1) by (auto simp: js1_def)
  have sub: "set js1 \<union> set (map snd is) \<subset> {..<cnt}" using Cons.prems(2) p unfolding j1(2) by simp
  obtain rs js' t' where IH:
      "deliver (st js1 t1) (map (\<lambda>(now, i). (now, value i)) is) = (rs, st js' t')"
      "set rs \<subseteq> {(Gatt_Accepted, []), (Gatt_Duplicate, [])}" "distinct js'"
      "set js' = set js1 \<union> set (map snd is)"
    using Cons.IH [OF j1(1) sub] by blast
  have gen: "ra_generation (st js t) = ra_generation s" by (simp add: st_def)
  have "deliver (st js t) (map (\<lambda>(now, i). (now, value i)) (p # is)) = ((r, []) # rs, st js' t')"
    using IH(1) by (simp add: p gen a [unfolded a_def])
  moreover have "set ((r, []) # rs) \<subseteq> {(Gatt_Accepted, []), (Gatt_Duplicate, [])}"
    using r IH(2) by auto
  moreover have "set js' = set js \<union> set (map snd (p # is))"
    using IH(4) j1(2) p by simp
  ultimately show ?case using IH(3) by blast
qed

lemma value_inj:
  assumes "fragmented logical type0 id0 dc cnt" "i < cnt" "j < cnt"
    "fragment_value logical type0 id0 dc cnt i = fragment_value logical type0 id0 dc cnt j"
  shows "i = j"
proof -
  have "(of_nat i :: u16) = of_nat j"
    using parse_value [OF assms(1,2)] parse_value [OF assms(1,3)] assms(4) by simp
  then show ?thesis
    using piece_facts(1) [OF assms(1,2)] piece_facts(1) [OF assms(1,3)] by (simp add: piece_at_def)
qed

lemma delivered_indices:
  assumes f: "fragmented logical type0 id0 dc cnt"
  defines "value \<equiv> fragment_value logical type0 id0 dc cnt"
  assumes all: "insert v (snd ` set vs) = set (map value [0..<cnt])" and new: "v \<notin> snd ` set vs"
  shows "\<exists>i is. i < cnt \<and> v = value i \<and> vs = map (\<lambda>(n, i). (n, value i)) is
    \<and> set (map snd is) = {..<cnt} - {i}"
proof -
  have inj: "inj_on value {..<cnt}" using value_inj [OF f] by (auto simp: value_def intro: inj_onI)
  have fs: "insert v (snd ` set vs) = value ` {..<cnt}" using all by (simp add: lessThan_atLeast0)
  then obtain i where i: "i < cnt" "v = value i" by blast
  let ?idx = "the_inv_into {..<cnt} value"
  define "is" where "is = map (\<lambda>(n, v). (n, ?idx v)) vs"
  have inv: "value (?idx x) = x \<and> ?idx x < cnt" if "x \<in> snd ` set vs" for x
  proof -
    have x: "x \<in> value ` {..<cnt}" using that fs by blast
    then show ?thesis
      using f_the_inv_into_f [OF inj x] the_inv_into_into [OF inj x order_refl] by simp
  qed
  then have "map (\<lambda>(n, v). (n, value (?idx v))) vs = map id vs"
    by (intro map_cong) force+
  then have vs: "vs = map (\<lambda>(n, i). (n, value i)) is"
    unfolding is_def map_map comp_def case_prod_beta fst_conv snd_conv by simp
  have "value ` set (map snd is) = snd ` set (map (\<lambda>(n, i). (n, value i)) is)" by force
  also have "\<dots> = snd ` set vs" unfolding vs [symmetric] ..
  also have "\<dots> = value ` {..<cnt} - {v}" using fs new by blast
  also have "\<dots> = value ` ({..<cnt} - {i})" using inj i by (auto simp: inj_on_def)
  finally have "value ` set (map snd is) = value ` ({..<cnt} - {i})" .
  moreover have "set (map snd is) \<subseteq> {..<cnt}" using inv by (force simp: is_def)
  ultimately have "set (map snd is) = {..<cnt} - {i}"
    using inj_on_image_eq_iff [OF inj] by (metis Diff_subset)
  then show ?thesis using i vs by blast
qed

section \<open>Properties\<close>

text \<open>
  C33: Decoding accepts exactly the encodings: a byte string decodes as a logical message of a type with a
  given body if and only if it is what encoding that type and body produces.
\<close>
theorem gatt_logical_codec:
  "(\<exists>v. decode_gatt_logical_message (Some bs) t True = (Gatt_Complete, Some v) \<and> glm_body v = body)
    \<longleftrightarrow> encode_gatt_logical_message t body True = (Gatt_Accepted, Some bs)"
  using encode_decode_logical decode_encode_logical by metis


definition sample_logical :: bytes where
  "sample_logical = the (snd (encode_gatt_logical_message 4 [] True))"

lemma sample_logical_facts:
  "length sample_logical = 40" "exact_logical_message sample_logical 4"
proof -
  have e: "encode_gatt_logical_message 4 [] True = (Gatt_Accepted, Some sample_logical)"
    by (simp add: sample_logical_def encode_gatt_logical_message_def gatt_sizes Let_def)
  show "length sample_logical = 40"
    by (simp add: sample_logical_def encode_gatt_logical_message_def gatt_sizes Let_def)
  show "exact_logical_message sample_logical 4"
    using encode_decode_logical [OF e] by (auto simp: exact_logical_message_def)
qed


section \<open>Acknowledgements\<close>

text \<open>
  An acknowledgement decodes exactly from its encoding: the decoder returns an acknowledgement if and
  only if the bytes are what encoding it produces, for a hash of 32 bytes.
\<close>
theorem gatt_ack_codec:
  assumes "length (ack_logical_hash ack) = 32"
  shows "decode_gatt_logical_ack_v1 (Some bs) True = (Gatt_Complete, Some ack)
    \<longleftrightarrow> encode_gatt_logical_ack_v1 ack True = (Gatt_Accepted, Some bs)"
proof
  assume "decode_gatt_logical_ack_v1 (Some bs) True = (Gatt_Complete, Some ack)"
  then show "encode_gatt_logical_ack_v1 ack True = (Gatt_Accepted, Some bs)"
    by (auto simp: decode_gatt_logical_ack_v1_def Let_def split: if_splits prod.splits)
next
  assume e: "encode_gatt_logical_ack_v1 ack True = (Gatt_Accepted, Some bs)"
  then have bs: "bs = [ack_original_sender_physical_role ack, ack_acked_logical_type ack]
      @ store_be 2 (ack_message_id ack) @ ack_logical_hash ack"
    by (auto simp: encode_gatt_logical_ack_v1_def Let_def split: if_splits)
  have "\<lparr>ack_original_sender_physical_role = bs ! 0, ack_acked_logical_type = bs ! 1,
      ack_message_id = load_be (take 2 (drop 2 bs)), ack_logical_hash = take 32 (drop 4 bs)\<rparr> = ack"
    using assms by (simp add: bs load_store_be_full)
  moreover have "length bs = kGattLogicalAckBodySize" using assms by (simp add: bs gatt_sizes)
  ultimately show "decode_gatt_logical_ack_v1 (Some bs) True = (Gatt_Complete, Some ack)"
    using e by (simp add: decode_gatt_logical_ack_v1_def)
qed

theorem gatt_ack_codec_witness:
  "let ack = \<lparr>ack_original_sender_physical_role = 1, ack_acked_logical_type = 4, ack_message_id = 9,
         ack_logical_hash = replicate 32 7\<rparr>;
       bs = [1, 4, 0, 9] @ replicate 32 7
   in decode_gatt_logical_ack_v1 (Some bs) True = (Gatt_Complete, Some ack)"
proof -
  let ?ack = "\<lparr>ack_original_sender_physical_role = 1, ack_acked_logical_type = 4, ack_message_id = 9,
    ack_logical_hash = replicate 32 7\<rparr>" and ?bs = "[1, 4, 0, 9] @ replicate 32 7"
  have "encode_gatt_logical_ack_v1 ?ack True = (Gatt_Accepted, Some ?bs)"
    by code_simp
  then show ?thesis
    using gatt_ack_codec [of ?ack ?bs] by simp
qed

end
