(* ===== verification/Gatt_Bounds.thy ===== *)
theory Gatt_Bounds
  imports Gatt_Fragment
begin

unbundle bit_operations_syntax

text \<open>
  The memory of the reassembler. The invariant \<open>ra_inv\<close> bounds the number of open messages, the bytes
  reserved for them and the bytes stored, keeps the stored fragments disjoint, and says that what is
  remembered as complete decodes. Every call keeps it, whatever bytes the peer sends.
\<close>

section \<open>The invariant\<close>

definition span :: "Piece \<Rightarrow> nat set" where
  "span p = {unat (pc_offset p) ..< unat (pc_offset p) + length (pc_bytes p)}"

definition stored_bytes :: "Assembly \<Rightarrow> nat" where
  "stored_bytes a = sum_list (map (\<lambda>p. length (pc_bytes p)) (as_pieces a))"

definition assembly_ok :: "Assembly \<Rightarrow> bool" where
  "assembly_ok a \<longleftrightarrow>
     length (as_pieces a) < unat (as_fragment_count a)
     \<and> distinct (map pc_index (as_pieces a))
     \<and> pairwise (\<lambda>p q. span p \<inter> span q = {}) (set (as_pieces a))
     \<and> (\<forall>p \<in> set (as_pieces a). pc_index p < as_fragment_count a \<and> pc_bytes p \<noteq> []
          \<and> unat (pc_offset p) + length (pc_bytes p) \<le> unat (as_total_length a))"

definition completed_ok :: "Completed \<Rightarrow> bool" where
  "completed_ok c \<longleftrightarrow>
     exact_logical_message (cp_logical c) (cp_logical_type c)
     \<and> length (cp_logical c) = unat (cp_total_length c)"

definition reserved :: "Assembly list \<Rightarrow> nat" where
  "reserved as = sum_list (map (\<lambda>a. unat (as_total_length a)) as)"

definition ra_inv :: "GattReassembler \<Rightarrow> bool" where
  "ra_inv s \<longleftrightarrow>
     length (ra_assemblies s) \<le> kGattMaxIncompleteMessages
     \<and> length (ra_completed s) \<le> kGattMaxIncompleteMessages
     \<and> ra_buffered_bytes s = reserved (ra_assemblies s) \<and> ra_buffered_bytes s \<le> kGattMaxBufferedBytes
     \<and> distinct (map as_message_id (ra_assemblies s))
     \<and> as_message_id ` set (ra_assemblies s) \<inter> cp_message_id ` set (ra_completed s) = {}
     \<and> list_all assembly_ok (ra_assemblies s) \<and> list_all completed_ok (ra_completed s)"

section \<open>Stored bytes\<close>

lemma span_card [simp]: "card (span p) = length (pc_bytes p)" "finite (span p)"
  by (simp_all add: span_def)

lemma ranges_overlap_span:
  assumes "bs \<noteq> []" "pc_bytes p \<noteq> []"
  shows "ranges_overlap (pc_offset p) (length (pc_bytes p)) off (length bs)
    \<longleftrightarrow> span p \<inter> {unat off ..< unat off + length bs} \<noteq> {}"
  using assms by (auto simp: ranges_overlap_def span_def disjoint_iff not_less)

lemma disjoint_spans_card:
  assumes "distinct ps" "pairwise (\<lambda>p q. span p \<inter> span q = {}) (set ps)"
  shows "card (\<Union> (span ` set ps)) = sum_list (map (\<lambda>p. length (pc_bytes p)) ps)"
  using assms
proof (induction ps)
  case Nil
  then show ?case by simp
next
  case (Cons p ps)
  then have "span p \<inter> \<Union> (span ` set ps) = {}"
    by (auto simp: pairwise_def)
  then have "card (span p \<union> \<Union> (span ` set ps)) = card (span p) + card (\<Union> (span ` set ps))"
    by (intro card_Un_disjoint) auto
  moreover have "pairwise (\<lambda>p q. span p \<inter> span q = {}) (set ps)"
    using Cons.prems(2) by (rule pairwise_subset) auto
  ultimately show ?case using Cons by simp
qed

lemma stored_below_total:
  assumes "assembly_ok a"
  shows "stored_bytes a \<le> unat (as_total_length a)"
proof -
  let ?U = "\<Union> (span ` set (as_pieces a))"
  have "stored_bytes a = card ?U"
    using assms by (simp add: assembly_ok_def stored_bytes_def disjoint_spans_card distinct_map)
  also have "\<dots> \<le> card {..<unat (as_total_length a)}"
  proof (rule card_mono)
    show "?U \<subseteq> {..<unat (as_total_length a)}"
      using assms by (fastforce simp: assembly_ok_def span_def)
  qed simp
  finally show ?thesis by simp
qed

section \<open>The operations keep the invariant\<close>

lemma reserved_parts:
  "reserved (as @ bs) = reserved as + reserved bs" "reserved (a # as) = unat (as_total_length a) + reserved as"
  "reserved [] = 0"
  by (simp_all add: reserved_def)

lemma new_reassembler_inv: "ra_inv (new_reassembler generation direction)"
  by (simp add: ra_inv_def new_reassembler_def reserved_def)

lemma erase_inv:
  assumes "ra_inv s" "i < length (ra_assemblies s)"
  shows "ra_inv (erase s i)" "length (ra_assemblies (erase s i)) = length (ra_assemblies s) - 1"
    "as_message_id (ra_assemblies s ! i) \<notin> as_message_id ` set (ra_assemblies (erase s i))"
proof -
  define as bs a where "as = take i (ra_assemblies s)" and "bs = drop (Suc i) (ra_assemblies s)"
    and "a = ra_assemblies s ! i"
  have s: "ra_assemblies s = as @ a # bs" and i: "i = length as"
    using assms(2) by (simp_all add: as_def bs_def a_def id_take_nth_drop)
  have e: "ra_assemblies (erase s i) = as @ bs" "ra_completed (erase s i) = ra_completed s"
    "ra_buffered_bytes (erase s i) = ra_buffered_bytes s - unat (as_total_length a)"
    by (simp_all add: erase_def s i)
  show "ra_inv (erase s i)"
    using assms(1) unfolding ra_inv_def e by (auto simp: s reserved_parts)
  show "length (ra_assemblies (erase s i)) = length (ra_assemblies s) - 1"
    by (simp add: e s)
  show "as_message_id (ra_assemblies s ! i) \<notin> as_message_id ` set (ra_assemblies (erase s i))"
    using assms(1) unfolding ra_inv_def e(1) by (auto simp: s i)
qed

lemma check_pieces_new:
  assumes "check_pieces f ps = PieceNew" "fg_data f \<noteq> []" "\<forall>p \<in> set ps. pc_bytes p \<noteq> []"
  shows "fg_index f \<notin> pc_index ` set ps"
    "\<forall>p \<in> set ps. span p \<inter> {unat (fg_offset f) ..< unat (fg_offset f) + length (fg_data f)} = {}"
proof -
  have "fg_index f \<notin> pc_index ` set ps
      \<and> (\<forall>p \<in> set ps. span p \<inter> {unat (fg_offset f) ..< unat (fg_offset f) + length (fg_data f)} = {})"
    using assms
  proof (induction ps)
    case Nil
    then show ?case by simp
  next
    case (Cons p ps)
    then have "pc_index p \<noteq> fg_index f"
      "\<not> ranges_overlap (pc_offset p) (length (pc_bytes p)) (fg_offset f) (length (fg_data f))"
      "check_pieces f ps = PieceNew"
      by (simp_all split: if_splits)
    then show ?case
      using Cons ranges_overlap_span [of "fg_data f" p "fg_offset f"] by simp
  qed
  then show "fg_index f \<notin> pc_index ` set ps"
    "\<forall>p \<in> set ps. span p \<inter> {unat (fg_offset f) ..< unat (fg_offset f) + length (fg_data f)} = {}"
    by blast+
qed

lemma parse_fragment_ok:
  assumes "parse_fragment value = Some f"
  shows "fg_data f \<noteq> []" "fg_index f < fg_count f" "unat (fg_offset f) + length (fg_data f) \<le> unat (fg_total f)"
    "0 < unat (fg_count f)"
  using assms
  by (auto simp: parse_fragment_def Let_def gatt_sizes not_less word_le_nat_alt word_less_nat_alt split: if_splits)

text \<open>\<open>grow\<close> is an assembly with one more fragment.\<close>

definition grow :: "Assembly \<Rightarrow> Fragment \<Rightarrow> u64 \<Rightarrow> Assembly" where
  "grow a f now_ns = a\<lparr>as_pieces := as_pieces a @ [\<lparr>pc_index = fg_index f, pc_offset = fg_offset f,
     pc_bytes = fg_data f\<rparr>], as_last_progress_ns := now_ns\<rparr>"

lemma grow_ok:
  assumes "assembly_ok a" "check_pieces f (as_pieces a) = PieceNew" "parse_fragment value = Some f"
    "as_fragment_count a = fg_count f" "as_total_length a = fg_total f"
    "length (as_pieces (grow a f now_ns)) \<noteq> unat (as_fragment_count a)"
  shows "assembly_ok (grow a f now_ns)"
proof -
  note p = parse_fragment_ok [OF assms(3)]
  have ne: "\<forall>p \<in> set (as_pieces a). pc_bytes p \<noteq> []" using assms(1) by (simp add: assembly_ok_def)
  note c = check_pieces_new [OF assms(2) p(1) ne]
  have "span \<lparr>pc_index = fg_index f, pc_offset = fg_offset f, pc_bytes = fg_data f\<rparr>
      = {unat (fg_offset f) ..< unat (fg_offset f) + length (fg_data f)}"
    by (simp add: span_def)
  then show ?thesis
    using assms(1,4,5,6) p c unfolding assembly_ok_def grow_def
    by (auto simp: pairwise_insert Int_commute)
qed

lemma replace_inv:
  assumes "ra_inv s" "i < length (ra_assemblies s)" "assembly_ok a"
    "as_message_id a = as_message_id (ra_assemblies s ! i)"
    "as_total_length a = as_total_length (ra_assemblies s ! i)"
  shows "ra_inv (s\<lparr>ra_assemblies := (ra_assemblies s)[i := a]\<rparr>)"
proof -
  define as bs b where "as = take i (ra_assemblies s)" and "bs = drop (Suc i) (ra_assemblies s)"
    and "b = ra_assemblies s ! i"
  have s: "ra_assemblies s = as @ b # bs" and i: "i = length as"
    using assms(2) by (simp_all add: as_def bs_def b_def id_take_nth_drop)
  show ?thesis
    using assms by (auto simp: ra_inv_def s i reserved_parts)
qed

lemma finish_inv:
  assumes "ra_inv (s\<lparr>ra_assemblies := (ra_assemblies s)[i := b]\<rparr>)" "i < length (ra_assemblies s)"
    "as_message_id a = as_message_id b" "as_total_length a = as_total_length b"
  shows "ra_inv (snd (snd (snd (finish_assembly (s\<lparr>ra_assemblies := (ra_assemblies s)[i := a]\<rparr>) i a))))"
proof -
  let ?s = "s\<lparr>ra_assemblies := (ra_assemblies s)[i := a]\<rparr>"
    and ?t = "s\<lparr>ra_assemblies := (ra_assemblies s)[i := b]\<rparr>"
  have i: "i < length (ra_assemblies ?t)" using assms(2) by simp
  have same: "erase ?s i = erase ?t i" using assms(2,4) by (simp add: erase_def)
  note e = erase_inv [OF assms(1) i]
  have drop: "ra_inv (erase (?s\<lparr>ra_completed := kept @ [c]\<rparr>) i)"
    if "kept = (if length (ra_completed s) = kGattMaxIncompleteMessages then tl (ra_completed s) else ra_completed s)"
      and "completed_ok c" "cp_message_id c = as_message_id a" for kept c
  proof -
    have "set kept \<subseteq> set (ra_completed s)" "length kept < kGattMaxIncompleteMessages"
      "list_all completed_ok kept"
      using that(1) assms(1)
      by (auto simp: ra_inv_def gatt_sizes list_all_iff dest: list.set_sel(2) [rotated])
    moreover have "erase (?s\<lparr>ra_completed := kept @ [c]\<rparr>) i = (erase ?t i)\<lparr>ra_completed := kept @ [c]\<rparr>"
      using assms(2,4) by (simp add: erase_def)
    moreover have "ra_completed (erase ?t i) = ra_completed s" by (simp add: erase_def)
    ultimately show ?thesis
      using e(1,3) that(2,3) assms(2,3) by (auto simp: ra_inv_def)
  qed
  show ?thesis
    using e(1) drop
    by (auto simp: finish_assembly_def same Let_def completed_ok_def split: option.splits)
qed

lemma accept_piece_inv:
  assumes "ra_inv s" "i < length (ra_assemblies s)" "parse_fragment value = Some f"
  shows "ra_inv (snd (snd (snd (accept_piece s now_ns f i))))"
proof -
  let ?a = "ra_assemblies s ! i"
  have ok: "assembly_ok ?a" using assms(1,2) by (simp add: ra_inv_def list_all_iff)
  have g: "as_message_id (grow ?a f now_ns) = as_message_id ?a" "as_total_length (grow ?a f now_ns) = as_total_length ?a"
    "as_fragment_count (grow ?a f now_ns) = as_fragment_count ?a"
    by (simp_all add: grow_def)
  have fin: "ra_inv (snd (snd (snd (finish_assembly
      (s\<lparr>ra_assemblies := (ra_assemblies s)[i := grow ?a f now_ns]\<rparr>) i (grow ?a f now_ns)))))"
    using finish_inv [of s i ?a "grow ?a f now_ns"] assms(1,2) g by simp
  show ?thesis
    using erase_inv(1) [OF assms(1,2)] assms(1) fin
      replace_inv [OF assms(1,2) grow_ok [OF ok _ assms(3)] g(1,2)]
    unfolding accept_piece_def Let_def grow_def [symmetric]
    by (auto split: PieceCheck.splits simp: g)
qed

lemma add_assembly_inv:
  assumes "ra_inv s" "parse_fragment value = Some f" "length (ra_assemblies s) < kGattMaxIncompleteMessages"
    "ra_buffered_bytes s + unat (fg_total f) \<le> kGattMaxBufferedBytes"
    "fg_message_id f \<notin> as_message_id ` set (ra_assemblies s)"
    "fg_message_id f \<notin> cp_message_id ` set (ra_completed s)"
  shows "ra_inv (add_assembly s now_ns f)"
  using assms parse_fragment_ok(4) [OF assms(2)]
  by (auto simp: ra_inv_def add_assembly_def reserved_parts assembly_ok_def)

lemma find_assembly_Some:
  "find_assembly s id0 = Some i \<Longrightarrow> i < length (ra_assemblies s) \<and> as_message_id (ra_assemblies s ! i) = id0"
  by (auto simp: find_assembly_def find_Some_iff)

lemma find_assembly_None:
  "find_assembly s id0 = None \<longleftrightarrow> id0 \<notin> as_message_id ` set (ra_assemblies s)"
  by (fastforce simp: find_assembly_def find_None_iff in_set_conv_nth)

lemma accept_inv:
  assumes "ra_inv s"
  shows "ra_inv (snd (snd (snd (accept s generation now_ns input out))))"
proof (cases "\<exists>v f. input = Some v \<and> parse_fragment v = Some f")
  case False
  then show ?thesis using assms by (auto simp: accept_def split: option.splits)
next
  case True
  then obtain v f where f: "input = Some v" "parse_fragment v = Some f" by blast
  have old: "ra_inv (erase s i)" "ra_inv (snd (snd (snd (accept_piece s now_ns f i))))"
    if "find_assembly s (fg_message_id f) = Some i" for i
    using find_assembly_Some [OF that] erase_inv(1) [OF assms] accept_piece_inv [OF assms _ f(2)] by blast+
  have new: "ra_inv (snd (snd (snd (accept_piece (add_assembly s now_ns f) now_ns f (length (ra_assemblies s))))))"
    if "find_assembly s (fg_message_id f) = None"
      and "find (\<lambda>prior. cp_message_id prior = fg_message_id f) (ra_completed s) = None"
      and "length (ra_assemblies s) < kGattMaxIncompleteMessages"
      and "ra_buffered_bytes s + unat (fg_total f) \<le> kGattMaxBufferedBytes"
  proof (rule accept_piece_inv [OF add_assembly_inv [OF assms f(2) that(3,4)] _ f(2)])
    show "fg_message_id f \<notin> as_message_id ` set (ra_assemblies s)" using that(1) by (simp add: find_assembly_None)
    show "fg_message_id f \<notin> cp_message_id ` set (ra_completed s)" using that(2) by (auto simp: find_None_iff)
  qed (simp add: add_assembly_def)
  show ?thesis
    using assms old new unfolding accept_def f(1) option.case f(2)
    by (auto split: option.splits simp: not_le)
qed

lemma expire_loop_inv:
  "\<lbrakk>ra_inv s; i \<le> length (ra_assemblies s)\<rbrakk> \<Longrightarrow> ra_inv (snd (expire_loop now_ns i s))"
proof (induction i arbitrary: s)
  case 0
  then show ?case by simp
next
  case (Suc i)
  then show ?case
    using erase_inv(1,2) [of s i] by (simp add: Let_def case_prod_beta)
qed

interpretation reassembler: guarded_machine gatt_step "\<lambda>s c. True" ra_inv
proof
  fix s c assume "ra_inv s"
  then show "ra_inv (snd (gatt_step s c))"
    by (cases c) (use accept_inv in \<open>auto simp: expire_def case_prod_beta intro: expire_loop_inv\<close>)
qed

section \<open>Properties\<close>

text \<open>
  C32: Whatever values arrive and whenever the clock expires messages, the reassembler keeps at most two
  open messages and two completed ones, the bytes it counts as reserved are exactly the announced
  totals of the open messages and at most 8192, the bytes actually stored are at most the reserved
  ones, an open message never has all its fragments, and every remembered message decodes.
\<close>
theorem reassembler_bounded:
  "let s = run_calls gatt_step (new_reassembler generation direction) calls in
     length (ra_assemblies s) \<le> 2 \<and> length (ra_completed s) \<le> 2
     \<and> ra_buffered_bytes s = sum_list (map (\<lambda>a. unat (as_total_length a)) (ra_assemblies s))
     \<and> sum_list (map stored_bytes (ra_assemblies s)) \<le> ra_buffered_bytes s \<and> ra_buffered_bytes s \<le> 8192
     \<and> list_all (\<lambda>a. length (as_pieces a) < unat (as_fragment_count a)) (ra_assemblies s)
     \<and> list_all (\<lambda>c. exact_logical_message (cp_logical c) (cp_logical_type c)) (ra_completed s)"
proof -
  define s where "s = run_calls gatt_step (new_reassembler generation direction) calls"
  have inv: "ra_inv s"
    unfolding s_def by (rule reassembler.run_inv [OF new_reassembler_inv calls_within_True])
  then have "sum_list (map stored_bytes (ra_assemblies s))
      \<le> sum_list (map (\<lambda>a. unat (as_total_length a)) (ra_assemblies s))"
    by (intro sum_list_mono) (auto simp: ra_inv_def list_all_iff stored_below_total)
  then show ?thesis
    using inv unfolding s_def [symmetric] Let_def
    by (auto simp: ra_inv_def gatt_sizes reserved_def list_all_iff assembly_ok_def completed_ok_def)
qed

end
