(* ===== verification/Runtime_Adapter.thy ===== *)
theory Runtime_Adapter
  imports Dual_Scheduler
begin

unbundle bit_operations_syntax

text \<open>
  The bridge from the scheduler's runtime interface to the provider a platform supplies,
  \<^verbatim>\<open>shared/src/session/dual/dual_runtime_adapter.{hpp,cpp}\<close>, and the identity of a two-player start,
  \<^verbatim>\<open>shared/src/product/dual_start_identity.cpp\<close>. The provider is a table of functions over a state of
  its own: it is a parameter, each entry \<open>None\<close> where the pointer is null. The records of the C
  interface are modelled without their size and version fields, which the code sets to constants.
\<close>

section \<open>The C interface\<close>

record AbiContentRef =
  ac_session_id :: bytes
  ac_branch_id :: bytes
  ac_content_hash :: bytes
  ac_timeline_epoch :: u64

record AbiPortSample =
  as_mask :: u32
  as_input_sequence :: u64

record AbiInputBundle =
  ab_session_id :: bytes
  ab_branch_id :: bytes
  ab_timeline_epoch :: u64
  ab_frame_index :: u64
  ab_seat_revision :: u64
  ab_logical_seat :: u8
  ab_predicted_port_mask :: u32
  ab_ports :: "AbiPortSample list"

record AbiFrameOutcome =
  ao_frame_index :: u64
  ao_applied_input_sequence :: "u64 list"
  ao_honoured_port_mask :: u32

record AbiStateDigest =
  ad_state :: bytes
  ad_frame :: bytes
  ad_pcm :: bytes

record 'w AbiRuntimePort =
  abi_load :: "('w \<Rightarrow> AbiContentRef \<Rightarrow> fly_session_result \<times> 'w) option"
  abi_step :: "('w \<Rightarrow> AbiInputBundle \<Rightarrow> fly_session_result \<times> AbiFrameOutcome \<times> 'w) option"
  abi_export_state :: "('w \<Rightarrow> nat \<Rightarrow> fly_session_result \<times> bytes \<times> nat \<times> bytes \<times> 'w) option"
  abi_import_state :: "('w \<Rightarrow> bytes \<Rightarrow> fly_session_result \<times> 'w) option"
  abi_state_digest :: "('w \<Rightarrow> u64 \<Rightarrow> fly_session_result \<times> AbiStateDigest \<times> 'w) option"

section \<open>The adapter\<close>

text \<open>The adapter's own state is the count of calls it forwarded, beside the state of the provider.\<close>

type_synonym 'w adapted = "'w \<times> u64"

definition to_abi_content :: "DualContentRefV1 \<Rightarrow> AbiContentRef" where
  "to_abi_content content = \<lparr>ac_session_id = ref_session_id content, ac_branch_id = ref_branch_id content,
     ac_content_hash = ref_content_hash content, ac_timeline_epoch = ref_timeline_epoch content\<rparr>"

definition to_abi_bundle :: "DualInputBundleV1 \<Rightarrow> AbiInputBundle" where
  "to_abi_bundle bundle = \<lparr>ab_session_id = key_session_id (bnd_key bundle),
     ab_branch_id = key_branch_id (bnd_key bundle), ab_timeline_epoch = key_timeline_epoch (bnd_key bundle),
     ab_frame_index = key_frame_index (bnd_key bundle), ab_seat_revision = key_seat_revision (bnd_key bundle),
     ab_logical_seat = bnd_logical_seat bundle, ab_predicted_port_mask = bnd_predicted_port_mask bundle,
     ab_ports = map (\<lambda>port. \<lparr>as_mask = smp_mask (bnd_ports bundle ! port),
        as_input_sequence = smp_input_sequence (bnd_ports bundle ! port)\<rparr>) [0..<kDualPortCountV1]\<rparr>"

definition from_abi_outcome :: "AbiFrameOutcome \<Rightarrow> DualFrameOutcomeV1" where
  "from_abi_outcome v = \<lparr>out_frame_index = ao_frame_index v,
     out_applied_input_sequence = map (\<lambda>port. ao_applied_input_sequence v ! port) [0..<kDualPortCountV1],
     out_honoured_port_mask = ao_honoured_port_mask v\<rparr>"

definition adapter_load ::
  "'w AbiRuntimePort option \<Rightarrow> 'w adapted \<Rightarrow> DualContentRefV1 \<Rightarrow> fly_session_result \<times> 'w adapted" where
  "adapter_load abi st content =
     (case Option.bind abi abi_load of
        None \<Rightarrow> (FLY_UNAVAILABLE, st)
      | Some load \<Rightarrow>
          (case load (fst st) (to_abi_content content) of (result, w) \<Rightarrow> (result, (w, snd st + 1))))"

text \<open>A failing step leaves the caller's outcome as it was initialised, to zero. The scheduler always
  passes an address for the outcome.\<close>

definition adapter_step :: "'w AbiRuntimePort option \<Rightarrow> 'w adapted \<Rightarrow> DualInputBundleV1
    \<Rightarrow> fly_session_result \<times> DualFrameOutcomeV1 \<times> 'w adapted" where
  "adapter_step abi st input =
     (case Option.bind abi abi_step of
        None \<Rightarrow> (FLY_UNAVAILABLE, zero_outcome, st)
      | Some step \<Rightarrow>
          (case step (fst st) (to_abi_bundle input) of
             (result, outcome, w) \<Rightarrow>
               (result, if result = FLY_OK then from_abi_outcome outcome else zero_outcome, (w, snd st + 1))))"

text \<open>\<open>export_state\<close> gets the capacity of the buffer and returns its new content, the length written
  and the hash; the caller sees length and hash only on success.\<close>

definition adapter_export_state :: "'w AbiRuntimePort option \<Rightarrow> 'w adapted \<Rightarrow> bool \<Rightarrow> nat \<Rightarrow> bool \<Rightarrow> bool
    \<Rightarrow> fly_session_result \<times> (bytes \<times> nat \<times> bytes) option \<times> 'w adapted" where
  "adapter_export_state abi st out capacity out_written out_hash =
     (case Option.bind abi abi_export_state of
        None \<Rightarrow> (FLY_UNAVAILABLE, None, st)
      | Some export \<Rightarrow>
          if \<not> out \<or> \<not> out_written \<or> \<not> out_hash then (FLY_INVALID_ARGUMENT, None, st)
          else case export (fst st) capacity of
                 (result, content, written, hash, w) \<Rightarrow>
                   let st1 = (w, snd st + 1)
                   in if result \<noteq> FLY_OK then (result, None, st1)
                      else if written > capacity then (FLY_CONTRACT_VIOLATION, None, st1)
                      else (FLY_OK, Some (content, written, hash), st1))"

definition adapter_import_state ::
  "'w AbiRuntimePort option \<Rightarrow> 'w adapted \<Rightarrow> bytes option \<Rightarrow> fly_session_result \<times> 'w adapted" where
  "adapter_import_state abi st input =
     (case Option.bind abi abi_import_state of
        None \<Rightarrow> (FLY_UNAVAILABLE, st)
      | Some imp \<Rightarrow>
          (case input of
             None \<Rightarrow> (FLY_INVALID_ARGUMENT, st)
           | Some bs \<Rightarrow> (case imp (fst st) bs of (result, w) \<Rightarrow> (result, (w, snd st + 1)))))"

definition adapter_state_digest :: "'w AbiRuntimePort option \<Rightarrow> 'w adapted \<Rightarrow> u64
    \<Rightarrow> fly_session_result \<times> DualStateDigestV1 \<times> 'w adapted" where
  "adapter_state_digest abi st frame_index =
     (case Option.bind abi abi_state_digest of
        None \<Rightarrow> (FLY_UNAVAILABLE, zero_digest, st)
      | Some digest \<Rightarrow>
          (case digest (fst st) frame_index of
             (result, v, w) \<Rightarrow>
               (result,
                if result = FLY_OK
                then \<lparr>dig_state = ad_state v, dig_frame = ad_frame v, dig_pcm = ad_pcm v\<rparr> else zero_digest,
                (w, snd st + 1))))"

definition CAbiDualRuntimePortV1 :: "'w AbiRuntimePort option \<Rightarrow> 'w adapted DualRuntimePort" where
  "CAbiDualRuntimePortV1 abi = \<lparr>port_load = adapter_load abi, port_step = adapter_step abi,
     port_state_digest = adapter_state_digest abi\<rparr>"

section \<open>Start identity\<close>

record DualStartIdentity =
  sid_core_id :: bytes
  sid_profile_id :: bytes
  sid_options_id :: bytes

definition identity_hash :: "string \<Rightarrow> bytes \<Rightarrow> bytes" where
  "identity_hash domain payload =
     sha256 (ascii domain @ store_be 4 (of_nat (length payload) :: u64) @ payload)"

definition canonical_dual_start_identity_v1 :: DualStartIdentity where
  "canonical_dual_start_identity_v1 =
     \<lparr>sid_core_id = identity_hash ''flynes-dual-core-id-v1'' (ascii ''1.53.2''),
      sid_profile_id = identity_hash ''flynes-dual-profile-id-v1'' canonical_dual_profile_bytes_v1,
      sid_options_id = identity_hash ''flynes-dual-options-id-v1'' canonical_dual_options_bytes_v1\<rparr>"

lemma identity_hash_eq: "identity_hash domain payload = domain_hash domain payload"
  by (simp add: identity_hash_def domain_hash_def domain_preimage_def)

end
