(* ===== verification/P256_Point.thy ===== *)
theory P256_Point
  imports Fly_Prelude
begin

unbundle bit_operations_syntax

text \<open>
  The check that a public key lies on the curve P-256,
  \<^verbatim>\<open>shared/src/session/wire/p256_point.cpp\<close>: eight 32-bit limbs, schoolbook carries in 64-bit
  words, shift-and-add multiplication modulo the field prime. A field element is the list of its
  limbs, least significant first; \<open>fval\<close> is the number it stands for. The lemmas show that every
  operation computes the arithmetic modulo the prime.
\<close>

section \<open>Model\<close>

type_synonym Field = "u32 list"

definition kPrime :: Field where
  "kPrime = [0xffffffff, 0xffffffff, 0xffffffff, 0x00000000, 0x00000000, 0x00000000, 0x00000001,
    0xffffffff]"

definition kB :: Field where
  "kB = [0x27d2604b, 0x3bce3c3e, 0xcc53b0f6, 0x651d06b0, 0x769886bc, 0xb3ebbd55, 0xaa3a93e7,
    0x5ac635d8]"

definition parse_be :: "bytes \<Rightarrow> Field" where
  "parse_be bs = map (\<lambda>limb. let offset = 28 - limb * 4 in
     push_bit 24 (ucast (bs ! offset)) OR push_bit 16 (ucast (bs ! (offset + 1)))
     OR push_bit 8 (ucast (bs ! (offset + 2))) OR ucast (bs ! (offset + 3))) [0..<8]"

text \<open>The loop runs from the highest limb down, over the reversed lists.\<close>

fun compare_down :: "Field \<Rightarrow> Field \<Rightarrow> int" where
  "compare_down (l # ls) (r # rs) = (if l \<noteq> r then (if l < r then -1 else 1) else compare_down ls rs)"
| "compare_down _ _ = 0"

definition compare :: "Field \<Rightarrow> Field \<Rightarrow> int" where
  "compare left right = compare_down (rev left) (rev right)"

text \<open>Each limb of the subtraction and the addition, with the borrow or carry it hands on.\<close>

fun subtract_limbs :: "u64 \<Rightarrow> Field \<Rightarrow> Field \<Rightarrow> Field" where
  "subtract_limbs borrow (l # ls) (r # rs) =
     (let subtrahend = (ucast r :: u64) + borrow;
          current = (ucast l :: u64)
      in ucast (current - subtrahend) # subtract_limbs (if current < subtrahend then 1 else 0) ls rs)"
| "subtract_limbs borrow _ _ = []"

definition subtract :: "Field \<Rightarrow> Field \<Rightarrow> Field" where
  "subtract left right = subtract_limbs 0 left right"

fun add_limbs :: "u64 \<Rightarrow> Field \<Rightarrow> Field \<Rightarrow> Field \<times> u64" where
  "add_limbs carry (l # ls) (r # rs) =
     (let sum0 = (ucast l :: u64) + ucast r + carry;
          (rest, last0) = add_limbs (drop_bit 32 sum0) ls rs
      in (ucast sum0 # rest, last0))"
| "add_limbs carry _ _ = ([], carry)"

definition add_mod :: "Field \<Rightarrow> Field \<Rightarrow> Field" where
  "add_mod left right =
     (let (v, carry) = add_limbs 0 left right
      in if carry = 0 \<and> compare v kPrime < 0 then v else subtract_limbs 0 v kPrime)"

definition sub_mod :: "Field \<Rightarrow> Field \<Rightarrow> Field" where
  "sub_mod left right =
     (if compare left right \<ge> 0 then subtract left right
      else subtract kPrime (subtract right left))"

text \<open>One round of the multiplication loop for a bit of the right factor.\<close>

definition multiply_bit :: "Field \<Rightarrow> nat \<Rightarrow> Field \<times> Field \<Rightarrow> Field \<times> Field" where
  "multiply_bit right n st =
     (let (result, addend) = st;
          result' = (if right ! (n div 32) AND push_bit (n mod 32) 1 \<noteq> 0
                     then add_mod result addend else result)
      in (result', if n \<noteq> 255 then add_mod addend addend else addend))"

definition multiply_mod :: "Field \<Rightarrow> Field \<Rightarrow> Field" where
  "multiply_mod left right = fst (fold (multiply_bit right) [0..<256] (replicate 8 0, left))"

definition validate_p256_uncompressed_point :: "bytes option \<Rightarrow> bool" where
  "validate_p256_uncompressed_point point =
     (case point of
        None \<Rightarrow> False
      | Some bs \<Rightarrow>
          if bs ! 0 \<noteq> 0x04 then False
          else
            let x = parse_be (drop 1 bs); y = parse_be (drop 33 bs)
            in if compare x kPrime \<ge> 0 \<or> compare y kPrime \<ge> 0 then False
               else
                 let y_squared = multiply_mod y y;
                     x_squared = multiply_mod x x;
                     x_cubed = multiply_mod x_squared x;
                     two_x = add_mod x x;
                     three_x = add_mod two_x x;
                     right = add_mod (sub_mod x_cubed three_x) kB
                 in compare y_squared right = 0)"

section \<open>Numbers\<close>

primrec fval :: "Field \<Rightarrow> nat" where
  "fval [] = 0"
| "fval (l # ls) = unat l + 2 ^ 32 * fval ls"

definition p256 :: nat where "p256 = 2 ^ 256 - 2 ^ 224 + 2 ^ 192 + 2 ^ 96 - 1"

definition b256 :: nat where
  "b256 = 0x5ac635d8aa3a93e7b3ebbd55769886bc651d06b0cc53b0f63bce3c3e27d2604b"

lemma fval_kPrime: "fval kPrime = p256"
  by (simp add: kPrime_def p256_def)

lemma fval_kB: "fval kB = b256"
  by (simp add: kB_def b256_def)

lemma p256_bounds: "0 < p256" "p256 < 2 ^ 256" "2 ^ 255 < p256" "b256 < p256"
  by (simp_all add: p256_def b256_def)

lemma length_constants [simp]: "length kPrime = 8" "length kB = 8"
  by (simp_all add: kPrime_def kB_def)

lemma unat_u32: "unat (w :: u32) < 2 ^ 32"
  using unsigned_less [of w] by simp

lemma fval_less: "fval ls < 2 ^ (32 * length ls)"
proof (induction ls)
  case Nil
  then show ?case by simp
next
  case (Cons l ls)
  have "unat l < 2 ^ 32" by (rule unat_u32)
  moreover have "fval ls + 1 \<le> 2 ^ (32 * length ls)" using Cons by simp
  then have "2 ^ 32 * (fval ls + 1) \<le> 2 ^ 32 * 2 ^ (32 * length ls)" by (rule mult_le_mono2)
  ultimately show ?case by (simp add: power_add)
qed

lemma fval_append: "fval (ls @ ms) = fval ls + 2 ^ (32 * length ls) * fval ms"
  by (induction ls) (simp_all add: power_add algebra_simps)

section \<open>Comparison\<close>

lemma fval_compare:
  assumes "length ls = length rs"
  shows "compare ls rs = (if fval ls < fval rs then -1 else if fval ls = fval rs then 0 else 1)"
  using assms
proof (induction ls arbitrary: rs rule: rev_induct)
  case Nil
  then show ?case by (simp add: compare_def)
next
  case (snoc l ls)
  then obtain r rs' where rs: "rs = rs' @ [r]" "length ls = length rs'"
    by (metis append_butlast_last_id length_0_conv length_append_singleton length_butlast diff_Suc_1 nat.distinct(1))
  let ?B = "2 ^ (32 * length rs') :: nat"
  have less: "fval ls < ?B" "fval rs' < ?B" using fval_less [of ls] fval_less [of rs'] rs by simp_all
  have split: "fval ls + ?B * a < fval rs' + ?B * b" if "a < b" for a b
  proof -
    have "?B * (a + 1) \<le> ?B * b" using that by (intro mult_le_mono2) simp
    then show ?thesis using less by (simp add: algebra_simps)
  qed
  have split': "fval rs' + ?B * a < fval ls + ?B * b" if "a < b" for a b
  proof -
    have "?B * (a + 1) \<le> ?B * b" using that by (intro mult_le_mono2) simp
    then show ?thesis using less by (simp add: algebra_simps)
  qed
  have IH: "compare ls rs' = (if fval ls < fval rs' then -1 else if fval ls = fval rs' then 0 else 1)"
    using snoc.IH rs by blast
  consider "l = r" | "unat l < unat r" | "unat r < unat l" by (metis linorder_neqE_nat word_unat_eq_iff)
  then show ?case
  proof cases
    case 1
    then show ?thesis using IH rs by (simp add: compare_def fval_append)
  next
    case 2
    then have "l \<noteq> r" "l < r" by (auto simp: word_less_nat_alt)
    then show ?thesis using split [OF 2] rs by (simp add: compare_def fval_append)
  next
    case 3
    then have "l \<noteq> r" "\<not> l < r" by (auto simp: word_less_nat_alt)
    then show ?thesis using split' [OF 3] rs by (simp add: compare_def fval_append)
  qed
qed

section \<open>Subtraction and addition of limbs\<close>

lemma length_subtract [simp]: "length ls = length rs \<Longrightarrow> length (subtract_limbs b ls rs) = length rs"
  by (induction b ls rs rule: subtract_limbs.induct) (simp_all add: Let_def)

lemma length_add [simp]: "length ls = length rs \<Longrightarrow> length (fst (add_limbs c ls rs)) = length rs"
  by (induction c ls rs rule: add_limbs.induct) (simp_all add: Let_def case_prod_beta)

lemma unat_ucast_64 [simp]: "unat (ucast (w :: u32) :: u64) = unat w"
  by (simp add: unsigned_ucast_eq take_bit_nat_eq_self unat_u32 [THEN less_trans])

lemma subtract_limb:
  fixes l r :: u32 and b :: u64
  assumes "unat b \<le> 1"
  defines "s \<equiv> ucast r + b"
  shows "unat s = unat r + unat b"
    "unat (ucast ((ucast l :: u64) - s) :: u32) + unat s
       = unat l + (if (ucast l :: u64) < s then 2 ^ 32 else 0)"
proof -
  have small: "unat r < 2 ^ 32" "unat l < 2 ^ 32" by (rule unat_u32)+
  show s: "unat s = unat r + unat b"
    unfolding s_def using assms(1) small by (subst unat_add_small) simp_all
  have v: "unat (ucast ((ucast l :: u64) - s) :: u32) = unat ((ucast l :: u64) - s) mod 2 ^ 32"
    by (simp add: unsigned_ucast_eq take_bit_eq_mod)
  show "unat (ucast ((ucast l :: u64) - s) :: u32) + unat s
      = unat l + (if (ucast l :: u64) < s then 2 ^ 32 else 0)"
  proof (cases "(ucast l :: u64) < s")
    case False
    then have "unat ((ucast l :: u64) - s) = unat l - unat s"
      by (simp add: unat_sub not_less)
    moreover have "unat s \<le> unat l" using False by (simp add: word_less_nat_alt)
    ultimately show ?thesis using False small v by simp
  next
    case True
    then have lt: "unat l < unat s" by (simp add: word_less_nat_alt)
    have "unat ((ucast l :: u64) - s) = 2 ^ 64 + unat l - unat s"
      using True lt by (simp add: unat_sub_if_size word_size word_le_nat_alt)
    moreover have "(2 ^ 64 + unat l - unat s) mod 2 ^ 32 = 2 ^ 32 + unat l - unat s"
    proof -
      have "2 ^ 64 + unat l - unat s = (2 ^ 32 + unat l - unat s) + 2 ^ 32 * (2 ^ 32 - 1)"
        using lt small s assms(1) by simp
      moreover have "2 ^ 32 + unat l - unat s < 2 ^ 32" using lt by simp
      ultimately show ?thesis by (metis mod_less mod_mult_self2)
    qed
    ultimately show ?thesis using True lt small s assms(1) v by simp
  qed
qed

lemma subtract_limbs_val:
  assumes "length ls = length rs" "unat b \<le> 1"
  shows "\<exists>b' \<le> 1. fval (subtract_limbs b ls rs) + fval rs + unat b = fval ls + b' * 2 ^ (32 * length rs)"
  using assms
proof (induction b ls rs rule: subtract_limbs.induct)
  case (1 b l ls r rs)
  let ?s = "(ucast r :: u64) + b" and ?l = "ucast l :: u64"
  let ?b = "if ?l < ?s then 1 else 0 :: u64"
  obtain b' where b': "b' \<le> 1"
    "fval (subtract_limbs ?b ls rs) + fval rs + unat ?b = fval ls + b' * 2 ^ (32 * length rs)"
  proof -
    have "length ls = length rs" "unat ?b \<le> 1" using "1.prems"(1) by simp_all
    then show ?thesis using "1.IH" [OF refl refl] that by blast
  qed
  note limb = subtract_limb(1) [OF "1.prems"(2), of r] subtract_limb(2) [OF "1.prems"(2), of l r]
  have e: "unat (ucast (?l - ?s) :: u32) + (unat r + unat b) = unat l + 2 ^ 32 * unat ?b"
    using limb by auto
  have "fval (subtract_limbs b (l # ls) (r # rs)) + fval (r # rs) + unat b
      = unat (ucast (?l - ?s) :: u32) + (unat r + unat b) + 2 ^ 32 * (fval (subtract_limbs ?b ls rs) + fval rs)"
    by (simp add: Let_def algebra_simps)
  also have "\<dots> = unat l + 2 ^ 32 * (fval (subtract_limbs ?b ls rs) + fval rs + unat ?b)"
    unfolding e by (simp only: algebra_simps)
  also have "\<dots> = fval (l # ls) + b' * 2 ^ (32 * length (r # rs))"
    unfolding b'(2) by (simp add: power_add algebra_simps)
  finally show ?case using b'(1) by blast
qed auto

lemma fval_subtract:
  assumes "length ls = 8" "length rs = 8" "fval rs \<le> fval ls"
  shows "fval (subtract ls rs) = fval ls - fval rs"
proof -
  obtain b' where b': "b' \<le> 1" "fval (subtract ls rs) + fval rs = fval ls + b' * 2 ^ 256"
    using subtract_limbs_val [of ls rs 0] assms by (auto simp: subtract_def)
  have "fval (subtract ls rs) < 2 ^ 256"
    using fval_less [of "subtract ls rs"] assms by (simp add: subtract_def)
  then have "b' = 0" using b' assms(3) by (cases "b' = 0") auto
  then show ?thesis using b'(2) by simp
qed

lemma add_limbs_val:
  assumes "length ls = length rs" "unat c \<le> 1"
  shows "fval (fst (add_limbs c ls rs)) + unat (snd (add_limbs c ls rs)) * 2 ^ (32 * length rs)
      = fval ls + fval rs + unat c" "unat (snd (add_limbs c ls rs)) \<le> 1"
proof -
  have "fval (fst (add_limbs c ls rs)) + unat (snd (add_limbs c ls rs)) * 2 ^ (32 * length rs)
      = fval ls + fval rs + unat c \<and> unat (snd (add_limbs c ls rs)) \<le> 1"
    using assms
  proof (induction c ls rs rule: add_limbs.induct)
    case (1 c l ls r rs)
    let ?s = "(ucast l :: u64) + ucast r + c"
    have small: "unat r < 2 ^ 32" "unat l < 2 ^ 32" by (rule unat_u32)+
    have "unat ((ucast l :: u64) + ucast r) = unat l + unat r"
      using small by (subst unat_add_small) simp_all
    then have s: "unat ?s = unat l + unat r + unat c"
      using small "1.prems"(2) by (subst unat_add_small) simp_all
    have d: "unat (drop_bit 32 ?s) = unat ?s div 2 ^ 32"
      using unsigned_less [of ?s, where 'a = nat]
      by (simp add: unsigned_drop_bit_eq drop_bit_eq_div [where 'a = nat] take_bit_nat_eq_self)
    have v: "unat (ucast ?s :: u32) = unat ?s mod 2 ^ 32"
      by (simp add: unsigned_ucast_eq take_bit_eq_mod)
    have c': "unat (drop_bit 32 ?s) \<le> 1" unfolding d s using small "1.prems"(2) by simp
    let ?r = "add_limbs (drop_bit 32 ?s) ls rs"
    have IH: "fval (fst ?r) + unat (snd ?r) * 2 ^ (32 * length rs)
        = fval ls + fval rs + unat (drop_bit 32 ?s)" "unat (snd ?r) \<le> 1"
      using "1.IH" [OF refl _ c'] "1.prems"(1) by auto
    have "fval (fst (add_limbs c (l # ls) (r # rs))) + unat (snd (add_limbs c (l # ls) (r # rs))) * 2 ^ (32 * length (r # rs))
        = unat (ucast ?s :: u32) + 2 ^ 32 * (fval (fst ?r) + unat (snd ?r) * 2 ^ (32 * length rs))"
      by (simp add: Let_def case_prod_beta power_add algebra_simps)
    also have "\<dots> = (unat ?s mod 2 ^ 32 + 2 ^ 32 * (unat ?s div 2 ^ 32)) + 2 ^ 32 * (fval ls + fval rs)"
      unfolding IH(1) v d by (simp only: algebra_simps)
    also have "\<dots> = fval (l # ls) + fval (r # rs) + unat c"
      unfolding mod_mult_div_eq s by simp
    finally show ?case using IH(2) by (simp add: Let_def case_prod_beta)
  qed simp_all
  then show "fval (fst (add_limbs c ls rs)) + unat (snd (add_limbs c ls rs)) * 2 ^ (32 * length rs)
      = fval ls + fval rs + unat c" "unat (snd (add_limbs c ls rs)) \<le> 1" by blast+
qed

section \<open>Arithmetic modulo the prime\<close>

text \<open>\<open>rep f a\<close>: eight limbs that stand for the residue \<open>a\<close>.\<close>

definition rep :: "Field \<Rightarrow> nat \<Rightarrow> bool" where
  "rep f a \<longleftrightarrow> length f = 8 \<and> a < p256 \<and> fval f = a"

lemma compare_reduced: "length f = 8 \<Longrightarrow> compare f kPrime < 0 \<longleftrightarrow> fval f < p256"
  by (simp add: fval_compare fval_kPrime)

lemma rep_add:
  assumes "rep f a" "rep g b"
  shows "rep (add_mod f g) ((a + b) mod p256)"
proof -
  define v c where "v = fst (add_limbs 0 f g)" and "c = unat (snd (add_limbs 0 f g))"
  have len: "length f = 8" "length g = 8" "length v = 8" using assms by (simp_all add: rep_def v_def)
  have sum: "fval v + c * 2 ^ 256 = a + b" "c \<le> 1"
    using add_limbs_val [of f g 0] assms by (auto simp: rep_def v_def c_def)
  have ab: "a < p256" "b < p256" using assms by (simp_all add: rep_def)
  note p = p256_bounds
  have add: "add_mod f g = (if c = 0 \<and> fval v < p256 then v else subtract_limbs 0 v kPrime)"
    using len compare_reduced by (auto simp: add_mod_def Let_def case_prod_beta v_def c_def unat_eq_0)
  show ?thesis
  proof (cases "c = 0 \<and> fval v < p256")
    case True
    then show ?thesis using add sum len by (simp add: rep_def)
  next
    case False
    define d where "d = subtract_limbs 0 v kPrime"
    obtain b' where b': "b' \<le> 1" "fval d + p256 = fval v + b' * 2 ^ 256"
      using subtract_limbs_val [of v kPrime 0] len by (auto simp: fval_kPrime d_def)
    have dl: "length d = 8" using len by (simp add: d_def)
    have dM: "fval d < 2 ^ 256" using fval_less [of d] dl by simp
    have ge: "p256 \<le> a + b" using False sum p by (cases "c = 0") auto
    have "fval d = a + b - p256"
    proof -
      consider "c = b'" | "c = 0" "b' = 1" | "c = 1" "b' = 0" using sum(2) b'(1) by linarith
      then show ?thesis using sum(1) b'(2) dM ge ab p by cases auto
    qed
    moreover have "(a + b) mod p256 = a + b - p256"
      using ge ab by (simp add: mod_if)
    ultimately show ?thesis using add False dl ab by (auto simp: rep_def d_def)
  qed
qed

lemma rep_sub:
  assumes "rep f a" "rep g b"
  shows "rep (sub_mod f g) (nat ((int a - int b) mod int p256))"
proof -
  have len: "length f = 8" "length g = 8" "fval f = a" "fval g = b" and ab: "a < p256" "b < p256"
    using assms by (simp_all add: rep_def)
  have l: "length (subtract x y) = 8" if "length x = 8" "length y = 8" for x y
    using that by (simp add: subtract_def)
  show ?thesis
  proof (cases "b \<le> a")
    case True
    then have "nat ((int a - int b) mod int p256) = a - b" using ab by (simp flip: of_nat_diff zmod_int)
    then show ?thesis using True len ab l fval_subtract [of f g] by (auto simp: rep_def sub_mod_def fval_compare)
  next
    case False
    have "(int a - int b) mod int p256 = (int a - int b + int p256) mod int p256" by simp
    also have "\<dots> = int a - int b + int p256" using False ab by (intro mod_pos_pos_trivial) auto
    finally have "nat ((int a - int b) mod int p256) = p256 - (b - a)" using False ab by linarith
    moreover have "fval (subtract g f) = b - a" using fval_subtract [of g f] len False by simp
    moreover have "fval (subtract kPrime (subtract g f)) = p256 - (b - a)"
      using fval_subtract [of kPrime "subtract g f"] calculation(2) len l ab by (simp add: fval_kPrime)
    ultimately show ?thesis
      using False len l ab by (simp add: rep_def sub_mod_def fval_compare)
  qed
qed

lemma bit_fval_Cons:
  "bit (fval (l # ls)) n \<longleftrightarrow> (if n < 32 then bit l n else bit (fval ls) (n - 32))"
proof -
  have u: "\<not> bit (unat l) m" if "32 \<le> m" for m
    using that by (auto simp: bit_unsigned_iff dest: bit_imp_le_length)
  have "fval (l # ls) = unat l + push_bit 32 (fval ls)" by (simp add: push_bit_eq_mult)
  also have "\<dots> = unat l OR push_bit 32 (fval ls)"
    by (rule disjunctive_add_eq_or, rule bit_eqI) (auto simp: bit_and_iff bit_push_bit_iff_nat u)
  finally show ?thesis
    by (auto simp: bit_or_iff bit_push_bit_iff_nat u bit_unsigned_iff dest: bit_imp_le_length)
qed

lemma bit_fval: "n < 32 * length ls \<Longrightarrow> bit (fval ls) n \<longleftrightarrow> bit (ls ! (n div 32)) (n mod 32)"
proof (induction ls arbitrary: n)
  case Nil
  then show ?case by simp
next
  case (Cons l ls)
  show ?case
  proof (cases "n < 32")
    case True
    then show ?thesis by (simp add: bit_fval_Cons del: fval.simps)
  next
    case False
    then have "n div 32 = Suc ((n - 32) div 32)" "n mod 32 = (n - 32) mod 32"
      by (simp_all add: div_if [of n] mod_if [of n])
    then show ?thesis using False Cons by (simp add: bit_fval_Cons del: fval.simps)
  qed
qed

lemma fval_zero: "fval (replicate n 0) = 0"
  by (induction n) auto

lemma multiply_rounds:
  assumes "rep f a" "length g = 8" "n \<le> 256"
  shows "\<exists>r s. fold (multiply_bit g) [0..<n] (replicate 8 0, f) = (r, s)
    \<and> rep r ((a * take_bit n (fval g)) mod p256) \<and> rep s ((a * 2 ^ (min n 255)) mod p256)"
  using assms(3)
proof (induction n)
  case 0
  then show ?case using assms(1) p256_bounds(1) by (simp add: rep_def fval_zero)
next
  case (Suc n)
  then obtain r s where IH: "fold (multiply_bit g) [0..<n] (replicate 8 0, f) = (r, s)"
    "rep r ((a * take_bit n (fval g)) mod p256)" "rep s ((a * 2 ^ n) mod p256)"
    by (auto simp: min_def)
  have b: "g ! (n div 32) AND push_bit (n mod 32) 1 \<noteq> 0 \<longleftrightarrow> bit (fval g) n"
    using bit_fval [of n g] assms(2) Suc.prems
    by (simp add: push_bit_eq_mult and_exp_eq_0_iff_not_bit)
  have t: "take_bit (Suc n) (fval g) = take_bit n (fval g) + of_bool (bit (fval g) n) * 2 ^ n"
    by (simp add: take_bit_Suc_from_most)
  have "rep (if bit (fval g) n then add_mod r s else r) ((a * take_bit (Suc n) (fval g)) mod p256)"
  proof (cases "bit (fval g) n")
    case True
    have "(a * take_bit n (fval g) mod p256 + a * 2 ^ n mod p256) mod p256 = (a * take_bit (Suc n) (fval g)) mod p256"
      unfolding t using True by (simp only: mod_add_eq distrib_left of_bool_eq mult_1)
    then show ?thesis using rep_add [OF IH(2,3)] True by simp
  next
    case False
    then show ?thesis using IH(2) t by simp
  qed
  moreover have "rep (if n \<noteq> 255 then add_mod s s else s) ((a * 2 ^ (min (Suc n) 255)) mod p256)"
  proof (cases "n = 255")
    case True
    then show ?thesis using IH(3) by simp
  next
    case False
    then have "n < 255" using Suc.prems by simp
    have "(a * 2 ^ n mod p256 + a * 2 ^ n mod p256) mod p256 = (a * 2 ^ Suc n) mod p256"
      by (simp only: mod_add_eq power_Suc mult_2 distrib_left)
    then show ?thesis using rep_add [OF IH(3,3)] \<open>n < 255\<close> by (simp add: min_def)
  qed
  moreover have "multiply_bit g n (r, s) = (if bit (fval g) n then add_mod r s else r, if n \<noteq> 255 then add_mod s s else s)"
    using b by (simp add: multiply_bit_def)
  ultimately show ?case unfolding upt_Suc_append [OF le0] fold_append comp_apply IH(1) by simp
qed

lemma rep_multiply:
  assumes "rep f a" "rep g b"
  shows "rep (multiply_mod f g) ((a * b) mod p256)"
proof -
  have g: "length g = 8" "fval g = b" using assms(2) by (simp_all add: rep_def)
  have "take_bit 256 b = b" using fval_less [of g] g by (simp add: take_bit_nat_eq_self)
  then show ?thesis
    using multiply_rounds [OF assms(1) g(1), of 256] g(2) by (auto simp: multiply_mod_def)
qed

section \<open>Big-endian coordinates\<close>

definition be_nat :: "bytes \<Rightarrow> nat" where
  "be_nat bs = foldl (\<lambda>n b. n * 256 + unat b) 0 bs"

lemma be_nat_simps [simp]: "be_nat [] = 0" "be_nat (bs @ [b]) = be_nat bs * 256 + unat b"
  by (simp_all add: be_nat_def)

lemma be_nat_append: "be_nat (bs @ cs) = be_nat bs * 256 ^ length cs + be_nat cs"
  by (induction cs rule: rev_induct) (simp_all flip: append_assoc add: algebra_simps)

lemma be_nat_less: "be_nat bs < 256 ^ length bs"
proof (induction bs rule: rev_induct)
  case Nil
  then show ?case by simp
next
  case (snoc b bs)
  have "unat b < 256" using unsigned_less [of b, where 'a = nat] by simp
  then show ?case using snoc by simp
qed

lemma unat_load_be:
  assumes "8 * length bs \<le> LENGTH('a::len)"
  shows "unat (load_be bs :: 'a word) = be_nat bs"
  using assms
proof (induction bs rule: rev_induct)
  case Nil
  then show ?case by simp
next
  case (snoc b bs)
  let ?v = "load_be bs :: 'a word"
  have v: "unat ?v = be_nat bs" using snoc by simp
  have small: "be_nat (bs @ [b]) < 2 ^ LENGTH('a)"
  proof -
    have "be_nat (bs @ [b]) < 256 ^ length (bs @ [b])" by (rule be_nat_less)
    also have "\<dots> = 2 ^ (8 * length (bs @ [b]))" by (simp only: power_mult) simp
    also have "\<dots> \<le> 2 ^ LENGTH('a)" using snoc.prems by (intro power_increasing) auto
    finally show ?thesis .
  qed
  have "push_bit 8 ?v AND ucast b = 0"
    by (rule bit_word_eqI) (auto simp: bit_and_iff bit_push_bit_iff bit_unsigned_iff dest: bit_imp_le_length)
  then have "load_be (bs @ [b]) = push_bit 8 ?v + ucast b"
    by (simp add: load_be_snoc disjunctive_add_eq_or)
  also have "\<dots> = of_nat (be_nat (bs @ [b]))"
    by (simp add: push_bit_eq_mult flip: v)
  finally have e: "load_be (bs @ [b]) = (of_nat (be_nat (bs @ [b])) :: 'a word)" .
  show ?case unfolding e unat_of_nat using small by (rule mod_less)
qed

lemma fval_rev_quads:
  "list_all (\<lambda>q. length q = 4) qs \<Longrightarrow> fval (rev (map load_be qs)) = be_nat (concat qs)"
  by (induction qs rule: rev_induct) (auto simp: unat_load_be be_nat_append)

lemma concat_quads: "length bs = 4 * n \<Longrightarrow> concat (map (\<lambda>i. take 4 (drop (4 * i) bs)) [0..<n]) = bs"
proof (induction n arbitrary: bs)
  case 0
  then show ?case by simp
next
  case (Suc n)
  have "concat (map (\<lambda>i. take 4 (drop (4 * i) (take (4 * n) bs))) [0..<n]) = take (4 * n) bs"
    using Suc by simp
  moreover have "take 4 (drop (4 * i) (take (4 * n) bs)) = take 4 (drop (4 * i) bs)" if "i < n" for i
    using that by (simp add: drop_take min_def)
  ultimately have "concat (map (\<lambda>i. take 4 (drop (4 * i) bs)) [0..<n]) = take (4 * n) bs"
    by (metis (no_types, lifting) atLeastLessThan_iff map_cong set_upt)
  then show ?case using Suc.prems by simp
qed

lemma fval_parse_be:
  assumes "length bs = 32"
  shows "length (parse_be bs) = 8" "fval (parse_be bs) = be_nat bs"
proof -
  show "length (parse_be bs) = 8" by (simp add: parse_be_def)
  have limb: "push_bit 24 (ucast a) OR push_bit 16 (ucast b) OR push_bit 8 (ucast c) OR ucast d
      = (load_be [a, b, c, d] :: u32)" for a b c d :: u8
    by (rule bit_word_eqI) (auto simp: load_be_def bit_simps)
  define q where "q i = take 4 (drop (4 * i) bs)" for i
  have quad: "[bs ! (4 * i), bs ! (4 * i + 1), bs ! (4 * i + 2), bs ! (4 * i + 3)] = q i" if "i < 8" for i
  proof (rule nth_equalityI)
    fix j assume "j < length [bs ! (4 * i), bs ! (4 * i + 1), bs ! (4 * i + 2), bs ! (4 * i + 3)]"
    then have "j = 0 \<or> j = 1 \<or> j = 2 \<or> j = 3" by auto
    then show "[bs ! (4 * i), bs ! (4 * i + 1), bs ! (4 * i + 2), bs ! (4 * i + 3)] ! j = q i ! j"
      using that assms by (auto simp: q_def)
  qed (use that assms in \<open>simp add: q_def\<close>)
  have p: "parse_be bs = map (\<lambda>i. load_be (q (7 - i))) [0..<8]"
  proof -
    have "(let offset = 28 - i * 4 in
        push_bit 24 (ucast (bs ! offset)) OR push_bit 16 (ucast (bs ! (offset + 1)))
        OR push_bit 8 (ucast (bs ! (offset + 2))) OR ucast (bs ! (offset + 3))) = (load_be (q (7 - i)) :: u32)"
      if "i < 8" for i
    proof -
      have o: "28 - i * 4 = 4 * (7 - i)" by simp
      show ?thesis unfolding Let_def limb o using quad [of "7 - i"] by simp
    qed
    then show ?thesis by (simp add: parse_be_def)
  qed
  have "rev (map f [0..<8]) = map (\<lambda>i. f (7 - i)) [0..<8]" for f :: "nat \<Rightarrow> u32"
    by (simp add: upt_conv_Cons numeral_eq_Suc)
  then have "parse_be bs = rev (map load_be (map q [0..<8]))" unfolding p map_map comp_def by simp
  moreover have "list_all (\<lambda>q. length q = 4) (map q [0..<8])" using assms by (simp add: q_def list_all_iff)
  ultimately have "fval (parse_be bs) = be_nat (concat (map q [0..<8]))" by (simp only: fval_rev_quads)
  then show "fval (parse_be bs) = be_nat bs" using concat_quads [of bs 8] assms unfolding q_def by simp
qed

section \<open>Property\<close>

text \<open>
  C34: The key check accepts a 65-byte string exactly when it is an uncompressed point of the curve P-256:
  the prefix is 4, both coordinates are below the field prime, and they satisfy the curve equation
  modulo the prime.
\<close>
theorem p256_point_on_curve:
  assumes "length point = 65"
  shows "validate_p256_uncompressed_point (Some point) \<longleftrightarrow>
    (let x = int (be_nat (take 32 (drop 1 point))); y = int (be_nat (drop 33 point)) in
       point ! 0 = 4 \<and> x < int p256 \<and> y < int p256
       \<and> y ^ 2 mod int p256 = (x ^ 3 - 3 * x + int b256) mod int p256)"
proof -
  define x y where "x = be_nat (take 32 (drop 1 point))" and "y = be_nat (drop 33 point)"
  let ?X = "parse_be (drop 1 point)" and ?Y = "parse_be (drop 33 point)"
  have X: "length ?X = 8" "fval ?X = x" 
  proof -
    have "parse_be (drop 1 point) = parse_be (take 32 (drop 1 point))"
      using assms by (simp add: parse_be_def)
    then show "length ?X = 8" "fval ?X = x"
      using fval_parse_be [of "take 32 (drop 1 point)"] assms by (simp_all add: x_def)
  qed
  have Y: "length ?Y = 8" "fval ?Y = y"
    using fval_parse_be [of "drop 33 point"] assms by (simp_all add: y_def)
  show ?thesis
  proof (cases "point ! 0 = 4 \<and> x < p256 \<and> y < p256")
    case False
    then show ?thesis
      using X Y unfolding validate_p256_uncompressed_point_def option.case Let_def x_def [symmetric] y_def [symmetric]
      by (auto simp: fval_compare fval_kPrime)
  next
    case True
    then have reps: "rep ?X x" "rep ?Y y" using X Y by (simp_all add: rep_def)
    have b: "rep kB b256" by (simp add: rep_def p256_bounds fval_kB)
    define l r where "l = multiply_mod ?Y ?Y"
      and "r = add_mod (sub_mod (multiply_mod (multiply_mod ?X ?X) ?X) (add_mod (add_mod ?X ?X) ?X)) kB"
    have L: "rep l ((y * y) mod p256)" unfolding l_def by (intro rep_multiply reps)
    obtain c where R: "rep r c" and c: "int c = (int x ^ 3 - 3 * int x + int b256) mod int p256"
    proof (rule that)
      let ?s = "nat ((int ((x * x mod p256) * x mod p256) - int (((x + x) mod p256 + x) mod p256)) mod int p256)"
      show "rep r ((?s + b256) mod p256)"
        unfolding r_def by (intro rep_add rep_sub rep_multiply reps b)
      have p: "0 < int p256" using p256_bounds by simp
      have "int ((?s + b256) mod p256) = (int ?s + int b256) mod int p256" by (simp add: zmod_int)
      also have "int ?s = (int ((x * x mod p256) * x mod p256) - int (((x + x) mod p256 + x) mod p256)) mod int p256"
        using p by simp
      also have "((int ((x * x mod p256) * x mod p256) - int (((x + x) mod p256 + x) mod p256)) mod int p256 + int b256) mod int p256
          = (int x * int x * int x - (int x + int x + int x) + int b256) mod int p256"
        by (simp add: zmod_int mod_simps)
      also have "int x * int x * int x - (int x + int x + int x) = int x ^ 3 - 3 * int x"
        by (simp add: power3_eq_cube)
      finally show "int ((?s + b256) mod p256) = (int x ^ 3 - 3 * int x + int b256) mod int p256" .
    qed
    have "validate_p256_uncompressed_point (Some point) \<longleftrightarrow> compare l r = 0"
      using True X Y unfolding validate_p256_uncompressed_point_def option.case Let_def l_def r_def
      by (simp add: fval_compare fval_kPrime)
    also have "\<dots> \<longleftrightarrow> int ((y * y) mod p256) = int c"
      using L R by (simp add: rep_def fval_compare)
    finally show ?thesis
      using True unfolding c Let_def x_def [symmetric] y_def [symmetric] by (simp add: zmod_int power2_eq_square)
  qed
qed

text \<open>The base point of the curve.\<close>

definition base_point :: bytes where
  "base_point = 4 # [107, 23, 209, 242, 225, 44, 66, 71, 248, 188, 230, 229, 99, 164, 64, 242,
    119, 3, 125, 129, 45, 235, 51, 160, 244, 161, 57, 69, 216, 152, 194, 150,
    79, 227, 66, 226, 254, 26, 127, 155, 142, 231, 235, 74, 124, 15, 158, 22,
    43, 206, 51, 87, 107, 49, 94, 206, 203, 182, 64, 104, 55, 191, 81, 245]"

theorem p256_point_on_curve_witness:
  "validate_p256_uncompressed_point (Some base_point)"
proof -
  have len: "length base_point = 65" by (simp add: base_point_def)
  have "base_point ! 0 = 4" "be_nat (take 32 (drop 1 base_point)) = 0x6b17d1f2e12c4247f8bce6e563a440f277037d812deb33a0f4a13945d898c296"
    "be_nat (drop 33 base_point) = 0x4fe342e2fe1a7f9b8ee7eb4a7c0f9e162bce33576b315ececbb6406837bf51f5"
    by (simp_all add: base_point_def be_nat_def)
  then show ?thesis
    unfolding p256_point_on_curve [OF len] Let_def by (simp add: p256_def b256_def)
qed

end
