(* ===== verification/Session_Codec.thy ===== *)
theory Session_Codec
  imports Fly_Sha256 P256_Point
begin

unbundle bit_operations_syntax

text \<open>
  The validator of wire objects, \<^verbatim>\<open>shared/src/session/wire/session_codec.{hpp,cpp}\<close>. \<open>check\<close>
  dispatches on a type name, validates the exact bytes and writes a hash. A result is the status
  with the hash written through the output pointer, \<open>None\<close> where nothing is written; a hash may be
  written before a later test fails. An absent name or buffer is \<open>None\<close>, an absent output a false
  flag. Byte positions are natural numbers, and every access follows the length test of the code.
\<close>

datatype Status =
    Wire_Ok | Wire_Truncated | Wire_Trailing | Wire_UnknownEnum | Wire_NonzeroReserved | Wire_BadLength
  | Wire_UnknownKind | Wire_UnknownCriticalTag | Wire_InvalidField

datatype QuicChannel =
    Chan_Control | Chan_Input | Chan_StateCommit | Chan_Bulk | Chan_Rom | Chan_Video | Chan_Audio

type_synonym checked = "Status \<times> bytes option"

section \<open>Helpers\<close>

definition be16 :: "bytes \<Rightarrow> nat \<Rightarrow> u16" where
  "be16 bs off = load_be (take 2 (drop off bs))"

definition be32 :: "bytes \<Rightarrow> nat \<Rightarrow> u32" where
  "be32 bs off = load_be (take 4 (drop off bs))"

definition be64 :: "bytes \<Rightarrow> nat \<Rightarrow> u64" where
  "be64 bs off = load_be (take 8 (drop off bs))"

definition zeros :: "bytes \<Rightarrow> nat \<Rightarrow> nat \<Rightarrow> bool" where
  "zeros bs off n = list_all (\<lambda>b. b = 0) (take n (drop off bs))"

text \<open>\<open>memcmp a b < 0\<close> for buffers of the same size.\<close>

fun bytes_less :: "bytes \<Rightarrow> bytes \<Rightarrow> bool" where
  "bytes_less (a # as) (b # bs) = (a < b \<or> (a = b \<and> bytes_less as bs))"
| "bytes_less _ _ = False"

definition p256_order :: bytes where
  "p256_order = [0xff, 0xff, 0xff, 0xff, 0x00, 0x00, 0x00, 0x00, 0xff, 0xff, 0xff, 0xff, 0xff, 0xff, 0xff,
    0xff, 0xbc, 0xe6, 0xfa, 0xad, 0xa7, 0x17, 0x9e, 0x84, 0xf3, 0xb9, 0xca, 0xc2, 0xfc, 0x63, 0x25, 0x51]"

definition p256_half_order :: bytes where
  "p256_half_order = [0x7f, 0xff, 0xff, 0xff, 0x80, 0x00, 0x00, 0x00, 0x7f, 0xff, 0xff, 0xff, 0xff, 0xff,
    0xff, 0xff, 0xde, 0x73, 0x7d, 0x56, 0xd3, 0x8b, 0xcf, 0x42, 0x79, 0xdc, 0xe5, 0x61, 0x7e, 0x31, 0x92,
    0xa8]"

definition canonical_p256_low_s :: "bytes \<Rightarrow> nat \<Rightarrow> bool" where
  "canonical_p256_low_s bs off =
     (let r = take 32 (drop off bs); s = take 32 (drop (off + 32) bs)
      in \<not> zeros bs off 32 \<and> bytes_less r p256_order \<and> \<not> zeros bs (off + 32) 32
         \<and> (bytes_less s p256_half_order \<or> s = p256_half_order))"

definition validate_identity_verifier_ref :: "bytes \<Rightarrow> nat \<Rightarrow> Status" where
  "validate_identity_verifier_ref bs off =
     (if be16 bs off \<noteq> 1 then Wire_InvalidField
      else if \<not> zeros bs (off + 2) 6 \<or> \<not> zeros bs (off + 105) 7 then Wire_NonzeroReserved
      else if \<not> validate_p256_uncompressed_point (Some (take 65 (drop (off + 40) bs))) then Wire_InvalidField
      else
        let key_id = domain_hash ''flynes-identity-key-id-v1'' (take 65 (drop (off + 40) bs))
        in if take 32 (drop (off + 8) bs) = key_id then Wire_Ok else Wire_InvalidField)"

definition validate_session_signing_binding :: "bytes \<Rightarrow> Status" where
  "validate_session_signing_binding bs =
     (if zeros bs 8 32 \<or> zeros bs 40 16 then Wire_InvalidField
      else if \<not> zeros bs 57 7 \<or> \<not> zeros bs 241 7 then Wire_NonzeroReserved
      else
        let identity = validate_identity_verifier_ref bs 64
        in if identity \<noteq> Wire_Ok then identity
           else if \<not> validate_p256_uncompressed_point (Some (take 65 (drop 176 bs)))
              \<or> take 65 (drop 104 bs) = take 65 (drop 176 bs) \<or> \<not> canonical_p256_low_s bs 248
           then Wire_InvalidField
           else Wire_Ok)"

definition length_status :: "nat \<Rightarrow> nat \<Rightarrow> Status" where
  "length_status size0 expected =
     (if size0 = expected then Wire_Ok else if size0 < expected then Wire_Truncated else Wire_Trailing)"

definition write_hash :: "string \<Rightarrow> bytes \<Rightarrow> bytes" where
  "write_hash domain bs = (if domain \<noteq> [] then domain_hash domain bs else sha256 bs)"

definition require_version_reserved :: "bytes \<Rightarrow> Status" where
  "require_version_reserved bs =
     (if length bs < 8 then Wire_Truncated
      else if be16 bs 0 \<noteq> 1 then Wire_InvalidField
      else if \<not> zeros bs 2 6 then Wire_NonzeroReserved
      else Wire_Ok)"

section \<open>Validators\<close>

fun check_enums :: "bytes \<Rightarrow> (nat \<times> u8) list \<Rightarrow> Status" where
  "check_enums bs [] = Wire_Ok"
| "check_enums bs ((off, enum_max) # enums) =
     (if off \<ge> length bs then Wire_InvalidField
      else if bs ! off < 1 \<or> bs ! off > enum_max then Wire_UnknownEnum
      else check_enums bs enums)"

definition check_fixed :: "bytes \<Rightarrow> nat \<Rightarrow> string \<Rightarrow> (nat \<times> u8) list \<Rightarrow> checked" where
  "check_fixed bs expected domain enums =
     (if length_status (length bs) expected \<noteq> Wire_Ok then (length_status (length bs) expected, None)
      else if require_version_reserved bs \<noteq> Wire_Ok then (require_version_reserved bs, None)
      else if check_enums bs enums \<noteq> Wire_Ok then (check_enums bs enums, None)
      else (Wire_Ok, Some (write_hash domain bs)))"

definition check_pending_config_confirm :: "bytes \<Rightarrow> checked" where
  "check_pending_config_confirm bs =
     (if length_status (length bs) 44 \<noteq> Wire_Ok then (length_status (length bs) 44, None)
      else if be16 bs 0 \<noteq> 1 then (Wire_InvalidField, None)
      else if \<not> zeros bs 2 2 then (Wire_NonzeroReserved, None)
      else if zeros bs 4 32 then (Wire_InvalidField, None)
      else if be64 bs 36 = 0 then (Wire_InvalidField, None)
      else (Wire_Ok, Some (write_hash ''flynes-pending-config-confirm-v1'' bs)))"

definition check_frame_cursor :: "bytes \<Rightarrow> checked" where
  "check_frame_cursor bs =
     (if length_status (length bs) 16 \<noteq> Wire_Ok then (length_status (length bs) 16, None)
      else if bs ! 0 > 1 then (Wire_UnknownEnum, None)
      else if \<not> zeros bs 1 7 then (Wire_NonzeroReserved, None)
      else if bs ! 0 = 0 \<and> \<not> zeros bs 8 8 then (Wire_InvalidField, None)
      else (Wire_Ok, Some (write_hash [] bs)))"

definition check_evidence :: "bytes \<Rightarrow> checked" where
  "check_evidence bs =
     (if bs = [] then (Wire_Truncated, None)
      else if bs ! 0 > 1 then (Wire_UnknownEnum, None)
      else
        let ls = length_status (length bs) (if bs ! 0 = 0 then 8 else 64)
        in if ls \<noteq> Wire_Ok then (ls, None)
           else if \<not> zeros bs 1 7 then (Wire_NonzeroReserved, None)
           else if bs ! 0 = 1 \<and> fst (check_frame_cursor (take 16 (drop 16 bs))) \<noteq> Wire_Ok
           then check_frame_cursor (take 16 (drop 16 bs))
           else (Wire_Ok, Some (write_hash [] bs)))"

text \<open>The test of one port slot of a canonical input bundle.\<close>

definition check_slot :: "bytes \<Rightarrow> nat \<Rightarrow> Status" where
  "check_slot bs port =
     (let slot = drop (90 + port * 16) bs;
          source = slot ! 0;
          reason = slot ! 1
      in if source < 1 \<or> source > 7 then Wire_UnknownEnum
         else if reason > 4 then Wire_UnknownEnum
         else if slot ! 2 \<noteq> 0 \<or> slot ! 3 \<noteq> 0 then Wire_NonzeroReserved
         else if drop_bit port (bs ! 82) AND 1 \<noteq> (if source = 5 then 1 else 0) then Wire_InvalidField
         else
           let buttons = be32 slot 4
           in if buttons AND 0xFFFFFF00 \<noteq> 0 then Wire_InvalidField
              else if buttons AND 0x30 = 0x30 \<or> buttons AND 0xC0 = 0xC0 then Wire_InvalidField
              else Wire_Ok)"

fun first_bad :: "Status list \<Rightarrow> Status" where
  "first_bad [] = Wire_Ok"
| "first_bad (st # sts) = (if st \<noteq> Wire_Ok then st else first_bad sts)"

definition bundle_hash :: "bytes \<Rightarrow> bytes" where
  "bundle_hash bs =
     sha256 ([0x10] @ ascii ''flynes-input-bundle-v1'' @ store_be 4 (of_nat (length bs) :: u64) @ bs)"

definition check_bundle :: "bytes \<Rightarrow> checked" where
  "check_bundle bs =
     (if length_status (length bs) 154 \<noteq> Wire_Ok then (length_status (length bs) 154, None)
      else if be16 bs 0 \<noteq> 1 then (Wire_InvalidField, None)
      else if \<not> zeros bs 83 7 then (Wire_NonzeroReserved, None)
      else if bs ! 82 AND 0xF0 \<noteq> 0 then (Wire_InvalidField, None)
      else
        let st = first_bad (map (check_slot bs) [0..<4])
        in if st \<noteq> Wire_Ok then (st, None) else (Wire_Ok, Some (bundle_hash bs)))"

definition check_channel_bind :: "bytes \<Rightarrow> checked" where
  "check_channel_bind bs =
     (if length_status (length bs) 136 \<noteq> Wire_Ok then (length_status (length bs) 136, None)
      else if require_version_reserved bs \<noteq> Wire_Ok then (require_version_reserved bs, None)
      else
        let kind = bs ! 8
        in if kind < 1 \<or> kind > 3 then (Wire_UnknownEnum, None)
           else if \<not> zeros bs 9 7 then (Wire_NonzeroReserved, None)
           else if kind = 1 \<and> (\<not> zeros bs 64 32 \<or> \<not> zeros bs 96 8
                  \<or> take 16 (drop 120 bs)
                    \<noteq> take 16 (sha256 (ascii ''flynes-initial-bind-v1'' @ take 32 (drop 16 bs))))
           then (Wire_InvalidField, None)
           else (Wire_Ok, Some (write_hash [] bs)))"

text \<open>The entries of an end package: \<open>prev\<close> is the tag before, and the loop counts down the entries.
  The result is the offset after the last entry.\<close>

fun end_entries :: "bytes \<Rightarrow> nat \<Rightarrow> nat \<Rightarrow> u16 \<Rightarrow> Status + nat" where
  "end_entries bs 0 offset prev = Inr offset"
| "end_entries bs (Suc n) offset prev =
     (if offset + 6 > length bs then Inl Wire_Truncated
      else
        let tag = be16 bs offset; len = unat (be32 bs (offset + 2))
        in if tag < 1 \<or> tag > 23 then Inl Wire_UnknownCriticalTag
           else if tag \<le> prev then Inl Wire_InvalidField
           else if offset + 6 + len > length bs then Inl Wire_Truncated
           else end_entries bs n (offset + 6 + len) tag)"

definition check_end_package :: "bytes \<Rightarrow> checked" where
  "check_end_package bs =
     (if length bs < 4 then (Wire_Truncated, None)
      else if be16 bs 0 \<noteq> 1 then (Wire_InvalidField, None)
      else case end_entries bs (unat (be16 bs 2)) 4 0 of
             Inl st \<Rightarrow> (st, None)
           | Inr offset \<Rightarrow>
               if offset < length bs then (Wire_Trailing, None)
               else (Wire_Ok, Some (write_hash ''flynes-end-package-v1'' bs)))"

definition check_counted :: "bytes \<Rightarrow> nat \<Rightarrow> nat \<Rightarrow> nat \<Rightarrow> nat \<Rightarrow> string \<Rightarrow> checked" where
  "check_counted bs header entry count_off max_count domain =
     (if length bs < header then (Wire_Truncated, None)
      else if require_version_reserved bs \<noteq> Wire_Ok then (require_version_reserved bs, None)
      else
        let n = unat (be32 bs count_off)
        in if n > max_count then (Wire_InvalidField, None)
           else if length_status (length bs) (header + entry * n) \<noteq> Wire_Ok
           then (length_status (length bs) (header + entry * n), None)
           else (Wire_Ok, Some (write_hash domain bs)))"

definition encode_frame_cursor :: "u8 \<Rightarrow> u64 \<Rightarrow> bool \<Rightarrow> bool \<Rightarrow> Status \<times> bytes option" where
  "encode_frame_cursor kind index out written =
     (if \<not> out \<or> \<not> written then (Wire_InvalidField, None)
      else if kind > 1 then (Wire_UnknownEnum, None)
      else if kind = 0 \<and> index \<noteq> 0 then (Wire_InvalidField, None)
      else (Wire_Ok, Some ([kind] @ replicate 7 0 @ store_be 8 index)))"

section \<open>Dispatch\<close>

record FixedKind =
  fk_name :: string
  fk_length :: nat
  fk_domain :: string
  fk_enum :: "(nat \<times> u8) option"

definition fixed_kind :: "string \<Rightarrow> nat \<Rightarrow> string \<Rightarrow> (nat \<times> u8) option \<Rightarrow> FixedKind" where
  "fixed_kind name0 len domain enum0 =
     \<lparr>fk_name = name0, fk_length = len, fk_domain = domain, fk_enum = enum0\<rparr>"

definition kFixed :: "FixedKind list" where
  "kFixed = [
    fixed_kind ''0x0201'' 232 ''flynes-dual-run-fence-v1'' (Some (81, 2)),
    fixed_kind ''0x0202'' 120 ''flynes-input-sequence-ledger-v1'' None,
    fixed_kind ''0x0203'' 144 ''flynes-input-sequence-reservation-v1'' (Some (25, 4)),
    fixed_kind ''0x0205'' 144 ''flynes-reconnect-deadline-record-v1'' None,
    fixed_kind ''0x0206'' 272 ''flynes-preprepare-terminal-evidence-v1'' (Some (264, 4)),
    fixed_kind ''0x0207'' 344 ''flynes-terminal-recovery-evidence-v1'' (Some (328, 8)),
    fixed_kind ''0x0208'' 192 ''flynes-opaque-recovery-failure-evidence-v1'' (Some (176, 8)),
    fixed_kind ''0x0209'' 112 ''flynes-identity-verifier-ref-v1'' None,
    fixed_kind ''0x020a'' 312 ''flynes-input-sequence-reserve-grant-v1'' None,
    fixed_kind ''0x020b'' 192 ''flynes-input-sequence-reserve-ack-v1'' None,
    fixed_kind ''0x020c'' 248 ''flynes-input-sequence-reserve-finalized-v1'' None,
    fixed_kind ''0x020d'' 184 ''flynes-input-sequence-reserve-req-v1'' (Some (25, 4)),
    fixed_kind ''0x020e'' 240 ''flynes-prime-authorization-v1'' (Some (8, 4)),
    fixed_kind ''0x020f'' 296 ''flynes-epoch-input-close-certificate-v1'' (Some (65, 3)),
    fixed_kind ''0x0210'' 240 ''flynes-suspend-intent-v1'' None,
    fixed_kind ''0x0211'' 336 ''flynes-input-range-authorization-v1'' (Some (8, 3)),
    fixed_kind ''0x0212'' 312 ''flynes-session-signing-key-binding-hash-v1'' (Some (56, 2)),
    fixed_kind ''0x0213'' 880 ''flynes-pair-transcript-object-v1'' (Some (8, 2)),
    fixed_kind ''0x0216'' 488 ''flynes-link-hello-object-v1'' (Some (10, 2)),
    fixed_kind ''0x0217'' 432 ''flynes-link-ready-object-v1'' (Some (10, 2)),
    fixed_kind ''0x0301'' 312 ''flynes-offline-release-certificate-hash-v1'' None,
    fixed_kind ''0x0303'' 392 ''flynes-save-commit-certificate-hash-v1'' None,
    fixed_kind ''0x0304'' 208 ''flynes-save-commit-decision-v1'' (Some (24, 2)),
    fixed_kind ''0x0305'' 400 ''flynes-save-publication-certificate-hash-v1'' (Some (296, 2)),
    fixed_kind ''0x0307'' 360 ''flynes-end-commit-decision-v1'' (Some (352, 3)),
    fixed_kind ''0x0308'' 392 ''flynes-end-commit-certificate-hash-v1'' None]"

text \<open>What follows the fixed checks for two of the kinds; the hash has been written by then.\<close>

definition identity_key_matches :: "bytes \<Rightarrow> Status" where
  "identity_key_matches bs =
     (if bs ! 40 \<noteq> 0x04 then Wire_InvalidField
      else
        let key_id = sha256 (ascii ''flynes-identity-key-id-v1'' @ [0, 0, 0, 65] @ take 65 (drop 40 bs))
        in if take 32 (drop 8 bs) \<noteq> key_id then Wire_InvalidField else Wire_Ok)"

definition check_fixed_kind :: "string \<Rightarrow> bytes \<Rightarrow> checked" where
  "check_fixed_kind name0 bs =
     (case find (\<lambda>kind. fk_name kind = name0) kFixed of
        None \<Rightarrow> (Wire_UnknownKind, None)
      | Some kind \<Rightarrow>
          (case check_fixed bs (fk_length kind) (fk_domain kind)
                  (case fk_enum kind of None \<Rightarrow> [] | Some e \<Rightarrow> [e]) of
             (fixed, hash) \<Rightarrow>
               if fixed \<noteq> Wire_Ok then (fixed, hash)
               else if name0 = ''0x0212'' then (validate_session_signing_binding bs, hash)
               else if name0 \<noteq> ''0x0209'' then (Wire_Ok, hash)
               else (identity_key_matches bs, hash)))"

definition check_named :: "string \<Rightarrow> bytes \<Rightarrow> checked" where
  "check_named name0 bs =
     (if name0 = ''FrameCursorV1'' then check_frame_cursor bs
      else if name0 = ''EvidenceCursorV1'' then check_evidence bs
      else if name0 = ''CanonicalInputBundleV1'' then check_bundle bs
      else if name0 = ''ChannelBindV1'' then check_channel_bind bs
      else if name0 = ''ChannelResumeSummaryV1''
      then check_fixed bs 176 ''flynes-channel-resume-summary-v1'' [(88, 2)]
      else if name0 = ''0x0306'' then check_end_package bs
      else if name0 = ''0x010f'' then check_counted bs 220 36 216 32 ''flynes-end-closure-manifest-v1''
      else if name0 = ''0x0110'' then check_counted bs 80 40 72 1024 ''flynes-published-save-index-v1''
      else if name0 = ''0x0112'' then check_counted bs 104 184 96 8 ''flynes-open-input-reservation-set-v1''
      else if name0 = ''0x000b''
      then (if length_status (length bs) 245760 \<noteq> Wire_Ok then (length_status (length bs) 245760, None)
            else (Wire_Ok, Some (write_hash [] bs)))
      else if name0 = ''0x0218'' then check_pending_config_confirm bs
      else check_fixed_kind name0 bs)"

definition check :: "string option \<Rightarrow> bytes option \<Rightarrow> bool \<Rightarrow> checked" where
  "check type_name input out =
     (case (type_name, input) of
        (Some name0, Some bs) \<Rightarrow> if \<not> out then (Wire_InvalidField, None) else check_named name0 bs
      | _ \<Rightarrow> (Wire_InvalidField, None))"

end
