(* ===== verification/App_Frame.thy ===== *)
theory App_Frame
  imports Session_Codec
begin

unbundle bit_operations_syntax

text \<open>
  Framing of application channels, \<^verbatim>\<open>shared/src/session/wire/app_frame.{hpp,cpp}\<close>: the table of
  frame tags, the types each channel allows, and the codec of records
  \<open>u32be length, u16be tag, object bytes\<close>. A record decodes at the front of a buffer and a cursor moves
  over a stream of records. The hash of a record binds channel and tag. A null buffer of nonzero size is
  \<open>None\<close>, an output pointer a flag.
\<close>

section \<open>Type table\<close>

datatype FrameTypeNamespace = Namespace_ObjectKind | Namespace_Message

definition message_tag_base :: u16 where "message_tag_base = 0xFF00"

definition kFrameTags :: "(u16 \<times> FrameTypeNamespace \<times> string) list" where
  "kFrameTags = [
    (0x0001, Namespace_ObjectKind, ''0x0001''), (0x0002, Namespace_ObjectKind, ''0x0002''),
    (0x0003, Namespace_ObjectKind, ''0x0003''), (0x0004, Namespace_ObjectKind, ''0x0004''),
    (0x0005, Namespace_ObjectKind, ''0x0005''), (0x0006, Namespace_ObjectKind, ''0x0006''),
    (0x0007, Namespace_ObjectKind, ''0x0007''), (0x0008, Namespace_ObjectKind, ''0x0008''),
    (0x0009, Namespace_ObjectKind, ''0x0009''), (0x000A, Namespace_ObjectKind, ''0x000a''),
    (0x000B, Namespace_ObjectKind, ''0x000b''), (0x000C, Namespace_ObjectKind, ''0x000c''),
    (0x000D, Namespace_ObjectKind, ''0x000d''), (0x000E, Namespace_ObjectKind, ''0x000e''),
    (0x0101, Namespace_ObjectKind, ''0x0101''), (0x0102, Namespace_ObjectKind, ''0x0102''),
    (0x0103, Namespace_ObjectKind, ''0x0103''), (0x0104, Namespace_ObjectKind, ''0x0104''),
    (0x0105, Namespace_ObjectKind, ''0x0105''), (0x0106, Namespace_ObjectKind, ''0x0106''),
    (0x0107, Namespace_ObjectKind, ''0x0107''), (0x0108, Namespace_ObjectKind, ''0x0108''),
    (0x0109, Namespace_ObjectKind, ''0x0109''), (0x010A, Namespace_ObjectKind, ''0x010a''),
    (0x010B, Namespace_ObjectKind, ''0x010b''), (0x010C, Namespace_ObjectKind, ''0x010c''),
    (0x010D, Namespace_ObjectKind, ''0x010d''), (0x010E, Namespace_ObjectKind, ''0x010e''),
    (0x010F, Namespace_ObjectKind, ''0x010f''), (0x0110, Namespace_ObjectKind, ''0x0110''),
    (0x0111, Namespace_ObjectKind, ''0x0111''), (0x0112, Namespace_ObjectKind, ''0x0112''),
    (0x0201, Namespace_ObjectKind, ''0x0201''), (0x0202, Namespace_ObjectKind, ''0x0202''),
    (0x0203, Namespace_ObjectKind, ''0x0203''), (0x0204, Namespace_ObjectKind, ''0x0204''),
    (0x0205, Namespace_ObjectKind, ''0x0205''), (0x0206, Namespace_ObjectKind, ''0x0206''),
    (0x0207, Namespace_ObjectKind, ''0x0207''), (0x0208, Namespace_ObjectKind, ''0x0208''),
    (0x0209, Namespace_ObjectKind, ''0x0209''), (0x020A, Namespace_ObjectKind, ''0x020a''),
    (0x020B, Namespace_ObjectKind, ''0x020b''), (0x020C, Namespace_ObjectKind, ''0x020c''),
    (0x020D, Namespace_ObjectKind, ''0x020d''), (0x020E, Namespace_ObjectKind, ''0x020e''),
    (0x020F, Namespace_ObjectKind, ''0x020f''), (0x0210, Namespace_ObjectKind, ''0x0210''),
    (0x0211, Namespace_ObjectKind, ''0x0211''), (0x0212, Namespace_ObjectKind, ''0x0212''),
    (0x0213, Namespace_ObjectKind, ''0x0213''), (0x0216, Namespace_ObjectKind, ''0x0216''),
    (0x0217, Namespace_ObjectKind, ''0x0217''), (0x0218, Namespace_ObjectKind, ''0x0218''),
    (0x0301, Namespace_ObjectKind, ''0x0301''), (0x0302, Namespace_ObjectKind, ''0x0302''),
    (0x0303, Namespace_ObjectKind, ''0x0303''), (0x0304, Namespace_ObjectKind, ''0x0304''),
    (0x0305, Namespace_ObjectKind, ''0x0305''), (0x0306, Namespace_ObjectKind, ''0x0306''),
    (0x0307, Namespace_ObjectKind, ''0x0307''), (0x0308, Namespace_ObjectKind, ''0x0308''),
    (0xFF00, Namespace_Message, ''FrameCursorV1''), (0xFF01, Namespace_Message, ''EvidenceCursorV1''),
    (0xFF02, Namespace_Message, ''CanonicalInputBundleV1''), (0xFF03, Namespace_Message, ''ChannelBindV1''),
    (0xFF04, Namespace_Message, ''ChannelBindProofV1''), (0xFF05, Namespace_Message, ''ChannelResumeSummaryV1''),
    (0xFF06, Namespace_Message, ''LinkHelloV1''), (0xFF07, Namespace_Message, ''LinkReadyV1'')]"

definition frame_tag_info :: "u16 \<Rightarrow> (FrameTypeNamespace \<times> string) option" where
  "frame_tag_info frame_type_tag = map_option snd (find (\<lambda>entry. fst entry = frame_type_tag) kFrameTags)"

definition type_name_for_tag :: "u16 \<Rightarrow> string option" where
  "type_name_for_tag frame_type_tag = map_option snd (frame_tag_info frame_type_tag)"

definition frame_tag_count :: nat where "frame_tag_count = length kFrameTags"

definition frame_tag_entry :: "nat \<Rightarrow> (u16 \<times> FrameTypeNamespace \<times> string) option" where
  "frame_tag_entry index = (if index \<ge> frame_tag_count then None else Some (kFrameTags ! index))"

section \<open>Channels\<close>

definition kControlTypes :: "string list" where
  "kControlTypes = [''0x0210'', ''0x0212'', ''0x0216'', ''0x0217'', ''0x0218'']"

definition kStateCommitTypes :: "string list" where
  "kStateCommitTypes = [''0x0112'', ''0x0202'', ''0x0203'', ''0x020A'', ''0x020B'', ''0x020C'', ''0x020D'',
    ''0x020E'', ''0x020F'', ''0x0211'', ''CanonicalInputBundleV1'']"

definition kBulkTypes :: "string list" where
  "kBulkTypes = [''0x000b'']"

fun allow_list_for :: "QuicChannel \<Rightarrow> string list" where
  "allow_list_for Chan_Control = kControlTypes"
| "allow_list_for Chan_Input = []"
| "allow_list_for Chan_StateCommit = kStateCommitTypes"
| "allow_list_for Chan_Bulk = kBulkTypes"
| "allow_list_for Chan_Rom = []"
| "allow_list_for Chan_Video = []"
| "allow_list_for Chan_Audio = []"

definition allow_list_has_type :: "string list \<Rightarrow> string option \<Rightarrow> bool" where
  "allow_list_has_type types type_name =
     (case type_name of None \<Rightarrow> False | Some name0 \<Rightarrow> list_ex (\<lambda>t. t = name0) types)"

definition tag_is_legal_on :: "QuicChannel \<Rightarrow> u16 \<Rightarrow> bool" where
  "tag_is_legal_on channel frame_type_tag =
     allow_list_has_type (allow_list_for channel) (type_name_for_tag frame_type_tag)"

definition type_name_is_legal_on :: "QuicChannel \<Rightarrow> string option \<Rightarrow> bool" where
  "type_name_is_legal_on channel type_name = allow_list_has_type (allow_list_for channel) type_name"

definition allowed_type_count :: "QuicChannel \<Rightarrow> nat" where
  "allowed_type_count channel = length (allow_list_for channel)"

fun max_object_bytes :: "QuicChannel \<Rightarrow> nat" where
  "max_object_bytes Chan_Control = 65536"
| "max_object_bytes Chan_Input = 1200"
| "max_object_bytes Chan_StateCommit = 65536"
| "max_object_bytes Chan_Bulk = 245760"
| "max_object_bytes Chan_Rom = 65536"
| "max_object_bytes Chan_Video = 1200"
| "max_object_bytes Chan_Audio = 1200"

definition absolute_max_object_bytes :: nat where "absolute_max_object_bytes = 245760"

fun channel_byte :: "QuicChannel \<Rightarrow> u8" where
  "channel_byte Chan_Control = 1"
| "channel_byte Chan_Input = 2"
| "channel_byte Chan_StateCommit = 3"
| "channel_byte Chan_Bulk = 4"
| "channel_byte Chan_Rom = 5"
| "channel_byte Chan_Video = 6"
| "channel_byte Chan_Audio = 7"

section \<open>Records\<close>

record AppFrame =
  af_frame_type_tag :: u16
  af_type_namespace :: FrameTypeNamespace
  af_type_name :: string
  af_object_bytes :: bytes
  af_frame_length :: u32
  af_object_hash :: bytes
  af_app_frame_hash :: "bytes option"

definition app_frame_preimage :: "QuicChannel \<Rightarrow> u16 \<Rightarrow> bytes \<Rightarrow> bytes" where
  "app_frame_preimage channel frame_type_tag object0 =
     ascii ''flynes-app-frame-v1'' @ [channel_byte channel] @ store_be 2 frame_type_tag
     @ store_be 4 (of_nat (length object0) :: u64) @ object0"

definition compute_app_frame_hash :: "QuicChannel \<Rightarrow> u16 \<Rightarrow> bytes \<Rightarrow> bytes" where
  "compute_app_frame_hash channel frame_type_tag object0 =
     sha256 (app_frame_preimage channel frame_type_tag object0)"

text \<open>\<open>decode_record\<close> returns the frame with the number of bytes consumed; the context is the channel,
  where one is known.\<close>

definition decode_record :: "QuicChannel option \<Rightarrow> bytes \<Rightarrow> Status + AppFrame \<times> nat" where
  "decode_record context bs =
     (let max_body = (case context of None \<Rightarrow> absolute_max_object_bytes | Some c \<Rightarrow> max_object_bytes c)
      in if length bs < 4 then Inl Wire_Truncated
         else
           let declared = be32 bs 0
           in if declared < 2 then Inl Wire_BadLength
              else
                let body_size = unat declared - 2; total = 4 + unat declared
                in if body_size > max_body then Inl Wire_BadLength
                   else if total > length bs then Inl Wire_Truncated
                   else
                     let tag = be16 bs 4
                     in case frame_tag_info tag of
                          None \<Rightarrow> Inl Wire_UnknownKind
                        | Some (type_namespace, type_name) \<Rightarrow>
                            if (case context of None \<Rightarrow> False
                                | Some c \<Rightarrow> \<not> allow_list_has_type (allow_list_for c) (Some type_name))
                            then Inl Wire_InvalidField
                            else
                              let object0 = take body_size (drop 6 bs)
                              in case check (Some type_name) (Some object0) True of
                                   (status, hash) \<Rightarrow>
                                     if status \<noteq> Wire_Ok then Inl status
                                     else Inr (\<lparr>af_frame_type_tag = tag,
                                       af_type_namespace = type_namespace, af_type_name = type_name,
                                       af_object_bytes = object0, af_frame_length = declared,
                                       af_object_hash = (case hash of None \<Rightarrow> replicate 32 0 | Some h \<Rightarrow> h),
                                       af_app_frame_hash = map_option
                                         (\<lambda>c. compute_app_frame_hash c tag object0) context\<rparr>, total))"

definition identify_app_frame :: "bytes option \<Rightarrow> bool \<Rightarrow> Status + AppFrame" where
  "identify_app_frame input out =
     (case input of
        None \<Rightarrow> Inl Wire_InvalidField
      | Some bs \<Rightarrow>
          if \<not> out then Inl Wire_InvalidField
          else case decode_record None bs of
                 Inl status \<Rightarrow> Inl status
               | Inr (af, consumed) \<Rightarrow> if consumed \<noteq> length bs then Inl Wire_Trailing else Inr af)"

definition parse_app_frame :: "QuicChannel \<Rightarrow> bytes option \<Rightarrow> bool \<Rightarrow> Status + AppFrame" where
  "parse_app_frame channel input out =
     (case input of
        None \<Rightarrow> Inl Wire_InvalidField
      | Some bs \<Rightarrow>
          if \<not> out then Inl Wire_InvalidField
          else case decode_record (Some channel) bs of
                 Inl status \<Rightarrow> Inl status
               | Inr (af, consumed) \<Rightarrow> if consumed \<noteq> length bs then Inl Wire_Trailing else Inr af)"

record AppFrameCursor =
  cur_channel :: QuicChannel
  cur_bytes :: bytes
  cur_offset :: nat

definition app_frame_cursor :: "QuicChannel \<Rightarrow> bytes \<Rightarrow> AppFrameCursor" where
  "app_frame_cursor channel bs = \<lparr>cur_channel = channel, cur_bytes = bs, cur_offset = 0\<rparr>"

definition next_app_frame :: "AppFrameCursor \<Rightarrow> (Status \<times> AppFrame option) \<times> AppFrameCursor" where
  "next_app_frame cursor =
     (if cur_offset cursor > length (cur_bytes cursor) then ((Wire_Truncated, None), cursor)
      else if cur_offset cursor = length (cur_bytes cursor) then ((Wire_Ok, None), cursor)
      else case decode_record (Some (cur_channel cursor)) (drop (cur_offset cursor) (cur_bytes cursor)) of
             Inl status \<Rightarrow> ((status, None), cursor)
           | Inr (af, consumed) \<Rightarrow>
               ((Wire_Ok, Some af), cursor\<lparr>cur_offset := cur_offset cursor + consumed\<rparr>))"

definition encode_app_frame ::
  "u16 \<Rightarrow> bytes option \<Rightarrow> bool \<Rightarrow> nat \<Rightarrow> bool \<Rightarrow> Status \<times> bytes option" where
  "encode_app_frame frame_type_tag input out out_capacity written =
     (if \<not> out \<or> \<not> written then (Wire_InvalidField, None)
      else case input of
             None \<Rightarrow> (Wire_InvalidField, None)
           | Some object0 \<Rightarrow>
               if type_name_for_tag frame_type_tag = None then (Wire_UnknownKind, None)
               else if length object0 > absolute_max_object_bytes then (Wire_BadLength, None)
               else
                 let total = 6 + length object0
                 in if out_capacity < total then (Wire_Truncated, None)
                    else (Wire_Ok, Some (store_be 4 (of_nat (2 + length object0) :: u32)
                                           @ store_be 2 frame_type_tag @ object0)))"

end
