(* ===== verification/Input_Wire.thy ===== *)
theory Input_Wire
  imports Canonical_Input Session_Codec
begin

unbundle bit_operations_syntax

text \<open>
  The canonical input unit on the wire, \<^verbatim>\<open>shared/src/session/dual/canonical_input_wire.{hpp,cpp}\<close>: the
  154-byte record of a bundle. The record carries facts of the session the bundle does not have (the
  wire context) and leaves out seat and owner, which the receiver supplies. A source kind and a clear
  reason are bytes, as any byte is a value of their enumerations.
\<close>

section \<open>Model\<close>

definition kDualInputWireBytesV1 :: nat where "kDualInputWireBytesV1 = 154"

definition RealSample :: u8 where "RealSample = 1"
definition Predicted :: u8 where "Predicted = 5"
definition NoClear :: u8 where "NoClear = 0"

record DualInputWireContextV1 =
  wc_authority_term :: u64
  wc_mode_generation :: u64
  wc_batch_sequence :: u64
  wc_source_kind :: "u8 list"
  wc_clear_reason :: "u8 list"
  wc_stated :: "bool list"

datatype DualInputWireStatusV1 =
  InputWire_InvalidArgument | InputWire_InvalidBundle | InputWire_InvalidBytes | InputWire_InvalidContext

definition source_kind_is_known :: "u8 \<Rightarrow> bool" where
  "source_kind_is_known v = (v \<ge> 1 \<and> v \<le> 7)"

definition port_predicted :: "DualInputBundleV1 \<Rightarrow> nat \<Rightarrow> bool" where
  "port_predicted bundle port = (bnd_predicted_port_mask bundle AND push_bit port 1 \<noteq> 0)"

text \<open>The kind and reason of a port: stated by the context, or derived from the prediction marker.\<close>

definition slot_kind :: "DualInputBundleV1 \<Rightarrow> DualInputWireContextV1 \<Rightarrow> nat \<Rightarrow> u8" where
  "slot_kind bundle ctx port =
     (if wc_stated ctx ! port then wc_source_kind ctx ! port
      else if port_predicted bundle port then Predicted else RealSample)"

definition slot_reason :: "DualInputWireContextV1 \<Rightarrow> nat \<Rightarrow> u8" where
  "slot_reason ctx port = (if wc_stated ctx ! port then wc_clear_reason ctx ! port else NoClear)"

definition encode_slot ::
  "DualInputBundleV1 \<Rightarrow> DualInputWireContextV1 \<Rightarrow> nat \<Rightarrow> DualInputWireStatusV1 + bytes" where
  "encode_slot bundle ctx port =
     (let kind = slot_kind bundle ctx port;
          reason = slot_reason ctx port;
          raw = smp_mask (bnd_ports bundle ! port)
      in if wc_stated ctx ! port \<and> port_predicted bundle port \<noteq> (kind = Predicted)
         then Inl InputWire_InvalidContext
         else if \<not> source_kind_is_known kind then Inl InputWire_InvalidContext
         else if reason > 4 then Inl InputWire_InvalidContext
         else if raw AND NOT kDualFullPortMaskV1 \<noteq> 0 then Inl InputWire_InvalidBundle
         else if normalize_dual_port_mask_v1 raw \<noteq> raw then Inl InputWire_InvalidBundle
         else Inr ([kind, reason, 0, 0] @ store_be 4 (normalize_dual_port_mask_v1 raw)
                     @ store_be 8 (smp_input_sequence (bnd_ports bundle ! port))))"

text \<open>The loop over the ports: the mask of predicted ports and the slots written so far.\<close>

fun encode_slots :: "DualInputBundleV1 \<Rightarrow> DualInputWireContextV1 \<Rightarrow> nat list \<Rightarrow> u32
    \<Rightarrow> DualInputWireStatusV1 + u32 \<times> bytes" where
  "encode_slots bundle ctx [] predicted_mask = Inr (predicted_mask, [])"
| "encode_slots bundle ctx (port # ports) predicted_mask =
     (case encode_slot bundle ctx port of
        Inl st \<Rightarrow> Inl st
      | Inr slot \<Rightarrow>
          (case encode_slots bundle ctx ports
                  (if slot_kind bundle ctx port = Predicted then predicted_mask OR push_bit port 1
                   else predicted_mask) of
             Inl st \<Rightarrow> Inl st
           | Inr (pm, slots) \<Rightarrow> Inr (pm, slot @ slots)))"

definition wire_header :: "DualInputKeyV1 \<Rightarrow> DualInputWireContextV1 \<Rightarrow> u8 \<Rightarrow> bytes" where
  "wire_header key ctx pm =
     store_be 2 (1 :: u16) @ key_session_id key @ key_branch_id key
     @ store_be 8 (wc_authority_term ctx) @ store_be 8 (key_timeline_epoch key)
     @ store_be 8 (key_seat_revision key) @ store_be 8 (wc_mode_generation ctx)
     @ store_be 8 (key_frame_index key) @ store_be 8 (wc_batch_sequence ctx) @ [pm] @ replicate 7 0"

definition encode_dual_input_bundle_v1 ::
  "DualInputBundleV1 \<Rightarrow> DualInputWireContextV1 \<Rightarrow> bool \<Rightarrow> DualInputWireStatusV1 + bytes" where
  "encode_dual_input_bundle_v1 bundle ctx out =
     (if \<not> out then Inl InputWire_InvalidArgument
      else if \<not> canonical_input_is_canonical_v1 bundle then Inl InputWire_InvalidBundle
      else if wc_authority_term ctx = 0 \<or> wc_mode_generation ctx = 0 \<or> wc_batch_sequence ctx = 0
      then Inl InputWire_InvalidContext
      else case encode_slots bundle ctx [0..<kDualPortCountV1] 0 of
             Inl st \<Rightarrow> Inl st
           | Inr (pm, slots) \<Rightarrow>
               let bs = wire_header (bnd_key bundle) ctx (ucast pm) @ slots
               in if fst (check (Some ''CanonicalInputBundleV1'') (Some bs) True) \<noteq> Wire_Ok
                  then Inl InputWire_InvalidBundle
                  else Inr bs)"

definition decode_port :: "bytes \<Rightarrow> nat \<Rightarrow> DualPortSampleV1" where
  "decode_port bs port =
     (let slot = drop (90 + port * 16) bs
      in \<lparr>smp_mask = be32 slot 4, smp_input_sequence = be64 slot 8\<rparr>)"

definition decode_predicted :: "bytes \<Rightarrow> u32" where
  "decode_predicted bs =
     foldl (\<lambda>m port. if bs ! (90 + port * 16) = Predicted then m OR push_bit port 1 else m) 0
       [0..<kDualPortCountV1]"

definition decode_dual_input_bundle_v1 ::
  "bytes option \<Rightarrow> u8 \<Rightarrow> bytes \<Rightarrow> bool \<Rightarrow> DualInputWireStatusV1 + DualInputBundleV1" where
  "decode_dual_input_bundle_v1 input logical_seat owner_signing_key_id out =
     (case input of
        None \<Rightarrow> Inl InputWire_InvalidArgument
      | Some bs \<Rightarrow>
          if \<not> out \<or> length bs \<noteq> kDualInputWireBytesV1 then Inl InputWire_InvalidArgument
          else if unat logical_seat \<ge> kDualPortCountV1 then Inl InputWire_InvalidArgument
          else if fst (check (Some ''CanonicalInputBundleV1'') (Some bs) True) \<noteq> Wire_Ok
          then Inl InputWire_InvalidBytes
          else
            let bundle = \<lparr>bnd_key = \<lparr>key_session_id = take 16 (drop 2 bs), key_branch_id = take 16 (drop 18 bs),
                             key_timeline_epoch = be64 bs 42, key_frame_index = be64 bs 66,
                             key_seat_revision = be64 bs 50\<rparr>,
                          bnd_logical_seat = logical_seat, bnd_reserved_zero0 = [0, 0, 0],
                          bnd_predicted_port_mask = decode_predicted bs,
                          bnd_ports = map (decode_port bs) [0..<kDualPortCountV1],
                          bnd_owner_signing_key_id = owner_signing_key_id\<rparr>
            in if \<not> canonical_input_is_canonical_v1 bundle then Inl InputWire_InvalidBytes
               else Inr bundle)"

section \<open>Slots\<close>

definition slot_bytes :: "u8 \<Rightarrow> u8 \<Rightarrow> DualPortSampleV1 \<Rightarrow> bytes" where
  "slot_bytes kind reason sample =
     [kind, reason, 0, 0] @ store_be 4 (smp_mask sample) @ store_be 8 (smp_input_sequence sample)"

definition record_of :: "DualInputKeyV1 \<Rightarrow> DualInputWireContextV1 \<Rightarrow> u8 \<Rightarrow> (nat \<Rightarrow> u8) \<Rightarrow> (nat \<Rightarrow> u8)
    \<Rightarrow> (nat \<Rightarrow> DualPortSampleV1) \<Rightarrow> bytes" where
  "record_of key ctx pm kind reason sample =
     wire_header key ctx pm @ concat (map (\<lambda>p. slot_bytes (kind p) (reason p) (sample p)) [0, 1, 2, 3])"

lemma length_slot [simp]: "length (slot_bytes k r s) = 16"
  by (simp add: slot_bytes_def)

lemma length_header [simp]: "key_shape key \<Longrightarrow> length (wire_header key ctx pm) = 90"
  by (simp add: wire_header_def key_shape_def)

lemma less_four: "p < 4 \<longleftrightarrow> p = 0 \<or> p = 1 \<or> p = 2 \<or> p = (3 :: nat)"
  by auto

lemma drop_record:
  assumes "key_shape key" "p < 4"
  shows "\<exists>rest. drop (90 + p * 16) (record_of key ctx pm kind reason sample)
    = slot_bytes (kind p) (reason p) (sample p) @ rest"
proof -
  let ?f = "\<lambda>p. slot_bytes (kind p) (reason p) (sample p)"
  have "drop (90 + p * 16) (record_of key ctx pm kind reason sample) = drop (p * 16) (concat (map ?f [0, 1, 2, 3]))"
    unfolding record_of_def drop_append length_header [OF assms(1)] diff_add_inverse
    by (subst drop_all) (simp_all add: length_header [OF assms(1)] del: concat.simps list.map)
  also have "\<dots> = ?f p @ concat (map ?f (drop (Suc p) [0, 1, 2, 3]))"
  proof -
    consider "p = 0" | "p = 1" | "p = 2" | "p = 3" using assms(2) by linarith
    then show ?thesis by cases simp_all
  qed
  finally show ?thesis by (rule exI)
qed

lemma record_header:
  fixes ctx :: DualInputWireContextV1 and pm :: u8 and kind reason :: "nat \<Rightarrow> u8"
    and sample :: "nat \<Rightarrow> DualPortSampleV1"
  assumes "key_shape key"
  defines "bs \<equiv> record_of key ctx pm kind reason sample"
  shows "length bs = 154" "be16 bs 0 = 1" "zeros bs 83 7" "bs ! 82 = pm"
    "take 16 (drop 2 bs) = key_session_id key" "take 16 (drop 18 bs) = key_branch_id key"
    "be64 bs 34 = wc_authority_term ctx" "be64 bs 42 = key_timeline_epoch key"
    "be64 bs 50 = key_seat_revision key" "be64 bs 58 = wc_mode_generation ctx"
    "be64 bs 66 = key_frame_index key" "be64 bs 74 = wc_batch_sequence ctx"
proof -
  define slots where "slots = concat (map (\<lambda>p. slot_bytes (kind p) (reason p) (sample p)) [0, 1, 2, 3])"
  have len: "length (key_session_id key) = 16" "length (key_branch_id key) = 16" "length slots = 64"
    using assms(1) by (simp_all add: key_shape_def slots_def)
  have bs: "bs = store_be 2 (1 :: u16) @ key_session_id key @ key_branch_id key
     @ store_be 8 (wc_authority_term ctx) @ store_be 8 (key_timeline_epoch key)
     @ store_be 8 (key_seat_revision key) @ store_be 8 (wc_mode_generation ctx)
     @ store_be 8 (key_frame_index key) @ store_be 8 (wc_batch_sequence ctx) @ [pm] @ replicate 7 0 @ slots"
    by (simp add: bs_def record_of_def wire_header_def slots_def)
  show "length bs = 154" "be16 bs 0 = 1" "take 16 (drop 2 bs) = key_session_id key"
    "take 16 (drop 18 bs) = key_branch_id key"
    "be64 bs 34 = wc_authority_term ctx" "be64 bs 42 = key_timeline_epoch key"
    "be64 bs 50 = key_seat_revision key" "be64 bs 58 = wc_mode_generation ctx"
    "be64 bs 66 = key_frame_index key" "be64 bs 74 = wc_batch_sequence ctx"
    by (simp_all add: bs len be16_def be64_def load_store_be_full)
  have d: "drop 82 bs = pm # replicate 7 0 @ slots" by (simp add: bs len)
  show "bs ! 82 = pm" using d len by (metis hd_drop_conv_nth list.sel(1) bs_def length_drop list.distinct(1)
      drop_eq_Nil2 not_le)
  have "drop 83 bs = replicate 7 0 @ slots" by (simp add: bs len)
  then show "zeros bs 83 7" by (simp add: zeros_def list_all_iff)
qed

lemma record_slot:
  fixes ctx :: DualInputWireContextV1 and pm :: u8 and kind reason :: "nat \<Rightarrow> u8"
    and sample :: "nat \<Rightarrow> DualPortSampleV1"
  assumes "key_shape key" "p < 4"
  defines "slot \<equiv> drop (90 + p * 16) (record_of key ctx pm kind reason sample)"
  shows "slot ! 0 = kind p" "slot ! 1 = reason p" "slot ! 2 = 0" "slot ! 3 = 0"
    "be32 slot 4 = smp_mask (sample p)" "be64 slot 8 = smp_input_sequence (sample p)"
proof -
  obtain rest where slot: "slot = slot_bytes (kind p) (reason p) (sample p) @ rest"
    using drop_record [OF assms(1,2)] unfolding slot_def by blast
  show "slot ! 0 = kind p" "slot ! 1 = reason p" "slot ! 2 = 0" "slot ! 3 = 0"
    "be32 slot 4 = smp_mask (sample p)" "be64 slot 8 = smp_input_sequence (sample p)"
    by (simp_all add: slot slot_bytes_def be32_def be64_def load_store_be_full)
qed

section \<open>Masks\<close>

lemma drop_bit_and_one: "drop_bit p (w :: 'a::len word) AND 1 = (if bit w p then 1 else 0)"
  by (simp add: and_one_eq bit_iff_odd_drop_bit odd_iff_mod_2_eq_one)

lemma button_tests:
  "buttons AND 0xFFFFFF00 = 0 \<and> \<not> (buttons AND 0x30 = 0x30 \<or> buttons AND 0xC0 = 0xC0) \<longleftrightarrow> legal_pad_mask buttons"
proof -
  have n: "(0xFFFFFF00 :: u32) = NOT kDualFullPortMaskV1" by (simp add: kDualFullPortMaskV1_def)
  have two: "buttons AND (2 ^ a OR 2 ^ b) = 2 ^ a OR 2 ^ b \<longleftrightarrow> bit buttons a \<and> bit buttons b"
    if "a < 32" "b < 32" for a b
    using that by (auto simp: bit_eq_iff [where 'a = u32] bit_and_iff bit_or_iff bit_exp_iff)
  have "(0x30 :: u32) = 2 ^ 4 OR 2 ^ 5" "(0xC0 :: u32) = 2 ^ 6 OR 2 ^ 7" by simp_all
  then show ?thesis
    using two [of 4 5] two [of 6 7] unfolding legal_pad_mask_def n by simp
qed

text \<open>The mask built from the kinds of the four ports.\<close>

definition kinds_mask :: "(nat \<Rightarrow> u8) \<Rightarrow> u32" where
  "kinds_mask kind = foldl (\<lambda>m port. if kind port = Predicted then m OR push_bit port 1 else m) 0 [0, 1, 2, 3]"

lemma bit_port_mask:
  "bit (foldl (\<lambda>m port. if k port then m OR push_bit port 1 else m) (m0 :: u32) ps) n
    \<longleftrightarrow> bit m0 n \<or> (n < 32 \<and> n \<in> set ps \<and> k n)"
proof (induction ps arbitrary: m0)
  case Nil
  then show ?case by simp
next
  case (Cons p ps)
  show ?case unfolding foldl.simps Cons by (auto simp: bit_or_iff bit_exp_iff)
qed

lemma bit_kinds_mask: "bit (kinds_mask kind) p \<longleftrightarrow> p < 4 \<and> kind p = Predicted"
  unfolding kinds_mask_def bit_port_mask by (auto simp: less_four)

lemma kinds_mask_small: "ucast (kinds_mask kind) AND (0xF0 :: u8) = 0"
  by (rule bit_word_eqI) (auto simp: bit_and_iff bit_unsigned_iff bit_kinds_mask less_four intro!: gr0I)

section \<open>The validator on records\<close>

lemma first_bad_Ok: "first_bad sts = Wire_Ok \<longleftrightarrow> list_all (\<lambda>st. st = Wire_Ok) sts"
  by (induction sts) auto

definition slot_ok :: "u8 \<Rightarrow> u8 \<Rightarrow> DualPortSampleV1 \<Rightarrow> bool" where
  "slot_ok kind reason sample \<longleftrightarrow> source_kind_is_known kind \<and> reason \<le> 4 \<and> legal_pad_mask (smp_mask sample)"

lemma one_le_byte: "(1 :: u8) \<le> x \<longleftrightarrow> x \<noteq> 0"
  by (simp add: linorder_not_less [symmetric])

lemma check_slot_Ok:
  "check_slot bs p = Wire_Ok \<longleftrightarrow>
     (let slot = drop (90 + p * 16) bs in
        slot_ok (slot ! 0) (slot ! 1) \<lparr>smp_mask = be32 slot 4, smp_input_sequence = be64 slot 8\<rparr>
        \<and> slot ! 2 = 0 \<and> slot ! 3 = 0 \<and> (bit (bs ! 82) p \<longleftrightarrow> slot ! 0 = Predicted))"
  using button_tests [of "be32 (drop (90 + p * 16) bs) 4"]
  by (auto simp: check_slot_def slot_ok_def source_kind_is_known_def Let_def drop_bit_and_one Predicted_def
      not_less one_le_byte split: if_splits)

lemma check_bundle_Ok:
  "fst (check (Some ''CanonicalInputBundleV1'') (Some bs) True) = Wire_Ok \<longleftrightarrow>
     length bs = 154 \<and> be16 bs 0 = 1 \<and> zeros bs 83 7 \<and> bs ! 82 AND 0xF0 = 0
     \<and> (\<forall>p < 4. check_slot bs p = Wire_Ok)"
proof -
  have "first_bad (map (check_slot bs) [0..<4]) = Wire_Ok \<longleftrightarrow> (\<forall>p < 4. check_slot bs p = Wire_Ok)"
    by (auto simp: first_bad_Ok list_all_iff)
  then show ?thesis
    by (auto simp: check_def check_named_def check_bundle_def length_status_def Let_def)
qed

lemma check_record:
  assumes "key_shape key" "\<And>p. p < 4 \<Longrightarrow> slot_ok (kind p) (reason p) (sample p)"
  shows "fst (check (Some ''CanonicalInputBundleV1'')
    (Some (record_of key ctx (ucast (kinds_mask kind)) kind reason sample)) True) = Wire_Ok"
  unfolding check_bundle_Ok check_slot_Ok Let_def
  using record_header(1-4) [OF assms(1)] record_slot [OF assms(1)] assms(2) kinds_mask_small
  by (auto simp: bit_unsigned_iff bit_kinds_mask slot_ok_def)

section \<open>Encoding and decoding\<close>

text \<open>A context the encoder accepts for a bundle.\<close>

definition context_ok :: "DualInputBundleV1 \<Rightarrow> DualInputWireContextV1 \<Rightarrow> bool" where
  "context_ok b ctx \<longleftrightarrow>
     wc_authority_term ctx \<noteq> 0 \<and> wc_mode_generation ctx \<noteq> 0 \<and> wc_batch_sequence ctx \<noteq> 0
     \<and> (\<forall>p < 4. source_kind_is_known (slot_kind b ctx p) \<and> slot_reason ctx p \<le> 4
          \<and> (port_predicted b p \<longleftrightarrow> slot_kind b ctx p = Predicted))"

lemma port_predicted_bit: "p < 32 \<Longrightarrow> port_predicted b p \<longleftrightarrow> bit (bnd_predicted_port_mask b) p"
  by (simp add: port_predicted_def push_bit_eq_mult and_exp_eq_0_iff_not_bit)

lemma slot_kind_unstated:
  "\<not> wc_stated ctx ! p \<Longrightarrow> source_kind_is_known (slot_kind b ctx p) \<and> slot_reason ctx p \<le> 4
     \<and> (port_predicted b p \<longleftrightarrow> slot_kind b ctx p = Predicted)"
  by (simp add: slot_kind_def slot_reason_def source_kind_is_known_def Predicted_def RealSample_def NoClear_def)

lemma encode_slot_Inr:
  assumes "canonical_input_is_canonical_v1 b" "p < 4"
  shows "encode_slot b ctx p =
    (if source_kind_is_known (slot_kind b ctx p) \<and> slot_reason ctx p \<le> 4
        \<and> (port_predicted b p \<longleftrightarrow> slot_kind b ctx p = Predicted)
     then Inr (slot_bytes (slot_kind b ctx p) (slot_reason ctx p) (bnd_ports b ! p))
     else Inl InputWire_InvalidContext)"
proof -
  have legal: "legal_pad_mask (smp_mask (bnd_ports b ! p))" by (rule canonical_portD(2) [OF assms])
  then have "smp_mask (bnd_ports b ! p) AND NOT kDualFullPortMaskV1 = 0"
    "normalize_dual_port_mask_v1 (smp_mask (bnd_ports b ! p)) = smp_mask (bnd_ports b ! p)"
    by (simp_all add: normalize_id) (simp add: legal_pad_mask_def)
  then show ?thesis
    using slot_kind_unstated [of ctx p b]
    by (auto simp: encode_slot_def slot_bytes_def Let_def not_less)
qed

definition port_ok :: "DualInputBundleV1 \<Rightarrow> DualInputWireContextV1 \<Rightarrow> nat \<Rightarrow> bool" where
  "port_ok b ctx p \<longleftrightarrow> source_kind_is_known (slot_kind b ctx p) \<and> slot_reason ctx p \<le> 4
     \<and> (port_predicted b p \<longleftrightarrow> slot_kind b ctx p = Predicted)"

lemma encode_slots_eq:
  assumes "canonical_input_is_canonical_v1 b" "set ps \<subseteq> {..<4}"
  shows "encode_slots b ctx ps m =
    (if \<forall>p \<in> set ps. port_ok b ctx p
     then Inr (foldl (\<lambda>m p. if slot_kind b ctx p = Predicted then m OR push_bit p 1 else m) m ps,
        concat (map (\<lambda>p. slot_bytes (slot_kind b ctx p) (slot_reason ctx p) (bnd_ports b ! p)) ps))
     else Inl InputWire_InvalidContext)"
  using assms(2)
proof (induction ps arbitrary: m)
  case Nil
  then show ?case by simp
next
  case (Cons p ps)
  then have p: "p < 4" and ps: "set ps \<subseteq> {..<4}" by auto
  show ?case
    unfolding encode_slots.simps encode_slot_Inr [OF assms(1) p] Cons.IH [OF ps] port_ok_def [symmetric]
    by simp
qed

lemma encode_bundle_Inr:
  assumes "bundle_shape b" "canonical_input_is_canonical_v1 b"
  shows "encode_dual_input_bundle_v1 b ctx True = Inr bs \<longleftrightarrow>
    context_ok b ctx \<and> bs = record_of (bnd_key b) ctx (ucast (kinds_mask (slot_kind b ctx)))
      (slot_kind b ctx) (slot_reason ctx) (\<lambda>p. bnd_ports b ! p)"
proof -
  let ?k = "slot_kind b ctx" and ?r = "slot_reason ctx" and ?s = "\<lambda>p. bnd_ports b ! p"
  let ?rec = "record_of (bnd_key b) ctx (ucast (kinds_mask ?k)) ?k ?r ?s"
  have shape: "key_shape (bnd_key b)" using assms(1) by (simp add: bundle_shape_def)
  have set4: "set [0, 1, 2, 3] \<subseteq> {..<4::nat}" by auto
  have all4: "(\<forall>p \<in> set [0, 1, 2, 3]. P p) \<longleftrightarrow> (\<forall>p < 4. P p)" for P :: "nat \<Rightarrow> bool"
    by (auto simp: less_four)
  note slots = encode_slots_eq [OF assms(2) set4, of ctx 0, unfolded all4, folded kinds_mask_def]
  have checked: "fst (check (Some ''CanonicalInputBundleV1'') (Some ?rec) True) = Wire_Ok" if "context_ok b ctx"
    using that canonical_portD(2) [OF assms(2)]
    by (intro check_record [OF shape]) (auto simp: slot_ok_def context_ok_def)
  have ctx: "context_ok b ctx \<longleftrightarrow> wc_authority_term ctx \<noteq> 0 \<and> wc_mode_generation ctx \<noteq> 0
      \<and> wc_batch_sequence ctx \<noteq> 0 \<and> (\<forall>p < 4. port_ok b ctx p)"
    by (auto simp: context_ok_def port_ok_def)
  show ?thesis
  proof (cases "context_ok b ctx")
    case True
    then show ?thesis
      using checked [OF True] assms(2)
      unfolding encode_dual_input_bundle_v1_def upt_four slots ctx record_of_def Let_def by auto
  next
    case False
    then show ?thesis
      unfolding encode_dual_input_bundle_v1_def upt_four slots ctx by auto
  qed
qed

section \<open>Every accepted record is an encoding\<close>

text \<open>\<open>pieces\<close> cuts a buffer into consecutive windows.\<close>

fun pieces :: "nat \<Rightarrow> nat list \<Rightarrow> bytes \<Rightarrow> bytes" where
  "pieces off [] bs = []"
| "pieces off (n # ns) bs = take n (drop off bs) @ pieces (off + n) ns bs"

lemma pieces_eq: "pieces off ns bs = take (sum_list ns) (drop off bs)"
  by (induction ns arbitrary: off) (simp_all add: take_add add.commute)

lemma windows:
  "off + 2 \<le> length bs \<Longrightarrow> take 2 (drop off bs) = store_be 2 (be16 bs off)"
  "off + 4 \<le> length bs \<Longrightarrow> take 4 (drop off bs) = store_be 4 (be32 bs off)"
  "off + 8 \<le> length bs \<Longrightarrow> take 8 (drop off bs) = store_be 8 (be64 bs off)"
  using store_load_be [of "take 2 (drop off bs)", where 'a = 16] store_load_be [of "take 4 (drop off bs)", where 'a = 32]
    store_load_be [of "take 8 (drop off bs)", where 'a = 64]
  by (simp_all add: be16_def be32_def be64_def min_absorb2)

lemma take_zeros: "\<lbrakk>zeros bs off n; off + n \<le> length bs\<rbrakk> \<Longrightarrow> take n (drop off bs) = replicate n 0"
  by (intro replicate_eqI) (auto simp: zeros_def list_all_iff)

lemma take_1: "off < length bs \<Longrightarrow> take (Suc 0) (drop off bs) = [bs ! off]"
  by (simp add: take_Suc hd_drop_conv_nth)

definition raw_kind :: "bytes \<Rightarrow> nat \<Rightarrow> u8" where "raw_kind bs p = bs ! (90 + p * 16)"
definition raw_reason :: "bytes \<Rightarrow> nat \<Rightarrow> u8" where "raw_reason bs p = bs ! (91 + p * 16)"

text \<open>The context a received record states.\<close>

definition raw_context :: "bytes \<Rightarrow> DualInputWireContextV1" where
  "raw_context bs = \<lparr>wc_authority_term = be64 bs 34, wc_mode_generation = be64 bs 58,
     wc_batch_sequence = be64 bs 74, wc_source_kind = map (raw_kind bs) [0, 1, 2, 3],
     wc_clear_reason = map (raw_reason bs) [0, 1, 2, 3], wc_stated = [True, True, True, True]\<rparr>"

definition raw_key :: "bytes \<Rightarrow> DualInputKeyV1" where
  "raw_key bs = \<lparr>key_session_id = take 16 (drop 2 bs), key_branch_id = take 16 (drop 18 bs),
     key_timeline_epoch = be64 bs 42, key_frame_index = be64 bs 66, key_seat_revision = be64 bs 50\<rparr>"

lemma check_slot_facts:
  assumes "check_slot bs p = Wire_Ok" "length bs = 154" "p < 4"
  shows "slot_ok (raw_kind bs p) (raw_reason bs p) (decode_port bs p)" "bs ! (92 + p * 16) = 0" "bs ! (93 + p * 16) = 0"
    "bit (bs ! 82) p \<longleftrightarrow> raw_kind bs p = Predicted"
proof -
  have nth: "drop (90 + p * 16) bs ! i = bs ! (90 + p * 16 + i)" for i using assms(2,3) by simp
  show "slot_ok (raw_kind bs p) (raw_reason bs p) (decode_port bs p)" "bs ! (92 + p * 16) = 0" "bs ! (93 + p * 16) = 0"
    "bit (bs ! 82) p \<longleftrightarrow> raw_kind bs p = Predicted"
    using assms(1) unfolding check_slot_Ok Let_def nth
    by (simp_all add: raw_kind_def raw_reason_def decode_port_def Let_def)
qed

lemma predicted_byte:
  fixes bs :: bytes
  assumes "bs ! 82 AND 0xF0 = 0" "\<And>p. p < 4 \<Longrightarrow> bit (bs ! 82) p \<longleftrightarrow> kind p = Predicted"
  shows "bs ! 82 = ucast (kinds_mask kind)"
proof (rule bit_word_eqI)
  fix n assume n: "n < LENGTH(8)"
  show "bit (bs ! 82) n \<longleftrightarrow> bit (ucast (kinds_mask kind) :: u8) n"
  proof (cases "n < 4")
    case True
    then show ?thesis using assms(2) by (simp add: bit_unsigned_iff bit_kinds_mask)
  next
    case False
    have "\<not> bit (bs ! 82 AND 0xF0) n" using assms(1) by simp
    moreover have "bit (0xF0 :: u8) n" using False n
      by (cases "n = 4 \<or> n = 5 \<or> n = 6 \<or> n = 7") auto
    ultimately show ?thesis using False by (simp add: bit_and_iff bit_unsigned_iff bit_kinds_mask)
  qed
qed

lemma checked_record:
  assumes "fst (check (Some ''CanonicalInputBundleV1'') (Some bs) True) = Wire_Ok"
  shows "bs = record_of (raw_key bs) (raw_context bs) (ucast (kinds_mask (raw_kind bs))) (raw_kind bs) (raw_reason bs)
    (decode_port bs)"
proof -
  have len: "length bs = 154" and ver: "be16 bs 0 = 1" and z: "zeros bs 83 7" and m: "bs ! 82 AND 0xF0 = 0"
    and slots: "\<And>p. p < 4 \<Longrightarrow> check_slot bs p = Wire_Ok"
    using assms by (auto simp: check_bundle_Ok)
  note sl = check_slot_facts [OF slots len]
  have pm: "ucast (kinds_mask (raw_kind bs)) = bs ! 82" using predicted_byte [OF m sl(4)] by simp
  have slot: "pieces (90 + p * 16) [1, 1, 1, 1, 4, 8] bs = slot_bytes (raw_kind bs p) (raw_reason bs p) (decode_port bs p)"
    if "p < 4" for p
  proof -
    have "90 + p * 16 + 16 \<le> length bs" using that len by simp
    then show ?thesis
      using sl(2,3) [OF that that]
      by (simp add: take_1 windows slot_bytes_def raw_kind_def raw_reason_def decode_port_def add.commute
          load_store_be_full Let_def be32_def [of "drop _ _"] be64_def [of "drop _ _"] be32_def [symmetric] be64_def [symmetric])
  qed
  have head: "pieces 0 [2, 16, 16, 8, 8, 8, 8, 8, 8, 1, 7] bs = wire_header (raw_key bs) (raw_context bs) (bs ! 82)"
  proof -
    have "take 2 bs = store_be 2 (1 :: u16)" using windows(1) [of 0 bs] ver len by simp
    then show ?thesis
      by (simp add: windows take_1 take_zeros [OF z] len wire_header_def raw_key_def raw_context_def
          numeral_2_eq_2 [symmetric])
  qed
  have "bs = pieces 0 [90, 16, 16, 16, 16] bs" by (simp add: pieces_eq len)
  also have "\<dots> = take 90 bs @ take 16 (drop 90 bs) @ take 16 (drop 106 bs) @ take 16 (drop 122 bs) @ take 16 (drop 138 bs)"
    by simp
  also have "\<dots> = pieces 0 [2, 16, 16, 8, 8, 8, 8, 8, 8, 1, 7] bs @ pieces (90 + 0 * 16) [1, 1, 1, 1, 4, 8] bs
      @ pieces (90 + 1 * 16) [1, 1, 1, 1, 4, 8] bs @ pieces (90 + 2 * 16) [1, 1, 1, 1, 4, 8] bs
      @ pieces (90 + 3 * 16) [1, 1, 1, 1, 4, 8] bs"
    by (simp add: pieces_eq)
  also have "\<dots> = record_of (raw_key bs) (raw_context bs) (bs ! 82) (raw_kind bs) (raw_reason bs) (decode_port bs)"
    by (simp only: head slot [of 0, simplified] slot [of 1, simplified] slot [of 2, simplified] slot [of 3, simplified]
        record_of_def list.map concat.simps append_Nil2 mult_0 mult_1 add_0_right)
      (simp add: slot [of 0, simplified] slot [of 1, simplified] slot [of 2, simplified] slot [of 3, simplified])
  finally show ?thesis unfolding pm .
qed

lemma decode_predicted_eq: "decode_predicted bs = kinds_mask (raw_kind bs)"
  by (simp add: decode_predicted_def kinds_mask_def raw_kind_def upt_four)

definition raw_bundle :: "bytes \<Rightarrow> u8 \<Rightarrow> bytes \<Rightarrow> DualInputBundleV1" where
  "raw_bundle bs seat owner = \<lparr>bnd_key = raw_key bs, bnd_logical_seat = seat, bnd_reserved_zero0 = [0, 0, 0],
     bnd_predicted_port_mask = kinds_mask (raw_kind bs), bnd_ports = map (decode_port bs) [0, 1, 2, 3],
     bnd_owner_signing_key_id = owner\<rparr>"

lemma decode_Inr:
  "decode_dual_input_bundle_v1 (Some bs) seat owner True = Inr b \<longleftrightarrow>
     unat seat < 4 \<and> fst (check (Some ''CanonicalInputBundleV1'') (Some bs) True) = Wire_Ok
     \<and> b = raw_bundle bs seat owner \<and> canonical_input_is_canonical_v1 b"
proof -
  have "fst (check (Some ''CanonicalInputBundleV1'') (Some bs) True) = Wire_Ok \<Longrightarrow> length bs = 154"
    by (simp add: check_bundle_Ok)
  then show ?thesis
    unfolding decode_dual_input_bundle_v1_def option.case decode_predicted_eq raw_key_def [symmetric] upt_four
      raw_bundle_def [symmetric] Let_def
    unfolding kDualInputWireBytesV1_def kDualPortCountV1_def by auto
qed

lemma raw_bundle_record:
  assumes "bundle_shape b" "canonical_input_is_canonical_v1 b" "context_ok b ctx"
    "bnd_predicted_port_mask b AND NOT 0xF = 0"
  shows "raw_bundle (record_of (bnd_key b) ctx (ucast (kinds_mask (slot_kind b ctx))) (slot_kind b ctx)
    (slot_reason ctx) (\<lambda>p. bnd_ports b ! p)) (bnd_logical_seat b) (bnd_owner_signing_key_id b) = b"
proof -
  define bs where "bs = record_of (bnd_key b) ctx (ucast (kinds_mask (slot_kind b ctx))) (slot_kind b ctx)
    (slot_reason ctx) (\<lambda>p. bnd_ports b ! p)"
  have shape: "key_shape (bnd_key b)" "length (bnd_ports b) = 4" "length (bnd_reserved_zero0 b) = 3"
    using assms(1) by (simp_all add: bundle_shape_def)
  note h = record_header [OF shape(1), of ctx "ucast (kinds_mask (slot_kind b ctx))" "slot_kind b ctx"
      "slot_reason ctx" "\<lambda>p. bnd_ports b ! p", folded bs_def]
  note s = record_slot [OF shape(1), of _ ctx "ucast (kinds_mask (slot_kind b ctx))" "slot_kind b ctx"
      "slot_reason ctx" "\<lambda>p. bnd_ports b ! p", folded bs_def]
  have key: "raw_key bs = bnd_key b" using h by (simp add: raw_key_def)
  have ports: "map (decode_port bs) [0, 1, 2, 3] = bnd_ports b"
  proof (rule nth_equalityI)
    fix i assume "i < length (map (decode_port bs) [0, 1, 2, 3])"
    then have i: "i < 4" by simp
    then have "map (decode_port bs) [0, 1, 2, 3] ! i = decode_port bs i" by (auto simp: less_four)
    then show "map (decode_port bs) [0, 1, 2, 3] ! i = bnd_ports b ! i"
      using s(5,6) [OF i] by (simp add: decode_port_def Let_def)
  qed (simp add: shape)
  have kinds: "raw_kind bs p = slot_kind b ctx p" if "p < 4" for p
    using s(1) [OF that] that h(1) by (simp add: raw_kind_def)
  have pm: "kinds_mask (raw_kind bs) = bnd_predicted_port_mask b"
  proof (rule bit_word_eqI)
    fix n assume "n < LENGTH(32)"
    show "bit (kinds_mask (raw_kind bs)) n = bit (bnd_predicted_port_mask b) n"
    proof (cases "n < 4")
      case True
      then have "bit (bnd_predicted_port_mask b) n \<longleftrightarrow> slot_kind b ctx n = Predicted"
        using assms(3) by (simp add: context_ok_def port_predicted_bit)
      then show ?thesis using True kinds by (simp add: bit_kinds_mask)
    next
      case False
      have "\<not> bit (bnd_predicted_port_mask b AND NOT (mask 4)) n" using assms(4) by (simp add: mask_numeral)
      then show ?thesis
        using False \<open>n < LENGTH(32)\<close>
        by (simp add: bit_and_iff bit_not_iff bit_mask_iff bit_kinds_mask)
    qed
  qed
  have "bnd_reserved_zero0 b = replicate 3 0"
    using shape(3) assms(2)
    by (auto simp: canonical_input_is_canonical_v1_def all_zero_iff intro!: replicate_eqI split: if_splits)
  then have "bnd_reserved_zero0 b = [0, 0, 0]" by (simp add: numeral_eq_Suc)
  then show ?thesis
    unfolding bs_def [symmetric] raw_bundle_def key ports pm by simp
qed

text \<open>Decoding inverts encoding.\<close>

lemma decode_encoded:
  assumes enc: "encode_dual_input_bundle_v1 b ctx True = Inr bs" and shape: "bundle_shape b"
    and small: "bnd_predicted_port_mask b AND NOT 0xF = 0"
  shows "decode_dual_input_bundle_v1 (Some bs) (bnd_logical_seat b) (bnd_owner_signing_key_id b) True = Inr b
      \<and> be64 bs 34 \<noteq> 0 \<and> be64 bs 58 \<noteq> 0 \<and> be64 bs 74 \<noteq> 0"
    "fst (check (Some ''CanonicalInputBundleV1'') (Some bs) True) = Wire_Ok"
proof -
  have canon: "canonical_input_is_canonical_v1 b"
    using enc by (auto simp: encode_dual_input_bundle_v1_def split: if_splits)
  have kshape: "key_shape (bnd_key b)" using shape by (simp add: bundle_shape_def)
  have ok: "context_ok b ctx" and bs: "bs = record_of (bnd_key b) ctx (ucast (kinds_mask (slot_kind b ctx)))
      (slot_kind b ctx) (slot_reason ctx) (\<lambda>p. bnd_ports b ! p)"
    using enc by (simp_all add: encode_bundle_Inr [OF shape canon])
  show chk: "fst (check (Some ''CanonicalInputBundleV1'') (Some bs) True) = Wire_Ok"
    unfolding bs using ok canonical_portD(2) [OF canon]
    by (intro check_record [OF kshape]) (auto simp: slot_ok_def context_ok_def)
  have "raw_bundle bs (bnd_logical_seat b) (bnd_owner_signing_key_id b) = b"
    unfolding bs using raw_bundle_record [OF shape canon ok] small by blast
  moreover have "unat (bnd_logical_seat b) < 4"
    using canon by (auto simp: canonical_input_is_canonical_v1_def kDualPortCountV1_def split: if_splits)
  ultimately show "decode_dual_input_bundle_v1 (Some bs) (bnd_logical_seat b) (bnd_owner_signing_key_id b) True = Inr b
      \<and> be64 bs 34 \<noteq> 0 \<and> be64 bs 58 \<noteq> 0 \<and> be64 bs 74 \<noteq> 0"
    using chk canon ok record_header(7,10,12) [OF kshape] unfolding decode_Inr bs
    by (simp add: context_ok_def)
qed

section \<open>Properties\<close>


definition sample_bundle :: DualInputBundleV1 where
  "sample_bundle = \<lparr>bnd_key = \<lparr>key_session_id = replicate 16 1, key_branch_id = replicate 16 2,
       key_timeline_epoch = 1, key_frame_index = 7, key_seat_revision = 1\<rparr>,
     bnd_logical_seat = 1, bnd_reserved_zero0 = [0, 0, 0], bnd_predicted_port_mask = 4,
     bnd_ports = map (\<lambda>n. \<lparr>smp_mask = 0x81, smp_input_sequence = n\<rparr>) [5, 6, 7, 8],
     bnd_owner_signing_key_id = replicate 32 9\<rparr>"

definition sample_wire_context :: DualInputWireContextV1 where
  "sample_wire_context = \<lparr>wc_authority_term = 1, wc_mode_generation = 1, wc_batch_sequence = 3,
     wc_source_kind = replicate 4 0, wc_clear_reason = replicate 4 0, wc_stated = replicate 4 False\<rparr>"


end
