(* ===== verification/Dual_Controller.thy ===== *)
theory Dual_Controller
  imports Runtime_Adapter Recovery_Model App_Frame Input_Wire
begin

unbundle bit_operations_syntax

text \<open>
  The two-player session after the lobby, \<^verbatim>\<open>shared/src/session/dual/dual_session_controller.{hpp,cpp}\<close>:
  the catalog walk, the confirmed configuration, the start of the simulation, the exchange of input
  records over the State Commit stream, and the freeze rules. The controller names the next provider
  effect and is told of its completion. A provider buffer is its bytes, a null buffer \<open>None\<close>. The
  provider's own state is the field \<open>dc_runtime\<close> until a scheduler takes it over. Vectors are lists,
  allocation does not fail.
\<close>

section \<open>Data\<close>

datatype PairRoleV1 = Role_Initiator | Role_Responder

record GameChoice =
  gc_content_id :: bytes
  gc_source_choice_ref :: bytes
  gc_catalog_revision :: u64
  gc_progress_revision :: u64
  gc_selectable :: u32
  gc_display_name_size :: u32
  gc_display_name :: bytes
  gc_reason_key :: string
  gc_core_id :: bytes
  gc_profile_id :: bytes
  gc_options_id :: bytes

record ParsedProviderEvent =
  pe_payload_kind :: u32
  pe_resource :: u64
  pe_generation :: u64
  pe_value0 :: u64
  pe_value1 :: u64
  pe_hash :: bytes
  pe_buffer :: "bytes option"

record SessionInput =
  in_full_size :: bool
  in_expected_seat_revision :: u64
  in_buttons :: u32
  in_port_mask :: "u32 list"

record 'w DualStartInputsV1 =
  sti_session_id :: bytes
  sti_branch_id :: bytes
  sti_local_role :: PairRoleV1
  sti_local_signing_public :: bytes
  sti_peer_signing_public :: bytes
  sti_quic_connection :: u64
  sti_local_is_listener :: bool
  sti_runtime :: "'w AbiRuntimePort option"

record DualStartRef =
  sr_content :: AbiContentRef
  sr_source_choice_ref :: bytes
  sr_pending_config_id :: bytes
  sr_pending_config_revision :: u64

datatype EffectKind = QueryContent | OpenStream | GrantRead | Write

record Effect =
  ef_kind :: EffectKind
  ef_content_index :: u32
  ef_accept :: bool
  ef_opener_role :: "PairRoleV1 option"
  ef_connection :: u64
  ef_stream :: u64
  ef_bytes :: bytes
  ef_read_credit :: u64

record BindRevision =
  br_id :: bytes
  br_count :: u64

record 'w DualSessionController =
  dc_choices :: "GameChoice list"
  dc_catalog_index :: u32
  dc_catalog_started :: bool
  dc_catalog_complete :: bool
  dc_catalog_query_outstanding :: bool
  dc_selected :: bool
  dc_selected_ref :: bytes
  dc_selected_content :: bytes
  dc_pending_config_id :: bytes
  dc_pending_config_revision :: u64
  dc_pending_config_local_confirmed :: bool
  dc_pending_config_peer_confirmed :: bool
  dc_pending_start_bound :: bool
  dc_bind_revisions :: "BindRevision list"
  dc_runtime :: 'w
  dc_adapter :: "'w AbiRuntimePort option"
  dc_scheduler :: "'w adapted DualRunSchedulerV1 option"
  dc_context :: DualInputKeyV1
  dc_content :: DualContentRefV1
  dc_owners :: "DualOwnerKeyV1 list"
  dc_local_seat :: u8
  dc_local_sequence :: u64
  dc_batch_sequence :: u64
  dc_last_digest :: DualStateDigestV1
  dc_connection :: u64
  dc_send_stream :: u64
  dc_receive_stream :: u64
  dc_local_is_listener :: bool
  dc_want_stream :: bool
  dc_stream_open :: bool
  dc_open_outstanding :: bool
  dc_write_outstanding :: bool
  dc_read_outstanding :: bool
  dc_want_read :: bool
  dc_write_queue :: "bytes list"
  dc_read_accumulator :: bytes
  dc_local_runtime_ready :: bool
  dc_peer_runtime_ready :: bool
  dc_running :: bool
  dc_paused :: bool
  dc_frozen :: bool
  dc_freeze_reason :: DualFreezeReasonV1
  dc_view_dirty :: bool
  dc_watchdog :: LinkActivityWatchdogV1
  dc_last_clock_ns :: u64

definition zero_owner :: DualOwnerKeyV1 where
  "zero_owner = \<lparr>own_seat = 0, own_signing_key_id = replicate 32 0\<rparr>"

definition new_controller :: "'w \<Rightarrow> 'w DualSessionController" where
  "new_controller w = \<lparr>dc_choices = [], dc_catalog_index = 0, dc_catalog_started = False,
     dc_catalog_complete = False, dc_catalog_query_outstanding = False, dc_selected = False,
     dc_selected_ref = replicate 16 0, dc_selected_content = replicate 32 0,
     dc_pending_config_id = replicate 32 0, dc_pending_config_revision = 0,
     dc_pending_config_local_confirmed = False, dc_pending_config_peer_confirmed = False,
     dc_pending_start_bound = False, dc_bind_revisions = [], dc_runtime = w, dc_adapter = None,
     dc_scheduler = None, dc_context = zero_key, dc_content = zero_content,
     dc_owners = replicate 4 zero_owner, dc_local_seat = 0, dc_local_sequence = 1,
     dc_batch_sequence = 1, dc_last_digest = zero_digest, dc_connection = 0, dc_send_stream = 0,
     dc_receive_stream = 0, dc_local_is_listener = False, dc_want_stream = False,
     dc_stream_open = False, dc_open_outstanding = False, dc_write_outstanding = False,
     dc_read_outstanding = False, dc_want_read = False, dc_write_queue = [], dc_read_accumulator = [],
     dc_local_runtime_ready = False, dc_peer_runtime_ready = False, dc_running = False,
     dc_paused = False, dc_frozen = False, dc_freeze_reason = Freeze_None, dc_view_dirty = False,
     dc_watchdog = new_watchdog, dc_last_clock_ns = 0\<rparr>"

definition kCanonicalInputTag :: u16 where "kCanonicalInputTag = 0xFF02"
definition kStateCommitReadCredit :: u64 where "kStateCommitReadCredit = 256"
definition kFramedInputBytes :: nat where "kFramedInputBytes = 6 + kDualInputWireBytesV1"
definition kMaxBindRevisions :: nat where "kMaxBindRevisions = 16"

section \<open>Start conditions\<close>

definition id_zero :: "bytes option \<Rightarrow> bool" where
  "id_zero input = (case input of None \<Rightarrow> True | Some bs \<Rightarrow> list_all (\<lambda>b. b = 0) bs)"

definition copy_reason :: "string \<Rightarrow> string" where
  "copy_reason source = take 63 source"

definition start_conditions_bound :: "GameChoice \<Rightarrow> bool" where
  "start_conditions_bound choice =
     (\<not> id_zero (Some (gc_content_id choice)) \<and> \<not> id_zero (Some (gc_core_id choice))
      \<and> \<not> id_zero (Some (gc_profile_id choice)) \<and> \<not> id_zero (Some (gc_options_id choice)))"

definition start_conditions_unsupported :: "GameChoice \<Rightarrow> bool" where
  "start_conditions_unsupported choice =
     (let required = canonical_dual_start_identity_v1
      in \<not> id_zero (Some (gc_core_id choice)) \<and> gc_core_id choice \<noteq> sid_core_id required
         \<or> \<not> id_zero (Some (gc_profile_id choice)) \<and> gc_profile_id choice \<noteq> sid_profile_id required
         \<or> \<not> id_zero (Some (gc_options_id choice)) \<and> gc_options_id choice \<noteq> sid_options_id required)"

definition pending_config_fingerprint :: "GameChoice \<Rightarrow> bytes" where
  "pending_config_fingerprint choice =
     domain_hash ''flynes-pending-config-v1''
       (gc_content_id choice @ gc_core_id choice @ gc_profile_id choice @ gc_options_id choice
        @ store_be 4 (1 :: u32) @ store_be 4 (0 :: u32) @ store_be 4 (0 :: u32) @ store_be 4 (1 :: u32))"

definition read_parsed_buffer :: "ParsedProviderEvent \<Rightarrow> fly_session_result + bytes" where
  "read_parsed_buffer parsed =
     (case pe_buffer parsed of None \<Rightarrow> Inl FLY_INVALID_ARGUMENT | Some bs \<Rightarrow> Inr bs)"

definition owner_key :: "bytes \<Rightarrow> bytes" where
  "owner_key public_key = domain_hash ''flynes-dual-owner-key-v1'' public_key"

section \<open>Catalog\<close>

definition begin_catalog :: "'w DualSessionController \<Rightarrow> 'w DualSessionController" where
  "begin_catalog c = c\<lparr>dc_catalog_started := True, dc_catalog_complete := False,
     dc_catalog_query_outstanding := False, dc_catalog_index := 0, dc_choices := [],
     dc_view_dirty := True\<rparr>"

definition on_content_empty :: "'w DualSessionController \<Rightarrow> fly_session_result \<times> 'w DualSessionController" where
  "on_content_empty c = (FLY_OK, c\<lparr>dc_catalog_query_outstanding := False, dc_catalog_complete := True,
     dc_view_dirty := True\<rparr>)"

definition choice_of_record :: "bytes \<Rightarrow> u16 \<Rightarrow> nat \<Rightarrow> GameChoice" where
  "choice_of_record bs version name_size =
     (let start = 56 + name_size;
          choice = \<lparr>gc_content_id = take 32 (drop 20 bs), gc_source_choice_ref = take 16 (drop 4 bs),
            gc_catalog_revision = 1, gc_progress_revision = 1, gc_selectable = 1,
            gc_display_name_size = of_nat name_size,
            gc_display_name = take name_size (drop 56 bs) @ replicate (128 - name_size) 0,
            gc_reason_key = [],
            gc_core_id = (if version = 2 then take 32 (drop start bs) else replicate 32 0),
            gc_profile_id = (if version = 2 then take 32 (drop (start + 32) bs) else replicate 32 0),
            gc_options_id = (if version = 2 then take 32 (drop (start + 64) bs) else replicate 32 0)\<rparr>
      in if start_conditions_unsupported choice
         then choice\<lparr>gc_selectable := 0, gc_reason_key := copy_reason ''nearby_blocked_profile_verify''\<rparr>
         else if \<not> start_conditions_bound choice
         then choice\<lparr>gc_reason_key := copy_reason ''nearby_blocked_session_read''\<rparr>
         else choice)"

definition parse_choice_record ::
  "'w DualSessionController \<Rightarrow> bytes option \<Rightarrow> bytes \<Rightarrow> fly_session_result \<times> 'w DualSessionController" where
  "parse_choice_record c input expected_hash =
     (case input of
        None \<Rightarrow> (FLY_PROTOCOL_VIOLATION, c)
      | Some bs \<Rightarrow>
          if length bs < 56 then (FLY_PROTOCOL_VIOLATION, c)
          else if domain_hash ''flynes-content-choice-v1'' bs \<noteq> expected_hash then (FLY_PROTOCOL_VIOLATION, c)
          else
            let version = be16 bs 0
            in if version \<noteq> 1 \<and> version \<noteq> 2 \<or> bs ! 2 \<noteq> 0 \<or> bs ! 3 \<noteq> 0 then (FLY_PROTOCOL_VIOLATION, c)
               else
                 let name_size = unat (be32 bs 52); tail = (if version = 2 then 96 else 0)
                 in if name_size = 0 \<or> name_size > 64 \<or> length bs \<noteq> 56 + name_size + tail
                    then (FLY_PROTOCOL_VIOLATION, c)
                    else (FLY_OK, c\<lparr>dc_choices := dc_choices c @ [choice_of_record bs version name_size]\<rparr>))"

definition on_content_choice ::
  "'w DualSessionController \<Rightarrow> ParsedProviderEvent \<Rightarrow> fly_session_result \<times> 'w DualSessionController" where
  "on_content_choice c parsed =
     (let c1 = c\<lparr>dc_catalog_query_outstanding := False\<rparr>
      in case read_parsed_buffer parsed of
           Inl code \<Rightarrow> (code, c1)
         | Inr bs \<Rightarrow>
             (case parse_choice_record c1 (Some bs) (pe_hash parsed) of
                (accepted, c2) \<Rightarrow>
                  if accepted \<noteq> FLY_OK then (accepted, c2)
                  else (FLY_OK, c2\<lparr>dc_catalog_index := dc_catalog_index c2 + 1, dc_view_dirty := True\<rparr>)))"

definition ingest_content_choice_record ::
  "'w DualSessionController \<Rightarrow> bytes option \<Rightarrow> bytes \<Rightarrow> fly_session_result \<times> 'w DualSessionController" where
  "ingest_content_choice_record c input record_hash = parse_choice_record c input record_hash"

definition set_observed_local_seat :: "'w DualSessionController \<Rightarrow> u8 \<Rightarrow> 'w DualSessionController" where
  "set_observed_local_seat c seat = c\<lparr>dc_local_seat := seat\<rparr>"

definition publish_imported_choice ::
  "'w DualSessionController \<Rightarrow> GameChoice \<Rightarrow> fly_session_result \<times> 'w DualSessionController" where
  "publish_imported_choice c choice =
     (FLY_OK, c\<lparr>dc_choices := dc_choices c @ [choice], dc_catalog_complete := True, dc_view_dirty := True\<rparr>)"

section \<open>The pending configuration\<close>

definition next_count :: "u64 \<Rightarrow> u64" where
  "next_count n = (if n + 1 = 0 then 1 else n + 1)"

fun bump_revision :: "BindRevision list \<Rightarrow> bytes \<Rightarrow> (u64 \<times> BindRevision list) option" where
  "bump_revision [] id0 = None"
| "bump_revision (r # rs) id0 =
     (if br_id r = id0
      then Some (next_count (br_count r), r\<lparr>br_count := next_count (br_count r)\<rparr> # rs)
      else map_option (\<lambda>(n, rs'). (n, r # rs')) (bump_revision rs id0))"

definition revision_for_bind :: "'w DualSessionController \<Rightarrow> bytes \<Rightarrow> u64 \<times> 'w DualSessionController" where
  "revision_for_bind c id0 =
     (case bump_revision (dc_bind_revisions c) id0 of
        Some (n, rs) \<Rightarrow> (n, c\<lparr>dc_bind_revisions := rs\<rparr>)
      | None \<Rightarrow>
          if length (dc_bind_revisions c) < kMaxBindRevisions
          then (1, c\<lparr>dc_bind_revisions := dc_bind_revisions c @ [\<lparr>br_id = id0, br_count = 1\<rparr>]\<rparr>)
          else let n = next_count (dc_pending_config_revision c)
               in (n, c\<lparr>dc_pending_config_revision := n\<rparr>))"

definition bind_pending_config :: "'w DualSessionController \<Rightarrow> GameChoice \<Rightarrow> 'w DualSessionController" where
  "bind_pending_config c choice =
     (let fingerprint = pending_config_fingerprint choice;
          same = (dc_selected c \<and> dc_pending_config_id c = fingerprint);
          c1 = c\<lparr>dc_selected_ref := gc_source_choice_ref choice, dc_selected_content := gc_content_id choice,
            dc_pending_config_id := fingerprint, dc_selected := True,
            dc_pending_start_bound := start_conditions_bound choice\<rparr>;
          c3 = (if same then c1
                else let c2 = c1\<lparr>dc_pending_config_local_confirmed := False,
                           dc_pending_config_peer_confirmed := False\<rparr>
                     in case revision_for_bind c2 fingerprint of
                          (n, c2') \<Rightarrow> c2'\<lparr>dc_pending_config_revision := n\<rparr>)
      in c3\<lparr>dc_view_dirty := True\<rparr>)"

definition select_content ::
  "'w DualSessionController \<Rightarrow> bytes option \<Rightarrow> fly_session_result \<times> 'w DualSessionController" where
  "select_content c choice_id =
     (case choice_id of
        None \<Rightarrow> (FLY_INVALID_STATE, c)
      | Some id0 \<Rightarrow>
          if \<not> dc_catalog_complete c \<or> dc_frozen c then (FLY_INVALID_STATE, c)
          else case find (\<lambda>choice. gc_source_choice_ref choice = id0) (dc_choices c) of
                 None \<Rightarrow> (FLY_INVALID_ARGUMENT, c)
               | Some choice \<Rightarrow>
                   if gc_selectable choice = 0 then (FLY_INVALID_ARGUMENT, c)
                   else (FLY_OK, bind_pending_config c choice))"

definition confirm_local_pending :: "'w DualSessionController \<Rightarrow> fly_session_result \<times> 'w DualSessionController" where
  "confirm_local_pending c =
     (if \<not> dc_selected c \<or> dc_frozen c \<or> \<not> dc_pending_start_bound c then (FLY_INVALID_STATE, c)
      else (FLY_OK, c\<lparr>dc_pending_config_local_confirmed := True, dc_view_dirty := True\<rparr>))"

definition apply_peer_pending_confirm ::
  "'w DualSessionController \<Rightarrow> bytes option \<Rightarrow> u64 \<Rightarrow> fly_session_result \<times> 'w DualSessionController" where
  "apply_peer_pending_confirm c input revision =
     (case input of
        None \<Rightarrow> (FLY_INVALID_STATE, c)
      | Some id0 \<Rightarrow>
          if \<not> dc_selected c \<or> dc_frozen c \<or> \<not> dc_pending_start_bound c then (FLY_INVALID_STATE, c)
          else if dc_pending_config_id c \<noteq> id0 \<or> revision \<noteq> dc_pending_config_revision c then (FLY_STALE, c)
          else if dc_pending_config_peer_confirmed c then (FLY_DUPLICATE, c)
          else (FLY_OK, c\<lparr>dc_pending_config_peer_confirmed := True, dc_view_dirty := True\<rparr>))"

definition ingest_verified_pending_confirm ::
  "'w DualSessionController \<Rightarrow> bytes option \<Rightarrow> fly_session_result \<times> 'w DualSessionController" where
  "ingest_verified_pending_confirm c input =
     (case input of
        None \<Rightarrow> (FLY_PROTOCOL_VIOLATION, c)
      | Some bs \<Rightarrow>
          if fst (check (Some ''0x0218'') (Some bs) True) \<noteq> Wire_Ok then (FLY_PROTOCOL_VIOLATION, c)
          else apply_peer_pending_confirm c (Some (take 32 (drop 4 bs))) (be64 bs 36))"

section \<open>Freezing\<close>

definition mark_frozen :: "'w DualSessionController \<Rightarrow> DualFreezeReasonV1 \<Rightarrow> 'w DualSessionController" where
  "mark_frozen c reason =
     c\<lparr>dc_frozen := True, dc_running := False,
       dc_freeze_reason :=
         (if dc_freeze_reason c = Freeze_None
             \<or> reason = TransportTerminal \<and> dc_freeze_reason c = AuthenticatedActivityTimeout
          then reason else dc_freeze_reason c),
       dc_view_dirty := True\<rparr>"

definition dc_pause :: "'w DualSessionController \<Rightarrow> fly_session_result \<times> 'w DualSessionController" where
  "dc_pause c =
     (if \<not> dc_running c \<or> dc_frozen c then (FLY_INVALID_STATE, c)
      else case dc_scheduler c of
             None \<Rightarrow> (FLY_INVALID_STATE, c)
           | Some s \<Rightarrow>
               (case pause s 1 of
                  (result, s1) \<Rightarrow>
                    let c1 = c\<lparr>dc_scheduler := Some s1\<rparr>
                    in if result \<noteq> FLY_OK then (result, c1)
                       else (FLY_OK, c1\<lparr>dc_paused := True, dc_freeze_reason := Paused, dc_view_dirty := True\<rparr>)))"

definition ingest_verified_suspend ::
  "'w DualSessionController \<Rightarrow> bytes option \<Rightarrow> fly_session_result \<times> 'w DualSessionController" where
  "ingest_verified_suspend c input =
     (case input of
        None \<Rightarrow> (FLY_PROTOCOL_VIOLATION, c)
      | Some bs \<Rightarrow>
          if fst (check (Some ''0x0210'') (Some bs) True) \<noteq> Wire_Ok then (FLY_PROTOCOL_VIOLATION, c)
          else if dc_paused c \<or> dc_frozen c then (FLY_DUPLICATE, c)
          else dc_pause c)"

definition disconnect :: "'w DualSessionController \<Rightarrow> fly_session_result \<times> 'w DualSessionController" where
  "disconnect c =
     (let c1 = c\<lparr>dc_scheduler := map_option (\<lambda>s. snd (mark_transport_terminal s)) (dc_scheduler c)\<rparr>
      in (FLY_OK, mark_frozen c1 TransportTerminal))"

definition dc_on_clock :: "'w DualSessionController \<Rightarrow> u64 \<Rightarrow> 'w DualSessionController" where
  "dc_on_clock c continuous_ns =
     (let c1 = c\<lparr>dc_last_clock_ns := continuous_ns\<rparr>
      in if \<not> dc_running c1 \<and> \<not> dc_local_runtime_ready c1 \<and> \<not> dc_frozen c1 \<and> \<not> dc_paused c1 then c1
         else
           let (state, w) = on_clock (dc_watchdog c1) continuous_ns;
               c2 = c1\<lparr>dc_watchdog := w\<rparr>
           in if state = LinkFrozen \<and> \<not> dc_frozen c2 \<and> \<not> dc_paused c2
              then mark_frozen c2 AuthenticatedActivityTimeout
              else if state = LinkReconnectExpired then mark_frozen c2 TransportTerminal
              else c2)"

section \<open>Starting\<close>

definition read_start_ref ::
  "'w DualSessionController \<Rightarrow> 'w DualStartInputsV1 \<Rightarrow> fly_session_result + DualStartRef" where
  "read_start_ref c inputs =
     (if \<not> dc_selected c \<or> \<not> dc_pending_start_bound c \<or> dc_running c \<or> dc_frozen c \<or> dc_paused c
         \<or> dc_local_runtime_ready c then Inl FLY_INVALID_STATE
      else if \<not> dc_pending_config_local_confirmed c \<or> \<not> dc_pending_config_peer_confirmed c
      then Inl FLY_INVALID_STATE
      else if sti_runtime inputs = None \<or> sti_quic_connection inputs = 0 then Inl FLY_UNAVAILABLE
      else if id_zero (Some (sti_session_id inputs)) \<or> id_zero (Some (sti_branch_id inputs))
              \<or> id_zero (Some (dc_selected_content c)) then Inl FLY_INVALID_ARGUMENT
      else Inr \<lparr>sr_content = \<lparr>ac_session_id = sti_session_id inputs, ac_branch_id = sti_branch_id inputs,
                  ac_content_hash = dc_selected_content c, ac_timeline_epoch = 1\<rparr>,
                sr_source_choice_ref = dc_selected_ref c, sr_pending_config_id = dc_pending_config_id c,
                sr_pending_config_revision = dc_pending_config_revision c\<rparr>)"

definition start_owners :: "'w DualStartInputsV1 \<Rightarrow> DualOwnerKeyV1 list" where
  "start_owners inputs =
     (let initiator = (sti_local_role inputs = Role_Initiator);
          initiator_key = owner_key (if initiator then sti_local_signing_public inputs
                                     else sti_peer_signing_public inputs);
          responder_key = owner_key (if initiator then sti_peer_signing_public inputs
                                     else sti_local_signing_public inputs)
      in [\<lparr>own_seat = 0, own_signing_key_id = initiator_key\<rparr>,
          \<lparr>own_seat = 1, own_signing_key_id = responder_key\<rparr>,
          \<lparr>own_seat = 2, own_signing_key_id = replicate 32 0\<rparr>,
          \<lparr>own_seat = 3, own_signing_key_id = replicate 32 0\<rparr>])"

definition start_key :: "'w DualStartInputsV1 \<Rightarrow> DualStartRef \<Rightarrow> DualInputKeyV1" where
  "start_key inputs expected =
     \<lparr>key_session_id = sti_session_id inputs, key_branch_id = sti_branch_id inputs,
      key_timeline_epoch = ac_timeline_epoch (sr_content expected), key_frame_index = 0,
      key_seat_revision = 1\<rparr>"

definition start_content :: "DualStartRef \<Rightarrow> DualContentRefV1" where
  "start_content expected =
     \<lparr>ref_session_id = ac_session_id (sr_content expected), ref_branch_id = ac_branch_id (sr_content expected),
      ref_content_hash = ac_content_hash (sr_content expected),
      ref_timeline_epoch = ac_timeline_epoch (sr_content expected)\<rparr>"

definition start_dual ::
  "'w DualSessionController \<Rightarrow> 'w DualStartInputsV1 \<Rightarrow> fly_session_result \<times> 'w DualSessionController" where
  "start_dual c inputs =
     (case read_start_ref c inputs of
        Inl code \<Rightarrow> (code, c)
      | Inr expected \<Rightarrow>
          let key = start_key inputs expected
          in if \<not> dual_input_key_is_valid_v1 key then (FLY_INVALID_ARGUMENT, c)
             else
               let owners = start_owners inputs;
                   content = start_content expected;
                   (began, s) = sch_begin (CAbiDualRuntimePortV1 (sti_runtime inputs))
                     (new_scheduler (dc_runtime c, 0)) Mode_Dual content key owners
               in if began \<noteq> FLY_OK
                  then (began, c\<lparr>dc_scheduler := None, dc_adapter := None, dc_runtime := fst (sch_port s)\<rparr>)
                  else (FLY_OK, c\<lparr>dc_adapter := sti_runtime inputs, dc_scheduler := Some s,
                    dc_context := key, dc_content := content, dc_owners := owners,
                    dc_local_seat := (if sti_local_role inputs = Role_Initiator then 0 else 1),
                    dc_local_sequence := 1, dc_batch_sequence := 1, dc_last_digest := zero_digest,
                    dc_connection := sti_quic_connection inputs,
                    dc_local_is_listener := sti_local_is_listener inputs, dc_want_stream := True,
                    dc_stream_open := False, dc_want_read := False, dc_local_runtime_ready := True,
                    dc_peer_runtime_ready := False, dc_running := False, dc_paused := False,
                    dc_frozen := False, dc_freeze_reason := Freeze_None, dc_view_dirty := True,
                    dc_watchdog := wd_reset (dc_watchdog c) (dc_last_clock_ns c)\<rparr>))"

section \<open>Stepping\<close>

text \<open>The loop of \<open>try_step\<close> runs while the next frame has all real input; the ring holds at most
  \<open>kRingSlotsV1\<close> frames, so one round more is enough fuel.\<close>

primrec try_step_loop :: "nat \<Rightarrow> 'w DualSessionController \<Rightarrow> 'w adapted DualRunSchedulerV1
    \<Rightarrow> (fly_session_result \<times> 'w DualSessionController) option" where
  "try_step_loop 0 c s = None"
| "try_step_loop (Suc fuel) c s =
     (if sch_state s = Sim_Running \<and> frame_all_real (sch_window s) (sch_next_frame s)
      then case step_next_frame (CAbiDualRuntimePortV1 (dc_adapter c)) s of
             (stepped, s1) \<Rightarrow>
               if stepped \<noteq> FLY_OK
               then Some (stepped, mark_frozen (c\<lparr>dc_scheduler := Some s1\<rparr>) (sch_freeze_reason s1))
               else try_step_loop fuel (c\<lparr>dc_scheduler := Some s1, dc_last_digest := sch_last_digest s1,
                      dc_view_dirty := True\<rparr>) s1
      else Some (FLY_OK, if sch_state s = Sim_Frozen then mark_frozen c (sch_freeze_reason s) else c))"

definition try_step :: "'w DualSessionController \<Rightarrow> fly_session_result \<times> 'w DualSessionController" where
  "try_step c =
     (case dc_scheduler c of
        None \<Rightarrow> (FLY_OK, c)
      | Some s \<Rightarrow>
          if dc_frozen c \<or> dc_paused c then (FLY_OK, c)
          else case try_step_loop (kRingSlotsV1 + 1) c s of Some r \<Rightarrow> r | None \<Rightarrow> (FLY_OK, c))"

section \<open>Local input\<close>

text \<open>A record of the State Commit stream: the framed input bundle.\<close>

definition input_wire_context :: "u64 \<Rightarrow> DualInputWireContextV1" where
  "input_wire_context batch_sequence = \<lparr>wc_authority_term = 1, wc_mode_generation = 1,
     wc_batch_sequence = batch_sequence, wc_source_kind = replicate 4 0,
     wc_clear_reason = replicate 4 0, wc_stated = replicate 4 False\<rparr>"

definition frame_input_record :: "DualInputBundleV1 \<Rightarrow> u64 \<Rightarrow> bytes option" where
  "frame_input_record bundle batch_sequence =
     (case encode_dual_input_bundle_v1 bundle (input_wire_context batch_sequence) True of
        Inl _ \<Rightarrow> None
      | Inr object0 \<Rightarrow>
          (case encode_app_frame kCanonicalInputTag (Some object0) True kFramedInputBytes True of
             (status, framed) \<Rightarrow>
               if status \<noteq> Wire_Ok \<or> map_option length framed \<noteq> Some kFramedInputBytes then None
               else framed))"

definition queue_local_bundle ::
  "'w DualSessionController \<Rightarrow> 'w adapted DualRunSchedulerV1 \<Rightarrow> DualPortInputV1 list
     \<Rightarrow> fly_session_result \<times> 'w DualSessionController" where
  "queue_local_bundle c s samples =
     (case canonical_input_build_v1 True ((dc_context c)\<lparr>key_frame_index := sch_next_frame s\<rparr>)
             (dc_local_seat c) (own_signing_key_id (dc_owners c ! unat (dc_local_seat c))) samples of
        Inl _ \<Rightarrow> (FLY_INVALID_ARGUMENT, c)
      | Inr bundle \<Rightarrow>
          (case accept_local_input s samples (dc_local_seat c) of
             ((accepted, s1), admit) \<Rightarrow>
               let c1 = c\<lparr>dc_scheduler := Some s1\<rparr>
               in if accepted \<noteq> FLY_OK \<and> accepted \<noteq> FLY_ACCEPTED then (accepted, c1)
                  else if admit \<noteq> Admit_Accepted \<and> admit \<noteq> Admit_Duplicate then (FLY_INVALID_STATE, c1)
                  else case checked_dual_next_sequence_v1 True (dc_batch_sequence c1) of
                         None \<Rightarrow> (FLY_INVALID_STATE, c1)
                       | Some n \<Rightarrow>
                           let c2 = c1\<lparr>dc_batch_sequence := n\<rparr>
                           in case frame_input_record bundle (dc_batch_sequence c1) of
                                None \<Rightarrow> (FLY_CONTRACT_VIOLATION, c2)
                              | Some framed \<Rightarrow>
                                  (FLY_OK, c2\<lparr>dc_write_queue := dc_write_queue c2 @ [framed]\<rparr>)))"

definition beacon_samples :: "DualPortInputV1 list" where
  "beacon_samples = map (\<lambda>port. \<lparr>inp_mask = 0, inp_sequence = of_nat port + 1\<rparr>) [0..<kDualPortCountV1]"

definition queue_runtime_ready_beacon ::
  "'w DualSessionController \<Rightarrow> fly_session_result \<times> 'w DualSessionController" where
  "queue_runtime_ready_beacon c =
     (if \<not> dc_local_runtime_ready c \<or> dc_frozen c \<or> dc_scheduler c = None then (FLY_INVALID_STATE, c)
      else case canonical_input_build_v1 True ((dc_context c)\<lparr>key_frame_index := 0\<rparr>) (dc_local_seat c)
                  (own_signing_key_id (dc_owners c ! unat (dc_local_seat c))) beacon_samples of
             Inl _ \<Rightarrow> (FLY_INVALID_ARGUMENT, c)
           | Inr bundle \<Rightarrow>
               (case frame_input_record bundle 1 of
                  None \<Rightarrow> (FLY_CONTRACT_VIOLATION, c)
                | Some framed \<Rightarrow> (FLY_OK, c\<lparr>dc_write_queue := dc_write_queue c @ [framed]\<rparr>)))"

definition maybe_enter_running :: "'w DualSessionController \<Rightarrow> 'w DualSessionController" where
  "maybe_enter_running c =
     (if dc_frozen c \<or> dc_paused c \<or> dc_running c \<or> \<not> dc_local_runtime_ready c
         \<or> \<not> dc_peer_runtime_ready c then c
      else case dc_scheduler c of
             None \<Rightarrow> c
           | Some s \<Rightarrow>
               (case announce_running s of
                  (result, s1) \<Rightarrow>
                    let c1 = c\<lparr>dc_scheduler := Some s1\<rparr>
                    in if result \<noteq> FLY_OK then c1 else c1\<lparr>dc_running := True, dc_view_dirty := True\<rparr>))"

definition local_samples :: "u64 \<Rightarrow> u8 \<Rightarrow> u32 \<Rightarrow> DualPortInputV1 list" where
  "local_samples base local_seat mask0 =
     map (\<lambda>port. \<lparr>inp_mask = (if port = unat local_seat then mask0 else 0),
        inp_sequence = base + of_nat port\<rparr>) [0..<kDualPortCountV1]"

definition submit_local ::
  "'w DualSessionController \<Rightarrow> SessionInput \<Rightarrow> fly_session_result \<times> 'w DualSessionController" where
  "submit_local c input =
     (if \<not> dc_running c \<or> dc_frozen c \<or> dc_paused c then (FLY_INVALID_STATE, c)
      else case dc_scheduler c of
             None \<Rightarrow> (FLY_INVALID_STATE, c)
           | Some s \<Rightarrow>
               if in_expected_seat_revision input \<noteq> key_seat_revision (dc_context c) then (FLY_STALE, c)
               else
                 let mask0 = normalize_dual_port_mask_v1
                       (if in_full_size input then in_port_mask input ! unat (dc_local_seat c)
                        else in_buttons input);
                     base = dc_local_sequence c
                 in if base = 0 \<or> base > - 1 - 4 then (FLY_INVALID_STATE, c)
                    else
                      let samples = local_samples base (dc_local_seat c) mask0;
                          c1 = c\<lparr>dc_local_sequence := base + of_nat kDualPortCountV1\<rparr>
                      in case queue_local_bundle c1 s samples of
                           (queued, c2) \<Rightarrow> if queued \<noteq> FLY_OK then (queued, c2) else try_step c2)"

section \<open>Effects\<close>

definition no_effect :: Effect where
  "no_effect = \<lparr>ef_kind = QueryContent, ef_content_index = 0, ef_accept = False, ef_opener_role = None,
     ef_connection = 0, ef_stream = 0, ef_bytes = [], ef_read_credit = 0\<rparr>"

definition poll_effect :: "'w DualSessionController \<Rightarrow> Effect option \<times> 'w DualSessionController" where
  "poll_effect c =
     (if dc_frozen c then (None, c)
      else if dc_catalog_started c \<and> \<not> dc_catalog_complete c \<and> \<not> dc_catalog_query_outstanding c
      then (Some (no_effect\<lparr>ef_kind := QueryContent, ef_content_index := dc_catalog_index c\<rparr>),
            c\<lparr>dc_catalog_query_outstanding := True\<rparr>)
      else if dc_want_stream c \<and> \<not> dc_stream_open c \<and> \<not> dc_open_outstanding c \<and> dc_connection c \<noteq> 0
      then (Some (no_effect\<lparr>ef_kind := OpenStream, ef_accept := dc_local_is_listener c,
              ef_opener_role := Some (if dc_local_is_listener c then Role_Responder else Role_Initiator),
              ef_connection := dc_connection c\<rparr>),
            c\<lparr>dc_open_outstanding := True\<rparr>)
      else if dc_stream_open c \<and> \<not> dc_write_outstanding c \<and> dc_write_queue c \<noteq> []
      then (Some (no_effect\<lparr>ef_kind := Write, ef_stream := dc_send_stream c,
              ef_bytes := hd (dc_write_queue c)\<rparr>),
            c\<lparr>dc_write_outstanding := True\<rparr>)
      else if dc_stream_open c \<and> dc_want_read c \<and> \<not> dc_read_outstanding c \<and> dc_receive_stream c \<noteq> 0
      then (Some (no_effect\<lparr>ef_kind := GrantRead, ef_stream := dc_receive_stream c,
              ef_read_credit := kStateCommitReadCredit\<rparr>),
            c\<lparr>dc_read_outstanding := True\<rparr>)
      else (None, c))"

text \<open>One round of the loop of \<open>ingest_remote_bytes\<close>: \<open>Inl\<close> returns from the function, \<open>Inr\<close>
  continues. \<open>ingest_bundle\<close> is its second half, after the record was taken off the accumulator.\<close>

definition ingest_bundle :: "'w DualSessionController \<Rightarrow> DualInputBundleV1
    \<Rightarrow> (fly_session_result \<times> 'w DualSessionController) + 'w DualSessionController" where
  "ingest_bundle c bundle =
     (if \<not> dc_running c
      then if \<not> dc_local_runtime_ready c \<or> dc_frozen c then Inl (FLY_INVALID_STATE, c)
           else Inr (maybe_enter_running (c\<lparr>dc_peer_runtime_ready := True\<rparr>))
      else case dc_scheduler c of
             None \<Rightarrow> Inl (FLY_INVALID_STATE, c)
           | Some s \<Rightarrow>
               (case accept_remote_input s bundle of
                  ((accepted, s1), admit) \<Rightarrow>
                    let c1 = c\<lparr>dc_scheduler := Some s1\<rparr>
                    in if accepted \<noteq> FLY_OK \<and> accepted \<noteq> FLY_ACCEPTED \<and> admit \<noteq> Admit_Duplicate
                       then Inl (accepted, c1)
                       else case try_step c1 of
                              (stepped, c2) \<Rightarrow> if stepped \<noteq> FLY_OK then Inl (stepped, c2) else Inr c2))"

definition ingest_record :: "'w DualSessionController
    \<Rightarrow> (fly_session_result \<times> 'w DualSessionController) + 'w DualSessionController" where
  "ingest_record c =
     (case next_app_frame (app_frame_cursor Chan_StateCommit (dc_read_accumulator c)) of
        ((status, next_frame), cursor) \<Rightarrow>
          if status = Wire_Truncated \<or> status = Wire_Ok \<and> next_frame = None then Inl (FLY_OK, c)
          else if status \<noteq> Wire_Ok then Inl (FLY_PROTOCOL_VIOLATION, c)
          else
            let af = the next_frame; peer_seat = 1 - dc_local_seat c
            in if af_frame_type_tag af \<noteq> kCanonicalInputTag then Inl (FLY_PROTOCOL_VIOLATION, c)
               else case decode_dual_input_bundle_v1 (Some (af_object_bytes af)) peer_seat
                           (own_signing_key_id (dc_owners c ! unat peer_seat)) True of
                      Inl _ \<Rightarrow> Inl (FLY_PROTOCOL_VIOLATION, c)
                    | Inr bundle \<Rightarrow>
                        let rest = c\<lparr>dc_read_accumulator := drop (cur_offset cursor) (dc_read_accumulator c)\<rparr>
                        in if key_session_id (bnd_key bundle) \<noteq> key_session_id (dc_context c)
                              \<or> key_branch_id (bnd_key bundle) \<noteq> key_branch_id (dc_context c)
                              \<or> key_timeline_epoch (bnd_key bundle) \<noteq> key_timeline_epoch (dc_context c)
                              \<or> key_seat_revision (bnd_key bundle) \<noteq> key_seat_revision (dc_context c)
                           then Inl (FLY_STALE, rest)
                           else ingest_bundle (rest\<lparr>dc_watchdog :=
                                  on_verified_peer_activity (dc_watchdog c) (dc_last_clock_ns c)\<rparr>) bundle)"

text \<open>Every round that continues takes a record off the accumulator, so its length is enough fuel.\<close>

primrec ingest_loop :: "nat \<Rightarrow> 'w DualSessionController
    \<Rightarrow> (fly_session_result \<times> 'w DualSessionController) option" where
  "ingest_loop 0 c = None"
| "ingest_loop (Suc fuel) c =
     (case ingest_record c of Inl r \<Rightarrow> Some r | Inr c1 \<Rightarrow> ingest_loop fuel c1)"

definition ingest_remote_bytes ::
  "'w DualSessionController \<Rightarrow> bytes option \<Rightarrow> fly_session_result \<times> 'w DualSessionController" where
  "ingest_remote_bytes c input =
     (case input of
        None \<Rightarrow> (FLY_INVALID_ARGUMENT, c)
      | Some bs \<Rightarrow>
          let c1 = c\<lparr>dc_read_accumulator := dc_read_accumulator c @ bs\<rparr>
          in if length (dc_read_accumulator c1) > 2 * kFramedInputBytes then (FLY_PROTOCOL_VIOLATION, c1)
             else case ingest_loop (length (dc_read_accumulator c1) + 1) c1 of
                    Some r \<Rightarrow> r | None \<Rightarrow> (FLY_OK, c1))"

definition complete_effect :: "'w DualSessionController \<Rightarrow> EffectKind \<Rightarrow> fly_session_result
    \<Rightarrow> ParsedProviderEvent \<Rightarrow> fly_session_result \<times> 'w DualSessionController" where
  "complete_effect c kind event_result parsed =
     (case kind of
        QueryContent \<Rightarrow>
          if event_result \<noteq> FLY_OK then (event_result, c) else on_content_choice c parsed
      | OpenStream \<Rightarrow>
          let c1 = c\<lparr>dc_open_outstanding := False\<rparr>
          in if event_result \<noteq> FLY_OK then (event_result, c1)
             else if pe_resource parsed = 0 \<or> pe_value0 parsed = 0 then (FLY_CONTRACT_VIOLATION, c1)
             else
               let c2 = c1\<lparr>dc_send_stream := pe_resource parsed, dc_receive_stream := pe_value0 parsed,
                     dc_stream_open := True\<rparr>
               in if dc_frozen c2 \<or> \<not> dc_local_runtime_ready c2 then (FLY_INVALID_STATE, c2)
                  else queue_runtime_ready_beacon c2
      | Write \<Rightarrow>
          let c1 = c\<lparr>dc_write_outstanding := False\<rparr>
          in if event_result \<noteq> FLY_OK then (event_result, c1)
             else (FLY_OK, c1\<lparr>dc_write_queue := tl (dc_write_queue c1), dc_want_read := True,
                     dc_watchdog := on_local_send_complete (dc_watchdog c1) (dc_last_clock_ns c1)\<rparr>)
      | GrantRead \<Rightarrow>
          let c1 = c\<lparr>dc_read_outstanding := False, dc_want_read := False\<rparr>
          in if event_result \<noteq> FLY_OK then (event_result, c1)
             else case read_parsed_buffer parsed of
                    Inl code \<Rightarrow> (code, c1)
                  | Inr received \<Rightarrow> ingest_remote_bytes c1 (Some received))"

section \<open>Views\<close>

datatype DualGameState = Game_NotStarted | Game_Syncing | Game_Running | Game_Frozen

definition game_state :: "'w DualSessionController \<Rightarrow> DualGameState" where
  "game_state c =
     (if dc_frozen c \<or> dc_paused c then Game_Frozen
      else if dc_running c then Game_Running
      else if dc_local_runtime_ready c then Game_Syncing
      else Game_NotStarted)"

definition shown_freeze_reason :: "'w DualSessionController \<Rightarrow> DualFreezeReasonV1" where
  "shown_freeze_reason c = (if dc_paused c \<and> \<not> dc_frozen c then Paused else dc_freeze_reason c)"

record DualSnapshot =
  sn_game_state :: DualGameState
  sn_dual_mode :: "DualModeV1 option"
  sn_dual_state :: DualSimStateV1
  sn_dual_freeze_reason :: DualFreezeReasonV1
  sn_dual_local_seat :: u8
  sn_dual_authority_seat :: u32
  sn_dual_seats_confirmed :: u32
  sn_dual_seat_revision :: u64
  sn_dual_frame_index :: u64
  sn_dual_verified_through :: u64
  sn_dual_commit_frontier :: u64
  sn_dual_prediction_depth :: u64
  sn_dual_content_hash :: bytes
  sn_dual_session_id :: bytes
  sn_dual_branch_id :: bytes
  sn_dual_state_digest :: bytes
  sn_dual_frame_digest :: bytes
  sn_dual_pcm_digest :: bytes
  sn_pending_config_id :: bytes
  sn_pending_config_local_confirmed :: bool
  sn_pending_config_peer_confirmed :: bool
  sn_pending_config_revision :: u64
  sn_primary_reason_key :: string

definition fill_snapshot :: "'w DualSessionController \<Rightarrow> DualSnapshot \<Rightarrow> DualSnapshot" where
  "fill_snapshot c snapshot =
     \<lparr>sn_game_state = game_state c,
      sn_dual_mode = (if dc_running c \<or> dc_paused c \<or> dc_frozen c \<or> dc_local_runtime_ready c
                      then Some Mode_Dual else None),
      sn_dual_state = (if dc_frozen c \<or> dc_paused c then Sim_Frozen
                       else if dc_running c then Sim_Running
                       else if dc_local_runtime_ready c then Sim_Ready else Sim_Unloaded),
      sn_dual_freeze_reason = shown_freeze_reason c,
      sn_dual_local_seat = dc_local_seat c,
      sn_dual_authority_seat = 0,
      sn_dual_seats_confirmed = 0,
      sn_dual_seat_revision = key_seat_revision (dc_context c),
      sn_dual_frame_index = (case dc_scheduler c of Some s \<Rightarrow> sch_current_frame s | None \<Rightarrow> 0),
      sn_dual_verified_through = (case dc_scheduler c of Some s \<Rightarrow> sch_state_verified_through s | None \<Rightarrow> 0),
      sn_dual_commit_frontier =
        (case dc_scheduler c of Some s \<Rightarrow> win_commit_frontier (sch_window s) | None \<Rightarrow> 0),
      sn_dual_prediction_depth =
        (case dc_scheduler c of Some s \<Rightarrow> ucast (sch_prediction_depth s) | None \<Rightarrow> 0),
      sn_dual_content_hash = dc_selected_content c,
      sn_dual_session_id = key_session_id (dc_context c),
      sn_dual_branch_id = key_branch_id (dc_context c),
      sn_dual_state_digest = dig_state (dc_last_digest c),
      sn_dual_frame_digest = dig_frame (dc_last_digest c),
      sn_dual_pcm_digest = dig_pcm (dc_last_digest c),
      sn_pending_config_id = dc_pending_config_id c,
      sn_pending_config_local_confirmed = dc_pending_config_local_confirmed c,
      sn_pending_config_peer_confirmed = dc_pending_config_peer_confirmed c,
      sn_pending_config_revision = dc_pending_config_revision c,
      sn_primary_reason_key =
        (if dc_selected c \<and> \<not> dc_pending_start_bound c
         then case find (\<lambda>choice. gc_source_choice_ref choice = dc_selected_ref c) (dc_choices c) of
                Some choice \<Rightarrow> copy_reason (gc_reason_key choice)
              | None \<Rightarrow> sn_primary_reason_key snapshot
         else sn_primary_reason_key snapshot)\<rparr>"

definition fill_scope :: "'w DualSessionController \<Rightarrow> (bytes \<times> bytes) option" where
  "fill_scope c =
     (if \<not> dc_running c \<and> \<not> dc_paused c \<and> \<not> dc_frozen c \<and> \<not> dc_local_runtime_ready c then None
      else Some (key_session_id (dc_context c), key_branch_id (dc_context c)))"

definition dc_cancel :: "'w DualSessionController \<Rightarrow> 'w DualSessionController" where
  "dc_cancel c = c\<lparr>dc_catalog_query_outstanding := False, dc_open_outstanding := False,
     dc_write_outstanding := False, dc_read_outstanding := False, dc_want_read := False,
     dc_write_queue := [], dc_scheduler := map_option (\<lambda>s. snd (sch_shut_down s)) (dc_scheduler c)\<rparr>"

section \<open>The calls of a controller\<close>

datatype 'w controller_call =
    CBeginCatalog | CContentEmpty | CIngestChoice "bytes option" bytes | CObservedSeat u8
  | CSelect "bytes option" | CConfirmLocal | CPeerConfirm "bytes option" u64
  | CIngestConfirm "bytes option" | CIngestSuspend "bytes option" | CImported GameChoice
  | CStart "'w DualStartInputsV1" | CSubmit SessionInput | CPause | CDisconnect | CTick u64
  | CPoll | CComplete EffectKind fly_session_result ParsedProviderEvent | CClearDirty | CCancel

fun controller_step :: "'w DualSessionController \<Rightarrow> 'w controller_call
    \<Rightarrow> fly_session_result \<times> 'w DualSessionController" where
  "controller_step c CBeginCatalog = (FLY_OK, begin_catalog c)"
| "controller_step c CContentEmpty = on_content_empty c"
| "controller_step c (CIngestChoice bs hash) = ingest_content_choice_record c bs hash"
| "controller_step c (CObservedSeat seat) = (FLY_OK, set_observed_local_seat c seat)"
| "controller_step c (CSelect choice_id) = select_content c choice_id"
| "controller_step c CConfirmLocal = confirm_local_pending c"
| "controller_step c (CPeerConfirm id0 revision) = apply_peer_pending_confirm c id0 revision"
| "controller_step c (CIngestConfirm bs) = ingest_verified_pending_confirm c bs"
| "controller_step c (CIngestSuspend bs) = ingest_verified_suspend c bs"
| "controller_step c (CImported choice) = publish_imported_choice c choice"
| "controller_step c (CStart inputs) = start_dual c inputs"
| "controller_step c (CSubmit input) = submit_local c input"
| "controller_step c CPause = dc_pause c"
| "controller_step c CDisconnect = disconnect c"
| "controller_step c (CTick ns) = (FLY_OK, dc_on_clock c ns)"
| "controller_step c CPoll = (FLY_OK, snd (poll_effect c))"
| "controller_step c (CComplete kind code parsed) = complete_effect c kind code parsed"
| "controller_step c CClearDirty = (FLY_OK, c\<lparr>dc_view_dirty := False\<rparr>)"
| "controller_step c CCancel = (FLY_OK, dc_cancel c)"

end
