(* ===== verification/Controller_Lockstep.thy ===== *)
theory Controller_Lockstep
  imports Dual_Controller Scheduler_Properties
begin

unbundle bit_operations_syntax

text \<open>
  How the session controller uses its scheduler. It steps a frame only when every owned port has real
  input, so the frontiers of the window never drift apart: the step frontier, the commit frontier and
  the materialised frame are one number.
\<close>

section \<open>An aligned window\<close>

definition aligned :: "'w DualRunSchedulerV1 \<Rightarrow> bool" where
  "aligned s \<longleftrightarrow> window_inv (sch_window s) \<and> win_bound (sch_window s)
     \<and> win_step_frontier (sch_window s) = sch_next_frame s
     \<and> win_commit_frontier (sch_window s) = sch_next_frame s
     \<and> win_materialized_through (sch_window s) = sch_next_frame s"

lemma deliver_bound:
  "win_bound (snd (deliver_input w b)) = win_bound w"
  "win_bound (snd (deliver_local_input w x y)) = win_bound w"
proof -
  have "win_bound (snd (accept_port w b p)) = win_bound w" for b p
    by (auto simp: accept_port_def Let_def dest!: ensure_record_context split: option.splits prod.splits)
  then show d: "win_bound (snd (deliver_input w b)) = win_bound w" for b
    by (cases rule: deliver_input_cases [of w b]) simp_all
  show "win_bound (snd (deliver_local_input w x y)) = win_bound w"
    by (simp add: deliver_local_input_def d split: option.split sum.split)
qed

lemma deliver_local_mat:
  "win_materialized_through (snd (deliver_local_input w x y)) = win_materialized_through w"
  by (simp add: deliver_local_input_def deliver_mat split: option.split sum.split)

lemma aligned_moved:
  assumes a: "aligned s" and t: "window_inv w" "win_bound w" "window_le (sch_window s) w"
    "win_step_frontier w = win_step_frontier (sch_window s)"
    "win_materialized_through w = win_materialized_through (sch_window s)"
  shows "aligned (s\<lparr>sch_window := w\<rparr>)"
proof -
  have "win_commit_frontier (sch_window s) \<le> win_commit_frontier w"
    using t(3) by (simp add: window_le_def)
  moreover have "win_commit_frontier w \<le> win_materialized_through w"
    using t(1) by (simp add: window_inv_def frontier_inv_def word_le_nat_alt)
  ultimately show ?thesis using a t by (auto simp: aligned_def)
qed

text \<open>The frames still to come; every call of the controller stays far below the end of the counter.\<close>

definition frame_room :: "'w DualRunSchedulerV1 \<Rightarrow> nat \<Rightarrow> bool" where
  "frame_room s n \<longleftrightarrow> unat (sch_next_frame s) + n < 2 ^ 64 - 16"

lemma aligned_handle:
  "aligned (snd (fst (handle_window_status s st))) = aligned s"
  "sch_next_frame (snd (fst (handle_window_status s st))) = sch_next_frame s"
  by (cases st; simp add: handle_window_status_def aligned_def freeze_def)+

lemma aligned_window_call:
  assumes "aligned s" "frame_room s 0"
  shows "aligned (s\<lparr>sch_window := snd (deliver_input (sch_window s) b)\<rparr>)"
    "aligned (s\<lparr>sch_window := snd (deliver_local_input (sch_window s) x y)\<rparr>)"
proof -
  have h: "window_inv (sch_window s)" "below_horizon (sch_window s) c" "win_bound (sch_window s)" for c
    using assms by (auto simp: aligned_def frame_room_def below_horizon_def)
  show "aligned (s\<lparr>sch_window := snd (deliver_input (sch_window s) b)\<rparr>)"
    using window_step_inv [OF h(1) h(2), of "Deliver b"] h(3)
    by (intro aligned_moved [OF assms(1)]) (simp_all add: deliver_bound deliver_step_frontier deliver_mat)
  show "aligned (s\<lparr>sch_window := snd (deliver_local_input (sch_window s) x y)\<rparr>)"
    using window_step_inv [OF h(1) h(2), of "DeliverLocal x y"] h(3)
    by (intro aligned_moved [OF assms(1)])
      (simp_all add: deliver_bound deliver_step_frontier deliver_local_mat)
qed

lemma aligned_accept:
  assumes "aligned s" "frame_room s 0"
  shows "aligned (snd (fst (accept_remote_input s b)))" "aligned (snd (fst (accept_local_input s x y)))"
  using aligned_window_call [OF assms] assms
  by (simp_all add: accept_remote_input_def accept_local_input_def aligned_handle case_prod_unfold Let_def)

lemma next_frame_accept:
  "sch_next_frame (snd (fst (accept_remote_input s b))) = sch_next_frame s"
  "sch_next_frame (snd (fst (accept_local_input s x y))) = sch_next_frame s"
  by (simp_all add: accept_remote_input_def accept_local_input_def aligned_handle split: prod.split)

section \<open>A step of a complete frame\<close>

text \<open>On an aligned window whose next frame is all real the plan is that frame, with nothing predicted,
  and planning adds no record.\<close>

lemma plan_all_real:
  assumes a: "aligned s" and real: "frame_all_real (sch_window s) (sch_next_frame s)"
    and room: "frame_room s 1"
  shows "pln_status (fst (plan_next (sch_window s))) = WinOk"
    "pln_frame_index (fst (plan_next (sch_window s))) = sch_next_frame s"
    "pln_predicted_port_mask (fst (plan_next (sch_window s))) = 0"
    "snd (plan_next (sch_window s)) = (sch_window s)\<lparr>win_materialized_through := sch_next_frame s + 1\<rparr>"
proof -
  let ?w = "sch_window s" and ?f = "sch_next_frame s"
  obtain r where r: "find_record ?w ?f = Some r"
    "fr_real_port_mask r AND win_owned_port_mask ?w = win_owned_port_mask ?w"
    using real by (auto simp: frame_all_real_def split: option.splits if_splits)
  have w: "window_inv ?w" "win_bound ?w" "win_step_frontier ?w = ?f" "win_commit_frontier ?w = ?f"
    "win_materialized_through ?w = ?f" using a by (auto simp: aligned_def)
  have e: "ensure_record ?w ?f = (r, ?w)" using r(1) by (simp add: ensure_record_def)
  have less: "?f < ?f + 1"
    using room unat_add_small [of ?f 1] by (simp add: frame_room_def word_less_nat_alt)
  have p: "plan_next ?w = (let s2 = ?w\<lparr>win_materialized_through := ?f + 1\<rparr>
      in (materialize_plan s2 r ?f 0, s2))"
    using w e less by (simp add: plan_next_def Let_def kDualMaxRollbackFramesV1_def
        kDualPredictionFreezeDepthV1_def)
  have ri: "record_inv r" using ring_invD(1) [OF _ r(1)] w(1) by (simp add: window_inv_def)
  have "plan_predicted u r = 0" if "win_owned_port_mask u = win_owned_port_mask ?w" for u
    using ri r(2) that by (intro bit_word_eqI) (auto simp: bit_plan_predicted record_inv_def and_eq_right_iff)
  then show "pln_status (fst (plan_next ?w)) = WinOk" "pln_frame_index (fst (plan_next ?w)) = ?f"
    "pln_predicted_port_mask (fst (plan_next ?w)) = 0"
    "snd (plan_next ?w) = ?w\<lparr>win_materialized_through := ?f + 1\<rparr>"
    by (simp_all add: p Let_def materialize_plan_def)
qed

lemma mark_all_real:
  assumes a: "aligned s" and real: "frame_all_real (sch_window s) (sch_next_frame s)"
    and room: "frame_room s 2"
  defines "u \<equiv> (sch_window s)\<lparr>win_materialized_through := sch_next_frame s + 1\<rparr>"
    and "f \<equiv> sch_next_frame s"
  obtains t where "mark_planned u f 0 = (WinOk, t)" "window_inv t" "win_bound t"
    "win_step_frontier t = f + 1" "win_commit_frontier t = f + 1" "win_materialized_through t = f + 1"
    "\<And>g. (find_record t g \<noteq> None) = (find_record (sch_window s) g \<noteq> None)"
proof -
  let ?w = "sch_window s"
  have room1: "frame_room s 1" using room by (simp add: frame_room_def)
  have w: "window_inv ?w" "win_bound ?w" "win_step_frontier ?w = f" "win_commit_frontier ?w = f"
    "win_materialized_through ?w = f" using a by (auto simp: aligned_def f_def)
  obtain r where r: "find_record ?w f = Some r"
    "fr_real_port_mask r AND win_owned_port_mask ?w = win_owned_port_mask ?w"
    using real by (auto simp: frame_all_real_def f_def split: option.splits if_splits)
  have plan: "snd (plan_next ?w) = u" using plan_all_real(4) [OF a real room1] by (simp add: u_def)
  have n: "unat (f + 1) = unat f + 1" using room unat_add_small [of f 1] by (simp add: frame_room_def f_def)
  have iu: "window_inv u"
    using plan_next_inv [OF w(1)] room plan w(5) by (simp add: frame_room_def f_def)
  let ?r = "r\<lparr>fr_planned := True, fr_planned_predicted_mask := 0\<rparr>"
  let ?v = "(put_record u f ?r)\<lparr>win_step_frontier := f + 1\<rparr>"
  let ?t = "advance_commit_frontier ?v"
  have fu: "find_record u g = find_record ?w g" for g by (simp add: u_def)
  have m: "mark_planned u f 0 = (WinOk, ?t)"
    using w(2) r(1) n by (simp add: mark_planned_def Let_def fu u_def f_def word_less_nat_alt not_le)
  have it: "window_inv ?t" "window_le u ?t"
    using mark_planned_inv [OF iu, of f 0] room n m by (simp_all add: u_def frame_room_def f_def)
  have mt: "win_materialized_through ?t = f + 1" by (simp add: u_def f_def)
  have len: "length (win_ring u) = 20" using iu by (simp add: window_inv_def ring_inv_def)
  have ur: "fr_used ?r" "fr_frame_index ?r = f" using r(1) by (auto simp: find_record_Some)
  have fr: "find_record (put_record u f ?r) g = (if g = f then Some ?r else find_record ?w g)" for g
    using find_put_existing [OF len ur, of r] r(1) by (simp add: fu)
  have "win_owned_port_mask ?v = win_owned_port_mask ?w" by (simp add: u_def)
  moreover have "find_record ?v f = Some ?r" by (simp add: fr)
  ultimately have "committable ?v f" using r(2) unfolding committable_def and_eq_right_iff
    by (intro exI [of _ ?r]) simp
  then have "win_commit_frontier ?t \<noteq> f"
    using advance_loop_stops [of ?v] by (auto simp: commit_ready_iff)
  moreover have "f \<le> win_commit_frontier ?t"
    using it(2) w(4) by (simp add: window_le_def u_def)
  moreover have "win_commit_frontier ?t \<le> f + 1"
    using it(1) mt by (simp add: window_inv_def frontier_inv_def word_le_nat_alt)
  ultimately have "win_commit_frontier ?t = f + 1"
    using n by (simp add: word_le_nat_alt word_unat_eq_iff)
  moreover have "(find_record ?t g \<noteq> None) = (find_record ?w g \<noteq> None)" for g
    using r(1) by (simp add: fr)
  moreover have "win_bound ?t" using w(2) by (simp add: u_def)
  ultimately show thesis using that [OF m it(1)] mt by simp
qed

section \<open>What the controller relies on in its scheduler\<close>

text \<open>The digest ring never holds a predicted frame and the watermark never moves: nothing the
  controller calls acknowledges a digest.\<close>

definition unverified :: "'w DualRunSchedulerV1 \<Rightarrow> bool" where
  "unverified s \<longleftrightarrow> sch_state_verified_through s = 0 \<and> length (sch_predicted s) = 20
     \<and> (\<forall>k<20. \<not> sch_predicted s ! k) \<and> sch_prediction_depth s = 0"

lemma unverified_freeze [simp]: "unverified (snd (freeze s r)) = unverified s"
  by (simp add: unverified_def freeze_def)

lemma unverified_handle [simp]: "unverified (snd (fst (handle_window_status s st))) = unverified s"
  by (cases st) (simp_all add: handle_window_status_def)

lemma unverified_window [simp]: "unverified (s\<lparr>sch_window := w\<rparr>) = unverified s"
  by (simp add: unverified_def)

lemma unverified_accept [simp]:
  "unverified (snd (fst (accept_remote_input s b))) = unverified s"
  "unverified (snd (fst (accept_local_input s x y))) = unverified s"
  by (simp_all add: accept_remote_input_def accept_local_input_def case_prod_unfold Let_def)

lemma step_all_real:
  assumes a: "aligned s" and real: "frame_all_real (sch_window s) (sch_next_frame s)"
    and room: "frame_room s 2" and u: "unverified s"
  shows "unverified (snd (step_next_frame port s))"
    "fst (step_next_frame port s) = FLY_OK \<Longrightarrow> aligned (snd (step_next_frame port s))
       \<and> sch_next_frame (snd (step_next_frame port s)) = sch_next_frame s + 1
       \<and> sch_current_frame (snd (step_next_frame port s)) = sch_next_frame s
       \<and> sch_state (snd (step_next_frame port s)) = sch_state s
       \<and> (\<forall>g. (find_record (sch_window (snd (step_next_frame port s))) g \<noteq> None)
              = (find_record (sch_window s) g \<noteq> None))"
proof -
  have room1: "frame_room s 1" using room by (simp add: frame_room_def)
  note plan = plan_all_real [OF a real room1]
  obtain t where t: "mark_planned ((sch_window s)\<lparr>win_materialized_through := sch_next_frame s + 1\<rparr>)
      (sch_next_frame s) 0 = (WinOk, t)" "window_inv t" "win_bound t"
    "win_step_frontier t = sch_next_frame s + 1" "win_commit_frontier t = sch_next_frame s + 1"
    "win_materialized_through t = sch_next_frame s + 1"
    "\<And>g. (find_record t g \<noteq> None) = (find_record (sch_window s) g \<noteq> None)"
    using mark_all_real [OF a real room] by blast
  obtain pl w where pw: "plan_next (sch_window s) = (pl, w)" by (cases "plan_next (sch_window s)")
  show "unverified (snd (step_next_frame port s))"
    using u plan t by (auto simp: step_next_frame_def pw Let_def unverified_def record_digest_def freeze_def
        nth_list_update split: prod.split)
  show "aligned (snd (step_next_frame port s))
       \<and> sch_next_frame (snd (step_next_frame port s)) = sch_next_frame s + 1
       \<and> sch_current_frame (snd (step_next_frame port s)) = sch_next_frame s
       \<and> sch_state (snd (step_next_frame port s)) = sch_state s
       \<and> (\<forall>g. (find_record (sch_window (snd (step_next_frame port s))) g \<noteq> None)
              = (find_record (sch_window s) g \<noteq> None))"
    if "fst (step_next_frame port s) = FLY_OK"
    using that plan t
    by (auto simp: step_next_frame_def pw Let_def record_digest_def freeze_def aligned_def
        split: prod.splits if_splits)
qed

section \<open>The stepping loop\<close>

text \<open>Every round takes one of the frames the ring holds; the frames of the loop are pairwise different
  and all in the ring, so the loop ends before its fuel does.\<close>

lemma ring_frames_card: "card {g. find_record w g \<noteq> None} \<le> 20" "finite {g. find_record w g \<noteq> None}"
proof -
  have sub: "{g. find_record w g \<noteq> None} \<subseteq> (\<lambda>k. fr_frame_index (win_ring w ! k)) ` {..<20}"
  proof
    fix g assume "g \<in> {g. find_record w g \<noteq> None}"
    then have "fr_frame_index (win_ring w ! slot_of g) = g" by (auto simp: find_record_Some)
    then show "g \<in> (\<lambda>k. fr_frame_index (win_ring w ! k)) ` {..<20}"
      by (intro image_eqI [of _ _ "slot_of g"]) simp_all
  qed
  then show "finite {g. find_record w g \<noteq> None}" by (rule finite_subset) simp
  have "card {g. find_record w g \<noteq> None} \<le> card ((\<lambda>k. fr_frame_index (win_ring w ! k)) ` {..<20})"
    by (rule card_mono [OF _ sub]) simp
  also have "\<dots> \<le> card {..<20::nat}" by (rule card_image_le) simp
  finally show "card {g. find_record w g \<noteq> None} \<le> 20" by simp
qed

definition frames_ahead :: "'w DualRunSchedulerV1 \<Rightarrow> nat" where
  "frames_ahead s = card {g. find_record (sch_window s) g \<noteq> None \<and> sch_next_frame s \<le> g}"

lemma frames_ahead_step:
  assumes "frame_all_real (sch_window s) (sch_next_frame s)" "frame_room s 2"
    "sch_next_frame t = sch_next_frame s + 1"
    "\<And>g. (find_record (sch_window t) g \<noteq> None) = (find_record (sch_window s) g \<noteq> None)"
  shows "frames_ahead t < frames_ahead s"
  unfolding frames_ahead_def
proof (rule psubset_card_mono)
  show "finite {g. find_record (sch_window s) g \<noteq> None \<and> sch_next_frame s \<le> g}"
    using ring_frames_card(2) [of "sch_window s"] by (rule finite_subset [rotated]) auto
  let ?f = "sch_next_frame s"
  have n: "unat (?f + 1) = unat ?f + 1" using assms(2) unat_add_small [of ?f 1] by (simp add: frame_room_def)
  have "{g. find_record (sch_window t) g \<noteq> None \<and> sch_next_frame t \<le> g}
      \<subseteq> {g. find_record (sch_window s) g \<noteq> None \<and> ?f \<le> g}"
    unfolding assms(3,4) using n by (auto simp: word_le_nat_alt)
  moreover have "?f \<in> {g. find_record (sch_window s) g \<noteq> None \<and> ?f \<le> g}"
    using assms(1) by (auto simp: frame_all_real_def split: option.splits)
  moreover have "?f \<notin> {g. find_record (sch_window t) g \<noteq> None \<and> sch_next_frame t \<le> g}"
    using n by (simp add: assms(3) word_le_nat_alt)
  ultimately show "{g. find_record (sch_window t) g \<noteq> None \<and> sch_next_frame t \<le> g}
      \<subset> {g. find_record (sch_window s) g \<noteq> None \<and> ?f \<le> g}" by blast
qed

lemma frames_ahead_bound: "frames_ahead s \<le> 20"
proof -
  have "frames_ahead s \<le> card {g. find_record (sch_window s) g \<noteq> None}"
    unfolding frames_ahead_def by (rule card_mono [OF ring_frames_card(2)]) auto
  then show ?thesis using ring_frames_card(1) [of "sch_window s"] by linarith
qed

end
