(* ===== verification/App_Frame_Properties.thy ===== *)
theory App_Frame_Properties
  imports App_Frame
begin

unbundle bit_operations_syntax

text \<open>
  Correctness of application framing: records of a channel are recognised at the front of a stream
  (an instance of \<open>prefix_codec\<close>), a cut stream gives the records it contains and asks for more, and
  nothing decodes but encodings of legal records.
\<close>

section \<open>Encoded records\<close>

definition record_bytes :: "u16 \<times> bytes \<Rightarrow> bytes" where
  "record_bytes r = store_be 4 (of_nat (2 + length (snd r)) :: u32) @ store_be 2 (fst r) @ snd r"

definition good_record :: "QuicChannel \<Rightarrow> u16 \<times> bytes \<Rightarrow> bool" where
  "good_record c r \<longleftrightarrow>
     tag_is_legal_on c (fst r) \<and> length (snd r) \<le> max_object_bytes c
     \<and> fst (check (type_name_for_tag (fst r)) (Some (snd r)) True) = Wire_Ok"

definition decode_front :: "QuicChannel \<Rightarrow> bytes \<Rightarrow> ((u16 \<times> bytes) \<times> bytes) option" where
  "decode_front c bs =
     (case decode_record (Some c) bs of
        Inl _ \<Rightarrow> None
      | Inr (af, consumed) \<Rightarrow> Some ((af_frame_type_tag af, af_object_bytes af), drop consumed bs))"

lemma max_object_less: "max_object_bytes c \<le> 245760"
  by (cases c) simp_all

lemma length_record: "length (record_bytes r) = 6 + length (snd r)"
  by (simp add: record_bytes_def)

lemma unat_declared: "length obj \<le> 245760 \<Longrightarrow> unat (of_nat (2 + length obj) :: u32) = 2 + length obj"
  unfolding unat_of_nat by simp

lemma record_head:
  assumes "length obj \<le> 245760"
  shows "unat (be32 (record_bytes (tag, obj) @ rest) 0) = 2 + length obj"
    "be16 (record_bytes (tag, obj) @ rest) 4 = tag"
    "take (length obj) (drop 6 (record_bytes (tag, obj) @ rest)) = obj"
  using unat_declared [OF assms]
  by (simp_all add: be32_def be16_def record_bytes_def load_store_be_full del: of_nat_add)

lemma legal_info:
  assumes "tag_is_legal_on c tag"
  obtains ns name0 where "frame_tag_info tag = Some (ns, name0)" "type_name_for_tag tag = Some name0"
    "allow_list_has_type (allow_list_for c) (Some name0)"
  using assms
  by (cases "frame_tag_info tag")
    (auto simp: tag_is_legal_on_def type_name_for_tag_def allow_list_has_type_def)

lemma decode_good:
  assumes "good_record c (tag, obj)"
  shows "\<exists>af. decode_record (Some c) (record_bytes (tag, obj) @ rest) = Inr (af, 6 + length obj)
    \<and> af_frame_type_tag af = tag \<and> af_object_bytes af = obj"
proof -
  have size: "length obj \<le> max_object_bytes c" "length obj \<le> 245760"
    using assms max_object_less [of c] by (auto simp: good_record_def)
  from assms obtain ns name0 where info: "frame_tag_info tag = Some (ns, name0)"
      "type_name_for_tag tag = Some name0" "allow_list_has_type (allow_list_for c) (Some name0)"
    by (auto simp: good_record_def elim: legal_info)
  let ?bs = "record_bytes (tag, obj) @ rest"
  note head = record_head [OF size(2), of tag rest]
  have len: "\<not> length ?bs < 4" "\<not> be32 ?bs 0 < 2" "\<not> 4 + unat (be32 ?bs 0) > length ?bs"
    using head(1) by (simp_all add: length_record word_less_nat_alt)
  obtain hash where chk: "check (Some name0) (Some obj) True = (Wire_Ok, hash)"
    using assms info(2) by (metis (no_types, lifting) eq_fst_iff good_record_def prod.sel)
  show ?thesis
    unfolding decode_record_def Let_def option.case head(2) info(1)
    using len info(3) size(1) head(1,3) chk by simp
qed

interpretation frames: prefix_codec record_bytes "decode_front c" "good_record c" for c
proof
  fix x :: "u16 \<times> bytes" and rest
  assume "good_record c x"
  then show "decode_front c (record_bytes x @ rest) = Some (x, rest)"
    using decode_good [of c "fst x" "snd x" rest] by (auto simp: decode_front_def length_record)
qed

lemma decode_record_sound:
  assumes "decode_record (Some c) bs = Inr (af, n)"
  shows "good_record c (af_frame_type_tag af, af_object_bytes af)"
    "bs = record_bytes (af_frame_type_tag af, af_object_bytes af) @ drop n bs"
    "n = 6 + length (af_object_bytes af)"
proof -
  define d where "d = be32 bs 0"
  obtain name0 where len: "4 \<le> length bs" "2 \<le> unat d" "unat d - 2 \<le> max_object_bytes c" "4 + unat d \<le> length bs"
    and n: "n = 4 + unat d" and tag: "af_frame_type_tag af = be16 bs 4"
    and obj: "af_object_bytes af = take (unat d - 2) (drop 6 bs)"
    and name0: "type_name_for_tag (be16 bs 4) = Some name0" "allow_list_has_type (allow_list_for c) (Some name0)"
    and chk: "fst (check (Some name0) (Some (af_object_bytes af)) True) = Wire_Ok"
    using assms unfolding decode_record_def Let_def d_def [symmetric]
    by (auto simp: type_name_for_tag_def word_less_nat_alt not_less split: if_splits option.splits prod.splits)
  have lobj: "length (af_object_bytes af) = unat d - 2" using len by (simp add: obj)
  show "good_record c (af_frame_type_tag af, af_object_bytes af)"
    using name0 chk lobj len(3) by (simp add: good_record_def tag tag_is_legal_on_def)
  show "n = 6 + length (af_object_bytes af)" using n lobj len(2) by simp
  have d': "of_nat (2 + length (af_object_bytes af)) = d" using lobj len(2) by simp
  have w4: "store_be 4 d = take 4 bs"
    using store_load_be [of "take 4 bs", where 'a = 32] len(1) by (simp add: d_def be32_def min_absorb2)
  have w2: "store_be 2 (be16 bs 4) = take 2 (drop 4 bs)"
    using store_load_be [of "take 2 (drop 4 bs)", where 'a = 16] len(2,4) by (simp add: be16_def)
  have "bs = take 4 bs @ take 2 (drop 4 bs) @ take (unat d - 2) (drop 6 bs) @ drop n bs"
  proof -
    have n': "6 + (unat d - 2) = n" using n len(2) by simp
    have "drop 4 bs = take 2 (drop 4 bs) @ drop 6 bs" using append_take_drop_id [of 2 "drop 4 bs"] by simp
    moreover have "drop 6 bs = take (unat d - 2) (drop 6 bs) @ drop n bs"
      using append_take_drop_id [of "unat d - 2" "drop 6 bs"] n' by (simp add: add.commute)
    ultimately show ?thesis by (metis append_take_drop_id)
  qed
  then show "bs = record_bytes (af_frame_type_tag af, af_object_bytes af) @ drop n bs"
    unfolding record_bytes_def fst_conv snd_conv d' w4 tag w2 by (simp add: obj)
qed

section \<open>Reading a stream\<close>

text \<open>\<open>read_frames\<close> moves the cursor until it stops and returns the records with the final status.\<close>

fun read_frames :: "nat \<Rightarrow> AppFrameCursor \<Rightarrow> (u16 \<times> bytes) list \<times> Status" where
  "read_frames 0 cursor = ([], Wire_Ok)"
| "read_frames (Suc fuel) cursor =
     (case next_app_frame cursor of
        ((status, None), cursor1) \<Rightarrow> ([], status)
      | ((status, Some af), cursor1) \<Rightarrow>
          (let (rs, last0) = read_frames fuel cursor1
           in ((af_frame_type_tag af, af_object_bytes af) # rs, last0)))"

lemma decode_truncated:
  assumes "good_record c r" "n < length (record_bytes r)"
  shows "decode_record (Some c) (take n (record_bytes r)) = Inl Wire_Truncated"
proof (cases "n < 4")
  case True
  then have "length (take n (record_bytes r)) < 4" by simp
  then show ?thesis unfolding decode_record_def Let_def by (simp only: if_True)
next
  case False
  have size: "length (snd r) \<le> max_object_bytes c" "length (snd r) \<le> 245760"
    using assms(1) max_object_less [of c] by (auto simp: good_record_def)
  have "be32 (take n (record_bytes r)) 0 = be32 (record_bytes r @ []) 0"
    using False by (simp add: be32_def min_def)
  then have "unat (be32 (take n (record_bytes r)) 0) = 2 + length (snd r)"
    using record_head(1) [OF size(2), of "fst r" "[]"] by simp
  then show ?thesis
    using False assms(2) size(1) by (simp add: decode_record_def Let_def length_record word_less_nat_alt)
qed

text \<open>The records that lie wholly within the first \<open>n\<close> bytes.\<close>

fun whole :: "nat \<Rightarrow> (u16 \<times> bytes) list \<Rightarrow> (u16 \<times> bytes) list" where
  "whole n [] = []"
| "whole n (r # rs) = (if length (record_bytes r) \<le> n then r # whole (n - length (record_bytes r)) rs else [])"

lemma read_cut_stream:
  assumes "list_all (good_record c) rs" "n \<le> length (concat (map record_bytes rs))" "length rs < fuel"
    "cur_channel cursor = c" "cur_offset cursor \<le> length (cur_bytes cursor)"
    "drop (cur_offset cursor) (cur_bytes cursor) = take n (concat (map record_bytes rs))"
  shows "fst (read_frames fuel cursor) = whole n rs
    \<and> snd (read_frames fuel cursor) =
        (if n = length (concat (map record_bytes (whole n rs))) then Wire_Ok else Wire_Truncated)"
  using assms
proof (induction rs arbitrary: n fuel cursor)
  case Nil
  then obtain f where f: "fuel = Suc f" by (cases fuel) auto
  from Nil have "cur_offset cursor = length (cur_bytes cursor)" by simp
  then show ?case using Nil by (simp add: f next_app_frame_def)
next
  case (Cons r rs)
  then obtain f where f: "fuel = Suc f" by (cases fuel) auto
  have good: "good_record c r" "list_all (good_record c) rs" using Cons.prems by simp_all
  let ?rest = "drop (cur_offset cursor) (cur_bytes cursor)"
  show ?case
  proof (cases "length (record_bytes r) \<le> n")
    case True
    let ?n = "n - length (record_bytes r)"
    have rest: "?rest = record_bytes r @ take ?n (concat (map record_bytes rs))"
      using Cons.prems(6) True by simp
    obtain af where af: "decode_record (Some c) ?rest = Inr (af, 6 + length (snd r))"
        "(af_frame_type_tag af, af_object_bytes af) = r"
      using decode_good [of c "fst r" "snd r" "take ?n (concat (map record_bytes rs))"] good(1)
      unfolding rest by (auto simp: prod_eq_iff)
    have "?rest \<noteq> []" unfolding rest using length_record [of r] by auto
    then have off: "cur_offset cursor < length (cur_bytes cursor)" by (simp add: not_le)
    let ?c1 = "cursor\<lparr>cur_offset := cur_offset cursor + (6 + length (snd r))\<rparr>"
    have nx: "next_app_frame cursor = ((Wire_Ok, Some af), ?c1)"
      using off af(1) Cons.prems(4) by (simp add: next_app_frame_def)
    have le: "cur_offset ?c1 \<le> length (cur_bytes ?c1)"
    proof -
      have "length (record_bytes r) \<le> length ?rest" unfolding rest by simp
      then show ?thesis using off by (simp add: length_record)
    qed
    have dr: "drop (cur_offset ?c1) (cur_bytes ?c1) = take ?n (concat (map record_bytes rs))"
    proof -
      have "drop (cur_offset ?c1) (cur_bytes ?c1) = drop (length (record_bytes r)) ?rest"
        by (simp add: length_record add.commute)
      then show ?thesis unfolding rest by simp
    qed
    have n: "?n \<le> length (concat (map record_bytes rs))" "length rs < f"
      using Cons.prems(2,3) f by simp_all
    note IH = Cons.IH [OF good(2) n _ le dr]
    show ?thesis
      using IH Cons.prems(4) True by (auto simp: f nx af(2) case_prod_beta)
  next
    case False
    have cut: "?rest = take n (record_bytes r)" using Cons.prems(6) False by simp
    show ?thesis
    proof (cases "n = 0")
      case True
      then have "cur_offset cursor = length (cur_bytes cursor)"
        using Cons.prems(5,6) by simp
      then show ?thesis using True False by (simp add: f next_app_frame_def)
    next
      case n: False
      have "?rest \<noteq> []" unfolding cut using n False by auto
      then have off: "cur_offset cursor < length (cur_bytes cursor)" by (simp add: not_le)
      have "decode_record (Some c) ?rest = Inl Wire_Truncated"
        unfolding cut using False by (intro decode_truncated [OF good(1)]) simp
      then show ?thesis using off Cons.prems(4) n False by (simp add: f next_app_frame_def)
    qed
  qed
qed

section \<open>A confirmation record\<close>

text \<open>A well-formed configuration confirmation, the object of the witnesses.\<close>

definition confirm_object :: bytes where
  "confirm_object = [0, 1, 0, 0] @ replicate 32 7 @ [0, 0, 0, 0, 0, 0, 0, 1]"

lemma confirm_checks: "fst (check (Some ''0x0218'') (Some confirm_object) True) = Wire_Ok"
proof -
  have "length confirm_object = 44" by (simp add: confirm_object_def)
  moreover have "be16 confirm_object 0 = 1" "zeros confirm_object 2 2" "\<not> zeros confirm_object 4 32"
    "be64 confirm_object 36 = 1"
    by code_simp+
  ultimately show ?thesis
    by (simp add: check_def check_named_def check_pending_config_confirm_def length_status_def)
qed

lemma confirm_good: "good_record Chan_Control (0x0218, confirm_object)"
proof -
  have n: "type_name_for_tag 0x0218 = Some ''0x0218''" by code_simp
  then have "tag_is_legal_on Chan_Control 0x0218"
    by (simp add: tag_is_legal_on_def allow_list_has_type_def kControlTypes_def)
  moreover have "length confirm_object \<le> max_object_bytes Chan_Control" by (simp add: confirm_object_def)
  ultimately show ?thesis using n confirm_checks by (simp add: good_record_def)
qed

section \<open>Properties\<close>

text \<open>
  C36: A datagram parses exactly when it is the encoding of a record that is legal on the channel, within
  its size and valid for its type, and the frame then holds that record: no other bytes are accepted
  and a tag cannot be reinterpreted.
\<close>
theorem app_frame_codec:
  "(\<exists>af. parse_app_frame c (Some bs) True = Inr af \<and> af_frame_type_tag af = tag \<and> af_object_bytes af = obj)
    \<longleftrightarrow> good_record c (tag, obj) \<and> (\<exists>cap. encode_app_frame tag (Some obj) True cap True = (Wire_Ok, Some bs))"
proof -
  have enc: "(\<exists>cap. encode_app_frame tag (Some obj) True cap True = (Wire_Ok, Some bs)) \<longleftrightarrow> bs = record_bytes (tag, obj)"
    if "good_record c (tag, obj)"
  proof -
    have "type_name_for_tag tag \<noteq> None"
      using that by (auto simp: good_record_def elim: legal_info)
    moreover have "length obj \<le> 245760" using that max_object_less [of c] by (auto simp: good_record_def)
    ultimately show ?thesis
      by (auto simp: encode_app_frame_def absolute_max_object_bytes_def record_bytes_def Let_def
          intro: exI [of _ "6 + length obj"])
  qed
  show ?thesis
  proof
    assume "\<exists>af. parse_app_frame c (Some bs) True = Inr af \<and> af_frame_type_tag af = tag \<and> af_object_bytes af = obj"
    then obtain af n where af: "decode_record (Some c) bs = Inr (af, n)" "n = length bs"
        "af_frame_type_tag af = tag" "af_object_bytes af = obj"
      by (auto simp: parse_app_frame_def split: sum.splits if_splits)
    then show "good_record c (tag, obj) \<and> (\<exists>cap. encode_app_frame tag (Some obj) True cap True = (Wire_Ok, Some bs))"
      using decode_record_sound [OF af(1)] enc by simp
  next
    assume r: "good_record c (tag, obj) \<and> (\<exists>cap. encode_app_frame tag (Some obj) True cap True = (Wire_Ok, Some bs))"
    then have bs: "bs = record_bytes (tag, obj)" using enc by blast
    then show "\<exists>af. parse_app_frame c (Some bs) True = Inr af \<and> af_frame_type_tag af = tag \<and> af_object_bytes af = obj"
      using decode_good [of c tag obj "[]"] r by (auto simp: parse_app_frame_def length_record)
  qed
qed

text \<open>
  Reading a stream of legal records that was cut at any byte gives exactly the records that
  arrived whole, in order, and ends with success at a record boundary and with a request for more
  bytes otherwise; it never reports an error.
\<close>
theorem app_stream_reading:
  assumes "list_all (good_record c) rs" "n \<le> length (concat (map record_bytes rs))" "length rs < fuel"
  shows "read_frames fuel (app_frame_cursor c (take n (concat (map record_bytes rs)))) =
    (whole n rs, if n = length (concat (map record_bytes (whole n rs))) then Wire_Ok else Wire_Truncated)"
  using read_cut_stream [OF assms, of "app_frame_cursor c (take n (concat (map record_bytes rs)))"]
  by (simp add: app_frame_cursor_def prod_eq_iff)

theorem app_stream_reading_witness:
  "read_frames 3 (app_frame_cursor Chan_Control
      (take 60 (concat (map record_bytes [(0x0218, confirm_object), (0x0218, confirm_object)]))))
    = ([(0x0218, confirm_object)], Wire_Truncated)"
proof -
  have len: "length (record_bytes (0x0218, confirm_object)) = 50"
    by (simp add: length_record confirm_object_def)
  show ?thesis
    using app_stream_reading [of Chan_Control "[(0x0218, confirm_object), (0x0218, confirm_object)]" 60 3]
    by (simp add: confirm_good len)
qed

text \<open>
  Six of the eleven types listed for State Commit can never be received: they are listed in upper-case
  spelling, while the type table names them in lower case, so on every channel a frame with one of the
  reservation tags 0x020A to 0x020F is refused.
\<close>
theorem reservation_tags_refused:
  assumes "decode_record (Some c) bs = Inr (af, n)"
  shows "af_frame_type_tag af \<notin> {0x020A, 0x020B, 0x020C, 0x020D, 0x020E, 0x020F}
    \<and> list_all (\<lambda>name0. name0 \<in> set (allow_list_for Chan_StateCommit))
        [''0x020A'', ''0x020B'', ''0x020C'', ''0x020D'', ''0x020E'', ''0x020F'']"
proof -
  have names: "map type_name_for_tag [0x020A, 0x020B, 0x020C, 0x020D, 0x020E, 0x020F]
      = map Some [''0x020a'', ''0x020b'', ''0x020c'', ''0x020d'', ''0x020e'', ''0x020f'']"
    by code_simp
  have "tag_is_legal_on c (af_frame_type_tag af)"
    using decode_record_sound(1) [OF assms] by (simp add: good_record_def)
  moreover have "\<not> tag_is_legal_on c tag" if "tag \<in> {0x020A, 0x020B, 0x020C, 0x020D, 0x020E, 0x020F}" for tag
    using that names
    by (cases c) (auto simp: tag_is_legal_on_def allow_list_has_type_def kControlTypes_def
        kStateCommitTypes_def kBulkTypes_def)
  moreover have "list_all (\<lambda>name0. name0 \<in> set (allow_list_for Chan_StateCommit))
        [''0x020A'', ''0x020B'', ''0x020C'', ''0x020D'', ''0x020E'', ''0x020F'']"
    by (simp add: kStateCommitTypes_def)
  ultimately show ?thesis by blast
qed

theorem reservation_tags_refused_witness:
  "\<exists>af n. decode_record (Some Chan_Control) (record_bytes (0x0218, confirm_object)) = Inr (af, n)
    \<and> af_frame_type_tag af \<notin> {0x020A, 0x020B, 0x020C, 0x020D, 0x020E, 0x020F}"
proof -
  obtain af where d: "decode_record (Some Chan_Control) (record_bytes (0x0218, confirm_object))
      = Inr (af, 6 + length confirm_object)"
    using decode_good [OF confirm_good, of "[]"] by auto
  show ?thesis using reservation_tags_refused [OF d] d by blast
qed

end
