(* ===== verification/Controller_Invariant.thy ===== *)
theory Controller_Invariant
  imports Controller_Lockstep App_Frame_Properties
begin

text \<open>
  The state invariant of the session controller, that every call keeps it, and that the stepping loop and
  the reading loop end with their fuel unspent.
\<close>

section \<open>Invariant\<close>

definition sched_inv :: "bool \<Rightarrow> 'w DualRunSchedulerV1 \<Rightarrow> bool" where
  "sched_inv frozen s \<longleftrightarrow> unverified s \<and> reason_inv s \<and> (\<not> frozen \<and> sch_state s \<noteq> Sim_Frozen \<longrightarrow> aligned s)"

definition bind_inv :: "BindRevision list \<Rightarrow> bool" where
  "bind_inv rs \<longleftrightarrow> length rs \<le> 16 \<and> distinct (map br_id rs) \<and> (\<forall>r \<in> set rs. br_count r \<noteq> 0)"

definition phase_inv :: "'w DualSessionController \<Rightarrow> bool" where
  "phase_inv c \<longleftrightarrow>
     (dc_local_runtime_ready c \<longleftrightarrow> dc_scheduler c \<noteq> None)
     \<and> (dc_peer_runtime_ready c \<longrightarrow> dc_local_runtime_ready c)
     \<and> (dc_running c \<longrightarrow> dc_peer_runtime_ready c \<and> \<not> dc_frozen c)
     \<and> (dc_paused c \<longrightarrow> (dc_running c \<or> dc_frozen c) \<and> dc_freeze_reason c \<noteq> Freeze_None)
     \<and> (dc_pending_config_local_confirmed c \<or> dc_pending_config_peer_confirmed c \<longrightarrow> dc_selected c)"

definition ctl_inv :: "'w DualSessionController \<Rightarrow> bool" where
  "ctl_inv c \<longleftrightarrow> phase_inv c \<and> bind_inv (dc_bind_revisions c)
     \<and> (\<forall>bs \<in> set (dc_write_queue c). length bs = kFramedInputBytes)
     \<and> (\<forall>s. dc_scheduler c = Some s \<longrightarrow> sched_inv (dc_frozen c) s)"

definition ctl_room :: "nat \<Rightarrow> 'w DualSessionController \<Rightarrow> bool" where
  "ctl_room n c \<longleftrightarrow> (\<forall>s. dc_scheduler c = Some s \<longrightarrow> frame_room s n)"

lemma ctl_room_mono: "ctl_room n c \<Longrightarrow> m \<le> n \<Longrightarrow> ctl_room m c"
  by (auto simp: ctl_room_def frame_room_def)

lemma sched_inv_frozen: "sched_inv frozen s \<Longrightarrow> sched_inv True s"
  by (simp add: sched_inv_def)

lemma sched_inv_freeze: "\<lbrakk>sched_inv f s; r \<noteq> Freeze_None\<rbrakk> \<Longrightarrow> sched_inv g (snd (freeze s r))"
  by (simp add: sched_inv_def reason_freeze)

lemma mark_frozen_inv: "ctl_inv c \<Longrightarrow> dc_paused c \<longrightarrow> dc_freeze_reason c \<noteq> Freeze_None \<Longrightarrow> ctl_inv (mark_frozen c r)"
  by (auto simp: ctl_inv_def phase_inv_def mark_frozen_def intro: sched_inv_frozen)

lemma mark_frozen_simps [simp]:
  "dc_scheduler (mark_frozen c r) = dc_scheduler c" "dc_frozen (mark_frozen c r)"
  "dc_read_accumulator (mark_frozen c r) = dc_read_accumulator c"
  "\<not> dc_running (mark_frozen c r)" "dc_write_queue (mark_frozen c r) = dc_write_queue c"
  by (simp_all add: mark_frozen_def)

lemma ctl_room_mark_frozen [simp]: "ctl_room n (mark_frozen c r) = ctl_room n c"
  by (simp add: ctl_room_def)

section \<open>The stepping loop\<close>

definition stepped_to :: "'w DualSessionController \<Rightarrow> 'w adapted DualRunSchedulerV1 \<Rightarrow> DualStateDigestV1
    \<Rightarrow> bool \<Rightarrow> 'w DualSessionController" where
  "stepped_to c s d v = c\<lparr>dc_scheduler := Some s, dc_last_digest := d, dc_view_dirty := v\<rparr>"

definition settled :: "'w DualRunSchedulerV1 \<Rightarrow> bool" where
  "settled s \<longleftrightarrow> \<not> (sch_state s = Sim_Running \<and> frame_all_real (sch_window s) (sch_next_frame s))"

lemma try_step_loop_result:
  assumes "dc_scheduler c = Some s" "sched_inv False s" "frame_room s (n + 2)" "frames_ahead s < n"
  shows "\<exists>s' d v. sched_inv True s' \<and> unat (sch_next_frame s') \<le> unat (sch_next_frame s) + n \<and>
     (try_step_loop n c s = Some (FLY_OK, stepped_to c s' d v) \<and> sched_inv False s'
        \<and> sch_state s' \<noteq> Sim_Frozen \<and> settled s'
      \<or> (\<exists>r. try_step_loop n c s = Some (r, mark_frozen (stepped_to c s' d v) (sch_freeze_reason s'))
        \<and> (r \<noteq> FLY_OK \<or> sch_state s' = Sim_Frozen)))"
  using assms
proof (induction n arbitrary: c s)
  case 0
  then show ?case by simp
next
  case (Suc n)
  let ?port = "CAbiDualRuntimePortV1 (dc_adapter c)"
  have same: "c = stepped_to c s (dc_last_digest c) (dc_view_dirty c)"
    using Suc.prems(1) by (simp add: stepped_to_def)
  show ?case
  proof (cases "settled s")
    case True
    then have l: "try_step_loop (Suc n) c s =
        Some (FLY_OK, if sch_state s = Sim_Frozen then mark_frozen c (sch_freeze_reason s) else c)"
      by (auto simp: settled_def)
    have t: "sched_inv True s" using Suc.prems(2) by (rule sched_inv_frozen)
    show ?thesis
    proof (cases "sch_state s = Sim_Frozen")
      case True
      then show ?thesis using l t same
        by (intro exI [of _ s] exI [of _ "dc_last_digest c"] exI [of _ "dc_view_dirty c"]) auto
    next
      case False
      then show ?thesis using l t same Suc.prems(2) \<open>settled s\<close>
        by (intro exI [of _ s] exI [of _ "dc_last_digest c"] exI [of _ "dc_view_dirty c"]) auto
    qed
  next
    case False
    then have run: "sch_state s = Sim_Running" "frame_all_real (sch_window s) (sch_next_frame s)"
      by (simp_all add: settled_def)
    then have a: "aligned s" "unverified s" using Suc.prems(2) by (simp_all add: sched_inv_def)
    have room: "frame_room s 2" using Suc.prems(3) by (simp add: frame_room_def)
    obtain r s1 where st: "step_next_frame ?port s = (r, s1)" by (cases "step_next_frame ?port s")
    note sr = step_all_real [OF a(1) run(2) room a(2), of ?port, unfolded st, simplified]
    have rs: "reason_inv s1" using reason_step [of s ?port] Suc.prems(2) st by (simp add: sched_inv_def)
    have t1: "sched_inv True s1" using sr(1) rs by (simp add: sched_inv_def)
    show ?thesis
    proof (cases "r = FLY_OK")
      case False
      have nf: "sch_next_frame s1 = sch_next_frame s"
        using st False by (auto simp: step_next_frame_def freeze_def record_digest_def Let_def
            split: if_splits prod.splits)
      have "try_step_loop (Suc n) c s = Some (r, mark_frozen (c\<lparr>dc_scheduler := Some s1\<rparr>) (sch_freeze_reason s1))"
        using run st False by simp
      moreover have "c\<lparr>dc_scheduler := Some s1\<rparr> = stepped_to c s1 (dc_last_digest c) (dc_view_dirty c)"
        by (simp add: stepped_to_def)
      ultimately show ?thesis using t1 nf False
        by (intro exI [of _ s1] exI [of _ "dc_last_digest c"] exI [of _ "dc_view_dirty c"]) auto
    next
      case True
      let ?c1 = "stepped_to c s1 (sch_last_digest s1) True"
      have l: "try_step_loop (Suc n) c s = try_step_loop n ?c1 s1"
        using run st True by (simp add: stepped_to_def)
      note sr2 = sr(2) [OF True]
      have n1: "unat (sch_next_frame s1) = unat (sch_next_frame s) + 1"
        using sr2 Suc.prems(3) unat_add_small [of "sch_next_frame s" 1] by (simp add: frame_room_def)
      have "frames_ahead s1 < frames_ahead s"
        using sr2 by (intro frames_ahead_step [OF run(2) room]) simp_all
      then have fa: "frames_ahead s1 < n" using Suc.prems(4) by simp
      have i1: "sched_inv False s1" using sr2 sr(1) rs by (simp add: sched_inv_def)
      have r1: "frame_room s1 (n + 2)" using Suc.prems(3) n1 by (simp add: frame_room_def)
      have "dc_scheduler ?c1 = Some s1" by (simp add: stepped_to_def)
      from Suc.IH [OF this i1 r1 fa] obtain s' d v where h:
        "sched_inv True s'" "unat (sch_next_frame s') \<le> unat (sch_next_frame s1) + n"
        "try_step_loop n ?c1 s1 = Some (FLY_OK, stepped_to ?c1 s' d v) \<and> sched_inv False s'
           \<and> sch_state s' \<noteq> Sim_Frozen \<and> settled s'
         \<or> (\<exists>r. try_step_loop n ?c1 s1 = Some (r, mark_frozen (stepped_to ?c1 s' d v) (sch_freeze_reason s'))
           \<and> (r \<noteq> FLY_OK \<or> sch_state s' = Sim_Frozen))" by blast
      moreover have "stepped_to ?c1 s' d v = stepped_to c s' d v" by (simp add: stepped_to_def)
      ultimately show ?thesis using l n1
        by (intro exI [of _ s'] exI [of _ d] exI [of _ v]) auto
    qed
  qed
qed

lemma try_step_result:
  assumes "dc_scheduler c = Some s" "\<not> dc_frozen c" "\<not> dc_paused c" "sched_inv False s" "frame_room s 23"
  obtains (ok) s' d v where "try_step c = (FLY_OK, stepped_to c s' d v)" "sched_inv False s'" "settled s'"
      "sch_state s' \<noteq> Sim_Frozen" "unat (sch_next_frame s') \<le> unat (sch_next_frame s) + 21"
  | (froze) s' d v r where "try_step c = (r, mark_frozen (stepped_to c s' d v) (sch_freeze_reason s'))"
      "sched_inv True s'" "r \<noteq> FLY_OK \<or> sch_state s' = Sim_Frozen"
      "unat (sch_next_frame s') \<le> unat (sch_next_frame s) + 21"
proof -
  have "frame_room s (21 + 2)" "frames_ahead s < 21"
    using assms(5) frames_ahead_bound [of s] by simp_all
  from try_step_loop_result [OF assms(1,4) this] obtain s' d v where h:
    "sched_inv True s'" "unat (sch_next_frame s') \<le> unat (sch_next_frame s) + 21"
    "try_step_loop 21 c s = Some (FLY_OK, stepped_to c s' d v) \<and> sched_inv False s'
       \<and> sch_state s' \<noteq> Sim_Frozen \<and> settled s'
     \<or> (\<exists>r. try_step_loop 21 c s = Some (r, mark_frozen (stepped_to c s' d v) (sch_freeze_reason s'))
       \<and> (r \<noteq> FLY_OK \<or> sch_state s' = Sim_Frozen))" by blast
  have t: "try_step c = (case try_step_loop 21 c s of Some r \<Rightarrow> r | None \<Rightarrow> (FLY_OK, c))"
    using assms(1-3) by (simp add: try_step_def kRingSlotsV1_def)
  from h(3) show thesis
  proof (elim disjE exE conjE)
    assume "try_step_loop 21 c s = Some (FLY_OK, stepped_to c s' d v)" "sched_inv False s'"
      "sch_state s' \<noteq> Sim_Frozen" "settled s'"
    then show thesis using ok t h(2) by simp
  next
    fix r assume "try_step_loop 21 c s = Some (r, mark_frozen (stepped_to c s' d v) (sch_freeze_reason s'))"
      "r \<noteq> FLY_OK"
    then show thesis using froze t h(1,2) by simp
  next
    fix r assume "try_step_loop 21 c s = Some (r, mark_frozen (stepped_to c s' d v) (sch_freeze_reason s'))"
      "sch_state s' = Sim_Frozen"
    then show thesis using froze t h(1,2) by simp
  qed
qed

lemma try_step_inv:
  assumes "ctl_inv c" "ctl_room (n + 23) c"
  shows "ctl_inv (snd (try_step c))" "ctl_room n (snd (try_step c))"
    "dc_read_accumulator (snd (try_step c)) = dc_read_accumulator c"
proof -
  have "ctl_inv (snd (try_step c)) \<and> ctl_room n (snd (try_step c))
      \<and> dc_read_accumulator (snd (try_step c)) = dc_read_accumulator c"
  proof (cases "dc_scheduler c")
    case None
    then show ?thesis using assms by (simp add: try_step_def ctl_room_def)
  next
    case (Some s)
    show ?thesis
    proof (cases "dc_frozen c \<or> dc_paused c")
      case True
      then show ?thesis using assms Some ctl_room_mono by (fastforce simp: try_step_def)
    next
      case False
      have si: "sched_inv False s" using assms(1) Some False by (auto simp: ctl_inv_def)
      have room: "frame_room s (n + 23)" using assms(2) Some by (simp add: ctl_room_def)
      then have r23: "frame_room s 23" by (simp add: frame_room_def)
      have keep: "ctl_inv (stepped_to c s' d v)" if "sched_inv f s'" "f = dc_frozen c" for f s' d v
        using assms(1) Some that by (auto simp: ctl_inv_def phase_inv_def stepped_to_def)
      from Some False si r23 show ?thesis
      proof (cases rule: try_step_result [of c s, consumes 0, case_names a b c d e ok froze])
        case (ok s' d v)
        then show ?thesis using keep [OF ok(2)] room False
          by (auto simp: stepped_to_def ctl_room_def frame_room_def)
      next
        case (froze s' d v r)
        have "ctl_inv (mark_frozen (stepped_to c s' d v) (sch_freeze_reason s'))"
          using assms(1) Some froze(2) False
          by (auto simp: ctl_inv_def phase_inv_def stepped_to_def mark_frozen_def)
        then show ?thesis using froze room by (auto simp: stepped_to_def ctl_room_def frame_room_def)
      qed auto
    qed
  qed
  then show "ctl_inv (snd (try_step c))" "ctl_room n (snd (try_step c))"
    "dc_read_accumulator (snd (try_step c)) = dc_read_accumulator c" by auto
qed

section \<open>Input\<close>

lemma frame_input_record_length: "frame_input_record b n = Some bs \<Longrightarrow> length bs = kFramedInputBytes"
  by (auto simp: frame_input_record_def split: sum.splits prod.splits if_splits)

lemma sched_inv_accept:
  assumes "sched_inv f s" "frame_room s 0"
  shows "sched_inv f (snd (fst (accept_remote_input s b)))"
    "sched_inv f (snd (fst (accept_local_input s x y)))"
proof -
  have st: "sch_state (snd (fst (handle_window_status (s\<lparr>sch_window := w\<rparr>) st))) \<noteq> Sim_Frozen
      \<Longrightarrow> sch_state s \<noteq> Sim_Frozen" for w st
    by (cases st) (auto simp: handle_window_status_def)
  have "sch_state (snd (fst (accept_remote_input s b))) \<noteq> Sim_Frozen \<Longrightarrow> sch_state s \<noteq> Sim_Frozen"
    "sch_state (snd (fst (accept_local_input s x y))) \<noteq> Sim_Frozen \<Longrightarrow> sch_state s \<noteq> Sim_Frozen"
    using st by (auto simp: accept_remote_input_def accept_local_input_def Let_def case_prod_unfold
        split: if_splits)
  moreover have "reason_inv (snd (fst (accept_remote_input s b)))"
    "reason_inv (snd (fst (accept_local_input s x y)))"
    using assms(1) by (auto simp: accept_remote_input_def accept_local_input_def Let_def case_prod_unfold
        sched_inv_def intro!: reason_handle)
  ultimately show "sched_inv f (snd (fst (accept_remote_input s b)))"
    "sched_inv f (snd (fst (accept_local_input s x y)))"
    using assms aligned_accept [of s] by (auto simp: sched_inv_def)
qed

lemma ctl_inv_scheduler:
  assumes "ctl_inv c" "dc_scheduler c \<noteq> None" "sched_inv (dc_frozen c) s"
  shows "ctl_inv (c\<lparr>dc_scheduler := Some s\<rparr>)"
  using assms by (auto simp: ctl_inv_def phase_inv_def)

lemma ctl_inv_fields [simp]:
  "ctl_inv (c\<lparr>dc_local_sequence := x1\<rparr>) = ctl_inv c" "ctl_inv (c\<lparr>dc_batch_sequence := x1\<rparr>) = ctl_inv c"
  "ctl_inv (c\<lparr>dc_read_accumulator := x2\<rparr>) = ctl_inv c" "ctl_inv (c\<lparr>dc_watchdog := x3\<rparr>) = ctl_inv c"
  "ctl_inv (c\<lparr>dc_view_dirty := x4\<rparr>) = ctl_inv c" "ctl_inv (c\<lparr>dc_last_clock_ns := x1\<rparr>) = ctl_inv c"
  "ctl_inv (c\<lparr>dc_want_read := x4\<rparr>) = ctl_inv c" "ctl_inv (c\<lparr>dc_read_outstanding := x4\<rparr>) = ctl_inv c"
  "ctl_inv (c\<lparr>dc_write_outstanding := x4\<rparr>) = ctl_inv c" "ctl_inv (c\<lparr>dc_open_outstanding := x4\<rparr>) = ctl_inv c"
  "ctl_inv (c\<lparr>dc_catalog_query_outstanding := x4\<rparr>) = ctl_inv c" "ctl_inv (c\<lparr>dc_stream_open := x4\<rparr>) = ctl_inv c"
  "ctl_inv (c\<lparr>dc_send_stream := x1\<rparr>) = ctl_inv c" "ctl_inv (c\<lparr>dc_receive_stream := x1\<rparr>) = ctl_inv c"
  "ctl_inv (c\<lparr>dc_choices := x5\<rparr>) = ctl_inv c" "ctl_inv (c\<lparr>dc_catalog_index := x6\<rparr>) = ctl_inv c"
  "ctl_inv (c\<lparr>dc_catalog_complete := x4\<rparr>) = ctl_inv c" "ctl_inv (c\<lparr>dc_catalog_started := x4\<rparr>) = ctl_inv c"
  "ctl_inv (c\<lparr>dc_local_seat := x7\<rparr>) = ctl_inv c"
  by (simp_all add: ctl_inv_def phase_inv_def)

lemma ctl_inv_queue:
  assumes "ctl_inv c" "\<forall>bs \<in> set q. length bs = kFramedInputBytes"
  shows "ctl_inv (c\<lparr>dc_write_queue := q\<rparr>)"
  using assms by (auto simp: ctl_inv_def phase_inv_def)

lemma ctl_inv_enqueue:
  assumes "ctl_inv c" "frame_input_record b n = Some bs"
  shows "ctl_inv (c\<lparr>dc_write_queue := dc_write_queue c @ [bs]\<rparr>)"
  using assms frame_input_record_length [OF assms(2)] by (intro ctl_inv_queue) (auto simp: ctl_inv_def)

lemma queue_local_bundle_inv:
  assumes inv: "ctl_inv c" and s: "dc_scheduler c = Some s" and room: "ctl_room n c"
  shows "ctl_inv (snd (queue_local_bundle c s samples))" "ctl_room n (snd (queue_local_bundle c s samples))"
proof -
  have fr: "frame_room s 0" using room s by (simp add: ctl_room_def frame_room_def)
  have si: "sched_inv (dc_frozen c) s" using inv s by (simp add: ctl_inv_def)
  obtain code s1 admit where a: "accept_local_input s samples (dc_local_seat c) = ((code, s1), admit)"
    by (metis prod.collapse)
  have i1: "ctl_inv (c\<lparr>dc_scheduler := Some s1\<rparr>)"
    using sched_inv_accept(2) [OF si fr, of samples "dc_local_seat c"] a s
    by (intro ctl_inv_scheduler [OF inv]) simp_all
  then have i2: "ctl_inv (c\<lparr>dc_scheduler := Some s1, dc_batch_sequence := m\<rparr>)" for m
    using ctl_inv_fields(2) by blast
  have "sch_next_frame s1 = sch_next_frame s"
    using next_frame_accept(2) [of s samples "dc_local_seat c"] a by simp
  then have r1: "ctl_room n (c\<lparr>dc_scheduler := Some s1\<rparr>)"
    using room s by (simp add: ctl_room_def frame_room_def)
  show "ctl_inv (snd (queue_local_bundle c s samples))"
    using inv i1 i2 ctl_inv_enqueue [OF i2]
    by (auto simp: queue_local_bundle_def a Let_def split: sum.split option.split)
  show "ctl_room n (snd (queue_local_bundle c s samples))"
    using room r1 by (auto simp: queue_local_bundle_def a Let_def ctl_room_def split: sum.split option.split)
qed

lemma queue_local_bundle_keeps:
  assumes s: "dc_scheduler c = Some s" shows "dc_scheduler (snd (queue_local_bundle c s samples)) \<noteq> None"
  using assms by (auto simp: queue_local_bundle_def Let_def split: sum.split option.split prod.split)

lemma submit_local_inv:
  assumes inv: "ctl_inv c" and room: "ctl_room (n + 23) c"
  shows "ctl_inv (snd (submit_local c input)) \<and> ctl_room n (snd (submit_local c input))"
proof (cases "dc_scheduler c")
  case None
  then show ?thesis using inv ctl_room_mono [OF room] by (auto simp: submit_local_def ctl_room_def)
next
  case (Some s)
  let ?c1 = "c\<lparr>dc_local_sequence := dc_local_sequence c + of_nat kDualPortCountV1\<rparr>"
  have q: "ctl_inv (snd (queue_local_bundle ?c1 s x))" "ctl_room (n + 23) (snd (queue_local_bundle ?c1 s x))"
    for x using queue_local_bundle_inv [of ?c1 s "n + 23" x] inv room Some by (simp_all add: ctl_room_def)
  have small: "ctl_room n c" "ctl_room n (snd (queue_local_bundle ?c1 s x))" for x
    using ctl_room_mono [OF room] ctl_room_mono [OF q(2)] by simp_all
  show ?thesis
    using Some inv small q(1) try_step_inv [OF q]
    by (auto simp: submit_local_def Let_def case_prod_unfold)
qed

lemma maybe_enter_running_inv:
  assumes "ctl_inv c"
  shows "ctl_inv (maybe_enter_running c)" "ctl_room n (maybe_enter_running c) = ctl_room n c"
    "dc_read_accumulator (maybe_enter_running c) = dc_read_accumulator c"
  using assms
  by (auto simp: maybe_enter_running_def announce_running_def ctl_inv_def phase_inv_def ctl_room_def
      sched_inv_def aligned_def unverified_def reason_inv_def frame_room_def split: option.splits if_splits)

section \<open>Reading\<close>

lemma ctl_room_fields [simp]:
  "ctl_room n (c\<lparr>dc_read_accumulator := x1\<rparr>) = ctl_room n c" "ctl_room n (c\<lparr>dc_watchdog := x2\<rparr>) = ctl_room n c"
  "ctl_room n (c\<lparr>dc_peer_runtime_ready := x3\<rparr>) = ctl_room n c"
  by (simp_all add: ctl_room_def)

lemma next_app_frame_consumes:
  assumes "next_app_frame (app_frame_cursor ch bs) = ((Wire_Ok, Some af), cursor)"
  shows "length (drop (cur_offset cursor) bs) < length bs"
proof -
  from assms have ne: "bs \<noteq> []"
    by (auto simp: next_app_frame_def app_frame_cursor_def)
  then obtain n where "decode_record (Some ch) bs = Inr (af, n)" "cur_offset cursor = n"
    using assms by (auto simp: next_app_frame_def app_frame_cursor_def split: sum.splits if_splits)
  then show ?thesis using decode_record_sound(3) [of ch bs af n] ne by simp
qed

lemma ingest_bundle_inv:
  assumes inv: "ctl_inv c" and room: "ctl_room (n + 23) c"
  shows "case ingest_bundle c b of
      Inl (r, c') \<Rightarrow> ctl_inv c'
    | Inr c' \<Rightarrow> ctl_inv c' \<and> ctl_room n c' \<and> dc_read_accumulator c' = dc_read_accumulator c"
proof (cases "dc_running c")
  case False
  let ?e = "maybe_enter_running (c\<lparr>dc_peer_runtime_ready := True\<rparr>)"
  have "ctl_inv ?e \<and> ctl_room n ?e \<and> dc_read_accumulator ?e = dc_read_accumulator c"
    if "dc_local_runtime_ready c"
  proof -
    have "ctl_inv (c\<lparr>dc_peer_runtime_ready := True\<rparr>)"
      using inv that by (auto simp: ctl_inv_def phase_inv_def)
    from maybe_enter_running_inv [OF this] show ?thesis using ctl_room_mono [OF room, of n] by auto
  qed
  then show ?thesis using False inv by (simp add: ingest_bundle_def)
next
  case True
  then obtain s where s: "dc_scheduler c = Some s" using inv by (auto simp: ctl_inv_def phase_inv_def)
  obtain code s1 admit where a: "accept_remote_input s b = ((code, s1), admit)" by (metis prod.collapse)
  let ?c1 = "c\<lparr>dc_scheduler := Some s1\<rparr>"
  have fr: "frame_room s 0" using room s by (simp add: ctl_room_def frame_room_def)
  have "sched_inv (dc_frozen c) s" using inv s by (simp add: ctl_inv_def)
  from sched_inv_accept(1) [OF this fr, of b] have i1: "ctl_inv ?c1"
    using a s by (intro ctl_inv_scheduler [OF inv]) simp_all
  have r1: "ctl_room (n + 23) ?c1"
    using next_frame_accept(1) [of s b] a s room by (simp add: ctl_room_def frame_room_def)
  show ?thesis
    using True i1 try_step_inv [OF i1 r1] by (simp add: ingest_bundle_def s a Let_def case_prod_unfold)
qed

lemma ingest_record_inv:
  assumes inv: "ctl_inv c" and room: "ctl_room (n + 23) c"
  shows "case ingest_record c of
      Inl (r, c') \<Rightarrow> ctl_inv c'
    | Inr c' \<Rightarrow> ctl_inv c' \<and> ctl_room n c'
        \<and> length (dc_read_accumulator c') < length (dc_read_accumulator c)"
proof -
  obtain status nf cursor where na:
    "next_app_frame (app_frame_cursor Chan_StateCommit (dc_read_accumulator c)) = ((status, nf), cursor)"
    by (metis prod.collapse)
  show ?thesis
  proof (cases "status = Wire_Ok \<and> nf \<noteq> None")
    case False
    then show ?thesis using inv by (auto simp: ingest_record_def na)
  next
    case True
    then obtain af where af: "nf = Some af" "status = Wire_Ok" by blast
    have short: "length (drop (cur_offset cursor) (dc_read_accumulator c)) < length (dc_read_accumulator c)"
      using next_app_frame_consumes na af by metis
    let ?c1 = "c\<lparr>dc_read_accumulator := drop (cur_offset cursor) (dc_read_accumulator c), dc_watchdog :=
        on_verified_peer_activity (dc_watchdog c) (dc_last_clock_ns c)\<rparr>"
    have "ctl_inv ?c1" "ctl_room (n + 23) ?c1" using inv room by simp_all
    then have b: "case ingest_bundle ?c1 b of Inl (r, c') \<Rightarrow> ctl_inv c'
      | Inr c' \<Rightarrow> ctl_inv c' \<and> ctl_room n c' \<and> dc_read_accumulator c' = dc_read_accumulator ?c1" for b
      by (rule ingest_bundle_inv)
    have b': "case ingest_bundle ?c1 b of Inl (r, c') \<Rightarrow> ctl_inv c'
      | Inr c' \<Rightarrow> ctl_inv c' \<and> ctl_room n c'
          \<and> length (dc_read_accumulator c') < length (dc_read_accumulator c)" for b
      using b [of b] short by (cases "ingest_bundle ?c1 b") auto
    have "ingest_record c = Inl (FLY_PROTOCOL_VIOLATION, c)
      \<or> ingest_record c = Inl (FLY_STALE,
          c\<lparr>dc_read_accumulator := drop (cur_offset cursor) (dc_read_accumulator c)\<rparr>)
      \<or> (\<exists>b. ingest_record c = ingest_bundle ?c1 b)"
      unfolding ingest_record_def na by (simp add: af Let_def split: sum.split) blast
    then show ?thesis using inv b' by (elim disjE exE) simp_all
  qed
qed

lemma ingest_loop_result:
  assumes "ctl_inv c" "ctl_room (23 * n) c" "length (dc_read_accumulator c) < n"
  shows "\<exists>r c'. ingest_loop n c = Some (r, c') \<and> ctl_inv c'"
  using assms
proof (induction n arbitrary: c)
  case 0
  then show ?case by simp
next
  case (Suc n)
  have room: "ctl_room (23 * n + 23) c" using Suc.prems(2) by (simp add: algebra_simps)
  note rec = ingest_record_inv [OF Suc.prems(1) room]
  show ?case
  proof (cases "ingest_record c")
    case (Inl r)
    then show ?thesis using rec by (cases r) simp
  next
    case (Inr c')
    then have "ctl_inv c'" "ctl_room (23 * n) c'" "length (dc_read_accumulator c') < n"
      using rec Suc.prems(3) by simp_all
    from Suc.IH [OF this] show ?thesis using Inr by simp
  qed
qed

lemma ingest_remote_bytes_inv:
  assumes "ctl_inv c" "ctl_room 10000 c"
  shows "ctl_inv (snd (ingest_remote_bytes c input))"
proof (cases input)
  case None
  then show ?thesis using assms by (simp add: ingest_remote_bytes_def)
next
  case (Some bs)
  let ?c1 = "c\<lparr>dc_read_accumulator := dc_read_accumulator c @ bs\<rparr>"
  let ?n = "length (dc_read_accumulator c @ bs) + 1"
  show ?thesis
  proof (cases "length (dc_read_accumulator c @ bs) > 2 * kFramedInputBytes")
    case True
    then show ?thesis using Some assms by (simp add: ingest_remote_bytes_def)
  next
    case False
    then have "23 * ?n \<le> 10000" by (simp add: kFramedInputBytes_def kDualInputWireBytesV1_def)
    then have "ctl_room (23 * ?n) ?c1" using ctl_room_mono [OF assms(2)] by simp
    then obtain r c' where "ingest_loop ?n ?c1 = Some (r, c')" "ctl_inv c'"
      using ingest_loop_result [of ?c1 ?n] assms(1) by fastforce
    then show ?thesis using Some False by (simp add: ingest_remote_bytes_def Let_def)
  qed
qed

section \<open>Every call\<close>

lemma bump_revision_inv:
  assumes "bump_revision rs i = Some (n, rs')" "\<forall>r \<in> set rs. br_count r \<noteq> 0"
  shows "map br_id rs' = map br_id rs \<and> (\<forall>r \<in> set rs'. br_count r \<noteq> 0) \<and> n \<noteq> 0"
  using assms
  by (induction rs i arbitrary: n rs' rule: bump_revision.induct)
    (auto simp: next_count_def split: if_splits)

lemma bump_revision_None: "bump_revision rs i = None \<longleftrightarrow> i \<notin> br_id ` set rs"
  by (induction rs i rule: bump_revision.induct) auto

lemma revision_for_bind_inv:
  assumes "bind_inv (dc_bind_revisions c)" "revision_for_bind c i = (n, c')"
  shows "bind_inv (dc_bind_revisions c')" "n \<noteq> 0"
    "c' = c\<lparr>dc_bind_revisions := dc_bind_revisions c',
       dc_pending_config_revision := dc_pending_config_revision c'\<rparr>"
proof -
  have "bind_inv (dc_bind_revisions c') \<and> n \<noteq> 0 \<and> c' = c\<lparr>dc_bind_revisions := dc_bind_revisions c',
       dc_pending_config_revision := dc_pending_config_revision c'\<rparr>"
  proof (cases "bump_revision (dc_bind_revisions c) i")
    case None
    then have "i \<notin> br_id ` set (dc_bind_revisions c)" by (simp add: bump_revision_None)
    then show ?thesis using assms None
      by (auto simp: revision_for_bind_def bind_inv_def kMaxBindRevisions_def next_count_def Let_def
          split: if_splits)
  next
    case (Some x)
    then obtain m rs where x: "bump_revision (dc_bind_revisions c) i = Some (m, rs)" by (cases x) simp
    from bump_revision_inv [OF this] show ?thesis
      using assms x map_eq_imp_length_eq [of br_id rs br_id "dc_bind_revisions c"]
      by (auto simp: revision_for_bind_def bind_inv_def)
  qed
  then show "bind_inv (dc_bind_revisions c')" "n \<noteq> 0" "c' = c\<lparr>dc_bind_revisions := dc_bind_revisions c',
       dc_pending_config_revision := dc_pending_config_revision c'\<rparr>" by auto
qed

lemma bind_pending_config_inv:
  assumes "ctl_inv c" shows "ctl_inv (bind_pending_config c choice)"
proof -
  let ?f = "pending_config_fingerprint choice"
  let ?c1 = "c\<lparr>dc_selected_ref := gc_source_choice_ref choice, dc_selected_content := gc_content_id choice,
      dc_pending_config_id := ?f, dc_selected := True, dc_pending_start_bound := start_conditions_bound choice\<rparr>"
  let ?c2 = "?c1\<lparr>dc_pending_config_local_confirmed := False, dc_pending_config_peer_confirmed := False\<rparr>"
  obtain n c' where r: "revision_for_bind ?c2 ?f = (n, c')" by (cases "revision_for_bind ?c2 ?f")
  have "bind_inv (dc_bind_revisions ?c2)" using assms by (simp add: ctl_inv_def)
  note b = revision_for_bind_inv [OF this r]
  have "ctl_inv (c'\<lparr>dc_pending_config_revision := n, dc_view_dirty := True\<rparr>)"
    using assms b(1) by (subst b(3)) (auto simp: ctl_inv_def phase_inv_def)
  moreover have "ctl_inv (?c1\<lparr>dc_view_dirty := True\<rparr>)"
    using assms by (auto simp: ctl_inv_def phase_inv_def)
  ultimately show ?thesis by (simp add: bind_pending_config_def Let_def r)
qed

lemma dc_pause_inv:
  assumes "ctl_inv c" shows "ctl_inv (snd (dc_pause c))"
proof (cases "dc_running c \<and> \<not> dc_frozen c")
  case False
  then show ?thesis using assms by (simp add: dc_pause_def)
next
  case True
  then obtain s where s: "dc_scheduler c = Some s" using assms by (auto simp: ctl_inv_def phase_inv_def)
  have "sched_inv False s" using assms s True by (auto simp: ctl_inv_def)
  then have p: "sched_inv False (snd (pause s 1))"
    by (auto simp: pause_def sched_inv_def reason_inv_def aligned_def unverified_def
        observe_authenticated_activity_def)
  obtain r s1 where ps: "pause s 1 = (r, s1)" by (cases "pause s 1")
  then show ?thesis
    using assms True p by (auto simp: dc_pause_def s Let_def ctl_inv_def phase_inv_def)
qed

lemma dc_on_clock_inv:
  assumes "ctl_inv c" shows "ctl_inv (dc_on_clock c ns)"
proof -
  have "dc_paused c \<longrightarrow> dc_freeze_reason c \<noteq> Freeze_None" using assms by (auto simp: ctl_inv_def phase_inv_def)
  then show ?thesis using assms
    by (auto simp: dc_on_clock_def Let_def intro!: mark_frozen_inv split: prod.split)
qed

lemma start_dual_inv:
  assumes "ctl_inv c" shows "ctl_inv (snd (start_dual c inputs))"
proof (cases "read_start_ref c inputs")
  case (Inl code)
  then show ?thesis using assms by (simp add: start_dual_def)
next
  case (Inr e)
  let ?port = "CAbiDualRuntimePortV1 (sti_runtime inputs)"
  have idle: "dc_scheduler c = None" "\<not> dc_frozen c" "\<not> dc_paused c" "\<not> dc_running c"
    "\<not> dc_local_runtime_ready c" "\<not> dc_peer_runtime_ready c"
    using Inr assms by (auto simp: read_start_ref_def ctl_inv_def phase_inv_def split: if_splits)
  obtain r s where b: "sch_begin ?port (new_scheduler (dc_runtime c, 0)) Mode_Dual (start_content e)
      (start_key inputs e) (start_owners inputs) = (r, s)" by (metis prod.collapse)
  have si: "sched_inv False s" if "r = FLY_OK"
  proof -
    note f = begin_fresh [OF b [unfolded that]]
    have "length (start_owners inputs) = 4" by (simp add: start_owners_def Let_def)
    note w = begin_inv [OF f(8) this]
    have "win_materialized_through (sch_window s) = 0" "sch_next_frame s = 0" "sch_prediction_depth s = 0"
      "sch_predicted s = replicate 20 False"
      using b [unfolded that] by (auto simp: sch_begin_def Let_def win_begin_def kRingSlotsV1_def
          split: if_splits prod.splits)
    then show ?thesis using f w by (simp add: sched_inv_def unverified_def reason_inv_def aligned_def)
  qed
  show ?thesis
  proof (cases "r = FLY_OK")
    case True
    then show ?thesis using assms si idle b Inr
      by (auto simp: start_dual_def Let_def ctl_inv_def phase_inv_def)
  next
    case False
    then show ?thesis using assms idle b Inr
      by (auto simp: start_dual_def Let_def ctl_inv_def phase_inv_def)
  qed
qed

lemma queue_beacon_inv:
  assumes "ctl_inv c" shows "ctl_inv (snd (queue_runtime_ready_beacon c))"
  using assms ctl_inv_enqueue [OF assms]
  by (auto simp: queue_runtime_ready_beacon_def split: sum.split option.split)

lemma parse_choice_record_inv:
  assumes "ctl_inv c" shows "ctl_inv (snd (parse_choice_record c input hash))"
  using assms by (simp add: parse_choice_record_def Let_def split: option.split)

lemma on_content_choice_inv:
  assumes "ctl_inv c" shows "ctl_inv (snd (on_content_choice c parsed))"
  using assms parse_choice_record_inv [of "c\<lparr>dc_catalog_query_outstanding := False\<rparr>"]
  by (simp add: on_content_choice_def Let_def case_prod_unfold split: sum.split)

lemma complete_effect_inv:
  assumes inv: "ctl_inv c" and room: "ctl_room 10000 c"
  shows "ctl_inv (snd (complete_effect c kind code parsed))"
proof (cases kind)
  case QueryContent
  then show ?thesis using inv on_content_choice_inv [OF inv] by (simp add: complete_effect_def)
next
  case OpenStream
  then show ?thesis using inv by (simp add: complete_effect_def Let_def queue_beacon_inv)
next
  case GrantRead
  have "ctl_room 10000 (c\<lparr>dc_read_outstanding := False, dc_want_read := False\<rparr>)"
    using room by (simp add: ctl_room_def)
  then show ?thesis using inv GrantRead
    by (auto simp: complete_effect_def Let_def intro!: ingest_remote_bytes_inv split: sum.split)
next
  case Write
  have "\<forall>bs \<in> set (tl (dc_write_queue c)). length bs = kFramedInputBytes"
    using inv list.set_sel(2) [of "dc_write_queue c"]
    by (cases "dc_write_queue c") (auto simp: ctl_inv_def)
  then show ?thesis using inv Write by (simp add: complete_effect_def Let_def ctl_inv_queue)
qed

lemma sched_inv_stop:
  assumes "sched_inv f s"
  shows "sched_inv g (snd (sch_shut_down s))" "sched_inv g (snd (mark_transport_terminal s))"
proof -
  have "unverified s" using assms by (simp add: sched_inv_def)
  then show "sched_inv g (snd (sch_shut_down s))" "sched_inv g (snd (mark_transport_terminal s))"
    by (simp_all add: sched_inv_def reason_inv_def unverified_def sch_shut_down_def mark_transport_terminal_def
        freeze_def)
qed

lemma ctl_inv_map_scheduler:
  assumes "ctl_inv c" "\<And>s. dc_scheduler c = Some s \<Longrightarrow> sched_inv (dc_frozen c) (f s)"
  shows "ctl_inv (c\<lparr>dc_scheduler := map_option f (dc_scheduler c)\<rparr>)"
  using assms by (cases "dc_scheduler c") (auto simp: ctl_inv_def phase_inv_def)

lemma dc_cancel_inv:
  assumes "ctl_inv c" shows "ctl_inv (dc_cancel c)"
proof -
  let ?c1 = "c\<lparr>dc_catalog_query_outstanding := False, dc_open_outstanding := False,
     dc_write_outstanding := False, dc_read_outstanding := False, dc_want_read := False, dc_write_queue := []\<rparr>"
  have i: "ctl_inv ?c1" using ctl_inv_queue [of "c\<lparr>dc_catalog_query_outstanding := False,
      dc_open_outstanding := False, dc_write_outstanding := False, dc_read_outstanding := False,
      dc_want_read := False\<rparr>" "[]"] assms by simp
  have "ctl_inv (?c1\<lparr>dc_scheduler := map_option (\<lambda>s. snd (sch_shut_down s)) (dc_scheduler ?c1)\<rparr>)"
    using i by (intro ctl_inv_map_scheduler [OF i] sched_inv_stop(1)) (auto simp: ctl_inv_def)
  then show ?thesis by (simp add: dc_cancel_def)
qed

lemma disconnect_inv:
  assumes "ctl_inv c" shows "ctl_inv (snd (disconnect c))"
proof -
  let ?c1 = "c\<lparr>dc_scheduler := map_option (\<lambda>s. snd (mark_transport_terminal s)) (dc_scheduler c)\<rparr>"
  have "ctl_inv ?c1"
    using assms by (intro ctl_inv_map_scheduler [OF assms] sched_inv_stop(2)) (auto simp: ctl_inv_def)
  moreover have "dc_paused ?c1 \<longrightarrow> dc_freeze_reason ?c1 \<noteq> Freeze_None"
    using assms by (simp add: ctl_inv_def phase_inv_def)
  ultimately show ?thesis by (simp add: disconnect_def Let_def mark_frozen_inv)
qed

lemma poll_effect_inv: "ctl_inv c \<Longrightarrow> ctl_inv (snd (poll_effect c))"
  by (simp add: poll_effect_def)

lemma confirm_calls_inv:
  assumes "ctl_inv c"
  shows "ctl_inv (snd (confirm_local_pending c))" "ctl_inv (snd (apply_peer_pending_confirm c i x))"
  using assms by (auto simp: confirm_local_pending_def apply_peer_pending_confirm_def ctl_inv_def phase_inv_def
      split: option.split)

definition below_frame_horizon :: "'w DualSessionController \<Rightarrow> 'w controller_call \<Rightarrow> bool" where
  "below_frame_horizon c call \<longleftrightarrow> ctl_room 10000 c"

interpretation controller: guarded_machine controller_step below_frame_horizon ctl_inv
proof
  fix c :: "'w DualSessionController" and call :: "'w controller_call"
  assume inv: "ctl_inv c" and ok: "below_frame_horizon c call"
  have room: "ctl_room 10000 c" "ctl_room (9977 + 23) c" using ok by (simp_all add: below_frame_horizon_def)
  show "ctl_inv (snd (controller_step c call))"
    using inv submit_local_inv [OF inv room(2)] complete_effect_inv [OF inv room(1)]
    by (cases call)
      (auto simp: begin_catalog_def on_content_empty_def ingest_content_choice_record_def
        set_observed_local_seat_def select_content_def ingest_verified_pending_confirm_def
        ingest_verified_suspend_def publish_imported_choice_def parse_choice_record_inv
        bind_pending_config_inv confirm_calls_inv dc_pause_inv start_dual_inv disconnect_inv dc_on_clock_inv
        poll_effect_inv dc_cancel_inv split: option.split)
qed

end
