(* ===== verification/Controller_Properties.thy ===== *)
theory Controller_Properties
  imports Controller_Invariant
begin

text \<open>
  The properties of the session controller: what holds after every sequence of calls, what a start
  needs, that freezing is final and that its loops end.
\<close>

section \<open>Freezing\<close>

text \<open>What a frozen controller must not change: the runtime, the window and the frame counters.\<close>

definition played where
  "played c = map_option (\<lambda>s. (sch_port s, sch_window s, sch_next_frame s, sch_current_frame s)) (dc_scheduler c)"

definition reason_kept :: "DualFreezeReasonV1 \<Rightarrow> DualFreezeReasonV1 \<Rightarrow> bool" where
  "reason_kept r r' \<longleftrightarrow> r' = r \<or> r = Freeze_None \<or> r = AuthenticatedActivityTimeout \<and> r' = TransportTerminal"

definition stays_frozen :: "'w DualSessionController \<Rightarrow> 'w DualSessionController \<Rightarrow> bool" where
  "stays_frozen c c' \<longleftrightarrow> dc_frozen c' \<and> \<not> dc_running c' \<and> played c' = played c
     \<and> reason_kept (dc_freeze_reason c) (dc_freeze_reason c')"

lemma stays_frozen_refl: "\<lbrakk>dc_frozen c; \<not> dc_running c\<rbrakk> \<Longrightarrow> stays_frozen c c"
  by (simp add: stays_frozen_def reason_kept_def)

lemma stays_frozen_trans: "\<lbrakk>stays_frozen a b; stays_frozen b c\<rbrakk> \<Longrightarrow> stays_frozen a c"
  by (auto simp: stays_frozen_def reason_kept_def)

lemma stays_frozen_sameI:
  assumes "dc_frozen c" "\<not> dc_running c" "dc_frozen c' = dc_frozen c" "dc_running c' = dc_running c"
    "dc_scheduler c' = dc_scheduler c" "dc_freeze_reason c' = dc_freeze_reason c"
  shows "stays_frozen c c'"
  using assms by (simp add: stays_frozen_def played_def reason_kept_def)

lemma mark_frozen_stays:
  assumes "dc_frozen c" "\<not> dc_running c" "played c' = played c" "dc_freeze_reason c' = dc_freeze_reason c"
    "r \<noteq> Freeze_None"
  shows "stays_frozen c (mark_frozen c' r)"
  using assms by (auto simp: stays_frozen_def mark_frozen_def played_def reason_kept_def)

lemma ingest_record_cases:
  obtains (stop) r where "ingest_record c = Inl (r, c)"
  | (stale) a where "ingest_record c = Inl (FLY_STALE, c\<lparr>dc_read_accumulator := a\<rparr>)"
  | (input) a w b where "ingest_record c
      = ingest_bundle (c\<lparr>dc_read_accumulator := a, dc_watchdog := w\<rparr>) b"
proof -
  obtain status nf cursor where na:
    "next_app_frame (app_frame_cursor Chan_StateCommit (dc_read_accumulator c)) = ((status, nf), cursor)"
    by (metis prod.collapse)
  have "(\<exists>r. ingest_record c = Inl (r, c)) \<or> (\<exists>a. ingest_record c = Inl (FLY_STALE, c\<lparr>dc_read_accumulator := a\<rparr>))
      \<or> (\<exists>a w b. ingest_record c = ingest_bundle (c\<lparr>dc_read_accumulator := a, dc_watchdog := w\<rparr>) b)"
    unfolding ingest_record_def na Let_def by (simp split: sum.split) blast
  then show thesis using stop stale input by blast
qed

lemma ingest_record_frozen:
  assumes "dc_frozen c" "\<not> dc_running c"
  shows "\<exists>r c'. ingest_record c = Inl (r, c') \<and> stays_frozen c c'"
  using assms
  by (cases rule: ingest_record_cases [of c]) (auto simp: ingest_bundle_def intro!: stays_frozen_sameI)

lemma ingest_frozen:
  assumes "dc_frozen c" "\<not> dc_running c"
  shows "stays_frozen c (snd (ingest_remote_bytes c input))"
proof (cases input)
  case None
  then show ?thesis using assms by (simp add: ingest_remote_bytes_def stays_frozen_refl)
next
  case (Some bs)
  let ?c1 = "c\<lparr>dc_read_accumulator := dc_read_accumulator c @ bs\<rparr>"
  have s: "stays_frozen c ?c1" using assms by (intro stays_frozen_sameI) simp_all
  obtain r c' where "ingest_record ?c1 = Inl (r, c')" "stays_frozen ?c1 c'"
    using ingest_record_frozen [of ?c1] assms by auto
  then show ?thesis using Some s stays_frozen_trans [OF s]
    by (auto simp: ingest_remote_bytes_def Let_def)
qed

lemma complete_frozen:
  assumes "dc_frozen c" "\<not> dc_running c"
  shows "stays_frozen c (snd (complete_effect c kind code parsed))"
proof (cases kind)
  case QueryContent
  then show ?thesis using assms
    by (auto simp: complete_effect_def on_content_choice_def parse_choice_record_def Let_def
        intro!: stays_frozen_sameI split: sum.split prod.split option.split)
next
  case GrantRead
  let ?c1 = "c\<lparr>dc_read_outstanding := False, dc_want_read := False\<rparr>"
  have "stays_frozen c ?c1" using assms by (intro stays_frozen_sameI) simp_all
  then show ?thesis using GrantRead ingest_frozen [of ?c1] assms
    by (auto simp: complete_effect_def Let_def intro: stays_frozen_trans split: sum.split)
qed (use assms in \<open>auto simp: complete_effect_def Let_def intro!: stays_frozen_sameI\<close>)

lemma disconnect_frozen:
  assumes "dc_frozen c" "\<not> dc_running c" shows "stays_frozen c (snd (disconnect c))"
proof -
  let ?c1 = "c\<lparr>dc_scheduler := map_option (\<lambda>s. snd (mark_transport_terminal s)) (dc_scheduler c)\<rparr>"
  have "played ?c1 = played c"
    by (cases "dc_scheduler c") (simp_all add: played_def mark_transport_terminal_def freeze_def)
  then show ?thesis using assms by (auto simp: disconnect_def Let_def intro: mark_frozen_stays)
qed

lemma dc_cancel_frozen:
  assumes "dc_frozen c" "\<not> dc_running c" shows "stays_frozen c (dc_cancel c)"
  using assms by (cases "dc_scheduler c")
    (simp_all add: dc_cancel_def stays_frozen_def played_def sch_shut_down_def reason_kept_def)

lemma dc_on_clock_frozen:
  assumes "dc_frozen c" "\<not> dc_running c" shows "stays_frozen c (dc_on_clock c ns)"
  using assms by (auto simp: dc_on_clock_def Let_def played_def intro!: mark_frozen_stays stays_frozen_sameI
      split: prod.split)

interpretation frozen_controller: guarded_machine controller_step "\<lambda>c call. True"
    "stays_frozen c0" for c0 :: "'w DualSessionController"
proof
  fix c :: "'w DualSessionController" and call :: "'w controller_call"
  assume s: "stays_frozen c0 c"
  then have f: "dc_frozen c" "\<not> dc_running c" by (simp_all add: stays_frozen_def)
  note frozen_calls = complete_frozen [OF f] disconnect_frozen [OF f] dc_cancel_frozen [OF f] dc_on_clock_frozen [OF f]
  have "stays_frozen c (snd (controller_step c call))"
  proof (cases call)
    case (CIngestChoice bs hash)
    then show ?thesis using f
      by (auto simp: ingest_content_choice_record_def parse_choice_record_def Let_def
          intro!: stays_frozen_sameI split: option.split)
  next
    case (CIngestConfirm bs)
    then show ?thesis using f
      by (auto simp: ingest_verified_pending_confirm_def apply_peer_pending_confirm_def
          intro!: stays_frozen_sameI split: option.split)
  next
    case (CStart inputs)
    then show ?thesis using f by (simp add: start_dual_def read_start_ref_def stays_frozen_refl)
  qed (use f frozen_calls in \<open>auto simp: begin_catalog_def on_content_empty_def set_observed_local_seat_def
        select_content_def confirm_local_pending_def apply_peer_pending_confirm_def ingest_verified_suspend_def
        publish_imported_choice_def submit_local_def dc_pause_def poll_effect_def
        intro!: stays_frozen_sameI split: option.split\<close>)
  then show "stays_frozen c0 (snd (controller_step c call))" using stays_frozen_trans [OF s] by blast
qed

section \<open>Confirmations\<close>

definition config :: "'w DualSessionController \<Rightarrow> bytes \<times> u64" where
  "config c = (dc_pending_config_id c, dc_pending_config_revision c)"

text \<open>A confirmation by this player, and one received from the peer that names the configuration.\<close>

definition local_confirmation :: "'w DualSessionController \<Rightarrow> 'w controller_call \<Rightarrow> bool" where
  "local_confirmation c call \<longleftrightarrow> call = CConfirmLocal \<and> fst (controller_step c call) = FLY_OK"

definition peer_confirmation :: "'w DualSessionController \<Rightarrow> 'w controller_call \<Rightarrow> bool" where
  "peer_confirmation c call \<longleftrightarrow> fst (controller_step c call) = FLY_OK \<and>
     (call = CPeerConfirm (Some (fst (config c))) (snd (config c))
      \<or> (\<exists>bs. call = CIngestConfirm (Some bs) \<and> take 32 (drop 4 bs) = fst (config c) \<and> be64 bs 36 = snd (config c)))"

definition confirmations_follow ::
  "'w DualSessionController \<Rightarrow> 'w controller_call \<Rightarrow> 'w DualSessionController \<Rightarrow> bool" where
  "confirmations_follow c call c' \<longleftrightarrow>
     (dc_pending_config_local_confirmed c' \<longrightarrow> config c' = config c
        \<and> (dc_pending_config_local_confirmed c \<or> local_confirmation c call))
     \<and> (dc_pending_config_peer_confirmed c' \<longrightarrow> config c' = config c
        \<and> (dc_pending_config_peer_confirmed c \<or> peer_confirmation c call))"

definition same_config :: "'w DualSessionController \<Rightarrow> 'w DualSessionController \<Rightarrow> bool" where
  "same_config c c' \<longleftrightarrow> config c' = config c
     \<and> dc_pending_config_local_confirmed c' = dc_pending_config_local_confirmed c
     \<and> dc_pending_config_peer_confirmed c' = dc_pending_config_peer_confirmed c"

lemma same_config_follow: "same_config c c' \<Longrightarrow> confirmations_follow c call c'"
  by (simp add: same_config_def confirmations_follow_def)

lemma same_config_refl [simp]: "same_config c c"
  by (simp add: same_config_def)

lemma same_config_trans: "\<lbrakk>same_config a b; same_config b c\<rbrakk> \<Longrightarrow> same_config a c"
  by (simp add: same_config_def)

lemma same_config_mark_frozen [simp]: "same_config c (mark_frozen c' r) = same_config c c'"
  by (simp add: same_config_def mark_frozen_def config_def)

lemma try_step_loop_config:
  "try_step_loop n c s = Some (r, c') \<Longrightarrow> same_config c c'"
proof (induction n arbitrary: c s)
  case 0
  then show ?case by simp
next
  case (Suc n)
  obtain code s1 where st: "step_next_frame (CAbiDualRuntimePortV1 (dc_adapter c)) s = (code, s1)"
    by (metis prod.collapse)
  let ?c1 = "c\<lparr>dc_scheduler := Some s1, dc_last_digest := sch_last_digest s1, dc_view_dirty := True\<rparr>"
  have "same_config c ?c1" "same_config c (c\<lparr>dc_scheduler := Some s1\<rparr>)" by (simp_all add: same_config_def config_def)
  then show ?case using Suc.prems Suc.IH [of ?c1 s1] st same_config_trans [of c ?c1 c']
    by (auto split: if_splits)
qed

lemma try_step_config: "same_config c (snd (try_step c))"
  by (auto simp: try_step_def simp del: try_step_loop.simps dest: try_step_loop_config split: option.split)

lemma submit_config: "same_config c (snd (submit_local c input))"
proof -
  have q: "same_config c' (snd (queue_local_bundle c' s x))" for c' :: "'a DualSessionController" and s x
    by (auto simp: queue_local_bundle_def Let_def same_config_def config_def
        split: sum.split prod.split option.split)
  let ?c1 = "c\<lparr>dc_local_sequence := dc_local_sequence c + of_nat kDualPortCountV1\<rparr>"
  have q1: "same_config c (snd (queue_local_bundle ?c1 s x))" for s x
    using q [of ?c1 s x] by (simp add: same_config_def config_def)
  show ?thesis
    using q1 same_config_trans [OF q1 try_step_config]
    by (auto simp: submit_local_def Let_def case_prod_unfold split: option.split)
qed

lemma ingest_bundle_config:
  "case ingest_bundle c b of Inl (r, c') \<Rightarrow> same_config c c' | Inr c' \<Rightarrow> same_config c c'"
proof -
  have m: "same_config c (maybe_enter_running (c\<lparr>dc_peer_runtime_ready := True\<rparr>))"
    by (auto simp: maybe_enter_running_def same_config_def config_def Let_def split: option.split prod.split)
  have t: "same_config c (snd (try_step (c\<lparr>dc_scheduler := Some s\<rparr>)))" for s
    using try_step_config [of "c\<lparr>dc_scheduler := Some s\<rparr>"] by (simp add: same_config_def config_def)
  have s: "same_config c (c\<lparr>dc_scheduler := Some s\<rparr>)" for s by (simp add: same_config_def config_def)
  show ?thesis
    using m t s by (auto simp: ingest_bundle_def Let_def case_prod_unfold split: option.split)
qed

lemma ingest_record_config:
  "case ingest_record c of Inl (r, c') \<Rightarrow> same_config c c' | Inr c' \<Rightarrow> same_config c c'"
proof (cases rule: ingest_record_cases [of c])
  case (input a w b)
  let ?c1 = "c\<lparr>dc_read_accumulator := a, dc_watchdog := w\<rparr>"
  show ?thesis using ingest_bundle_config [of ?c1 b] input
    by (cases "ingest_bundle ?c1 b") (auto simp: same_config_def config_def)
qed (simp_all add: same_config_def config_def)

lemma ingest_loop_config: "ingest_loop n c = Some (r, c') \<Longrightarrow> same_config c c'"
proof (induction n arbitrary: c)
  case 0
  then show ?case by simp
next
  case (Suc n)
  show ?case
  proof (cases "ingest_record c")
    case (Inl x)
    then show ?thesis using Suc.prems ingest_record_config [of c] by (cases x) simp
  next
    case (Inr c1)
    then show ?thesis using Suc.prems Suc.IH [of c1] ingest_record_config [of c] same_config_trans by fastforce
  qed
qed

lemma complete_config: "same_config c (snd (complete_effect c kind code parsed))"
proof (cases kind)
  case QueryContent
  then show ?thesis
    by (auto simp: complete_effect_def on_content_choice_def parse_choice_record_def Let_def same_config_def
        config_def split: sum.split prod.split option.split)
next
  case OpenStream
  then show ?thesis
    by (auto simp: complete_effect_def Let_def queue_runtime_ready_beacon_def same_config_def config_def
        split: sum.split option.split)
next
  case GrantRead
  have "same_config c (snd (ingest_remote_bytes (c\<lparr>dc_read_outstanding := False, dc_want_read := False\<rparr>) (Some bs)))"
    for bs
  proof -
    let ?c1 = "c\<lparr>dc_read_outstanding := False, dc_want_read := False,
      dc_read_accumulator := dc_read_accumulator c @ bs\<rparr>"
    have s: "same_config c ?c1" by (simp add: same_config_def config_def)
    show ?thesis using s same_config_trans [OF s ingest_loop_config]
      by (auto simp: ingest_remote_bytes_def Let_def simp del: ingest_loop.simps split: option.split)
  qed
  then show ?thesis using GrantRead
    by (auto simp: complete_effect_def Let_def same_config_def config_def split: sum.split)
qed (auto simp: complete_effect_def Let_def same_config_def config_def)

lemma bind_follow: "confirmations_follow c call (bind_pending_config c choice)"
proof -
  have "config (bind_pending_config c choice) = config c
        \<and> dc_pending_config_local_confirmed (bind_pending_config c choice) = dc_pending_config_local_confirmed c
        \<and> dc_pending_config_peer_confirmed (bind_pending_config c choice) = dc_pending_config_peer_confirmed c
      \<or> \<not> dc_pending_config_local_confirmed (bind_pending_config c choice)
        \<and> \<not> dc_pending_config_peer_confirmed (bind_pending_config c choice)"
    by (auto simp: bind_pending_config_def revision_for_bind_def Let_def config_def
        split: option.split prod.split)
  then show ?thesis by (auto simp: confirmations_follow_def)
qed

lemma controller_step_follow: "confirmations_follow c call (snd (controller_step c call))"
proof (cases call)
  case (CSelect i)
  then show ?thesis using bind_follow [of c call]
    by (auto simp: select_content_def intro: same_config_follow split: option.split)
next
  case CConfirmLocal
  then show ?thesis
    by (auto simp: confirmations_follow_def confirm_local_pending_def local_confirmation_def config_def)
next
  case (CPeerConfirm i n)
  then show ?thesis
    by (auto simp: confirmations_follow_def apply_peer_pending_confirm_def peer_confirmation_def config_def
        split: option.split)
next
  case (CIngestConfirm i)
  then show ?thesis
    by (auto simp: confirmations_follow_def ingest_verified_pending_confirm_def apply_peer_pending_confirm_def
        peer_confirmation_def config_def split: option.split)
next
  case (CIngestChoice bs hash)
  then show ?thesis
    by (auto simp: ingest_content_choice_record_def parse_choice_record_def Let_def same_config_def config_def
        intro!: same_config_follow split: option.split)
next
  case (CStart inputs)
  then show ?thesis
    by (auto simp: start_dual_def Let_def same_config_def config_def intro!: same_config_follow
        split: sum.split prod.split)
next
  case (CComplete kind code parsed)
  then show ?thesis by (auto intro: same_config_follow complete_config)
next
  case (CSubmit input)
  then show ?thesis by (auto intro: same_config_follow submit_config)
next
  case (CTick ns)
  then show ?thesis
    by (auto simp: dc_on_clock_def Let_def intro!: same_config_follow split: prod.split)
       (simp_all add: same_config_def config_def)
next
  case CDisconnect
  then show ?thesis
    by (auto simp: disconnect_def Let_def intro!: same_config_follow) (simp add: same_config_def config_def)
qed (auto simp: begin_catalog_def on_content_empty_def set_observed_local_seat_def ingest_verified_suspend_def
      publish_imported_choice_def dc_pause_def poll_effect_def dc_cancel_def same_config_def config_def Let_def
      intro!: same_config_follow split: option.split prod.split)

text \<open>A confirmation that still counts was made for the configuration bound now, and no state since then
  had another one.\<close>

definition confirmed_since :: "('w DualSessionController \<Rightarrow> 'w controller_call \<Rightarrow> bool)
    \<Rightarrow> 'w DualSessionController \<Rightarrow> 'w controller_call list \<Rightarrow> bool" where
  "confirmed_since confirmation c0 calls \<longleftrightarrow> (\<exists>before call after. calls = before @ call # after
     \<and> confirmation (run_calls controller_step c0 before) call
     \<and> (\<forall>n \<le> Suc (length after). config (run_calls controller_step c0 (before @ take n (call # after)))
          = config (run_calls controller_step c0 calls)))"

lemma confirmed_since_extend:
  assumes "confirmed_since conf c0 calls"
    "config (run_calls controller_step c0 (calls @ [call])) = config (run_calls controller_step c0 calls)"
  shows "confirmed_since conf c0 (calls @ [call])"
proof -
  from assms(1) obtain before call1 after where h: "calls = before @ call1 # after"
    "conf (run_calls controller_step c0 before) call1"
    "\<forall>n \<le> Suc (length after). config (run_calls controller_step c0 (before @ take n (call1 # after)))
          = config (run_calls controller_step c0 calls)" by (auto simp: confirmed_since_def)
  have "config (run_calls controller_step c0 (before @ take n (call1 # after @ [call])))
          = config (run_calls controller_step c0 (calls @ [call]))" if n: "n \<le> Suc (Suc (length after))" for n
  proof (cases "n \<le> Suc (length after)")
    case True
    then have "take n (call1 # after @ [call]) = take n (call1 # after)" by (cases n) simp_all
    then show ?thesis using h(3) True assms(2) by simp
  next
    case False
    then have "take n (call1 # after @ [call]) = call1 # after @ [call]" by simp
    then show ?thesis using h(1) by simp
  qed
  then show ?thesis unfolding confirmed_since_def
    using h(1,2) by (intro exI [of _ before] exI [of _ call1] exI [of _ "after @ [call]"]) simp
qed

lemma confirmed_since_now:
  assumes "conf (run_calls controller_step c0 calls) call"
    "config (run_calls controller_step c0 (calls @ [call])) = config (run_calls controller_step c0 calls)"
  shows "confirmed_since conf c0 (calls @ [call])"
proof -
  have "config (run_calls controller_step c0 (calls @ take n [call]))
      = config (run_calls controller_step c0 (calls @ [call]))" for n :: nat
    using assms(2) by (cases n) simp_all
  then show ?thesis using assms(1) unfolding confirmed_since_def
    by (intro exI [of _ calls] exI [of _ call] exI [of _ "[]"]) simp
qed

lemma confirmations_traced:
  "(dc_pending_config_local_confirmed (run_calls controller_step (new_controller w) calls)
      \<longrightarrow> confirmed_since local_confirmation (new_controller w) calls)
   \<and> (dc_pending_config_peer_confirmed (run_calls controller_step (new_controller w) calls)
      \<longrightarrow> confirmed_since peer_confirmation (new_controller w) calls)"
proof (induction calls rule: rev_induct)
  case Nil
  show ?case by (simp add: new_controller_def)
next
  case (snoc call calls)
  let ?c = "run_calls controller_step (new_controller w) calls"
  have r: "run_calls controller_step (new_controller w) (calls @ [call]) = snd (controller_step ?c call)"
    by (simp add: run_calls_append)
  have f: "confirmations_follow ?c call (run_calls controller_step (new_controller w) (calls @ [call]))"
    unfolding r by (rule controller_step_follow)
  show ?case
    using f snoc.IH unfolding confirmations_follow_def
    by (auto intro: confirmed_since_extend confirmed_since_now)
qed

section \<open>A session to evaluate\<close>

definition demo_choice :: GameChoice where
  "demo_choice = \<lparr>gc_content_id = replicate 32 1, gc_source_choice_ref = replicate 16 2,
     gc_catalog_revision = 1, gc_progress_revision = 1, gc_selectable = 1, gc_display_name_size = 1,
     gc_display_name = 65 # replicate 127 0, gc_reason_key = [], gc_core_id = replicate 32 3,
     gc_profile_id = replicate 32 4, gc_options_id = replicate 32 5\<rparr>"

text \<open>A runtime that accepts everything and reports a zero digest.\<close>

definition demo_runtime :: "unit AbiRuntimePort" where
  "demo_runtime = \<lparr>abi_load = Some (\<lambda>w c. (FLY_OK, w)),
     abi_step = Some (\<lambda>w b. (FLY_OK, \<lparr>ao_frame_index = ab_frame_index b,
       ao_applied_input_sequence = replicate 4 0, ao_honoured_port_mask = 0\<rparr>, w)),
     abi_export_state = None, abi_import_state = None,
     abi_state_digest = Some (\<lambda>w f. (FLY_OK, \<lparr>ad_state = replicate 32 0, ad_frame = replicate 32 0,
       ad_pcm = replicate 32 0\<rparr>, w))\<rparr>"

definition demo_inputs :: "unit DualStartInputsV1" where
  "demo_inputs = \<lparr>sti_session_id = replicate 16 6, sti_branch_id = replicate 16 7,
     sti_local_role = Role_Initiator, sti_local_signing_public = replicate 65 8,
     sti_peer_signing_public = replicate 65 9, sti_quic_connection = 1, sti_local_is_listener = False,
     sti_runtime = Some demo_runtime\<rparr>"

definition demo_calls :: "unit controller_call list" where
  "demo_calls = [CImported demo_choice, CSelect (Some (replicate 16 2)), CConfirmLocal,
     CPeerConfirm (Some (pending_config_fingerprint demo_choice)) 1]"

lemma demo_confirmed:
  "run_calls controller_step (new_controller ()) demo_calls = (new_controller ())
     \<lparr>dc_choices := [demo_choice], dc_catalog_complete := True, dc_view_dirty := True, dc_selected := True,
      dc_selected_ref := replicate 16 2, dc_selected_content := replicate 32 1,
      dc_pending_config_id := pending_config_fingerprint demo_choice, dc_pending_config_revision := 1,
      dc_pending_config_local_confirmed := True, dc_pending_config_peer_confirmed := True,
      dc_pending_start_bound := True,
      dc_bind_revisions := [\<lparr>br_id = pending_config_fingerprint demo_choice, br_count = 1\<rparr>]\<rparr>"
  by (simp add: demo_calls_def publish_imported_choice_def select_content_def bind_pending_config_def
      revision_for_bind_def confirm_local_pending_def apply_peer_pending_confirm_def new_controller_def
      demo_choice_def start_conditions_bound_def id_zero_def kMaxBindRevisions_def Let_def list_all_iff)

lemma start_owners_seats: "owners_distinct_seats (start_owners inputs)"
  unfolding owners_distinct_seats_def upt_four
  by (simp add: start_owners_def Let_def kDualPortCountV1_def)

lemma start_dual_ok:
  assumes "start_dual c inputs = (FLY_OK, t)"
  obtains e s where "read_start_ref c inputs = Inr e"
    "sch_begin (CAbiDualRuntimePortV1 (sti_runtime inputs)) (new_scheduler (dc_runtime c, 0)) Mode_Dual
       (start_content e) (start_key inputs e) (start_owners inputs) = (FLY_OK, s)"
    "dc_scheduler t = Some s" "\<not> dc_frozen t" "\<not> dc_paused t" "\<not> dc_running t" "dc_local_runtime_ready t"
    "dc_read_accumulator t = dc_read_accumulator c" "dc_write_queue t = dc_write_queue c"
proof (cases "read_start_ref c inputs")
  case (Inl code)
  then show ?thesis using assms by (auto simp: start_dual_def read_start_ref_def split: if_splits)
next
  case (Inr e)
  then show ?thesis using assms that [of e]
    by (auto simp: start_dual_def Let_def split: prod.splits if_splits)
qed

lemma demo_start:
  "\<exists>s. start_dual (run_calls controller_step (new_controller ()) demo_calls) demo_inputs = (FLY_OK, s)"
proof -
  have "dual_input_key_is_valid_v1 (start_key demo_inputs e)" if "ac_timeline_epoch (sr_content e) = 1" for e
    using that by (simp add: start_key_def demo_inputs_def dual_input_key_is_valid_v1_def all_zero_def list_all_iff)
  moreover have "fst (sch_begin (CAbiDualRuntimePortV1 (sti_runtime demo_inputs)) (new_scheduler ((), 0)) Mode_Dual
      content key (start_owners demo_inputs)) = FLY_OK" if "dual_input_key_is_valid_v1 key" for content key
    using that start_owners_seats [of demo_inputs]
    by (simp add: sch_begin_def evaluate_dual_mode_v1_def CAbiDualRuntimePortV1_def adapter_load_def
        demo_inputs_def demo_runtime_def win_begin_def new_scheduler_def Let_def)
  ultimately show ?thesis
    unfolding start_dual_def demo_confirmed
    by (simp add: read_start_ref_def new_controller_def id_zero_def list_all_iff Let_def case_prod_unfold)
       (simp add: demo_inputs_def)
qed

section \<open>Properties\<close>

text \<open>
  C18: After every sequence of calls, in every order and with every provider answer, as long as the frame
  counter is not within ten thousand frames of its end: the game runs only with a loaded runtime and a
  ready peer and never while frozen, the verified watermark is zero and no executed frame used a
  predicted input, and until a freeze the next frame, the step frontier and the commit frontier of the
  window are the same number.
\<close>
theorem controller_lockstep:
  fixes w :: 'w and calls :: "'w controller_call list"
  assumes "calls_within controller_step below_frame_horizon (new_controller w) calls"
  defines "c \<equiv> run_calls controller_step (new_controller w) calls"
  shows "(dc_running c \<longrightarrow> dc_scheduler c \<noteq> None \<and> dc_local_runtime_ready c \<and> dc_peer_runtime_ready c
            \<and> \<not> dc_frozen c)
    \<and> (\<forall>s. dc_scheduler c = Some s \<longrightarrow>
         sch_state_verified_through s = 0 \<and> sch_prediction_depth s = 0 \<and> (\<forall>k<20. \<not> sch_predicted s ! k)
         \<and> (\<not> dc_frozen c \<and> sch_state s \<noteq> Sim_Frozen \<longrightarrow>
              window_inv (sch_window s) \<and> win_step_frontier (sch_window s) = sch_next_frame s
              \<and> win_commit_frontier (sch_window s) = sch_next_frame s))"
proof -
  have "ctl_inv (new_controller w)"
    by (simp add: ctl_inv_def phase_inv_def bind_inv_def new_controller_def)
  then have "ctl_inv c" unfolding c_def using controller.run_inv assms(1) by blast
  then show ?thesis
    by (auto simp: ctl_inv_def phase_inv_def sched_inv_def unverified_def aligned_def)
qed

theorem controller_lockstep_witness:
  "\<exists>s. dc_scheduler (run_calls controller_step (new_controller ()) (demo_calls @ [CStart demo_inputs])) = Some s
     \<and> sch_state_verified_through s = 0"
proof -
  have room: "below_frame_horizon c call" if "dc_scheduler c = None" for c :: "unit DualSessionController" and call
    using that by (simp add: below_frame_horizon_def ctl_room_def)
  have n: "dc_scheduler (run_calls controller_step (new_controller ()) (take n demo_calls)) = None" for n
  proof -
    have "dc_scheduler (snd (controller_step c call)) = None"
      if "dc_scheduler c = None" "call \<in> set demo_calls" for c :: "unit DualSessionController" and call
      using that by (auto simp: demo_calls_def publish_imported_choice_def select_content_def
          bind_pending_config_def revision_for_bind_def confirm_local_pending_def
          apply_peer_pending_confirm_def Let_def split: option.split)
    moreover have "set (take n demo_calls) \<subseteq> set demo_calls" by (rule set_take_subset)
    ultimately have "dc_scheduler c = None \<longrightarrow> dc_scheduler (run_calls controller_step c cs) = None"
      if "set cs \<subseteq> set demo_calls" for cs and c :: "unit DualSessionController"
      using that by (induction cs arbitrary: c) auto
    then show ?thesis using \<open>set (take n demo_calls) \<subseteq> set demo_calls\<close> by (simp add: new_controller_def)
  qed
  let ?calls = "demo_calls @ [CStart demo_inputs]"
  have within: "calls_within controller_step below_frame_horizon (new_controller ()) ?calls"
    using n [of 0] n [of 1] n [of 2] n [of 3] n [of 4] room by (simp add: demo_calls_def)
  obtain t where t: "start_dual (run_calls controller_step (new_controller ()) demo_calls) demo_inputs = (FLY_OK, t)"
    using demo_start by blast
  then have "run_calls controller_step (new_controller ()) ?calls = t" by (simp add: run_calls_append)
  moreover have "dc_scheduler t \<noteq> None" using start_dual_ok [OF t] by (metis option.distinct(1))
  ultimately show ?thesis using controller_lockstep [OF within] by auto
qed

text \<open>
  C19: A start needs both confirmations of what it starts: when \<open>start_dual\<close> succeeds, this player and
  the peer each confirmed, and from each confirmation on every state had exactly the identifier and
  revision the game starts with; the peer's confirmation named both.
\<close>
theorem start_needs_both_confirmations:
  assumes "fst (start_dual (run_calls controller_step (new_controller w) calls) inputs) = FLY_OK"
  shows "confirmed_since local_confirmation (new_controller w) calls
    \<and> confirmed_since peer_confirmation (new_controller w) calls"
proof -
  have "dc_pending_config_local_confirmed (run_calls controller_step (new_controller w) calls)"
    "dc_pending_config_peer_confirmed (run_calls controller_step (new_controller w) calls)"
    using assms by (auto simp: start_dual_def read_start_ref_def split: if_splits)
  then show ?thesis using confirmations_traced [of w calls] by blast
qed

theorem start_needs_both_confirmations_witness:
  "confirmed_since local_confirmation (new_controller ()) demo_calls
    \<and> confirmed_since peer_confirmation (new_controller ()) demo_calls"
proof -
  have "fst (start_dual (run_calls controller_step (new_controller ()) demo_calls) demo_inputs) = FLY_OK"
    using demo_start by auto
  then show ?thesis by (rule start_needs_both_confirmations)
qed



text \<open>
  C21: The loops of the controller end: the stepping loop stops within its twenty-one rounds, and if it
  neither fails nor freezes the session the next frame still lacks an input or the simulation is not
  running; the reading loop stops within one round per buffered byte.
\<close>
theorem controller_loops_end:
  fixes c :: "'w DualSessionController"
  assumes "ctl_inv c" "ctl_room 10000 c" "\<not> dc_frozen c" "\<not> dc_paused c" "dc_scheduler c = Some s"
    "length (dc_read_accumulator c) \<le> 2 * kFramedInputBytes"
  shows "(\<exists>r c'. try_step_loop (kRingSlotsV1 + 1) c s = Some (r, c')
      \<and> (r = FLY_OK \<and> \<not> dc_frozen c' \<longrightarrow> (\<forall>s'. dc_scheduler c' = Some s' \<longrightarrow> settled s')))
    \<and> (\<exists>r c'. ingest_loop (length (dc_read_accumulator c) + 1) c = Some (r, c'))"
proof -
  have i: "sched_inv False s" using assms(1,3,5) by (auto simp: ctl_inv_def)
  have "frame_room s (21 + 2)" using assms(2,5) by (auto simp: ctl_room_def frame_room_def)
  from try_step_loop_result [OF assms(5) i this] frames_ahead_bound [of s]
  have "\<exists>r c'. try_step_loop (kRingSlotsV1 + 1) c s = Some (r, c')
      \<and> (r = FLY_OK \<and> \<not> dc_frozen c' \<longrightarrow> (\<forall>s'. dc_scheduler c' = Some s' \<longrightarrow> settled s'))"
    by (fastforce simp: kRingSlotsV1_def stepped_to_def simp del: try_step_loop.simps)
  moreover have "23 * (length (dc_read_accumulator c) + 1) \<le> 10000"
    using assms(6) by (simp add: kFramedInputBytes_def kDualInputWireBytesV1_def)
  then have "ctl_room (23 * (length (dc_read_accumulator c) + 1)) c" using ctl_room_mono [OF assms(2)] by blast
  then have "\<exists>r c'. ingest_loop (length (dc_read_accumulator c) + 1) c = Some (r, c')"
    using ingest_loop_result [OF assms(1)] by fastforce
  ultimately show ?thesis by blast
qed

theorem controller_loops_end_witness:
  "\<exists>c :: unit DualSessionController. \<exists>s. dc_scheduler c = Some s
     \<and> (\<exists>r c'. try_step_loop (kRingSlotsV1 + 1) c s = Some (r, c'))"
proof -
  let ?c = "run_calls controller_step (new_controller ()) demo_calls"
  obtain t where t: "start_dual ?c demo_inputs = (FLY_OK, t)" using demo_start by blast
  have "ctl_inv ?c"
    unfolding demo_confirmed by (simp add: ctl_inv_def phase_inv_def bind_inv_def new_controller_def)
  then have inv: "ctl_inv t" using start_dual_inv [of ?c demo_inputs] t by simp
  obtain s where s: "dc_scheduler t = Some s" "sch_next_frame s = 0" "\<not> dc_frozen t" "\<not> dc_paused t"
    "dc_read_accumulator t = dc_read_accumulator ?c"
  proof (rule start_dual_ok [OF t])
    fix e s assume "sch_begin (CAbiDualRuntimePortV1 (sti_runtime demo_inputs)) (new_scheduler (dc_runtime ?c, 0))
        Mode_Dual (start_content e) (start_key demo_inputs e) (start_owners demo_inputs) = (FLY_OK, s)"
      "dc_scheduler t = Some s" "\<not> dc_frozen t" "\<not> dc_paused t" "dc_read_accumulator t = dc_read_accumulator ?c"
    moreover from this(1) have "sch_next_frame s = 0"
      by (auto simp: sch_begin_def Let_def split: prod.splits if_splits)
    ultimately show thesis using that by blast
  qed
  have acc: "dc_read_accumulator ?c = []" unfolding demo_confirmed by (simp add: new_controller_def)
  have room: "ctl_room 10000 t" using s by (simp add: ctl_room_def frame_room_def)
  have "length (dc_read_accumulator t) \<le> 2 * kFramedInputBytes" using s(5) acc by simp
  from controller_loops_end [OF inv room s(3,4,1) this] s(1) show ?thesis by blast
qed

end
