(* ===== verification/Controller_Exchange.thy ===== *)
theory Controller_Exchange
  imports Controller_Properties
begin

unbundle bit_operations_syntax

text \<open>
  Two session controllers at the ends of a State Commit stream: what one queues the other takes in, the
  ready records start both games, and three behaviours of the exchange the interface does not announce: a
  second local input for one frame, a record cut by a read, and a digest the runtime does not deliver.
\<close>

section \<open>Records of the stream\<close>

lemma input_tag_type: "type_name_for_tag kCanonicalInputTag = Some ''CanonicalInputBundleV1''"
  by code_simp

lemma input_tag_legal: "tag_is_legal_on Chan_StateCommit kCanonicalInputTag"
  by code_simp

lemma frame_input_record_built:
  assumes b: "canonical_input_build_v1 True key seat owner samples = Inr b" and shape: "key_shape key" "length owner = 32"
    and n: "n \<noteq> 0"
  obtains obj where "frame_input_record b n = Some (record_bytes (kCanonicalInputTag, obj))"
    "good_record Chan_StateCommit (kCanonicalInputTag, obj)"
    "decode_dual_input_bundle_v1 (Some obj) seat owner True = Inr b"
    "length (record_bytes (kCanonicalInputTag, obj)) = kFramedInputBytes"
proof -
  have bs: "bundle_shape b" by (rule build_shape [OF b shape])
  have canon: "canonical_input_is_canonical_v1 b" by (rule build_canonical [OF b])
  have f: "bnd_predicted_port_mask b = 0" "bnd_logical_seat b = seat" "bnd_owner_signing_key_id b = owner"
    using b by (auto simp: canonical_input_build_v1_def split: if_splits)
  have "context_ok b (input_wire_context n)"
    using slot_kind_unstated [of "input_wire_context n" _ b] n
    by (auto simp: context_ok_def input_wire_context_def less_four)
  then obtain obj where enc: "encode_dual_input_bundle_v1 b (input_wire_context n) True = Inr obj"
    by (simp add: encode_bundle_Inr [OF bs canon])
  have small: "bnd_predicted_port_mask b AND NOT 0xF = 0" by (simp add: f)
  note dec = decode_encoded [OF enc bs small]
  have len: "length obj = 154" using dec(2) by (simp add: check_bundle_Ok)
  have lr: "length (record_bytes (kCanonicalInputTag, obj)) = kFramedInputBytes"
    by (simp add: length_record len kFramedInputBytes_def kDualInputWireBytesV1_def)
  have "encode_app_frame kCanonicalInputTag (Some obj) True kFramedInputBytes True
      = (Wire_Ok, Some (record_bytes (kCanonicalInputTag, obj)))"
    using len by (simp add: encode_app_frame_def input_tag_type record_bytes_def absolute_max_object_bytes_def
        kFramedInputBytes_def kDualInputWireBytesV1_def Let_def)
  then have "frame_input_record b n = Some (record_bytes (kCanonicalInputTag, obj))"
    using lr by (simp add: frame_input_record_def enc)
  moreover have "good_record Chan_StateCommit (kCanonicalInputTag, obj)"
    using len dec(2) by (simp add: good_record_def input_tag_legal input_tag_type)
  ultimately show thesis using that dec(1) f lr by simp
qed

lemma next_app_frame_good:
  assumes "good_record ch (tag, obj)"
  obtains af cursor where
    "next_app_frame (app_frame_cursor ch (record_bytes (tag, obj) @ rest)) = ((Wire_Ok, Some af), cursor)"
    "af_frame_type_tag af = tag" "af_object_bytes af = obj"
    "drop (cur_offset cursor) (record_bytes (tag, obj) @ rest) = rest"
proof -
  obtain af where af: "decode_record (Some ch) (record_bytes (tag, obj) @ rest) = Inr (af, 6 + length obj)"
    "af_frame_type_tag af = tag" "af_object_bytes af = obj" using decode_good [OF assms] by blast
  have "length (record_bytes (tag, obj) @ rest) \<noteq> 0" by (simp add: length_record)
  then have ne: "record_bytes (tag, obj) @ rest \<noteq> []" by fastforce
  have "next_app_frame (app_frame_cursor ch (record_bytes (tag, obj) @ rest)) = ((Wire_Ok, Some af),
      (app_frame_cursor ch (record_bytes (tag, obj) @ rest))\<lparr>cur_offset := 6 + length obj\<rparr>)"
    using ne af(1) by (simp add: next_app_frame_def app_frame_cursor_def)
  moreover have "drop (6 + length obj) (record_bytes (tag, obj) @ rest) = rest"
    using length_record [of "(tag, obj)"] by simp
  ultimately show thesis using that af by fastforce
qed

lemma next_app_frame_cut:
  assumes "good_record ch r" "n < length (record_bytes r)"
  shows "fst (next_app_frame (app_frame_cursor ch (take n (record_bytes r))))
    = (if n = 0 then (Wire_Ok, None) else (Wire_Truncated, None))"
  using assms decode_truncated [OF assms]
  by (auto simp: next_app_frame_def app_frame_cursor_def)

text \<open>Reading one record of the peer, with nothing buffered before it.\<close>

lemma ingest_record_good:
  assumes "good_record Chan_StateCommit (kCanonicalInputTag, obj)"
    "dc_read_accumulator c = record_bytes (kCanonicalInputTag, obj) @ rest"
    "decode_dual_input_bundle_v1 (Some obj) (1 - dc_local_seat c)
       (own_signing_key_id (dc_owners c ! unat (1 - dc_local_seat c))) True = Inr b"
    "key_session_id (bnd_key b) = key_session_id (dc_context c)"
    "key_branch_id (bnd_key b) = key_branch_id (dc_context c)"
    "key_timeline_epoch (bnd_key b) = key_timeline_epoch (dc_context c)"
    "key_seat_revision (bnd_key b) = key_seat_revision (dc_context c)"
  shows "ingest_record c = ingest_bundle (c\<lparr>dc_read_accumulator := rest, dc_watchdog :=
      on_verified_peer_activity (dc_watchdog c) (dc_last_clock_ns c)\<rparr>) b"
proof -
  obtain af cursor where na:
    "next_app_frame (app_frame_cursor Chan_StateCommit (dc_read_accumulator c)) = ((Wire_Ok, Some af), cursor)"
    "af_frame_type_tag af = kCanonicalInputTag" "af_object_bytes af = obj"
    "drop (cur_offset cursor) (dc_read_accumulator c) = rest"
    using next_app_frame_good [OF assms(1), of rest] assms(2) by metis
  show ?thesis using assms(3-7) by (simp add: ingest_record_def na Let_def)
qed

lemma try_step_loop_buffer:
  "try_step_loop n c s = Some (r, c') \<Longrightarrow> dc_read_accumulator c' = dc_read_accumulator c"
proof (induction n arbitrary: c s)
  case 0
  then show ?case by simp
next
  case (Suc n)
  obtain code s1 where st: "step_next_frame (CAbiDualRuntimePortV1 (dc_adapter c)) s = (code, s1)"
    by (metis prod.collapse)
  show ?case using Suc.prems Suc.IH st by (fastforce split: if_splits)
qed

lemma ingest_bundle_buffer:
  "ingest_bundle c b = Inr c' \<Longrightarrow> dc_read_accumulator c' = dc_read_accumulator c"
proof -
  have t: "dc_read_accumulator (snd (try_step d)) = dc_read_accumulator d" for d :: "'a DualSessionController"
    by (auto simp: try_step_def simp del: try_step_loop.simps dest: try_step_loop_buffer split: option.split)
  have m: "dc_read_accumulator (maybe_enter_running d) = dc_read_accumulator d" for d :: "'a DualSessionController"
    by (auto simp: maybe_enter_running_def Let_def split: option.split prod.split)
  assume "ingest_bundle c b = Inr c'"
  then show ?thesis using m t [of "c\<lparr>dc_scheduler := Some _\<rparr>"]
    by (auto simp: ingest_bundle_def Let_def case_prod_unfold split: if_splits option.splits)
qed

lemma ingest_one_record:
  assumes "good_record Chan_StateCommit (kCanonicalInputTag, obj)" "dc_read_accumulator c = []"
    "length (record_bytes (kCanonicalInputTag, obj)) = kFramedInputBytes"
    "decode_dual_input_bundle_v1 (Some obj) (1 - dc_local_seat c)
       (own_signing_key_id (dc_owners c ! unat (1 - dc_local_seat c))) True = Inr b"
    "key_session_id (bnd_key b) = key_session_id (dc_context c)"
    "key_branch_id (bnd_key b) = key_branch_id (dc_context c)"
    "key_timeline_epoch (bnd_key b) = key_timeline_epoch (dc_context c)"
    "key_seat_revision (bnd_key b) = key_seat_revision (dc_context c)"
  shows "ingest_remote_bytes c (Some (record_bytes (kCanonicalInputTag, obj))) =
    (case ingest_bundle (c\<lparr>dc_watchdog := on_verified_peer_activity (dc_watchdog c) (dc_last_clock_ns c)\<rparr>) b of
       Inl r \<Rightarrow> r | Inr c' \<Rightarrow> (FLY_OK, c'))"
proof -
  let ?bs = "record_bytes (kCanonicalInputTag, obj)"
  let ?c1 = "c\<lparr>dc_read_accumulator := ?bs\<rparr>"
  let ?c2 = "c\<lparr>dc_watchdog := on_verified_peer_activity (dc_watchdog c) (dc_last_clock_ns c)\<rparr>"
  have "?c1\<lparr>dc_read_accumulator := [], dc_watchdog := on_verified_peer_activity (dc_watchdog c) (dc_last_clock_ns c)\<rparr>
      = ?c2" using assms(2) by simp
  then have rec: "ingest_record ?c1 = ingest_bundle ?c2 b"
    using ingest_record_good [of obj ?c1 "[]" b] assms(1,4-8) by simp
  have again: "ingest_record c' = Inl (FLY_OK, c')" if "dc_read_accumulator c' = []" for c' :: "'a DualSessionController"
    using that by (simp add: ingest_record_def next_app_frame_def app_frame_cursor_def)
  have two: "ingest_loop (Suc (Suc n)) ?c1 = Some (case ingest_bundle ?c2 b of Inl r \<Rightarrow> r | Inr c' \<Rightarrow> (FLY_OK, c'))" for n
  proof (cases "ingest_bundle ?c2 b")
    case (Inl r)
    then show ?thesis by (simp add: rec)
  next
    case (Inr c')
    then have "dc_read_accumulator c' = []" using ingest_bundle_buffer [OF Inr] assms(2) by simp
    then show ?thesis using again Inr by (simp add: rec)
  qed
  obtain m where "length ?bs + 1 = Suc (Suc m)"
    using assms(3) by (metis Suc_eq_plus1 length_record add_Suc numeral_eq_Suc pred_numeral_simps)
  then show ?thesis
    using two [of m] assms(2,3) by (simp add: ingest_remote_bytes_def Let_def del: ingest_loop.simps)
qed

section \<open>Samples\<close>

lemma key_valid_frame [simp]: "dual_input_key_is_valid_v1 (k\<lparr>key_frame_index := f\<rparr>) = dual_input_key_is_valid_v1 k"
  by (simp add: dual_input_key_is_valid_v1_def)

lemma build_ok:
  assumes "unat seat < 4" "dual_input_key_is_valid_v1 key" "\<not> all_zero owner" "samples_sequence_ok samples"
    "\<not> list_ex (\<lambda>port. inp_mask (samples ! port) AND NOT kDualFullPortMaskV1 \<noteq> 0) [0..<kDualPortCountV1]"
  obtains b where "canonical_input_build_v1 True key seat owner samples = Inr b" "bnd_logical_seat b = seat"
    "bnd_key b = key" "bnd_owner_signing_key_id b = owner"
    "\<And>p. p < 4 \<Longrightarrow> smp_input_sequence (bnd_ports b ! p) = inp_sequence (samples ! p)"
  using assms by (simp add: canonical_input_build_v1_def) (simp add: kDualPortCountV1_def)

lemma local_samples_nth:
  "p < 4 \<Longrightarrow> local_samples base seat m ! p = \<lparr>inp_mask = (if p = unat seat then m else 0), inp_sequence = base + of_nat p\<rparr>"
  by (simp add: local_samples_def kDualPortCountV1_def)

lemma local_sequence_unat:
  assumes "base \<le> - 1 - (4 :: u64)" "p \<le> 4"
  shows "unat (base + of_nat p) = unat base + p"
proof -
  have "unat base \<le> 2 ^ 64 - 5" using assms(1) by (simp add: word_le_nat_alt)
  then show ?thesis using assms(2) by (subst unat_add_small) (simp_all add: unat_of_nat)
qed

lemma local_samples_ok:
  assumes "base \<noteq> 0" "base \<le> - 1 - (4 :: u64)"
  shows "samples_sequence_ok (local_samples base seat m)"
    "\<not> list_ex (\<lambda>port. inp_mask (local_samples base seat (normalize_dual_port_mask_v1 m) ! port)
        AND NOT kDualFullPortMaskV1 \<noteq> 0) [0..<kDualPortCountV1]"
proof -
  have u: "unat (base + of_nat p) = unat base + p" if "p < 4" for p
    using local_sequence_unat [OF assms(2), of p] that by simp
  have b: "unat base > 0" using assms(1) by (simp add: unat_gt_0)
  have "inp_sequence (local_samples base seat m ! p) \<noteq> 0 \<and>
      (p \<noteq> 0 \<longrightarrow> \<not> inp_sequence (local_samples base seat m ! p) \<le> inp_sequence (local_samples base seat m ! (p - 1)))"
    if p: "p < 4" for p
  proof -
    have "p - 1 < 4" using p by simp
    then show ?thesis using p u [OF p] u [of "p - 1"] b
      by (auto simp: local_samples_nth word_le_nat_alt word_unat_eq_iff)
  qed
  then show "samples_sequence_ok (local_samples base seat m)"
    by (simp add: samples_sequence_ok_def list_all_iff kDualPortCountV1_def)
  show "\<not> list_ex (\<lambda>port. inp_mask (local_samples base seat (normalize_dual_port_mask_v1 m) ! port)
        AND NOT kDualFullPortMaskV1 \<noteq> 0) [0..<kDualPortCountV1]"
    using normalize_legal [of m] local_samples_nth
    by (auto simp: list_ex_iff legal_pad_mask_def kDualPortCountV1_def)
qed

section \<open>Two ends\<close>

text \<open>Two controllers of one game: the same run context, the seats 0 and 1, and the same key on record for
  the first one's seat.\<close>

definition ends_of_game :: "'w DualSessionController \<Rightarrow> 'v DualSessionController \<Rightarrow> bool" where
  "ends_of_game a b \<longleftrightarrow> dc_context b = dc_context a \<and> key_shape (dc_context a)
     \<and> unat (dc_local_seat a) < 2 \<and> dc_local_seat b = 1 - dc_local_seat a
     \<and> length (own_signing_key_id (dc_owners a ! unat (dc_local_seat a))) = 32
     \<and> own_signing_key_id (dc_owners b ! unat (dc_local_seat a))
       = own_signing_key_id (dc_owners a ! unat (dc_local_seat a))"

lemma read_one_record:
  assumes ends: "ends_of_game a b" and acc: "dc_read_accumulator b = []"
    and built: "canonical_input_build_v1 True ((dc_context a)\<lparr>key_frame_index := f\<rparr>) (dc_local_seat a)
      (own_signing_key_id (dc_owners a ! unat (dc_local_seat a))) samples = Inr bundle0"
    and rec: "frame_input_record bundle0 n = Some bs" and n: "n \<noteq> 0" and buf: "pe_buffer parsed = Some bs"
  shows "complete_effect b GrantRead FLY_OK parsed =
    (case ingest_bundle (b\<lparr>dc_read_outstanding := False, dc_want_read := False,
        dc_watchdog := on_verified_peer_activity (dc_watchdog b) (dc_last_clock_ns b)\<rparr>) bundle0 of
       Inl r \<Rightarrow> r | Inr c' \<Rightarrow> (FLY_OK, c'))"
proof -
  let ?k = "(dc_context a)\<lparr>key_frame_index := f\<rparr>"
  let ?owner = "own_signing_key_id (dc_owners a ! unat (dc_local_seat a))"
  have shape: "key_shape ?k" "length ?owner = 32" using ends by (simp_all add: ends_of_game_def key_shape_def)
  obtain obj where o: "frame_input_record bundle0 n = Some (record_bytes (kCanonicalInputTag, obj))"
    "good_record Chan_StateCommit (kCanonicalInputTag, obj)"
    "decode_dual_input_bundle_v1 (Some obj) (dc_local_seat a) ?owner True = Inr bundle0"
    "length (record_bytes (kCanonicalInputTag, obj)) = kFramedInputBytes"
    using frame_input_record_built [OF built shape n] by blast
  let ?b1 = "b\<lparr>dc_read_outstanding := False, dc_want_read := False\<rparr>"
  have seat: "1 - dc_local_seat ?b1 = dc_local_seat a" using ends by (simp add: ends_of_game_def)
  have key: "bnd_key bundle0 = ?k" using built by (auto simp: canonical_input_build_v1_def split: if_splits)
  have ctx: "dc_context b = dc_context a" using ends by (simp add: ends_of_game_def)
  have dec: "decode_dual_input_bundle_v1 (Some obj) (1 - dc_local_seat ?b1)
      (own_signing_key_id (dc_owners ?b1 ! unat (1 - dc_local_seat ?b1))) True = Inr bundle0"
    unfolding seat using o(3) ends by (simp add: ends_of_game_def)
  have "ingest_remote_bytes ?b1 (Some (record_bytes (kCanonicalInputTag, obj))) =
    (case ingest_bundle (?b1\<lparr>dc_watchdog := on_verified_peer_activity (dc_watchdog ?b1) (dc_last_clock_ns ?b1)\<rparr>)
       bundle0 of Inl r \<Rightarrow> r | Inr c' \<Rightarrow> (FLY_OK, c'))"
    by (rule ingest_one_record [OF o(2) _ o(4) dec]) (simp_all add: acc key ctx)
  moreover have "bs = record_bytes (kCanonicalInputTag, obj)" using rec o(1) by simp
  ultimately show ?thesis by (simp add: complete_effect_def read_parsed_buffer_def buf Let_def)
qed

section \<open>Two ends to evaluate\<close>

definition live_port :: "unit adapted DualRuntimePort" where
  "live_port = CAbiDualRuntimePortV1 (Some demo_runtime)"

definition ready_sched :: "unit adapted DualRunSchedulerV1" where
  "ready_sched = snd (sch_begin live_port (new_scheduler ((), 0)) Mode_Dual zero_content (pair_key 0) pair_owners)"

definition live_sched :: "unit adapted DualRunSchedulerV1" where
  "live_sched = snd (announce_running ready_sched)"

definition ready_end :: "u8 \<Rightarrow> unit DualSessionController" where
  "ready_end seat = (new_controller ())\<lparr>dc_adapter := Some demo_runtime, dc_scheduler := Some ready_sched,
     dc_context := pair_key 0, dc_owners := pair_owners, dc_local_seat := seat, dc_stream_open := True,
     dc_local_runtime_ready := True\<rparr>"

definition live_end :: "u8 \<Rightarrow> unit adapted DualRunSchedulerV1 \<Rightarrow> unit DualSessionController" where
  "live_end seat s = (ready_end seat)\<lparr>dc_scheduler := Some s, dc_peer_runtime_ready := True, dc_running := True\<rparr>"

definition event_with :: "bytes \<Rightarrow> ParsedProviderEvent" where
  "event_with bs = \<lparr>pe_payload_kind = 0, pe_resource = 1, pe_generation = 0, pe_value0 = 2, pe_value1 = 0,
     pe_hash = [], pe_buffer = Some bs\<rparr>"

lemma demo_ends: "ends_of_game (ready_end 0) (ready_end 1)" "ends_of_game (live_end 0 s) (live_end 1 t)"
  by (simp_all add: ends_of_game_def live_end_def ready_end_def pair_key_def key_shape_def pair_owners_def
      new_controller_def)

section \<open>Properties\<close>

text \<open>
  C22: What one end submits the other takes in: when a local input is queued, the bytes appended to the
  write queue are one record, and an end of the same game that reads this record hands to its scheduler
  exactly the bundle built from the local samples for the sender's next frame, consuming the record
  whole.
\<close>
theorem input_reaches_peer:
  assumes "ends_of_game a b" "dc_read_accumulator b = []"
    "queue_local_bundle a s samples = (FLY_OK, a')"
    "pe_buffer parsed = Some (last (dc_write_queue a'))"
  shows "\<exists>bundle0. canonical_input_build_v1 True ((dc_context a)\<lparr>key_frame_index := sch_next_frame s\<rparr>)
        (dc_local_seat a) (own_signing_key_id (dc_owners a ! unat (dc_local_seat a))) samples = Inr bundle0
    \<and> butlast (dc_write_queue a') = dc_write_queue a
    \<and> length (last (dc_write_queue a')) = kFramedInputBytes
    \<and> complete_effect b GrantRead FLY_OK parsed =
        (case ingest_bundle (b\<lparr>dc_read_outstanding := False, dc_want_read := False,
            dc_watchdog := on_verified_peer_activity (dc_watchdog b) (dc_last_clock_ns b)\<rparr>) bundle0 of
           Inl r \<Rightarrow> r | Inr c' \<Rightarrow> (FLY_OK, c'))"
proof -
  obtain bundle0 bs where h:
    "canonical_input_build_v1 True ((dc_context a)\<lparr>key_frame_index := sch_next_frame s\<rparr>)
      (dc_local_seat a) (own_signing_key_id (dc_owners a ! unat (dc_local_seat a))) samples = Inr bundle0"
    "frame_input_record bundle0 (dc_batch_sequence a) = Some bs" "dc_write_queue a' = dc_write_queue a @ [bs]"
    "dc_batch_sequence a \<noteq> 0"
    using assms(3)
    by (auto simp: queue_local_bundle_def Let_def checked_dual_next_sequence_v1_def
        split: sum.splits prod.splits if_splits option.splits)
  have "pe_buffer parsed = Some bs" using assms(4) h(3) by simp
  from read_one_record [OF assms(1,2) h(1,2,4) this] show ?thesis
    using h frame_input_record_length [OF h(2)] by (intro exI [of _ bundle0]) simp
qed

theorem input_reaches_peer_witness:
  "\<exists>a' bundle0. queue_local_bundle (live_end 0 live_sched) live_sched (local_samples 1 0 8) = (FLY_OK, a')
    \<and> complete_effect (live_end 1 live_sched) GrantRead FLY_OK (event_with (last (dc_write_queue a')))
      = (case ingest_bundle ((live_end 1 live_sched)\<lparr>dc_read_outstanding := False, dc_want_read := False,
            dc_watchdog := on_verified_peer_activity (dc_watchdog (live_end 1 live_sched)) 0\<rparr>) bundle0 of
           Inl r \<Rightarrow> r | Inr c' \<Rightarrow> (FLY_OK, c'))"
proof -
  let ?a = "live_end 0 live_sched" and ?b = "live_end 1 live_sched" and ?x = "local_samples 1 0 8"
  let ?k = "(dc_context ?a)\<lparr>key_frame_index := sch_next_frame live_sched\<rparr>"
  have f: "dc_context ?a = pair_key 0" "dc_local_seat ?a = 0" "dc_owners ?a = pair_owners"
    "dc_batch_sequence ?a = 1" "dc_read_accumulator ?b = []" "dc_last_clock_ns ?b = 0" "dc_scheduler ?a = Some live_sched"
    by (simp_all add: live_end_def ready_end_def new_controller_def)
  have owner: "own_signing_key_id (pair_owners ! 0) = replicate 32 1" by (simp add: pair_owners_def)
  have "samples_sequence_ok ?x" "\<not> list_ex (\<lambda>port. inp_mask (?x ! port) AND NOT kDualFullPortMaskV1 \<noteq> 0)
      [0..<kDualPortCountV1]" "dual_input_key_is_valid_v1 (pair_key 0)" by code_simp+
  then obtain b where b: "canonical_input_build_v1 True ?k 0 (replicate 32 1) ?x = Inr b"
    using build_ok [of 0 ?k "replicate 32 1" ?x] f by (auto simp: all_zero_iff)
  have "key_shape ?k" by (simp add: f pair_key_def key_shape_def)
  then obtain obj where o: "frame_input_record b 1 = Some (record_bytes (kCanonicalInputTag, obj))"
    using frame_input_record_built [OF b, of 1] by auto
  have "fst (fst (accept_local_input live_sched ?x 0)) = FLY_ACCEPTED"
    "snd (accept_local_input live_sched ?x 0) = Admit_Accepted" by code_simp+
  then obtain s1 where "accept_local_input live_sched ?x 0 = ((FLY_ACCEPTED, s1), Admit_Accepted)"
    by (metis prod.collapse)
  then have q: "\<exists>a'. queue_local_bundle ?a live_sched ?x = (FLY_OK, a')"
    using b o by (simp add: queue_local_bundle_def f owner checked_dual_next_sequence_v1_def Let_def)
  then obtain a' where a: "queue_local_bundle ?a live_sched ?x = (FLY_OK, a')" by blast
  show ?thesis
    using input_reaches_peer [OF demo_ends(2) f(5) a, of "event_with (last (dc_write_queue a'))"] a f(6)
    by (auto simp: event_with_def)
qed

text \<open>
  C23: The ready records start the game: when the stream of a loaded end opens, it queues one ready
  record, and a loaded end of the same game that reads it is running.
\<close>
theorem ready_record_starts_peer:
  assumes "ends_of_game a b"
    "dc_local_runtime_ready a" "\<not> dc_frozen a" "dc_scheduler a \<noteq> None"
    "dual_input_key_is_valid_v1 (dc_context a)"
    "\<not> all_zero (own_signing_key_id (dc_owners a ! unat (dc_local_seat a)))"
    "pe_resource opened \<noteq> 0" "pe_value0 opened \<noteq> 0"
    "dc_local_runtime_ready b" "\<not> dc_frozen b" "\<not> dc_paused b" "\<not> dc_running b"
    "dc_scheduler b = Some s" "sch_state s = Sim_Ready" "\<not> sch_shutdown s" "dc_read_accumulator b = []"
  shows "\<exists>record0 a'. complete_effect a OpenStream FLY_OK opened = (FLY_OK, a')
    \<and> dc_write_queue a' = dc_write_queue a @ [record0]
    \<and> (\<forall>parsed. pe_buffer parsed = Some record0 \<longrightarrow>
         (\<exists>b'. complete_effect b GrantRead FLY_OK parsed = (FLY_OK, b')
            \<and> game_state b' = Game_Running \<and> (\<exists>s'. dc_scheduler b' = Some s' \<and> sch_state s' = Sim_Running)))"
proof -
  let ?k = "(dc_context a)\<lparr>key_frame_index := 0\<rparr>"
  let ?owner = "own_signing_key_id (dc_owners a ! unat (dc_local_seat a))"
  have seat: "unat (dc_local_seat a) < 4" using assms(1) by (simp add: ends_of_game_def)
  have "samples_sequence_ok beacon_samples" "\<not> list_ex (\<lambda>port. inp_mask (beacon_samples ! port)
      AND NOT kDualFullPortMaskV1 \<noteq> 0) [0..<kDualPortCountV1]" by code_simp+
  then obtain bundle0 where built: "canonical_input_build_v1 True ?k (dc_local_seat a) ?owner beacon_samples = Inr bundle0"
    using build_ok [of "dc_local_seat a" ?k ?owner beacon_samples] assms(5,6) seat by auto
  have shape: "key_shape ?k" "length ?owner = 32" using assms(1) by (simp_all add: ends_of_game_def key_shape_def)
  obtain obj where rec: "frame_input_record bundle0 1 = Some (record_bytes (kCanonicalInputTag, obj))"
    using frame_input_record_built [OF built shape] by (metis zero_neq_one)
  let ?r = "record_bytes (kCanonicalInputTag, obj)"
  let ?b1 = "b\<lparr>dc_read_outstanding := False, dc_want_read := False,
    dc_watchdog := on_verified_peer_activity (dc_watchdog b) (dc_last_clock_ns b)\<rparr>"
  have ing: "\<exists>b'. ingest_bundle ?b1 bundle0 = Inr b' \<and> game_state b' = Game_Running
      \<and> (\<exists>s'. dc_scheduler b' = Some s' \<and> sch_state s' = Sim_Running)"
    using assms(9-15)
    by (simp add: ingest_bundle_def maybe_enter_running_def announce_running_def Let_def game_state_def)
  have "\<exists>b'. complete_effect b GrantRead FLY_OK parsed = (FLY_OK, b')
      \<and> game_state b' = Game_Running \<and> (\<exists>s'. dc_scheduler b' = Some s' \<and> sch_state s' = Sim_Running)"
    if "pe_buffer parsed = Some ?r" for parsed
    using read_one_record [OF assms(1,16) built rec _ that] ing by auto
  moreover have "\<exists>a'. complete_effect a OpenStream FLY_OK opened = (FLY_OK, a')
      \<and> dc_write_queue a' = dc_write_queue a @ [?r]"
    using assms(2-4,7,8) built rec
    by (auto simp: complete_effect_def queue_runtime_ready_beacon_def Let_def)
  ultimately show ?thesis by blast
qed

theorem ready_record_starts_peer_witness:
  "\<exists>record0 a' b'. complete_effect (ready_end 0) OpenStream FLY_OK (event_with []) = (FLY_OK, a')
    \<and> dc_write_queue a' = [record0]
    \<and> complete_effect (ready_end 1) GrantRead FLY_OK (event_with record0) = (FLY_OK, b')
    \<and> game_state b' = Game_Running"
proof -
  have s: "sch_state ready_sched = Sim_Ready" "\<not> sch_shutdown ready_sched" "dual_input_key_is_valid_v1 (pair_key 0)"
    by code_simp+
  have owner: "\<not> all_zero (own_signing_key_id (pair_owners ! 0))" by (simp add: pair_owners_def all_zero_iff)
  let ?a = "ready_end 0" and ?b = "ready_end 1"
  have f: "dc_local_runtime_ready ?a" "\<not> dc_frozen ?a" "dc_scheduler ?a \<noteq> None" "dc_context ?a = pair_key 0"
    "dc_owners ?a = pair_owners" "dc_local_seat ?a = 0" "dc_local_runtime_ready ?b" "\<not> dc_frozen ?b"
    "\<not> dc_paused ?b" "\<not> dc_running ?b" "dc_scheduler ?b = Some ready_sched" "dc_read_accumulator ?b = []"
    "dc_write_queue ?a = []"
    by (simp_all add: ready_end_def new_controller_def)
  have e: "pe_resource (event_with []) \<noteq> 0" "pe_value0 (event_with []) \<noteq> 0" by (simp_all add: event_with_def)
  have k: "dual_input_key_is_valid_v1 (dc_context ?a)"
    "\<not> all_zero (own_signing_key_id (dc_owners ?a ! unat (dc_local_seat ?a)))" using s(3) owner by (simp_all add: f)
  from ready_record_starts_peer [OF demo_ends(1) f(1-3) k e f(7-11) s(1,2) f(12)]
  obtain record0 a' where h: "complete_effect ?a OpenStream FLY_OK (event_with []) = (FLY_OK, a')"
    "dc_write_queue a' = dc_write_queue ?a @ [record0]"
    "\<forall>parsed. pe_buffer parsed = Some record0 \<longrightarrow> (\<exists>b'. complete_effect ?b GrantRead FLY_OK parsed = (FLY_OK, b')
        \<and> game_state b' = Game_Running \<and> (\<exists>s'. dc_scheduler b' = Some s' \<and> sch_state s' = Sim_Running))"
    by blast
  have "pe_buffer (event_with record0) = Some record0" by (simp add: event_with_def)
  then show ?thesis using h f(13) by auto
qed

text \<open>
  C24: A second input for one frame stops the simulation and nobody is told: if the window already holds the
  local input of the next frame, which waits for the peer's, another \<open>submit_local\<close> is refused, but the
  refused input carries new sequence numbers for a frame that has some, so the scheduler takes it for a
  rewrite of history and freezes; the controller keeps reporting a running game and queues nothing.
\<close>
theorem second_submit_freezes_silently:
  assumes run: "dc_running c" "\<not> dc_frozen c" "\<not> dc_paused c" "dc_scheduler c = Some s"
      "sch_state s = Sim_Running" "\<not> sch_shutdown s" "sch_freeze_reason s = Freeze_None"
    and win: "win_bound (sch_window s)" "win_context (sch_window s) = dc_context c"
      "win_owners (sch_window s) = dc_owners c" "win_step_frontier (sch_window s) = sch_next_frame s"
      "win_min_accept_revision (sch_window s) \<le> key_seat_revision (dc_context c)"
    and seat: "unat (dc_local_seat c) < 4" "seat_index (sch_window s) (dc_local_seat c) = Some (unat (dc_local_seat c))"
      "dual_input_key_is_valid_v1 (dc_context c)"
      "\<not> all_zero (own_signing_key_id (dc_owners c ! unat (dc_local_seat c)))"
    and waiting: "confirmed (sch_window s) (sch_next_frame s) (unat (dc_local_seat c)) = Some (m, q)"
      "q < dc_local_sequence c" "dc_local_sequence c \<le> - 1 - 4"
    and input: "in_expected_seat_revision input = key_seat_revision (dc_context c)"
  shows "\<exists>c' s'. submit_local c input = (FLY_INVALID_STATE, c') \<and> dc_scheduler c' = Some s'
    \<and> sch_state s' = Sim_Frozen \<and> sch_freeze_reason s' = CommittedHistoryRewrite
    \<and> game_state c' = Game_Running \<and> dc_write_queue c' = dc_write_queue c"
proof -
  let ?w = "sch_window s" and ?seat = "dc_local_seat c" and ?base = "dc_local_sequence c"
  let ?owner = "own_signing_key_id (dc_owners c ! unat ?seat)"
  let ?k = "(dc_context c)\<lparr>key_frame_index := sch_next_frame s\<rparr>"
  define mask0 where "mask0 = normalize_dual_port_mask_v1
    (if in_full_size input then in_port_mask input ! unat ?seat else in_buttons input)"
  let ?x = "local_samples ?base ?seat mask0"
  have base: "?base \<noteq> 0" using waiting(2) by (auto simp: word_less_nat_alt)
  note ok = local_samples_ok [OF base waiting(3), of ?seat, folded mask0_def]
  obtain b where b: "canonical_input_build_v1 True ?k ?seat ?owner ?x = Inr b" "bnd_logical_seat b = ?seat"
    "bnd_key b = ?k" "bnd_owner_signing_key_id b = ?owner"
    "\<And>p. p < 4 \<Longrightarrow> smp_input_sequence (bnd_ports b ! p) = inp_sequence (?x ! p)"
    using build_ok [of ?seat ?k ?owner ?x] seat ok by (auto simp: mask0_def)
  have canon: "canonical_input_is_canonical_v1 b" by (rule build_canonical [OF b(1)])
  have "smp_input_sequence (bnd_ports b ! unat ?seat) = ?base + of_nat (unat ?seat)"
    using b(5) [OF seat(1)] seat(1) by (simp add: local_samples_nth)
  moreover have "unat (?base + of_nat (unat ?seat)) = unat ?base + unat ?seat"
    by (rule local_sequence_unat [OF waiting(3)]) (use seat(1) in simp)
  ultimately have "smp_input_sequence (bnd_ports b ! unat ?seat) \<noteq> q"
    using waiting(2) by (auto simp: word_less_nat_alt)
  then have ap: "already_provided ?w b (unat ?seat) = Some RejectedCommittedHistory"
    using waiting(1) by (auto simp: already_provided_def confirmed_def b(3) split: option.splits if_splits)
  have "deliver_input ?w b = accept_port ?w b (unat ?seat)"
    using canon win seat(2,4) by (simp add: deliver_input_def b(2-4) leD)
  then have "deliver_local_input ?w ?x ?seat = (RejectedCommittedHistory, ?w)"
    using win seat b(1) ap by (simp add: deliver_local_input_def accept_port_def Let_def)
  then have acc: "accept_local_input s ?x ?seat = (freeze s CommittedHistoryRewrite, Admit_Equivocation)"
    using run(5,6) by (simp add: accept_local_input_def require_running_def handle_window_status_def)
  show ?thesis
    using run win(2) input base waiting(3) b(1) acc
    by (auto simp: submit_local_def Let_def queue_local_bundle_def mask0_def [symmetric] freeze_def game_state_def
        not_less)
qed

definition waiting_sched :: "unit adapted DualRunSchedulerV1" where
  "waiting_sched = snd (fst (accept_local_input live_sched (local_samples 1 0 8) 0))"

definition waiting_end :: "unit DualSessionController" where
  "waiting_end = (live_end 0 waiting_sched)\<lparr>dc_local_sequence := 5\<rparr>"

theorem second_submit_freezes_silently_witness:
  "\<exists>c'. submit_local waiting_end \<lparr>in_full_size = True, in_expected_seat_revision = 1, in_buttons = 0,
       in_port_mask = [1, 0, 0, 0]\<rparr> = (FLY_INVALID_STATE, c') \<and> game_state c' = Game_Running"
proof -
  let ?i = "\<lparr>in_full_size = True, in_expected_seat_revision = 1, in_buttons = 0, in_port_mask = [1, 0, 0, 0]\<rparr>"
  have s: "sch_state waiting_sched = Sim_Running" "\<not> sch_shutdown waiting_sched"
    "sch_freeze_reason waiting_sched = Freeze_None" "win_bound (sch_window waiting_sched)"
    "win_context (sch_window waiting_sched) = pair_key 0" "win_owners (sch_window waiting_sched) = pair_owners"
    "win_step_frontier (sch_window waiting_sched) = sch_next_frame waiting_sched"
    "win_min_accept_revision (sch_window waiting_sched) \<le> 1"
    "seat_index (sch_window waiting_sched) 0 = Some 0" "dual_input_key_is_valid_v1 (pair_key 0)"
    "confirmed (sch_window waiting_sched) (sch_next_frame waiting_sched) 0 = Some (8, 1)"
    by code_simp+
  have f: "dc_running waiting_end" "\<not> dc_frozen waiting_end" "\<not> dc_paused waiting_end"
    "dc_scheduler waiting_end = Some waiting_sched" "dc_context waiting_end = pair_key 0"
    "dc_owners waiting_end = pair_owners" "dc_local_seat waiting_end = 0" "dc_local_sequence waiting_end = 5"
    by (simp_all add: waiting_end_def live_end_def ready_end_def new_controller_def)
  have k: "key_seat_revision (pair_key 0) = 1" by (simp add: pair_key_def)
  have "\<exists>c' s'. submit_local waiting_end ?i = (FLY_INVALID_STATE, c') \<and> dc_scheduler c' = Some s'
    \<and> sch_state s' = Sim_Frozen \<and> sch_freeze_reason s' = CommittedHistoryRewrite
    \<and> game_state c' = Game_Running \<and> dc_write_queue c' = dc_write_queue waiting_end"
    by (rule second_submit_freezes_silently [where s = waiting_sched and m = 8 and q = 1])
      (use s f k in \<open>simp_all add: pair_owners_def all_zero_iff\<close>)
  then show ?thesis by blast
qed

text \<open>
  A record that arrives in two pieces stops the start of the game: when a completed read ends inside a
  record before the game runs, the controller asks for no further read, whatever the clock does and
  whatever the player submits; only a completed write would ask again, and there is nothing to write.
\<close>
theorem cut_record_stops_reading:
  assumes r: "good_record Chan_StateCommit r" "length (record_bytes r) \<le> 2 * kFramedInputBytes"
    "n < length (record_bytes r)" "pe_buffer parsed = Some (take n (record_bytes r))"
    and c: "dc_read_accumulator c = []" "dc_write_queue c = []" "dc_stream_open c" "\<not> dc_running c"
    "dc_catalog_complete c \<or> \<not> dc_catalog_started c"
    and calls: "\<forall>call \<in> set calls. call = CPoll \<or> (\<exists>ns. call = CTick ns) \<or> (\<exists>i. call = CSubmit i)"
  shows "\<exists>c'. complete_effect c GrantRead FLY_OK parsed = (FLY_OK, c')
    \<and> fst (poll_effect (run_calls controller_step c' calls)) = None
    \<and> \<not> dc_running (run_calls controller_step c' calls)"
proof -
  let ?bs = "take n (record_bytes r)"
  let ?c1 = "c\<lparr>dc_read_outstanding := False, dc_want_read := False, dc_read_accumulator := ?bs\<rparr>"
  have "ingest_record ?c1 = Inl (FLY_OK, ?c1)"
    using next_app_frame_cut [OF r(1,3)] by (auto simp: ingest_record_def split: prod.split if_splits)
  then have finished: "complete_effect c GrantRead FLY_OK parsed = (FLY_OK, ?c1)"
    using r c(1) by (simp add: complete_effect_def read_parsed_buffer_def ingest_remote_bytes_def Let_def)
  define stalled :: "'a DualSessionController \<Rightarrow> bool" where "stalled = (\<lambda>d. dc_stream_open d \<and> \<not> dc_want_read d
    \<and> dc_write_queue d = [] \<and> \<not> dc_running d \<and> (dc_catalog_complete d \<or> \<not> dc_catalog_started d))"
  have poll: "poll_effect d = (None, d)" if "stalled d" for d
    using that by (auto simp: stalled_def poll_effect_def)
  have tick: "stalled (dc_on_clock d ns)" if "stalled d" for d ns
    using that by (auto simp: stalled_def dc_on_clock_def Let_def mark_frozen_def split: prod.split)
  have step: "stalled (snd (controller_step d call))"
    if "stalled d" "call = CPoll \<or> (\<exists>ns. call = CTick ns) \<or> (\<exists>i. call = CSubmit i)" for d call
  proof -
    have "submit_local d i = (FLY_INVALID_STATE, d)" for i
      using that(1) by (simp add: stalled_def submit_local_def)
    then show ?thesis using that poll [OF that(1)] tick [OF that(1)] by auto
  qed
  have "stalled ?c1" using c by (simp add: stalled_def)
  then have "stalled (run_calls controller_step ?c1 calls)"
    using calls step by (induction calls rule: rev_induct) (auto simp: run_calls_append)
  then show ?thesis using finished poll by (auto simp: stalled_def)
qed

theorem cut_record_stops_reading_witness:
  "\<exists>obj c'. complete_effect (ready_end 1) GrantRead FLY_OK
        (event_with (take 100 (record_bytes (kCanonicalInputTag, obj)))) = (FLY_OK, c')
     \<and> fst (poll_effect (run_calls controller_step c' [CPoll, CTick 1, CPoll])) = None"
proof -
  have "samples_sequence_ok (local_samples 1 0 8)" "\<not> list_ex (\<lambda>port. inp_mask (local_samples 1 0 8 ! port)
      AND NOT kDualFullPortMaskV1 \<noteq> 0) [0..<kDualPortCountV1]" "dual_input_key_is_valid_v1 (pair_key 0)" by code_simp+
  then obtain b where b: "canonical_input_build_v1 True (pair_key 0) 0 (replicate 32 1) (local_samples 1 0 8) = Inr b"
    using build_ok [of 0 "pair_key 0" "replicate 32 1" "local_samples 1 0 8"] by (auto simp: all_zero_iff)
  have "key_shape (pair_key 0)" by (simp add: pair_key_def key_shape_def)
  then obtain obj where o: "good_record Chan_StateCommit (kCanonicalInputTag, obj)"
    "length (record_bytes (kCanonicalInputTag, obj)) = kFramedInputBytes"
    using frame_input_record_built [OF b, of 1] by auto
  let ?r = "(kCanonicalInputTag, obj)"
  have "\<exists>c'. complete_effect (ready_end 1) GrantRead FLY_OK (event_with (take 100 (record_bytes ?r))) = (FLY_OK, c')
    \<and> fst (poll_effect (run_calls controller_step c' [CPoll, CTick 1, CPoll])) = None
    \<and> \<not> dc_running (run_calls controller_step c' [CPoll, CTick 1, CPoll])"
    by (rule cut_record_stops_reading [OF o(1)])
      (use o(2) in \<open>simp_all add: kFramedInputBytes_def kDualInputWireBytesV1_def event_with_def ready_end_def
        new_controller_def\<close>)
  then show ?thesis by blast
qed

text \<open>
  A runtime that cannot give the digest of a frame it executed freezes the session without a reason: the
  scheduler returns the code without freezing, the controller freezes with the scheduler's reason, which
  is none, and shows it.
\<close>
theorem digest_failure_freezes_without_reason:
  assumes c: "dc_scheduler c = Some s" "\<not> dc_frozen c" "\<not> dc_paused c" "dc_freeze_reason c = Freeze_None"
    and s: "aligned s" "frame_room s 2" "sch_state s = Sim_Running" "\<not> sch_shutdown s"
      "sch_freeze_reason s = Freeze_None" "frame_all_real (sch_window s) (sch_next_frame s)"
    and abi: "dc_adapter c = Some abi" "abi_step abi = Some exec" "abi_state_digest abi = Some dig"
      "exec (fst (sch_port s)) (to_abi_bundle (pln_bundle (fst (plan_next (sch_window s))))) = (FLY_OK, outcome, w)"
      "dig w (sch_next_frame s) = (code, v, w')" "code \<noteq> FLY_OK"
  shows "\<exists>c'. try_step c = (code, c') \<and> game_state c' = Game_Frozen \<and> dc_frozen c'
    \<and> shown_freeze_reason c' = Freeze_None"
proof -
  let ?port = "CAbiDualRuntimePortV1 (dc_adapter c)"
  have room: "frame_room s 1" using s(2) by (simp add: frame_room_def)
  note plan = plan_all_real [OF s(1,6) room]
  obtain pl u where pu: "plan_next (sch_window s) = (pl, u)" by (cases "plan_next (sch_window s)")
  have "\<exists>s1. step_next_frame ?port s = (code, s1) \<and> sch_freeze_reason s1 = Freeze_None"
    using s(3-5) abi plan
    by (auto simp: step_next_frame_def require_running_def pu Let_def CAbiDualRuntimePortV1_def adapter_step_def
        adapter_state_digest_def)
  then obtain s1 where st: "step_next_frame ?port s = (code, s1)" "sch_freeze_reason s1 = Freeze_None" by blast
  have "try_step c = (code, mark_frozen (c\<lparr>dc_scheduler := Some s1\<rparr>) Freeze_None)"
    using c s(3,6) st abi(6) by (simp add: try_step_def)
  then show ?thesis using c(3,4) by (simp add: mark_frozen_def game_state_def shown_freeze_reason_def)
qed

definition mute_runtime :: "unit AbiRuntimePort" where
  "mute_runtime = demo_runtime\<lparr>abi_state_digest := Some (\<lambda>w f. (FLY_IO_FAILED,
     \<lparr>ad_state = [], ad_frame = [], ad_pcm = []\<rparr>, w))\<rparr>"

definition full_sched :: "unit adapted DualRunSchedulerV1" where
  "full_sched = run_calls (sched_step live_port) ready_sched
     [SAnnounce, SLocal (local_samples 1 0 8) 0, SRemote (pair_bundle 1 8 0)]"

theorem digest_failure_freezes_without_reason_witness:
  "\<exists>c'. try_step ((live_end 0 full_sched)\<lparr>dc_adapter := Some mute_runtime\<rparr>) = (FLY_IO_FAILED, c')
     \<and> dc_frozen c' \<and> shown_freeze_reason c' = Freeze_None"
proof -
  let ?c = "(live_end 0 full_sched)\<lparr>dc_adapter := Some mute_runtime\<rparr>"
  have f: "dc_scheduler ?c = Some full_sched" "\<not> dc_frozen ?c" "\<not> dc_paused ?c" "dc_freeze_reason ?c = Freeze_None"
    "dc_adapter ?c = Some mute_runtime"
    by (simp_all add: live_end_def ready_end_def new_controller_def)
  have b: "sch_begin live_port (new_scheduler ((), 0)) Mode_Dual zero_content (pair_key 0) pair_owners
      = (FLY_OK, ready_sched)"
  proof -
    have "fst (sch_begin live_port (new_scheduler ((), 0)) Mode_Dual zero_content (pair_key 0) pair_owners) = FLY_OK"
      by code_simp
    then show ?thesis by (simp add: ready_sched_def prod_eq_iff)
  qed
  have "window_inv (sch_window full_sched)"
    unfolding full_sched_def by (rule scheduler_window_inv [OF b pair_owners_length]) simp
  moreover have n: "sch_next_frame full_sched = 0" "win_bound (sch_window full_sched)"
    "win_step_frontier (sch_window full_sched) = 0" "win_commit_frontier (sch_window full_sched) = 0"
    "win_materialized_through (sch_window full_sched) = 0" "sch_state full_sched = Sim_Running"
    "\<not> sch_shutdown full_sched" "sch_freeze_reason full_sched = Freeze_None"
    "frame_all_real (sch_window full_sched) 0" by code_simp+
  ultimately have al: "aligned full_sched" by (simp add: aligned_def)
  have room: "frame_room full_sched 2" by (simp add: frame_room_def n(1))
  have real: "frame_all_real (sch_window full_sched) (sch_next_frame full_sched)" using n(1,9) by simp
  have "\<exists>c'. try_step ?c = (FLY_IO_FAILED, c') \<and> game_state c' = Game_Frozen \<and> dc_frozen c'
      \<and> shown_freeze_reason c' = Freeze_None"
    by (rule digest_failure_freezes_without_reason [OF f(1-4) al room n(6-8) real f(5)])
      (simp_all add: mute_runtime_def demo_runtime_def)
  then show ?thesis by blast
qed

end
