(* ===== verification/App_Stream.thy ===== *)
theory App_Stream
  imports App_Frame_Properties
begin

text \<open>
  Assembly of application streams, \<^verbatim>\<open>shared/src/session/wire/app_stream_assembler.{hpp,cpp}\<close>, and the queue
  that holds decoded records until the link is authenticated,
  \<^verbatim>\<open>shared/src/session/wire/prebind_record_queue.{hpp,cpp}\<close>. Vectors the callee appends to are returned as
  the records appended; a null output vector is the flag \<open>out\<close>. Sizes are natural numbers and allocation
  does not fail.
\<close>

section \<open>Assembler\<close>

datatype StreamAssemblyResult =
    Asm_NeedMore | Asm_Produced | Asm_CleanFin | Asm_Closed | Asm_Backpressure | Asm_ProtocolViolation
  | Asm_InvalidArgument

record OwnedAppFrame =
  of_frame_type_tag :: u16
  of_type_namespace :: FrameTypeNamespace
  of_type_name :: string
  of_object_bytes :: bytes
  of_object_hash :: bytes
  of_app_frame_hash :: bytes

record AppStreamAssembler =
  asm_channel :: QuicChannel
  asm_buffer :: bytes
  asm_closed :: bool

definition new_assembler :: "QuicChannel \<Rightarrow> AppStreamAssembler" where
  "new_assembler channel = \<lparr>asm_channel = channel, asm_buffer = [], asm_closed = False\<rparr>"

definition asm_fail :: "AppStreamAssembler \<Rightarrow> AppStreamAssembler" where
  "asm_fail a = a\<lparr>asm_buffer := [], asm_closed := True\<rparr>"

definition owned_of :: "AppFrame \<Rightarrow> OwnedAppFrame" where
  "owned_of parsed = \<lparr>of_frame_type_tag = af_frame_type_tag parsed, of_type_namespace = af_type_namespace parsed,
     of_type_name = af_type_name parsed, of_object_bytes = af_object_bytes parsed,
     of_object_hash = af_object_hash parsed,
     of_app_frame_hash = (case af_app_frame_hash parsed of None \<Rightarrow> replicate 32 0 | Some h \<Rightarrow> h)\<rparr>"

text \<open>One round of the loop over the buffer: \<open>None\<close> leaves the loop, an error closes the stream, a
  frame is taken off the front.\<close>

definition asm_front ::
  "QuicChannel \<Rightarrow> bytes \<Rightarrow> (StreamAssemblyResult + OwnedAppFrame \<times> nat) option" where
  "asm_front channel buf =
     (if length buf < 4 then None
      else
        let frame_length = unat (be32 buf 0)
        in if frame_length < 2 then Some (Inl Asm_ProtocolViolation)
           else if frame_length - 2 > max_object_bytes channel then Some (Inl Asm_Backpressure)
           else if length buf < frame_length + 4 then None
           else case parse_app_frame channel (Some (take (frame_length + 4) buf)) True of
                  Inl _ \<Rightarrow> Some (Inl Asm_ProtocolViolation)
                | Inr parsed \<Rightarrow> Some (Inr (owned_of parsed, frame_length + 4)))"

lemma asm_front_pos: "asm_front ch buf = Some (Inr (f, n)) \<Longrightarrow> 4 \<le> n \<and> n \<le> length buf"
  by (auto simp: asm_front_def Let_def split: if_splits sum.splits)

text \<open>The loop; it ends because every round that continues takes at least four bytes off the buffer.\<close>

function asm_drain :: "AppStreamAssembler \<Rightarrow> (StreamAssemblyResult option \<times> OwnedAppFrame list) \<times> AppStreamAssembler"
where
  "asm_drain a =
     (case asm_front (asm_channel a) (asm_buffer a) of
        None \<Rightarrow> ((None, []), a)
      | Some (Inl code) \<Rightarrow> ((Some code, []), asm_fail a)
      | Some (Inr (owned, n)) \<Rightarrow>
          (case asm_drain (a\<lparr>asm_buffer := drop n (asm_buffer a)\<rparr>) of
             ((code, output), a1) \<Rightarrow> ((code, owned # output), a1)))"
  by pat_completeness auto
termination
  by (relation "measure (\<lambda>a. length (asm_buffer a))") (auto dest!: asm_front_pos)

declare asm_drain.simps [simp del]

definition asm_data :: "AppStreamAssembler \<Rightarrow> bytes option \<Rightarrow> bool
    \<Rightarrow> (StreamAssemblyResult \<times> OwnedAppFrame list) \<times> AppStreamAssembler" where
  "asm_data a input out =
     (case input of
        None \<Rightarrow> ((Asm_InvalidArgument, []), a)
      | Some bs \<Rightarrow>
          if \<not> out then ((Asm_InvalidArgument, []), a)
          else if asm_closed a then ((Asm_Closed, []), a)
          else
            let hard_limit = max_object_bytes (asm_channel a) + 6
            in if length bs > hard_limit \<or> length (asm_buffer a) > hard_limit - length bs
               then ((Asm_Backpressure, []), asm_fail a)
               else case asm_drain (a\<lparr>asm_buffer := asm_buffer a @ bs\<rparr>) of
                      ((code, output), a1) \<Rightarrow>
                        ((case code of Some c \<Rightarrow> c
                          | None \<Rightarrow> if output \<noteq> [] then Asm_Produced else Asm_NeedMore, output), a1))"

definition asm_finish :: "AppStreamAssembler \<Rightarrow> bool \<Rightarrow> StreamAssemblyResult \<times> AppStreamAssembler" where
  "asm_finish a out =
     (if \<not> out then (Asm_InvalidArgument, a)
      else if asm_closed a then (Asm_Closed, a)
      else if asm_buffer a \<noteq> [] then (Asm_ProtocolViolation, asm_fail a)
      else (Asm_CleanFin, a\<lparr>asm_closed := True\<rparr>))"

definition asm_reset :: "AppStreamAssembler \<Rightarrow> StreamAssemblyResult \<times> AppStreamAssembler" where
  "asm_reset a = (Asm_Closed, a\<lparr>asm_buffer := [], asm_closed := True\<rparr>)"

section \<open>Queue before the bind\<close>

datatype PreBindQueueResult =
    Pbq_Queued | Pbq_Blocked | Pbq_Released | Pbq_Closed | Pbq_Backpressure | Pbq_ProtocolViolation
  | Pbq_InvalidArgument

record QueuedAppRecord =
  qr_stream_id :: u64
  qr_stream_sequence :: u64
  qr_frame :: OwnedAppFrame

record PreBindRecordQueue =
  pbq_maximum_bytes :: nat
  pbq_maximum_records :: nat
  pbq_bytes :: nat
  pbq_records :: "QueuedAppRecord list"
  pbq_identities :: "(u64 \<times> u64) set"
  pbq_transport_authenticated :: bool
  pbq_channel_bound :: bool
  pbq_local_ready :: bool
  pbq_remote_ready :: bool
  pbq_released :: bool
  pbq_failed :: bool

definition new_prebind_queue :: "nat \<Rightarrow> nat \<Rightarrow> PreBindRecordQueue" where
  "new_prebind_queue maximum_bytes maximum_records =
     \<lparr>pbq_maximum_bytes = maximum_bytes, pbq_maximum_records = maximum_records, pbq_bytes = 0,
      pbq_records = [], pbq_identities = {}, pbq_transport_authenticated = False, pbq_channel_bound = False,
      pbq_local_ready = False, pbq_remote_ready = False, pbq_released = False, pbq_failed = False\<rparr>"

definition pbq_discard :: "PreBindRecordQueue \<Rightarrow> PreBindRecordQueue" where
  "pbq_discard q = q\<lparr>pbq_records := [], pbq_identities := {}, pbq_bytes := 0\<rparr>"

definition pbq_fail :: "PreBindRecordQueue \<Rightarrow> PreBindQueueResult \<Rightarrow> PreBindQueueResult \<times> PreBindRecordQueue" where
  "pbq_fail q result = (result, (pbq_discard q)\<lparr>pbq_failed := True\<rparr>)"

definition pbq_open :: "PreBindRecordQueue \<Rightarrow> bool" where
  "pbq_open q = (pbq_transport_authenticated q \<and> pbq_channel_bound q \<and> pbq_local_ready q \<and> pbq_remote_ready q)"

definition gate_result :: "PreBindRecordQueue \<Rightarrow> PreBindQueueResult" where
  "gate_result q = (if pbq_open q then Pbq_Released else Pbq_Blocked)"

text \<open>The size of a record cannot overflow the address space: an object in memory is smaller.\<close>

definition pbq_enqueue :: "PreBindRecordQueue \<Rightarrow> u64 \<Rightarrow> u64 \<Rightarrow> OwnedAppFrame
    \<Rightarrow> PreBindQueueResult \<times> PreBindRecordQueue" where
  "pbq_enqueue q stream_id stream_sequence owned =
     (if pbq_maximum_bytes q = 0 \<or> pbq_maximum_records q = 0 \<or> stream_id = 0 \<or> stream_sequence = 0
         \<or> of_frame_type_tag owned = 0 \<or> of_type_name owned = []
      then (Pbq_InvalidArgument, q)
      else if pbq_failed q \<or> pbq_released q \<or> pbq_open q then (Pbq_Closed, q)
      else if (stream_id, stream_sequence) \<in> pbq_identities q then pbq_fail q Pbq_ProtocolViolation
      else
        let record_size = length (of_object_bytes owned) + 6
        in if length (pbq_records q) \<ge> pbq_maximum_records q \<or> record_size > pbq_maximum_bytes q
              \<or> pbq_bytes q > pbq_maximum_bytes q - record_size
           then pbq_fail q Pbq_Backpressure
           else (Pbq_Queued, q\<lparr>pbq_identities := insert (stream_id, stream_sequence) (pbq_identities q),
                   pbq_records := pbq_records q @ [\<lparr>qr_stream_id = stream_id,
                     qr_stream_sequence = stream_sequence, qr_frame = owned\<rparr>],
                   pbq_bytes := pbq_bytes q + record_size\<rparr>))"

definition mark_transport_authenticated :: "PreBindRecordQueue \<Rightarrow> bool \<Rightarrow> bool \<Rightarrow> bool
    \<Rightarrow> PreBindQueueResult \<times> PreBindRecordQueue" where
  "mark_transport_authenticated q full_tls13 pin_verified exporter_verified =
     (if pbq_failed q \<or> pbq_released q then (Pbq_Closed, q)
      else if \<not> full_tls13 \<or> \<not> pin_verified \<or> \<not> exporter_verified then pbq_fail q Pbq_ProtocolViolation
      else let q1 = q\<lparr>pbq_transport_authenticated := True\<rparr> in (gate_result q1, q1))"

definition mark_channel_bound :: "PreBindRecordQueue \<Rightarrow> PreBindQueueResult \<times> PreBindRecordQueue" where
  "mark_channel_bound q =
     (if pbq_failed q \<or> pbq_released q then (Pbq_Closed, q)
      else if \<not> pbq_transport_authenticated q then pbq_fail q Pbq_ProtocolViolation
      else let q1 = q\<lparr>pbq_channel_bound := True\<rparr> in (gate_result q1, q1))"

definition mark_link_ready :: "PreBindRecordQueue \<Rightarrow> bool \<Rightarrow> bool \<Rightarrow> PreBindQueueResult \<times> PreBindRecordQueue" where
  "mark_link_ready q local_ready remote_ready =
     (if pbq_failed q \<or> pbq_released q then (Pbq_Closed, q)
      else if \<not> pbq_channel_bound q then pbq_fail q Pbq_ProtocolViolation
      else let q1 = q\<lparr>pbq_local_ready := pbq_local_ready q \<or> local_ready,
                 pbq_remote_ready := pbq_remote_ready q \<or> remote_ready\<rparr>
           in (gate_result q1, q1))"

definition pbq_release :: "PreBindRecordQueue \<Rightarrow> bool
    \<Rightarrow> (PreBindQueueResult \<times> QueuedAppRecord list) \<times> PreBindRecordQueue" where
  "pbq_release q output =
     (if \<not> output then ((Pbq_InvalidArgument, []), q)
      else if pbq_failed q then ((Pbq_Closed, []), q)
      else if pbq_released q then ((Pbq_Released, []), q)
      else if \<not> pbq_open q then ((Pbq_Blocked, []), q)
      else ((Pbq_Released, pbq_records q),
            q\<lparr>pbq_records := [], pbq_identities := {}, pbq_bytes := 0, pbq_released := True\<rparr>))"

text \<open>The calls of the queue; \<open>discard\<close> has no answer.\<close>

datatype pbq_call =
    PEnqueue u64 u64 OwnedAppFrame | PTransport bool bool bool | PBound | PReady bool bool | PRelease bool | PDiscard

fun pbq_step :: "PreBindRecordQueue \<Rightarrow> pbq_call
    \<Rightarrow> (PreBindQueueResult option \<times> QueuedAppRecord list) \<times> PreBindRecordQueue" where
  "pbq_step q (PEnqueue stream_id stream_sequence owned) =
     map_prod (\<lambda>r. (Some r, [])) id (pbq_enqueue q stream_id stream_sequence owned)"
| "pbq_step q (PTransport full_tls13 pin_verified exporter_verified) =
     map_prod (\<lambda>r. (Some r, [])) id (mark_transport_authenticated q full_tls13 pin_verified exporter_verified)"
| "pbq_step q PBound = map_prod (\<lambda>r. (Some r, [])) id (mark_channel_bound q)"
| "pbq_step q (PReady local_ready remote_ready) =
     map_prod (\<lambda>r. (Some r, [])) id (mark_link_ready q local_ready remote_ready)"
| "pbq_step q (PRelease output) = map_prod (map_prod Some id) id (pbq_release q output)"
| "pbq_step q PDiscard = ((None, []), pbq_discard q)"

end
