(* ===== verification/Pair_Capability.thy ===== *)
theory Pair_Capability
  imports Session_Codec
begin

text \<open>
  Capability summaries of the two ends and the choice of a bearer plan,
  \<^verbatim>\<open>shared/src/session/wire/pair_capability.{hpp,cpp}\<close>. A summary is 512 bytes with up to eight plans of 48
  bytes; a plan is common when all its bytes agree. A null summary is \<open>None\<close>.
\<close>

section \<open>Model\<close>

type_synonym BearerPlanBytes = bytes

datatype PairSelectionStatus = Sel_Ok | Sel_InvalidInitiator | Sel_InvalidResponder | Sel_NoCommonPlan

definition kSummarySize :: nat where "kSummarySize = 512"

definition kPlansOffset :: nat where "kPlansOffset = 96"

definition kPlanSize :: nat where "kPlanSize = 48"

definition kMaxPlans :: nat where "kMaxPlans = 8"

definition validate_plan :: "bytes \<Rightarrow> u8 \<Rightarrow> Status" where
  "validate_plan p platform =
     (if p ! 7 \<noteq> 0 \<or> \<not> zeros p 44 4 then Wire_NonzeroReserved
      else if p ! 0 < 2 \<or> p ! 0 > 4 \<or> p ! 1 < 1 \<or> p ! 1 > 2 \<or> p ! 2 < 1 \<or> p ! 2 > 2 \<or> p ! 3 < 1 \<or> p ! 3 > 2
              \<or> p ! 4 < 1 \<or> p ! 4 > 3 \<or> p ! 5 > 2 then Wire_UnknownEnum
      else
        let expected_rank = (if p ! 0 = 2 then 10 else if p ! 0 = 3 then 20 else 30);
            expected_codec = (if p ! 0 = 4 then 1 else 2)
        in if p ! 6 \<noteq> expected_rank \<or> p ! 3 \<noteq> expected_codec
              \<or> (p ! 4 = 3 \<and> (platform \<noteq> 3 \<or> p ! 0 \<noteq> 3 \<or> p ! 3 \<noteq> 2))
              \<or> zeros p 8 4 \<or> zeros p 12 32
           then Wire_InvalidField else Wire_Ok)"

text \<open>The loop over the ordering fields.\<close>

fun preferred_from :: "nat list \<Rightarrow> bytes \<Rightarrow> bytes \<Rightarrow> bool" where
  "preferred_from [] candidate current = bytes_less (take 36 (drop 8 candidate)) (take 36 (drop 8 current))"
| "preferred_from (offset # offsets) candidate current =
     (if candidate ! offset \<noteq> current ! offset then candidate ! offset < current ! offset
      else preferred_from offsets candidate current)"

definition preferred :: "bytes \<Rightarrow> bytes \<Rightarrow> bool" where
  "preferred candidate current = preferred_from [6, 5, 0, 1, 2, 3, 4] candidate current"

definition validate_bearer_plan_v1 :: "BearerPlanBytes \<Rightarrow> u8 \<Rightarrow> Status" where
  "validate_bearer_plan_v1 plan platform =
     (if platform \<ge> 1 \<and> platform \<le> 3 then validate_plan plan platform else Wire_UnknownEnum)"

definition selected_bearer_plan_hash_v1 :: "BearerPlanBytes \<Rightarrow> bytes" where
  "selected_bearer_plan_hash_v1 plan =
     sha256 (ascii ''flynes-selected-bearer-plan-v1'' @ [0, 0, 0, 48] @ plan)"

text \<open>Plan \<open>i\<close> of a summary.\<close>

definition plan_at :: "bytes \<Rightarrow> nat \<Rightarrow> bytes" where
  "plan_at bs i = take kPlanSize (drop (kPlansOffset + i * kPlanSize) bs)"

text \<open>The loop over the plans from index \<open>i\<close>, with \<open>n\<close> plans to go: each valid, in strictly rising order.\<close>

fun check_plans :: "bytes \<Rightarrow> nat \<Rightarrow> nat \<Rightarrow> Status" where
  "check_plans bs i 0 = Wire_Ok"
| "check_plans bs i (Suc n) =
     (let status = validate_plan (plan_at bs i) (bs ! 8)
      in if status \<noteq> Wire_Ok then status
         else if i \<noteq> 0 \<and> \<not> bytes_less (plan_at bs (i - 1)) (plan_at bs i) then Wire_InvalidField
         else check_plans bs (i + 1) n)"

definition validate_pair_capability :: "bytes option \<Rightarrow> Status" where
  "validate_pair_capability input =
     (case input of
        None \<Rightarrow> Wire_InvalidField
      | Some bs \<Rightarrow>
          if length bs < kSummarySize then Wire_Truncated
          else if length bs > kSummarySize then Wire_Trailing
          else if bs ! 0 \<noteq> 0 \<or> bs ! 1 \<noteq> 1 then Wire_InvalidField
          else if \<not> zeros bs 2 6 \<or> \<not> zeros bs 10 2 \<or> \<not> zeros bs 16 16 \<or> \<not> zeros bs 480 32
          then Wire_NonzeroReserved
          else if bs ! 8 < 1 \<or> bs ! 8 > 3 then Wire_UnknownEnum
          else
            let plan_count = unat (bs ! 9)
            in if plan_count > kMaxPlans \<or> zeros bs 32 32 \<or> zeros bs 64 32 then Wire_InvalidField
               else
                 let status = check_plans bs 0 plan_count
                 in if status \<noteq> Wire_Ok then status
                    else if \<not> zeros bs (kPlansOffset + plan_count * kPlanSize) ((kMaxPlans - plan_count) * kPlanSize)
                    then Wire_NonzeroReserved else Wire_Ok)"

text \<open>The body of the inner loop, and the two loops.\<close>

definition consider_plan :: "bytes \<Rightarrow> bytes \<Rightarrow> bytes option \<Rightarrow> bytes option" where
  "consider_plan candidate remote best =
     (if candidate = remote \<and> (case best of None \<Rightarrow> True | Some b \<Rightarrow> preferred candidate b)
      then Some candidate else best)"

definition best_common_plan :: "bytes \<Rightarrow> bytes \<Rightarrow> bytes option" where
  "best_common_plan initiator responder =
     fold (\<lambda>i best. fold (\<lambda>j. consider_plan (plan_at initiator i) (plan_at responder j))
             [0..<unat (responder ! 9)] best)
       [0..<unat (initiator ! 9)] None"

definition select_pair_plan :: "bytes option \<Rightarrow> bytes option \<Rightarrow> PairSelectionStatus \<times> BearerPlanBytes" where
  "select_pair_plan initiator responder =
     (if validate_pair_capability initiator \<noteq> Wire_Ok then (Sel_InvalidInitiator, replicate 48 0)
      else if validate_pair_capability responder \<noteq> Wire_Ok then (Sel_InvalidResponder, replicate 48 0)
      else case best_common_plan (the initiator) (the responder) of
             None \<Rightarrow> (Sel_NoCommonPlan, replicate 48 0)
           | Some best \<Rightarrow> (Sel_Ok, best))"

section \<open>The preference order\<close>

text \<open>The bytes in the order the comparison reads them.\<close>

definition plan_key :: "bytes \<Rightarrow> bytes" where
  "plan_key p = [p ! 6, p ! 5, p ! 0, p ! 1, p ! 2, p ! 3, p ! 4] @ take 36 (drop 8 p)"

lemma preferred_key: "preferred p q \<longleftrightarrow> bytes_less (plan_key p) (plan_key q)"
  by (auto simp: preferred_def plan_key_def)

lemma bytes_less_irrefl [simp]: "\<not> bytes_less xs xs"
  by (induction xs) auto

lemma bytes_less_trans: "\<lbrakk>bytes_less xs ys; bytes_less ys zs\<rbrakk> \<Longrightarrow> bytes_less xs zs"
proof (induction xs ys arbitrary: zs rule: bytes_less.induct)
  case (1 a as b bs)
  then show ?case by (cases zs) auto
qed auto

lemma bytes_less_total: "length xs = length ys \<Longrightarrow> bytes_less xs ys \<or> xs = ys \<or> bytes_less ys xs"
  by (induction xs ys rule: list_induct2) auto

lemma preferred_irrefl [simp]: "\<not> preferred p p"
  by (simp add: preferred_key)

lemma preferred_trans: "\<lbrakk>preferred p q; preferred q r\<rbrakk> \<Longrightarrow> preferred p r"
  unfolding preferred_key by (rule bytes_less_trans)

text \<open>Plans of a valid summary: the comparison leaves out only bytes that are zero in them.\<close>

definition plan_ok :: "bytes \<Rightarrow> bool" where
  "plan_ok p \<longleftrightarrow> length p = 48 \<and> p ! 7 = 0 \<and> zeros p 44 4"

lemma plan_split:
  assumes "length p = 48"
  shows "p = [p ! 0, p ! 1, p ! 2, p ! 3, p ! 4, p ! 5, p ! 6, p ! 7] @ take 36 (drop 8 p) @ drop 44 p"
proof -
  have "p = take 8 p @ take 36 (drop 8 p) @ drop 44 p"
    using append_take_drop_id [of 36 "drop 8 p"] by simp
  moreover have "take 8 p = [p ! 0, p ! 1, p ! 2, p ! 3, p ! 4, p ! 5, p ! 6, p ! 7]"
    using assms by (auto simp: list_eq_iff_nth_eq nth_Cons' less_Suc_eq numeral_eq_Suc)
  ultimately show ?thesis by simp
qed

lemma plan_key_inj:
  assumes "plan_ok p" "plan_ok q" "plan_key p = plan_key q"
  shows "p = q"
proof -
  have tail: "drop 44 r = replicate 4 0" if "plan_ok r" for r
    using that by (auto simp: plan_ok_def zeros_def list_all_iff intro!: replicate_eqI)
  have len: "length p = 48" "length q = 48" "p ! 7 = 0" "q ! 7 = 0" using assms(1,2) by (simp_all add: plan_ok_def)
  have "[p ! 0, p ! 1, p ! 2, p ! 3, p ! 4, p ! 5, p ! 6, p ! 7] = [q ! 0, q ! 1, q ! 2, q ! 3, q ! 4, q ! 5, q ! 6, q ! 7]"
      "take 36 (drop 8 p) = take 36 (drop 8 q)"
    using assms(3) len by (simp_all add: plan_key_def)
  then show ?thesis using plan_split [OF len(1)] plan_split [OF len(2)] tail assms(1,2) by metis
qed

lemma preferred_total:
  assumes "plan_ok p" "plan_ok q"
  shows "preferred p q \<or> p = q \<or> preferred q p"
proof -
  have "length (plan_key p) = length (plan_key q)" using assms by (simp add: plan_key_def plan_ok_def)
  then show ?thesis unfolding preferred_key using bytes_less_total plan_key_inj [OF assms] by blast
qed

section \<open>The choice\<close>

definition plans :: "bytes \<Rightarrow> bytes set" where
  "plans bs = plan_at bs ` {0..<unat (bs ! 9)}"

lemma check_plans_valid:
  "\<lbrakk>check_plans bs i n = Wire_Ok; k < n\<rbrakk> \<Longrightarrow> validate_plan (plan_at bs (i + k)) (bs ! 8) = Wire_Ok"
proof (induction n arbitrary: i k)
  case (Suc n)
  then have i: "validate_plan (plan_at bs i) (bs ! 8) = Wire_Ok" "check_plans bs (i + 1) n = Wire_Ok"
    by (auto simp: Let_def split: if_splits)
  show ?case
  proof (cases k)
    case 0
    then show ?thesis using i by simp
  next
    case (Suc k')
    then show ?thesis using Suc.IH [OF i(2), of k'] Suc.prems(2) by simp
  qed
qed simp

lemma valid_summary:
  assumes "validate_pair_capability (Some bs) = Wire_Ok"
  shows "length bs = 512" "unat (bs ! 9) \<le> 8" "i < unat (bs ! 9) \<Longrightarrow> validate_plan (plan_at bs i) (bs ! 8) = Wire_Ok"
proof -
  have l: "length bs = 512" "unat (bs ! 9) \<le> 8" "check_plans bs 0 (unat (bs ! 9)) = Wire_Ok"
    using assms unfolding validate_pair_capability_def
    by (auto simp: Let_def kSummarySize_def kMaxPlans_def split: if_splits)
  then show "length bs = 512" "unat (bs ! 9) \<le> 8" by simp_all
  show "i < unat (bs ! 9) \<Longrightarrow> validate_plan (plan_at bs i) (bs ! 8) = Wire_Ok"
    using check_plans_valid [OF l(3), of i] by simp
qed

lemma valid_plan_fields:
  assumes "validate_plan p platform = Wire_Ok"
  shows "p ! 7 = 0" "zeros p 44 4" "p ! 1 = 1 \<or> p ! 1 = 2" "p ! 5 \<le> 2"
proof -
  have "\<not> (p ! 7 \<noteq> 0 \<or> \<not> zeros p 44 4)" "\<not> p ! 1 < 1" "\<not> p ! 1 > 2" "\<not> p ! 5 > 2"
    using assms by (auto simp: validate_plan_def Let_def split: if_splits)
  moreover have "b = 1 \<or> b = 2" if "\<not> b < 1" "\<not> b > 2" for b :: u8
  proof -
    have "unat b = unat (1 :: u8) \<or> unat b = unat (2 :: u8)" using that by (auto simp: word_less_nat_alt)
    then show ?thesis by (simp only: word_unat_eq_iff)
  qed
  ultimately show "p ! 7 = 0" "zeros p 44 4" "p ! 1 = 1 \<or> p ! 1 = 2" "p ! 5 \<le> 2" by auto
qed

lemma plans_valid:
  assumes "validate_pair_capability (Some bs) = Wire_Ok" "p \<in> plans bs"
  shows "plan_ok p" "p ! 1 = 1 \<or> p ! 1 = 2"
proof -
  obtain i where i: "i < unat (bs ! 9)" "p = plan_at bs i" using assms(2) by (auto simp: plans_def)
  have "length p = 48"
    using valid_summary(1,2) [OF assms(1)] i by (simp add: plan_at_def kPlansOffset_def kPlanSize_def)
  then show "plan_ok p" "p ! 1 = 1 \<or> p ! 1 = 2"
    using valid_plan_fields [OF valid_summary(3) [OF assms(1) i(1)]] by (simp_all add: plan_ok_def i(2))
qed

text \<open>\<open>best_of S b\<close>: \<open>b\<close> is the preferred element of \<open>S\<close>, where there is one.\<close>

definition best_of :: "bytes set \<Rightarrow> bytes option \<Rightarrow> bool" where
  "best_of S b \<longleftrightarrow> (case b of None \<Rightarrow> S = {} | Some m \<Rightarrow> m \<in> S \<and> (\<forall>p \<in> S. p \<noteq> m \<longrightarrow> preferred m p))"

lemma best_of_consider:
  assumes "best_of S b" "\<forall>p \<in> insert c S. plan_ok p"
  shows "best_of (if c = r then insert c S else S) (consider_plan c r b)"
proof (cases "c = r")
  case True
  show ?thesis
  proof (cases b)
    case None
    then show ?thesis using assms(1) True by (simp add: best_of_def consider_plan_def)
  next
    case (Some m)
    then have m: "m \<in> S" "\<forall>p \<in> S. p \<noteq> m \<longrightarrow> preferred m p" using assms(1) by (simp_all add: best_of_def)
    have "preferred c m \<or> c = m \<or> preferred m c" using preferred_total assms(2) m(1) by simp
    then consider "preferred c m" | "\<not> preferred c m" "c = m \<or> preferred m c" by blast
    then show ?thesis
    proof cases
      case 1
      have "\<forall>p \<in> insert c S. p \<noteq> c \<longrightarrow> preferred c p"
        using m(2) preferred_trans [OF 1] 1 by (metis insertE)
      moreover have "consider_plan c r b = Some c" using 1 True Some by (simp add: consider_plan_def)
      ultimately show ?thesis using True by (simp add: best_of_def)
    next
      case 2
      then have "\<forall>p \<in> insert c S. p \<noteq> m \<longrightarrow> preferred m p" using m(2) by blast
      moreover have "consider_plan c r b = Some m" using 2 Some by (simp add: consider_plan_def)
      ultimately show ?thesis using True m(1) by (simp add: best_of_def)
    qed
  qed
qed (use assms in \<open>simp add: consider_plan_def\<close>)

lemma best_of_inner:
  assumes "best_of S b" "\<forall>p \<in> insert c S. plan_ok p"
  shows "best_of (if c \<in> f ` set js then insert c S else S) (fold (\<lambda>j. consider_plan c (f j)) js b)"
  using assms
proof (induction js arbitrary: S b)
  case (Cons j js)
  let ?S = "if c = f j then insert c S else S"
  have "best_of ?S (consider_plan c (f j) b)" by (rule best_of_consider [OF Cons.prems])
  moreover have "\<forall>p \<in> insert c ?S. plan_ok p" using Cons.prems(2) by auto
  ultimately have "best_of (if c \<in> f ` set js then insert c ?S else ?S)
      (fold (\<lambda>j. consider_plan c (f j)) js (consider_plan c (f j) b))"
    by (rule Cons.IH)
  moreover have "(if c \<in> f ` set js then insert c ?S else ?S) = (if c \<in> f ` set (j # js) then insert c S else S)"
    by auto
  ultimately show ?case by simp
qed simp

lemma best_of_outer:
  assumes "best_of S b" "\<forall>p \<in> S \<union> g ` set is0. plan_ok p"
  shows "best_of (S \<union> (g ` set is0 \<inter> f ` set js))
    (fold (\<lambda>i best. fold (\<lambda>j. consider_plan (g i) (f j)) js best) is0 b)"
  using assms
proof (induction is0 arbitrary: S b)
  case (Cons i is0)
  let ?S = "if g i \<in> f ` set js then insert (g i) S else S"
  have "best_of ?S (fold (\<lambda>j. consider_plan (g i) (f j)) js b)"
    by (rule best_of_inner) (use Cons.prems in auto)
  moreover have "\<forall>p \<in> ?S \<union> g ` set is0. plan_ok p" using Cons.prems(2) by auto
  ultimately have "best_of (?S \<union> (g ` set is0 \<inter> f ` set js))
      (fold (\<lambda>i best. fold (\<lambda>j. consider_plan (g i) (f j)) js best) is0 (fold (\<lambda>j. consider_plan (g i) (f j)) js b))"
    by (rule Cons.IH)
  moreover have "?S \<union> (g ` set is0 \<inter> f ` set js) = S \<union> (g ` set (i # is0) \<inter> f ` set js)" by auto
  ultimately show ?case by simp
qed simp

lemma best_common_plan_best:
  assumes "validate_pair_capability (Some a) = Wire_Ok"
  shows "best_of (plans a \<inter> plans b) (best_common_plan a b)"
proof -
  have "\<forall>p \<in> {} \<union> plan_at a ` set [0..<unat (a ! 9)]. plan_ok p"
    using plans_valid(1) [OF assms] by (auto simp: plans_def)
  from best_of_outer [OF _ this, of None "plan_at b" "[0..<unat (b ! 9)]"] show ?thesis
    by (simp add: best_common_plan_def plans_def best_of_def [of "{}" None])
qed

lemma preferred_asym: "preferred p q \<Longrightarrow> \<not> preferred q p"
  using preferred_trans preferred_irrefl by blast

lemma best_of_unique: "\<lbrakk>best_of S b; best_of S c\<rbrakk> \<Longrightarrow> b = c"
  by (cases b; cases c) (simp_all add: best_of_def, metis preferred_asym)

lemma select_valid:
  assumes "validate_pair_capability (Some a) = Wire_Ok" "validate_pair_capability (Some b) = Wire_Ok"
  shows "select_pair_plan (Some a) (Some b) = (case best_common_plan a b of
    None \<Rightarrow> (Sel_NoCommonPlan, replicate 48 0) | Some m \<Rightarrow> (Sel_Ok, m))"
  using assms by (simp add: select_pair_plan_def)

text \<open>A selected plan is a valid plan of both ends, so it names a creator.\<close>

lemma selected_plan_valid:
  assumes "select_pair_plan i r = (Sel_Ok, m)"
  shows "\<exists>a b. i = Some a \<and> r = Some b \<and> m \<in> plans a \<inter> plans b" "m ! 1 = 1 \<or> m ! 1 = 2"
proof -
  have v: "validate_pair_capability i = Wire_Ok" "validate_pair_capability r = Wire_Ok"
    using assms by (auto simp: select_pair_plan_def split: if_splits)
  then obtain a b where ab: "i = Some a" "r = Some b" by (auto simp: validate_pair_capability_def split: option.splits)
  have "best_common_plan a b = Some m"
    using assms v by (auto simp: select_pair_plan_def ab split: option.splits)
  then have m: "m \<in> plans a \<inter> plans b"
    using best_common_plan_best [of a b] v ab by (simp add: best_of_def)
  then show "\<exists>a b. i = Some a \<and> r = Some b \<and> m \<in> plans a \<inter> plans b" using ab by blast
  show "m ! 1 = 1 \<or> m ! 1 = 2" using plans_valid(2) m v ab by blast
qed

section \<open>Properties\<close>

text \<open>
  C8: For two valid summaries the choice is the plan both list that is preferred to every other such plan,
  and there is one whenever they have a plan in common; both ends choose the same plan, whichever of them
  takes the part of the initiator.
\<close>
theorem plan_choice_best:
  assumes "validate_pair_capability (Some a) = Wire_Ok" "validate_pair_capability (Some b) = Wire_Ok"
  shows "(plans a \<inter> plans b = {} \<longrightarrow> select_pair_plan (Some a) (Some b) = (Sel_NoCommonPlan, replicate 48 0))
    \<and> (plans a \<inter> plans b \<noteq> {} \<longrightarrow>
        (\<exists>m \<in> plans a \<inter> plans b. select_pair_plan (Some a) (Some b) = (Sel_Ok, m)
          \<and> (\<forall>p \<in> plans a \<inter> plans b. p \<noteq> m \<longrightarrow> preferred m p \<and> \<not> preferred p m)))
    \<and> select_pair_plan (Some b) (Some a) = select_pair_plan (Some a) (Some b)"
proof -
  have "best_of (plans a \<inter> plans b) (best_common_plan a b)" "best_of (plans a \<inter> plans b) (best_common_plan b a)"
    using best_common_plan_best [OF assms(1), of b] best_common_plan_best [OF assms(2), of a] by (simp_all add: Int_commute)
  moreover from this have "best_common_plan b a = best_common_plan a b" by (rule best_of_unique [rotated])
  ultimately show ?thesis
    using preferred_asym
    by (cases "best_common_plan a b") (auto simp: select_valid assms best_of_def)
qed

text \<open>A summary with one plan.\<close>

definition one_plan :: bytes where
  "one_plan = [2, 1, 1, 2, 1, 1, 10, 0] @ replicate 36 1 @ replicate 4 0"

definition one_plan_summary :: bytes where
  "one_plan_summary = [0, 1, 0, 0, 0, 0, 0, 0, 1, 1, 0, 0, 9, 9, 9, 9] @ replicate 16 0 @ replicate 64 1 @ one_plan
     @ replicate 368 0"

lemma one_plan_summary_valid: "validate_pair_capability (Some one_plan_summary) = Wire_Ok"
  by code_simp

lemma one_plan_summary_plans: "plans one_plan_summary = {one_plan}"
proof -
  have "unat (one_plan_summary ! 9) = 1" "plan_at one_plan_summary 0 = one_plan" by code_simp+
  then show ?thesis by (simp add: plans_def)
qed

theorem plan_choice_best_witness:
  "select_pair_plan (Some one_plan_summary) (Some one_plan_summary) = (Sel_Ok, one_plan)"
  using plan_choice_best [OF one_plan_summary_valid one_plan_summary_valid] by (simp add: one_plan_summary_plans)

end
