(* ===== verification/Plan_Lock.thy ===== *)
theory Plan_Lock
  imports Pair_Capability
begin

text \<open>
  The lock of the initial bearer plan, \<^verbatim>\<open>shared/src/session/initial_plan_lock.{hpp,cpp}\<close>: one end of a pairing
  accepts plan, acknowledgement, final message and credentials, and issues one command at a time to an
  executor that persists, sends, creates or joins. Hashes are byte lists; the role is a datatype of the two
  valid values, so that the tests for others do not appear.
\<close>

section \<open>Evidence\<close>

datatype PairRole = Pair_Initiator | Pair_Responder

fun role_byte :: "PairRole \<Rightarrow> u8" where
  "role_byte Pair_Initiator = 1"
| "role_byte Pair_Responder = 2"

definition nonzero :: "bytes \<Rightarrow> bool" where
  "nonzero hash = list_ex (\<lambda>b. b \<noteq> 0) hash"

fun other :: "PairRole \<Rightarrow> PairRole" where
  "other Pair_Initiator = Pair_Responder"
| "other Pair_Responder = Pair_Initiator"

record VerifiedPairEvidence =
  pe_local_role :: PairRole
  pe_generation :: u64
  pe_transcript :: bytes
  pe_initiator_reveal :: bytes
  pe_responder_reveal :: bytes
  pe_initiator_capability :: bytes
  pe_responder_capability :: bytes
  pe_initiator_summary :: bytes
  pe_responder_summary :: bytes
  pe_authentication_seal :: bytes

definition evidence_seal :: "VerifiedPairEvidence \<Rightarrow> bytes" where
  "evidence_seal evidence =
     sha256 (ascii ''flynes-verified-pair-evidence-v2'' @ [role_byte (pe_local_role evidence)]
       @ store_be 8 (pe_generation evidence) @ pe_transcript evidence @ pe_initiator_reveal evidence
       @ pe_responder_reveal evidence @ pe_initiator_capability evidence @ pe_responder_capability evidence
       @ pe_initiator_summary evidence @ pe_responder_summary evidence)"

definition seal_for_authenticated_pipeline :: "VerifiedPairEvidence \<Rightarrow> VerifiedPairEvidence" where
  "seal_for_authenticated_pipeline evidence = evidence\<lparr>pe_authentication_seal := evidence_seal evidence\<rparr>"

definition authenticated :: "VerifiedPairEvidence \<Rightarrow> bool" where
  "authenticated evidence \<longleftrightarrow>
     nonzero (pe_authentication_seal evidence) \<and> pe_authentication_seal evidence = evidence_seal evidence"

record VerifiedPlanEvidence =
  le_generation :: u64
  le_sender :: PairRole
  le_receiver :: PairRole
  le_transcript :: bytes
  le_initiator_reveal :: bytes
  le_responder_reveal :: bytes
  le_initiator_capability :: bytes
  le_responder_capability :: bytes
  le_selected_plan :: BearerPlanBytes
  le_selected_plan_hash :: bytes
  le_plan_logical_hash :: bytes
  le_ack_logical_hash :: bytes
  le_final_logical_hash :: bytes

record VerifiedCredentialEvidence =
  ce_binding :: VerifiedPlanEvidence
  ce_credential_logical_hash :: bytes

section \<open>The lock\<close>

datatype InitialPlanCommandKind =
    PersistPlan | PersistPlanAndLock | SendPlan | PersistAck | PersistAckAndLock | SendAck | PersistFinal
  | SendFinal | PersistMutualLock | PersistPromptConsumed | CreateBearer | PublishCredentials
  | PersistCredentials | JoinBearer

record InitialPlanCommand =
  pc_id :: u64
  pc_generation :: u64
  pc_kind :: InitialPlanCommandKind
  pc_evidence :: VerifiedPlanEvidence
  pc_credential_logical_hash :: bytes
  pc_may_prompt :: bool

datatype PlanPhase =
    PPhase_Idle | PPhase_Plan | PPhase_Ack | PPhase_Final | PPhase_Credentials | PPhase_Pending | PPhase_Done

record InitialPlanLock =
  pl_phase :: PlanPhase
  pl_failed :: bool
  pl_not_supported :: bool
  pl_locked :: bool
  pl_mutually_locked :: bool
  pl_prompt_consumed :: bool
  pl_next_id :: u64
  pl_pair :: VerifiedPairEvidence
  pl_evidence :: VerifiedPlanEvidence
  pl_credential_hash :: bytes
  pl_selected :: BearerPlanBytes
  pl_pending :: "InitialPlanCommand option"

definition zero_pair_evidence :: VerifiedPairEvidence where
  "zero_pair_evidence = \<lparr>pe_local_role = Pair_Initiator, pe_generation = 0, pe_transcript = replicate 32 0,
     pe_initiator_reveal = replicate 32 0, pe_responder_reveal = replicate 32 0,
     pe_initiator_capability = replicate 32 0, pe_responder_capability = replicate 32 0,
     pe_initiator_summary = replicate 512 0, pe_responder_summary = replicate 512 0,
     pe_authentication_seal = replicate 32 0\<rparr>"

definition zero_plan_evidence :: VerifiedPlanEvidence where
  "zero_plan_evidence = \<lparr>le_generation = 0, le_sender = Pair_Initiator, le_receiver = Pair_Initiator,
     le_transcript = replicate 32 0, le_initiator_reveal = replicate 32 0, le_responder_reveal = replicate 32 0,
     le_initiator_capability = replicate 32 0, le_responder_capability = replicate 32 0,
     le_selected_plan = replicate 48 0, le_selected_plan_hash = replicate 32 0,
     le_plan_logical_hash = replicate 32 0, le_ack_logical_hash = replicate 32 0,
     le_final_logical_hash = replicate 32 0\<rparr>"

text \<open>The members before \<open>begin\<close>; the role and the evidence are not read before they are set.\<close>

definition new_plan_lock :: InitialPlanLock where
  "new_plan_lock = \<lparr>pl_phase = PPhase_Idle, pl_failed = False, pl_not_supported = False, pl_locked = False,
     pl_mutually_locked = False, pl_prompt_consumed = False, pl_next_id = 1, pl_pair = zero_pair_evidence,
     pl_evidence = zero_plan_evidence, pl_credential_hash = replicate 32 0, pl_selected = replicate 48 0,
     pl_pending = None\<rparr>"

definition pl_invalidate :: "InitialPlanLock \<Rightarrow> InitialPlanLock" where
  "pl_invalidate lk = lk\<lparr>pl_failed := True, pl_pending := None, pl_phase := PPhase_Done\<rparr>"

definition pl_reject :: "InitialPlanLock \<Rightarrow> bool \<times> InitialPlanLock" where
  "pl_reject lk = (False, pl_invalidate lk)"

definition pl_begin :: "InitialPlanLock \<Rightarrow> VerifiedPairEvidence \<Rightarrow> bool \<times> InitialPlanLock" where
  "pl_begin lk evidence =
     (if pl_failed lk \<or> pl_phase lk \<noteq> PPhase_Idle \<or> \<not> authenticated evidence \<or> pe_generation evidence = 0
         \<or> \<not> nonzero (pe_transcript evidence) \<or> \<not> nonzero (pe_initiator_reveal evidence)
         \<or> \<not> nonzero (pe_responder_reveal evidence) \<or> \<not> nonzero (pe_initiator_capability evidence)
         \<or> \<not> nonzero (pe_responder_capability evidence) then pl_reject lk
      else case select_pair_plan (Some (pe_initiator_summary evidence)) (Some (pe_responder_summary evidence)) of
             (selection, selected) \<Rightarrow>
               let lk1 = lk\<lparr>pl_selected := selected\<rparr>
               in if selection \<noteq> Sel_Ok
                  then pl_reject (lk1\<lparr>pl_not_supported := (selection = Sel_NoCommonPlan)\<rparr>)
                  else (True, lk1\<lparr>pl_pair := evidence, pl_phase := PPhase_Plan\<rparr>))"

definition valid_binding :: "InitialPlanLock \<Rightarrow> VerifiedPlanEvidence \<Rightarrow> PairRole \<Rightarrow> bool" where
  "valid_binding lk evidence sender \<longleftrightarrow>
     \<not> pl_failed lk \<and> le_generation evidence = pe_generation (pl_pair lk) \<and> le_generation evidence \<noteq> 0
     \<and> le_sender evidence = sender \<and> le_receiver evidence = other sender
     \<and> le_transcript evidence = pe_transcript (pl_pair lk)
     \<and> le_initiator_reveal evidence = pe_initiator_reveal (pl_pair lk)
     \<and> le_responder_reveal evidence = pe_responder_reveal (pl_pair lk)
     \<and> le_initiator_capability evidence = pe_initiator_capability (pl_pair lk)
     \<and> le_responder_capability evidence = pe_responder_capability (pl_pair lk)
     \<and> le_selected_plan evidence = pl_selected lk
     \<and> le_selected_plan_hash evidence = selected_bearer_plan_hash_v1 (pl_selected lk)
     \<and> nonzero (le_selected_plan_hash evidence) \<and> nonzero (le_plan_logical_hash evidence)"

definition pl_issue :: "InitialPlanLock \<Rightarrow> InitialPlanCommandKind \<Rightarrow> bool \<Rightarrow> bool \<times> InitialPlanLock" where
  "pl_issue lk kind may_prompt =
     (if pl_failed lk \<or> pl_pending lk \<noteq> None \<or> pl_next_id lk = -1 then pl_reject lk
      else (True, lk\<lparr>pl_pending := Some \<lparr>pc_id = pl_next_id lk, pc_generation = pe_generation (pl_pair lk),
                pc_kind = kind, pc_evidence = pl_evidence lk,
                pc_credential_logical_hash = pl_credential_hash lk, pc_may_prompt = may_prompt\<rparr>,
              pl_next_id := pl_next_id lk + 1, pl_phase := PPhase_Pending\<rparr>))"

definition pl_accept_plan :: "InitialPlanLock \<Rightarrow> VerifiedPlanEvidence \<Rightarrow> bool \<times> InitialPlanLock" where
  "pl_accept_plan lk evidence =
     (if pl_phase lk \<noteq> PPhase_Plan \<or> \<not> valid_binding lk evidence Pair_Initiator
         \<or> nonzero (le_ack_logical_hash evidence) \<or> nonzero (le_final_logical_hash evidence) then pl_reject lk
      else pl_issue (lk\<lparr>pl_evidence := evidence\<rparr>)
             (if pe_local_role (pl_pair lk) = Pair_Initiator then PersistPlan else PersistPlanAndLock) False)"

definition pl_accept_ack :: "InitialPlanLock \<Rightarrow> VerifiedPlanEvidence \<Rightarrow> bool \<times> InitialPlanLock" where
  "pl_accept_ack lk evidence =
     (if pl_phase lk \<noteq> PPhase_Ack \<or> \<not> valid_binding lk evidence Pair_Responder
         \<or> le_plan_logical_hash evidence \<noteq> le_plan_logical_hash (pl_evidence lk)
         \<or> \<not> nonzero (le_ack_logical_hash evidence) \<or> nonzero (le_final_logical_hash evidence) then pl_reject lk
      else pl_issue (lk\<lparr>pl_evidence := evidence\<rparr>)
             (if pe_local_role (pl_pair lk) = Pair_Initiator then PersistAckAndLock else PersistAck) False)"

definition pl_accept_final :: "InitialPlanLock \<Rightarrow> VerifiedPlanEvidence \<Rightarrow> bool \<times> InitialPlanLock" where
  "pl_accept_final lk evidence =
     (if pl_phase lk \<noteq> PPhase_Final \<or> \<not> valid_binding lk evidence Pair_Initiator
         \<or> le_plan_logical_hash evidence \<noteq> le_plan_logical_hash (pl_evidence lk)
         \<or> le_ack_logical_hash evidence \<noteq> le_ack_logical_hash (pl_evidence lk)
         \<or> \<not> nonzero (le_ack_logical_hash evidence) \<or> \<not> nonzero (le_final_logical_hash evidence)
      then pl_reject lk
      else pl_issue (lk\<lparr>pl_evidence := evidence\<rparr>) PersistFinal False)"

text \<open>The creator is the role in byte 1 of the selected plan, where that is a role.\<close>

definition role_of_byte :: "u8 \<Rightarrow> PairRole option" where
  "role_of_byte b = (if b = 1 then Some Pair_Initiator else if b = 2 then Some Pair_Responder else None)"

definition pl_accept_credentials :: "InitialPlanLock \<Rightarrow> VerifiedCredentialEvidence \<Rightarrow> bool \<times> InitialPlanLock" where
  "pl_accept_credentials lk evidence =
     (let creator = role_of_byte (pl_selected lk ! 1); binding = ce_binding evidence
      in if pl_phase lk \<noteq> PPhase_Credentials \<or> \<not> pl_mutually_locked lk
            \<or> \<not> (case creator of None \<Rightarrow> False | Some c \<Rightarrow> valid_binding lk binding c)
            \<or> le_plan_logical_hash binding \<noteq> le_plan_logical_hash (pl_evidence lk)
            \<or> le_ack_logical_hash binding \<noteq> le_ack_logical_hash (pl_evidence lk)
            \<or> le_final_logical_hash binding \<noteq> le_final_logical_hash (pl_evidence lk)
            \<or> \<not> nonzero (ce_credential_logical_hash evidence) then pl_reject lk
         else pl_issue (lk\<lparr>pl_credential_hash := ce_credential_logical_hash evidence, pl_evidence := binding\<rparr>)
                PersistCredentials False)"

definition pl_poll :: "InitialPlanLock \<Rightarrow> InitialPlanCommand option" where
  "pl_poll lk = pl_pending lk"

definition designated :: "InitialPlanLock \<Rightarrow> bool" where
  "designated lk \<longleftrightarrow> pl_selected lk ! 5 = role_byte (pe_local_role (pl_pair lk))"

definition creator :: "InitialPlanLock \<Rightarrow> bool" where
  "creator lk \<longleftrightarrow> pl_selected lk ! 1 = role_byte (pe_local_role (pl_pair lk))"

definition issue_bearer :: "InitialPlanLock \<Rightarrow> bool \<times> InitialPlanLock" where
  "issue_bearer lk =
     (if \<not> pl_mutually_locked lk \<or> (designated lk \<and> \<not> pl_prompt_consumed lk) then pl_reject lk
      else if \<not> creator lk \<and> \<not> nonzero (pl_credential_hash lk) then pl_reject lk
      else pl_issue lk (if creator lk then CreateBearer else JoinBearer) (designated lk))"

definition authorize_bearer :: "InitialPlanLock \<Rightarrow> bool \<times> InitialPlanLock" where
  "authorize_bearer lk =
     (if \<not> pl_mutually_locked lk then pl_reject lk
      else if designated lk
      then (if pl_prompt_consumed lk then pl_reject lk else pl_issue lk PersistPromptConsumed False)
      else issue_bearer lk)"

text \<open>What follows a completed command, \<open>pending_\<close> being already reset.\<close>

fun pl_advance :: "InitialPlanLock \<Rightarrow> InitialPlanCommandKind \<Rightarrow> bool \<times> InitialPlanLock" where
  "pl_advance lk PersistPlan = pl_issue lk SendPlan False"
| "pl_advance lk PersistPlanAndLock = (True, lk\<lparr>pl_locked := True, pl_phase := PPhase_Ack\<rparr>)"
| "pl_advance lk SendPlan = (True, lk\<lparr>pl_phase := PPhase_Ack\<rparr>)"
| "pl_advance lk PersistAck = pl_issue lk SendAck False"
| "pl_advance lk PersistAckAndLock = (True, lk\<lparr>pl_locked := True, pl_phase := PPhase_Final\<rparr>)"
| "pl_advance lk SendAck = (True, lk\<lparr>pl_phase := PPhase_Final\<rparr>)"
| "pl_advance lk PersistFinal =
     pl_issue lk (if pe_local_role (pl_pair lk) = Pair_Initiator then SendFinal else PersistMutualLock) False"
| "pl_advance lk SendFinal = pl_issue lk PersistMutualLock False"
| "pl_advance lk PersistMutualLock =
     (let lk1 = lk\<lparr>pl_mutually_locked := True\<rparr>
      in if creator lk1 then authorize_bearer lk1 else (True, lk1\<lparr>pl_phase := PPhase_Credentials\<rparr>))"
| "pl_advance lk PersistCredentials =
     (if creator lk then pl_issue lk PublishCredentials False else authorize_bearer lk)"
| "pl_advance lk PersistPromptConsumed = issue_bearer (lk\<lparr>pl_prompt_consumed := True\<rparr>)"
| "pl_advance lk CreateBearer = (True, lk\<lparr>pl_phase := PPhase_Credentials\<rparr>)"
| "pl_advance lk PublishCredentials = (True, lk\<lparr>pl_phase := PPhase_Done\<rparr>)"
| "pl_advance lk JoinBearer = (True, lk\<lparr>pl_phase := PPhase_Done\<rparr>)"

definition pl_complete :: "InitialPlanLock \<Rightarrow> u64 \<Rightarrow> u64 \<Rightarrow> bool \<Rightarrow> bool \<times> InitialPlanLock" where
  "pl_complete lk id0 generation success =
     (case pl_pending lk of
        None \<Rightarrow> pl_reject lk
      | Some cmd \<Rightarrow>
          if pl_failed lk \<or> pc_id cmd \<noteq> id0 \<or> pc_generation cmd \<noteq> generation
             \<or> pe_generation (pl_pair lk) \<noteq> generation \<or> \<not> success then pl_reject lk
          else pl_advance (lk\<lparr>pl_pending := None\<rparr>) (pc_kind cmd))"

text \<open>The calls of one end; \<open>invalidate\<close> returns nothing.\<close>

datatype plan_call =
    LBegin VerifiedPairEvidence | LPlan VerifiedPlanEvidence | LAck VerifiedPlanEvidence
  | LFinal VerifiedPlanEvidence | LCredentials VerifiedCredentialEvidence | LComplete u64 u64 bool | LInvalidate

fun plan_step :: "InitialPlanLock \<Rightarrow> plan_call \<Rightarrow> bool \<times> InitialPlanLock" where
  "plan_step lk (LBegin evidence) = pl_begin lk evidence"
| "plan_step lk (LPlan evidence) = pl_accept_plan lk evidence"
| "plan_step lk (LAck evidence) = pl_accept_ack lk evidence"
| "plan_step lk (LFinal evidence) = pl_accept_final lk evidence"
| "plan_step lk (LCredentials evidence) = pl_accept_credentials lk evidence"
| "plan_step lk (LComplete id0 generation success) = pl_complete lk id0 generation success"
| "plan_step lk LInvalidate = (True, pl_invalidate lk)"

end
