(* ===== verification/Link_Gate.thy ===== *)
theory Link_Gate
  imports App_Stream Plan_Lock
begin

text \<open>
  The transport contract, \<^verbatim>\<open>shared/src/session/wire/quic_contract.{hpp,cpp}\<close>, and the gate that turns an
  authenticated pairing and transport into an active link, \<^verbatim>\<open>shared/src/session/link_activation.{hpp,cpp}\<close>.
  Fixed arrays are byte lists; a null output pointer is the flag \<open>out\<close>; the facts are a value, as in the
  code. After an error the facts are not used.
\<close>

section \<open>Transport contract\<close>

definition kAlpn :: bytes where "kAlpn = ascii ''flynes-nearby/2''"

definition kExporterLabel :: string where "kExporterLabel = ''EXPORTER-flynes-nearby-v1''"

definition kQuicHandshakeFactsWireSizeV2 :: nat where "kQuicHandshakeFactsWireSizeV2 = 88"

record QuicHandshakeFactsV2 =
  qf_tls_major :: u16
  qf_tls_minor :: u16
  qf_full_handshake :: bool
  qf_pin_verifier_invoked :: bool
  qf_peer_certificate_verified :: bool
  qf_resumed :: bool
  qf_zero_rtt :: bool
  qf_alpn :: bytes
  qf_der_spki_hash :: bytes

record quic_connect_policy_v2 =
  qp_struct_size :: u32
  qp_abi_version :: u32
  qp_require_full_tls13 :: u32
  qp_forbid_resumption :: u32
  qp_forbid_zero_rtt :: u32
  qp_reserved_zero :: u32
  qp_alpn :: bytes
  qp_expected_der_spki_hash :: bytes

definition exact_text :: "bytes \<Rightarrow> bytes \<Rightarrow> bool" where
  "exact_text bs expected \<longleftrightarrow>
     length expected + 1 \<le> length bs \<and> take (length expected) bs = expected
     \<and> list_all (\<lambda>b. b = 0) (drop (length expected) bs)"

definition flag_byte :: "bool \<Rightarrow> u8" where "flag_byte b = (if b then 1 else 0)"

definition encode_quic_handshake_facts_v2 :: "QuicHandshakeFactsV2 \<Rightarrow> bool \<Rightarrow> Status \<times> bytes option" where
  "encode_quic_handshake_facts_v2 facts out =
     (if \<not> out \<or> qf_tls_major facts \<noteq> 1 \<or> qf_tls_minor facts \<noteq> 3 \<or> \<not> exact_text (qf_alpn facts) kAlpn
      then (Wire_InvalidField, None)
      else (Wire_Ok, Some ([0, 1] @ replicate 6 0 @ [0, ucast (qf_tls_major facts), 0, ucast (qf_tls_minor facts),
          flag_byte (qf_full_handshake facts), flag_byte (qf_pin_verifier_invoked facts),
          flag_byte (qf_peer_certificate_verified facts), flag_byte (qf_resumed facts), flag_byte (qf_zero_rtt facts)]
        @ replicate 7 0 @ qf_alpn facts @ qf_der_spki_hash facts)))"

definition decode_quic_handshake_facts_v2 :: "bytes option \<Rightarrow> bool \<Rightarrow> Status + QuicHandshakeFactsV2" where
  "decode_quic_handshake_facts_v2 input out =
     (case input of
        None \<Rightarrow> Inl Wire_InvalidField
      | Some bs \<Rightarrow>
          if \<not> out then Inl Wire_InvalidField
          else if length bs < kQuicHandshakeFactsWireSizeV2 then Inl Wire_Truncated
          else if length bs > kQuicHandshakeFactsWireSizeV2 then Inl Wire_Trailing
          else if bs ! 0 \<noteq> 0 \<or> bs ! 1 \<noteq> 1 \<or> \<not> zeros bs 2 6 \<or> bs ! 8 \<noteq> 0 \<or> bs ! 9 \<noteq> 1 \<or> bs ! 10 \<noteq> 0 \<or> bs ! 11 \<noteq> 3
                  \<or> bs ! 12 > 1 \<or> bs ! 13 > 1 \<or> bs ! 14 > 1 \<or> bs ! 15 > 1 \<or> bs ! 16 > 1 \<or> \<not> zeros bs 17 7
          then Inl Wire_InvalidField
          else
            let facts = \<lparr>qf_tls_major = 1, qf_tls_minor = 3, qf_full_handshake = (bs ! 12 = 1),
                  qf_pin_verifier_invoked = (bs ! 13 = 1), qf_peer_certificate_verified = (bs ! 14 = 1),
                  qf_resumed = (bs ! 15 = 1), qf_zero_rtt = (bs ! 16 = 1),
                  qf_alpn = take 32 (drop 24 bs), qf_der_spki_hash = take 32 (drop 56 bs)\<rparr>
            in if exact_text (qf_alpn facts) kAlpn then Inr facts else Inl Wire_InvalidField)"

definition validate_quic_policy_v2 :: "quic_connect_policy_v2 option \<Rightarrow> Status" where
  "validate_quic_policy_v2 input =
     (case input of
        None \<Rightarrow> Wire_InvalidField
      | Some policy \<Rightarrow>
          if qp_struct_size policy < 88 \<or> qp_abi_version policy \<noteq> 2 then Wire_BadLength
          else if qp_reserved_zero policy \<noteq> 0 then Wire_NonzeroReserved
          else if qp_require_full_tls13 policy \<noteq> 1 \<or> qp_forbid_resumption policy \<noteq> 1 \<or> qp_forbid_zero_rtt policy \<noteq> 1
                  \<or> \<not> exact_text (qp_alpn policy) kAlpn \<or> \<not> nonzero (qp_expected_der_spki_hash policy)
          then Wire_InvalidField else Wire_Ok)"

definition verify_quic_handshake_v2 :: "quic_connect_policy_v2 \<Rightarrow> QuicHandshakeFactsV2 \<Rightarrow> Status" where
  "verify_quic_handshake_v2 policy facts =
     (let valid_policy = validate_quic_policy_v2 (Some policy)
      in if valid_policy \<noteq> Wire_Ok then valid_policy
         else if qf_tls_major facts \<noteq> 1 \<or> qf_tls_minor facts \<noteq> 3 \<or> \<not> qf_full_handshake facts
                 \<or> \<not> qf_pin_verifier_invoked facts \<or> \<not> qf_peer_certificate_verified facts
                 \<or> qf_resumed facts \<or> qf_zero_rtt facts \<or> \<not> exact_text (qf_alpn facts) kAlpn
                 \<or> qf_der_spki_hash facts \<noteq> qp_expected_der_spki_hash policy
         then Wire_InvalidField else Wire_Ok)"

definition verify_quic_listener_handshake_v2 :: "QuicHandshakeFactsV2 \<Rightarrow> Status" where
  "verify_quic_listener_handshake_v2 facts =
     (if qf_tls_major facts \<noteq> 1 \<or> qf_tls_minor facts \<noteq> 3 \<or> \<not> qf_full_handshake facts
         \<or> qf_pin_verifier_invoked facts \<or> qf_peer_certificate_verified facts
         \<or> qf_resumed facts \<or> qf_zero_rtt facts \<or> \<not> exact_text (qf_alpn facts) kAlpn
         \<or> nonzero (qf_der_spki_hash facts)
      then Wire_InvalidField else Wire_Ok)"

definition concat_hash :: "string \<Rightarrow> bytes \<Rightarrow> bytes \<Rightarrow> bytes \<Rightarrow> bytes" where
  "concat_hash domain first second third = sha256 (ascii domain @ first @ second @ third)"

record ChannelExporterRequestV1 =
  er_label :: string
  er_context :: bytes
  er_output_size :: u32

definition make_channel_exporter_request_v1 :: "bytes \<Rightarrow> bytes \<Rightarrow> bytes \<Rightarrow> ChannelExporterRequestV1" where
  "make_channel_exporter_request_v1 pair_transcript_hash session_id reconnect_transcript_hash =
     \<lparr>er_label = kExporterLabel,
      er_context = concat_hash ''flynes-channel-exporter-context-v1'' pair_transcript_hash session_id
        reconnect_transcript_hash,
      er_output_size = 32\<rparr>"

definition derive_channel_id_v1 :: "bytes \<Rightarrow> bytes \<Rightarrow> bytes \<Rightarrow> bytes \<Rightarrow> bytes" where
  "derive_channel_id_v1 pair_transcript_hash session_id reconnect_transcript_hash exporter =
     take 16 (sha256 (ascii ''flynes-channel-id-v1'' @ pair_transcript_hash @ session_id
       @ reconnect_transcript_hash @ exporter))"

section \<open>The gate\<close>

datatype LinkActivationResult =
    Link_Accepted | Link_Connected | Link_Released | Link_Closed | Link_InvalidArgument | Link_AuthFailed
  | Link_ProtocolViolation | Link_Backpressure

record LinkActivationStartV1 =
  ls_pair :: VerifiedPairEvidence
  ls_session_id :: bytes
  ls_reconnect_transcript_hash :: bytes
  ls_quic_listener_role :: PairRole
  ls_listener_der_spki_hash :: bytes

record LinkChannelBindV1 =
  lb_pair_transcript_hash :: bytes
  lb_session_id :: bytes
  lb_reconnect_transcript_hash :: bytes
  lb_channel_id :: bytes

datatype LinkPhase =
    LPhase_Idle | LPhase_PairAccepted | LPhase_TransportAuthenticated | LPhase_Bound | LPhase_Connected | LPhase_Failed

record AuthenticatedLinkGate =
  lg_prebind :: PreBindRecordQueue
  lg_phase :: LinkPhase
  lg_start :: LinkActivationStartV1
  lg_exporter :: bytes
  lg_channel_id :: bytes
  lg_initiator_ready :: bool
  lg_responder_ready :: bool

definition zero_link_start :: LinkActivationStartV1 where
  "zero_link_start = \<lparr>ls_pair = zero_pair_evidence, ls_session_id = replicate 16 0,
     ls_reconnect_transcript_hash = replicate 32 0, ls_quic_listener_role = Pair_Initiator,
     ls_listener_der_spki_hash = replicate 32 0\<rparr>"

definition new_link_gate :: "nat \<Rightarrow> nat \<Rightarrow> AuthenticatedLinkGate" where
  "new_link_gate maximum_prebind_bytes maximum_prebind_records =
     \<lparr>lg_prebind = new_prebind_queue maximum_prebind_bytes maximum_prebind_records, lg_phase = LPhase_Idle,
      lg_start = zero_link_start, lg_exporter = replicate 32 0, lg_channel_id = replicate 16 0,
      lg_initiator_ready = False, lg_responder_ready = False\<rparr>"

definition link_fail :: "AuthenticatedLinkGate \<Rightarrow> LinkActivationResult \<Rightarrow> LinkActivationResult \<times> AuthenticatedLinkGate" where
  "link_fail g result = (result, g\<lparr>lg_prebind := pbq_discard (lg_prebind g), lg_phase := LPhase_Failed\<rparr>)"

definition link_begin :: "AuthenticatedLinkGate \<Rightarrow> LinkActivationStartV1 \<Rightarrow> LinkActivationResult \<times> AuthenticatedLinkGate" where
  "link_begin g start =
     (if lg_phase g \<noteq> LPhase_Idle then link_fail g Link_ProtocolViolation
      else if \<not> authenticated (ls_pair start) \<or> pe_generation (ls_pair start) = 0
              \<or> \<not> nonzero (pe_transcript (ls_pair start)) \<or> \<not> nonzero (ls_session_id start)
              \<or> \<not> nonzero (ls_listener_der_spki_hash start)
      then link_fail g Link_AuthFailed
      else (Link_Accepted, g\<lparr>lg_start := start, lg_phase := LPhase_PairAccepted\<rparr>))"

fun map_queue :: "PreBindQueueResult \<Rightarrow> LinkActivationResult" where
  "map_queue Pbq_Queued = Link_Accepted"
| "map_queue Pbq_Blocked = Link_Accepted"
| "map_queue Pbq_Released = Link_Released"
| "map_queue Pbq_Backpressure = Link_Backpressure"
| "map_queue Pbq_InvalidArgument = Link_InvalidArgument"
| "map_queue Pbq_ProtocolViolation = Link_ProtocolViolation"
| "map_queue Pbq_Closed = Link_Closed"

definition enqueue_prebind :: "AuthenticatedLinkGate \<Rightarrow> u64 \<Rightarrow> u64 \<Rightarrow> OwnedAppFrame
    \<Rightarrow> LinkActivationResult \<times> AuthenticatedLinkGate" where
  "enqueue_prebind g stream_id stream_sequence owned =
     (if lg_phase g = LPhase_Idle then (Link_InvalidArgument, g)
      else if lg_phase g = LPhase_Failed \<or> lg_phase g = LPhase_Connected then (Link_Closed, g)
      else case pbq_enqueue (lg_prebind g) stream_id stream_sequence owned of
             (queued, q) \<Rightarrow>
               let g1 = g\<lparr>lg_prebind := q\<rparr>
               in (map_queue queued,
                   if queued = Pbq_Backpressure \<or> queued = Pbq_ProtocolViolation then g1\<lparr>lg_phase := LPhase_Failed\<rparr> else g1))"

definition link_policy :: "bytes \<Rightarrow> quic_connect_policy_v2" where
  "link_policy der_spki_hash =
     \<lparr>qp_struct_size = 88, qp_abi_version = 2, qp_require_full_tls13 = 1, qp_forbid_resumption = 1,
      qp_forbid_zero_rtt = 1, qp_reserved_zero = 0, qp_alpn = kAlpn @ replicate 17 0,
      qp_expected_der_spki_hash = der_spki_hash\<rparr>"

definition handshake_status :: "LinkActivationStartV1 \<Rightarrow> QuicHandshakeFactsV2 \<Rightarrow> Status" where
  "handshake_status start facts =
     (if pe_local_role (ls_pair start) = ls_quic_listener_role start
      then verify_quic_listener_handshake_v2 facts
      else verify_quic_handshake_v2 (link_policy (ls_listener_der_spki_hash start)) facts)"

definition accept_transport :: "AuthenticatedLinkGate \<Rightarrow> QuicHandshakeFactsV2 \<Rightarrow> bytes
    \<Rightarrow> LinkActivationResult \<times> AuthenticatedLinkGate" where
  "accept_transport g facts exporter =
     (if lg_phase g \<noteq> LPhase_PairAccepted then link_fail g Link_ProtocolViolation
      else if \<not> nonzero exporter then link_fail g Link_AuthFailed
      else if handshake_status (lg_start g) facts \<noteq> Wire_Ok then link_fail g Link_AuthFailed
      else
        let g1 = g\<lparr>lg_exporter := exporter\<rparr>
        in case mark_transport_authenticated (lg_prebind g1) True True True of
             (queue_result, q) \<Rightarrow>
               if queue_result = Pbq_ProtocolViolation then link_fail (g1\<lparr>lg_prebind := q\<rparr>) Link_ProtocolViolation
               else (Link_Accepted, g1\<lparr>lg_prebind := q, lg_phase := LPhase_TransportAuthenticated\<rparr>))"

definition expected_channel_id :: "LinkActivationStartV1 \<Rightarrow> bytes \<Rightarrow> bytes" where
  "expected_channel_id start exporter =
     derive_channel_id_v1 (pe_transcript (ls_pair start)) (ls_session_id start) (ls_reconnect_transcript_hash start) exporter"

definition bind_matches :: "LinkActivationStartV1 \<Rightarrow> bytes \<Rightarrow> LinkChannelBindV1 \<Rightarrow> bool" where
  "bind_matches start exporter bind0 \<longleftrightarrow>
     lb_pair_transcript_hash bind0 = pe_transcript (ls_pair start) \<and> lb_session_id bind0 = ls_session_id start
     \<and> lb_reconnect_transcript_hash bind0 = ls_reconnect_transcript_hash start
     \<and> lb_channel_id bind0 = expected_channel_id start exporter"

definition accept_channel_bind :: "AuthenticatedLinkGate \<Rightarrow> LinkChannelBindV1
    \<Rightarrow> LinkActivationResult \<times> AuthenticatedLinkGate" where
  "accept_channel_bind g bind0 =
     (if lg_phase g \<noteq> LPhase_TransportAuthenticated then link_fail g Link_ProtocolViolation
      else if \<not> bind_matches (lg_start g) (lg_exporter g) bind0 then link_fail g Link_ProtocolViolation
      else
        let g1 = g\<lparr>lg_channel_id := expected_channel_id (lg_start g) (lg_exporter g)\<rparr>
        in case mark_channel_bound (lg_prebind g1) of
             (queue_result, q) \<Rightarrow>
               if queue_result = Pbq_ProtocolViolation then link_fail (g1\<lparr>lg_prebind := q\<rparr>) Link_ProtocolViolation
               else (Link_Accepted, g1\<lparr>lg_prebind := q, lg_phase := LPhase_Bound\<rparr>))"

definition accept_link_ready :: "AuthenticatedLinkGate \<Rightarrow> PairRole \<Rightarrow> LinkActivationResult \<times> AuthenticatedLinkGate" where
  "accept_link_ready g sender =
     (if lg_phase g \<noteq> LPhase_Bound then link_fail g Link_ProtocolViolation
      else if (if sender = Pair_Initiator then lg_initiator_ready g else lg_responder_ready g)
      then link_fail g Link_ProtocolViolation
      else
        let g1 = (if sender = Pair_Initiator then g\<lparr>lg_initiator_ready := True\<rparr> else g\<lparr>lg_responder_ready := True\<rparr>);
            local_initiator = (pe_local_role (ls_pair (lg_start g1)) = Pair_Initiator)
        in case mark_link_ready (lg_prebind g1)
                  (if local_initiator then lg_initiator_ready g1 else lg_responder_ready g1)
                  (if local_initiator then lg_responder_ready g1 else lg_initiator_ready g1) of
             (queue_result, q) \<Rightarrow>
               let g2 = g1\<lparr>lg_prebind := q\<rparr>
               in if queue_result = Pbq_ProtocolViolation then link_fail g2 Link_ProtocolViolation
                  else if lg_initiator_ready g2 \<and> lg_responder_ready g2
                  then (Link_Connected, g2\<lparr>lg_phase := LPhase_Connected\<rparr>)
                  else (Link_Accepted, g2))"

definition release_prebind :: "AuthenticatedLinkGate \<Rightarrow> bool
    \<Rightarrow> (LinkActivationResult \<times> QueuedAppRecord list) \<times> AuthenticatedLinkGate" where
  "release_prebind g output =
     (if lg_phase g = LPhase_Failed then ((Link_Closed, []), g)
      else case pbq_release (lg_prebind g) output of
             ((result, records), q) \<Rightarrow> ((map_queue result, records), g\<lparr>lg_prebind := q\<rparr>))"

definition link_connected :: "AuthenticatedLinkGate \<Rightarrow> bool" where
  "link_connected g \<longleftrightarrow> lg_phase g = LPhase_Connected"

definition link_failed :: "AuthenticatedLinkGate \<Rightarrow> bool" where
  "link_failed g \<longleftrightarrow> lg_phase g = LPhase_Failed"

text \<open>The calls of the gate, with the records handed over.\<close>

datatype link_call =
    KBegin LinkActivationStartV1 | KEnqueue u64 u64 OwnedAppFrame | KTransport QuicHandshakeFactsV2 bytes
  | KBind LinkChannelBindV1 | KReady PairRole | KRelease bool

fun link_step :: "AuthenticatedLinkGate \<Rightarrow> link_call
    \<Rightarrow> (LinkActivationResult \<times> QueuedAppRecord list) \<times> AuthenticatedLinkGate" where
  "link_step g (KBegin start) = map_prod (\<lambda>r. (r, [])) id (link_begin g start)"
| "link_step g (KEnqueue stream_id stream_sequence owned) =
     map_prod (\<lambda>r. (r, [])) id (enqueue_prebind g stream_id stream_sequence owned)"
| "link_step g (KTransport facts exporter) = map_prod (\<lambda>r. (r, [])) id (accept_transport g facts exporter)"
| "link_step g (KBind bind0) = map_prod (\<lambda>r. (r, [])) id (accept_channel_bind g bind0)"
| "link_step g (KReady sender) = map_prod (\<lambda>r. (r, [])) id (accept_link_ready g sender)"
| "link_step g (KRelease output) = release_prebind g output"

end
