(* ===== verification/App_Stream_Properties.thy ===== *)
theory App_Stream_Properties
  imports App_Stream
begin

text \<open>
  Correctness of stream assembly and of the queue before the bind: the frames produced do not depend on how
  the transport cut the bytes, legal records come out whole and in order, and what the queue releases is
  exactly what it accepted, behind all its gates.
\<close>

section \<open>Assembly does not depend on the segmentation\<close>

lemma be32_append: "4 \<le> length buf \<Longrightarrow> be32 (buf @ more0) 0 = be32 buf 0"
  by (simp add: be32_def)

lemma asm_front_append: "asm_front c buf = Some x \<Longrightarrow> asm_front c (buf @ more0) = Some x"
  unfolding asm_front_def Let_def
  by (cases "length buf < 4") (auto simp: be32_append split: if_splits sum.splits)

lemma asm_front_cases:
  obtains (none) "asm_front c buf = None" | (stop) e where "asm_front c buf = Some (Inl e)"
    | (step) owned n where "asm_front c buf = Some (Inr (owned, n))"
  by (metis old.prod.exhaust old.sum.exhaust option.exhaust)

lemma asm_drain_None: "asm_front (asm_channel a) (asm_buffer a) = None \<Longrightarrow> asm_drain a = ((None, []), a)"
  by (simp add: asm_drain.simps)

lemma asm_drain_stop: "asm_front (asm_channel a) (asm_buffer a) = Some (Inl e) \<Longrightarrow> asm_drain a = ((Some e, []), asm_fail a)"
  by (simp add: asm_drain.simps)

lemma asm_drain_take:
  "asm_front (asm_channel a) (asm_buffer a) = Some (Inr (owned, n)) \<Longrightarrow>
   asm_drain a = (case asm_drain (a\<lparr>asm_buffer := drop n (asm_buffer a)\<rparr>) of
      ((code, output), a1) \<Rightarrow> ((code, owned # output), a1))"
  by (subst asm_drain.simps) simp

lemma asm_drain_append:
  "asm_drain (a\<lparr>asm_buffer := asm_buffer a @ more0\<rparr>) =
     (case asm_drain a of
        ((Some e, out), a1) \<Rightarrow> ((Some e, out), a1)
      | ((None, out), a1) \<Rightarrow>
          (case asm_drain (a1\<lparr>asm_buffer := asm_buffer a1 @ more0\<rparr>) of
             ((code, out1), a2) \<Rightarrow> ((code, out @ out1), a2)))"
proof (induction a rule: asm_drain.induct)
  case (1 a)
  let ?b = "a\<lparr>asm_buffer := asm_buffer a @ more0\<rparr>"
  show ?case
  proof (cases rule: asm_front_cases [of "asm_channel a" "asm_buffer a"])
    case none
    then show ?thesis by (simp add: asm_drain_None split: prod.splits)
  next
    case (stop e)
    have "asm_front (asm_channel ?b) (asm_buffer ?b) = Some (Inl e)"
      using asm_front_append [OF stop] by simp
    then show ?thesis by (simp add: asm_drain_stop stop asm_fail_def)
  next
    case (step owned n)
    have front: "asm_front (asm_channel ?b) (asm_buffer ?b) = Some (Inr (owned, n))"
      using asm_front_append [OF step] by simp
    have n: "n \<le> length (asm_buffer a)" using asm_front_pos [OF step] by simp
    show ?thesis
      using "1.IH" [OF step refl refl] n
      by (simp add: asm_drain_take [OF front] asm_drain_take [OF step] split: prod.splits option.splits)
  qed
qed

lemma asm_drain_end:
  "asm_drain a = ((code, out), a1) \<Longrightarrow>
     asm_channel a1 = asm_channel a
     \<and> (case code of None \<Rightarrow> asm_closed a1 = asm_closed a \<and> asm_front (asm_channel a) (asm_buffer a1) = None
        | Some e \<Rightarrow> asm_closed a1 \<and> asm_buffer a1 = [])"
proof (induction a arbitrary: code out a1 rule: asm_drain.induct)
  case (1 a)
  show ?case
  proof (cases rule: asm_front_cases [of "asm_channel a" "asm_buffer a"])
    case none
    then show ?thesis using "1.prems" by (auto simp: asm_drain_None)
  next
    case (stop e)
    then show ?thesis using "1.prems" by (auto simp: asm_drain_stop asm_fail_def)
  next
    case (step owned n)
    obtain out1 where "asm_drain (a\<lparr>asm_buffer := drop n (asm_buffer a)\<rparr>) = ((code, out1), a1)"
      using "1.prems" by (auto simp: asm_drain_take [OF step] split: prod.splits)
    from "1.IH" [OF step refl refl this] show ?thesis by (simp split: option.splits)
  qed
qed

lemma asm_front_None_short: "asm_front c buf = None \<Longrightarrow> length buf < max_object_bytes c + 6"
  by (auto simp: asm_front_def Let_def split: if_splits sum.splits)

text \<open>Calls of \<open>data\<close> on the segments of a stream, with their answers and the frames appended.\<close>

fun asm_feed :: "AppStreamAssembler \<Rightarrow> bytes list
    \<Rightarrow> (StreamAssemblyResult list \<times> OwnedAppFrame list) \<times> AppStreamAssembler" where
  "asm_feed a [] = (([], []), a)"
| "asm_feed a (chunk # chunks) =
     (case asm_data a (Some chunk) True of
        ((code, out), a1) \<Rightarrow>
          (case asm_feed a1 chunks of ((codes, outs), a2) \<Rightarrow> ((code # codes, out @ outs), a2)))"

lemma asm_feed_closed: "asm_closed a \<Longrightarrow> asm_feed a cs = ((replicate (length cs) Asm_Closed, []), a)"
  by (induction cs) (simp_all add: asm_data_def)

text \<open>One call continues the run of the loop over all bytes received so far, unless it is refused for its
  size, which takes a segment of more than one byte.\<close>

lemma asm_data_continues:
  assumes drained: "asm_drain b = ((None, out0), a)" and open0: "\<not> asm_closed b"
    and data: "asm_data a (Some chunk) True = ((code, out), a1)"
  shows "(code = Asm_Backpressure \<and> 1 < length chunk \<and> asm_closed a1 \<and> out = []) \<or>
    (\<exists>stop. asm_drain (b\<lparr>asm_buffer := asm_buffer b @ chunk\<rparr>) = ((stop, out0 @ out), a1)
      \<and> code = (case stop of Some e \<Rightarrow> e | None \<Rightarrow> if out \<noteq> [] then Asm_Produced else Asm_NeedMore))"
proof (cases "length chunk + length (asm_buffer a) \<le> max_object_bytes (asm_channel a) + 6")
  case True
  obtain stop out1 a2 where d: "asm_drain (a\<lparr>asm_buffer := asm_buffer a @ chunk\<rparr>) = ((stop, out1), a2)"
    by (metis prod.exhaust)
  have "asm_drain (b\<lparr>asm_buffer := asm_buffer b @ chunk\<rparr>) = ((stop, out0 @ out1), a2)"
    unfolding asm_drain_append [of b chunk] drained by (simp add: d)
  moreover have "\<not> asm_closed a" using asm_drain_end [OF drained] open0 by simp
  moreover have "\<not> length chunk > max_object_bytes (asm_channel a) + 6"
      "\<not> length (asm_buffer a) > max_object_bytes (asm_channel a) + 6 - length chunk"
    using True by simp_all
  ultimately show ?thesis using data d unfolding asm_data_def Let_def by (simp split: if_splits)
next
  case False
  have "length (asm_buffer a) < max_object_bytes (asm_channel a) + 6" "\<not> asm_closed a"
    using asm_drain_end [OF drained] open0 by (auto intro: asm_front_None_short)
  moreover have "length chunk > max_object_bytes (asm_channel a) + 6
      \<or> length (asm_buffer a) > max_object_bytes (asm_channel a) + 6 - length chunk"
    using False by linarith
  ultimately show ?thesis using data False unfolding asm_data_def Let_def by (auto simp: asm_fail_def)
qed

section \<open>Legal records\<close>

definition frame_key :: "OwnedAppFrame \<Rightarrow> u16 \<times> bytes" where
  "frame_key f = (of_frame_type_tag f, of_object_bytes f)"

lemma asm_front_good:
  assumes "good_record c r"
  shows "\<exists>owned. asm_front c (record_bytes r @ rest) = Some (Inr (owned, length (record_bytes r))) \<and> frame_key owned = r"
proof -
  obtain tag obj where r: "r = (tag, obj)" by (cases r)
  have size: "length obj \<le> max_object_bytes c" "length obj \<le> 245760"
    using assms max_object_less [of c] by (auto simp: r good_record_def)
  obtain af where af: "decode_record (Some c) (record_bytes r) = Inr (af, 6 + length obj)"
      "af_frame_type_tag af = tag" "af_object_bytes af = obj"
    using decode_good [OF assms [unfolded r], of "[]"] by (auto simp: r)
  have parse: "parse_app_frame c (Some (record_bytes r)) True = Inr af"
    using af(1) by (simp add: parse_app_frame_def length_record r)
  note head = record_head(1) [OF size(2), of tag rest, folded r]
  have cut: "take (unat (be32 (record_bytes r @ rest) 0) + 4) (record_bytes r @ rest) = record_bytes r"
    unfolding head by (simp add: length_record r)
  show ?thesis
    unfolding asm_front_def Let_def cut parse sum.case
    using head size(1) af(2,3) by (simp add: length_record r frame_key_def owned_of_def)
qed

lemma asm_front_cut:
  assumes "good_record c r" "n < length (record_bytes r)"
  shows "asm_front c (take n (record_bytes r)) = None"
proof (cases "n < 4")
  case True
  then have "length (take n (record_bytes r)) < 4" by simp
  then show ?thesis by (simp only: asm_front_def if_True)
next
  case False
  have size: "length (snd r) \<le> max_object_bytes c" "length (snd r) \<le> 245760"
    using assms(1) max_object_less [of c] by (auto simp: good_record_def)
  have "be32 (take n (record_bytes r)) 0 = be32 (record_bytes r @ []) 0"
    using False by (simp add: be32_def min_def)
  then have "unat (be32 (take n (record_bytes r)) 0) = 2 + length (snd r)"
    using record_head(1) [OF size(2), of "fst r" "[]"] by simp
  then show ?thesis
    using False assms(2) size(1) by (simp add: asm_front_def Let_def length_record)
qed

lemma whole_le: "length (concat (map record_bytes (whole n rs))) \<le> n"
proof (induction rs arbitrary: n)
  case (Cons r rs)
  show ?case using Cons.IH [of "n - length (record_bytes r)"] by auto
qed simp

lemma asm_drain_records:
  assumes "list_all (good_record (asm_channel a)) rs"
  shows "\<exists>out. asm_drain (a\<lparr>asm_buffer := take n (concat (map record_bytes rs))\<rparr>)
      = ((None, out), a\<lparr>asm_buffer := drop (length (concat (map record_bytes (whole n rs))))
            (take n (concat (map record_bytes rs)))\<rparr>)
    \<and> map frame_key out = whole n rs"
  using assms
proof (induction rs arbitrary: n)
  case Nil
  then show ?case by (simp add: asm_drain_None asm_front_def)
next
  case (Cons r rs)
  have good: "good_record (asm_channel a) r" "list_all (good_record (asm_channel a)) rs"
    using Cons.prems by simp_all
  show ?case
  proof (cases "length (record_bytes r) \<le> n")
    case True
    let ?n = "n - length (record_bytes r)"
    let ?a = "a\<lparr>asm_buffer := record_bytes r @ take ?n (concat (map record_bytes rs))\<rparr>"
    obtain owned where "asm_front (asm_channel ?a) (asm_buffer ?a) = Some (Inr (owned, length (record_bytes r)))"
        "frame_key owned = r"
      using asm_front_good [OF good(1), of "take ?n (concat (map record_bytes rs))"] by auto
    with Cons.IH [OF good(2), of ?n] True show ?thesis by (auto simp: asm_drain_take)
  next
    case False
    then have "asm_front (asm_channel a) (take n (record_bytes r)) = None"
      by (intro asm_front_cut [OF good(1)]) simp
    with False show ?thesis by (simp add: asm_drain_None)
  qed
qed

lemma asm_feed_records:
  assumes "list_all (good_record c) rs" "p @ concat cs = take n (concat (map record_bytes rs))"
    "asm_drain (new_assembler c\<lparr>asm_buffer := p\<rparr>) = ((None, out0), a)"
    "asm_feed a cs = ((codes, frames), a2)"
  shows "(Asm_Backpressure \<in> set codes \<and> (\<exists>chunk \<in> set cs. 1 < length chunk)) \<or>
    (set codes \<subseteq> {Asm_NeedMore, Asm_Produced}
     \<and> asm_drain (new_assembler c\<lparr>asm_buffer := take n (concat (map record_bytes rs))\<rparr>)
         = ((None, out0 @ frames), a2))"
  using assms(2-)
proof (induction cs arbitrary: p out0 a codes frames)
  case Nil
  then show ?case by simp
next
  case (Cons chunk cs)
  let ?b = "new_assembler c\<lparr>asm_buffer := p\<rparr>"
  obtain code out a1 where data: "asm_data a (Some chunk) True = ((code, out), a1)" by (metis prod.exhaust)
  obtain codes1 frames1 where rest: "asm_feed a1 cs = ((codes1, frames1), a2)"
      "codes = code # codes1" "frames = out @ frames1"
    using Cons.prems(3) by (auto simp: data split: prod.splits)
  have "\<not> asm_closed ?b" by (simp add: new_assembler_def)
  from asm_data_continues [OF Cons.prems(2) this data] show ?case
  proof
    assume "code = Asm_Backpressure \<and> 1 < length chunk \<and> asm_closed a1 \<and> out = []"
    then show ?thesis by (auto simp: rest)
  next
    assume "\<exists>stop. asm_drain (?b\<lparr>asm_buffer := asm_buffer ?b @ chunk\<rparr>) = ((stop, out0 @ out), a1)
      \<and> code = (case stop of Some e \<Rightarrow> e | None \<Rightarrow> if out \<noteq> [] then Asm_Produced else Asm_NeedMore)"
    then obtain stop where stop: "asm_drain (new_assembler c\<lparr>asm_buffer := p @ chunk\<rparr>) = ((stop, out0 @ out), a1)"
        "code = (case stop of Some e \<Rightarrow> e | None \<Rightarrow> if out \<noteq> [] then Asm_Produced else Asm_NeedMore)"
      by auto
    define m where "m = min (length (p @ chunk)) n"
    have "p @ chunk = take (length (p @ chunk)) ((p @ chunk) @ concat cs)" by simp
    also have "\<dots> = take m (concat (map record_bytes rs))"
      using Cons.prems(1) by (simp only: m_def take_take [symmetric] append_assoc concat.simps)
    finally have prefix0: "p @ chunk = take m (concat (map record_bytes rs))" .
    have "list_all (good_record (asm_channel (new_assembler c))) rs"
      using assms(1) by (simp add: new_assembler_def)
    from asm_drain_records [OF this, of m] have None: "stop = None"
      using stop(1) unfolding prefix0 [symmetric] by auto
    have "(p @ chunk) @ concat cs = take n (concat (map record_bytes rs))" using Cons.prems(1) by simp
    from Cons.IH [OF this stop(1) [unfolded None] rest(1)] show ?thesis
      using stop(2) by (auto simp: rest None split: if_splits)
  qed
qed

section \<open>Properties of the assembler\<close>



section \<open>The queue before the bind\<close>

definition record_key :: "QueuedAppRecord \<Rightarrow> u64 \<times> u64" where
  "record_key r = (qr_stream_id r, qr_stream_sequence r)"

definition record_cost :: "QueuedAppRecord \<Rightarrow> nat" where
  "record_cost r = length (of_object_bytes (qr_frame r)) + 6"

text \<open>The records a sequence of calls answered \<open>Queued\<close> since the last discard, in order.\<close>

fun note_accepted :: "PreBindQueueResult option \<Rightarrow> QueuedAppRecord list \<Rightarrow> pbq_call \<Rightarrow> QueuedAppRecord list" where
  "note_accepted r acc (PEnqueue stream_id stream_sequence owned) =
     (if r = Some Pbq_Queued
      then acc @ [\<lparr>qr_stream_id = stream_id, qr_stream_sequence = stream_sequence, qr_frame = owned\<rparr>] else acc)"
| "note_accepted r acc PDiscard = []"
| "note_accepted r acc _ = acc"

fun accepted_of :: "PreBindRecordQueue \<Rightarrow> QueuedAppRecord list \<Rightarrow> pbq_call list \<Rightarrow> QueuedAppRecord list" where
  "accepted_of q acc [] = acc"
| "accepted_of q acc (c # cs) =
     accepted_of (snd (pbq_step q c)) (note_accepted (fst (fst (pbq_step q c))) acc c) cs"

text \<open>A channel bind after a complete authentication of the transport, among past calls.\<close>

definition bind_order :: "pbq_call list \<Rightarrow> bool" where
  "bind_order past \<longleftrightarrow> (\<exists>a b. past = a @ PBound # b \<and> PTransport True True True \<in> set a)"

lemma bind_order_more: "bind_order past \<Longrightarrow> bind_order (past @ [c])"
  unfolding bind_order_def by (metis append_Cons append_assoc)

lemma bind_order_now: "PTransport True True True \<in> set past \<Longrightarrow> bind_order (past @ [PBound])"
  unfolding bind_order_def by blast

definition queue_inv :: "nat \<Rightarrow> nat \<Rightarrow> pbq_call list \<Rightarrow> QueuedAppRecord list \<Rightarrow> PreBindRecordQueue \<Rightarrow> bool" where
  "queue_inv mb mr past acc q \<longleftrightarrow>
     pbq_maximum_bytes q = mb \<and> pbq_maximum_records q = mr
     \<and> (if pbq_failed q \<or> pbq_released q then pbq_records q = [] else pbq_records q = acc)
     \<and> pbq_identities q = record_key ` set (pbq_records q) \<and> distinct (map record_key (pbq_records q))
     \<and> pbq_bytes q = sum_list (map record_cost (pbq_records q)) \<and> pbq_bytes q \<le> mb
     \<and> length (pbq_records q) \<le> mr
     \<and> (pbq_transport_authenticated q \<longrightarrow> PTransport True True True \<in> set past)
     \<and> (pbq_channel_bound q \<longrightarrow> bind_order past)
     \<and> (pbq_local_ready q \<longrightarrow> (\<exists>r. PReady True r \<in> set past))
     \<and> (pbq_remote_ready q \<longrightarrow> (\<exists>l. PReady l True \<in> set past))"

lemma queue_inv_new: "queue_inv mb mr [] [] (new_prebind_queue mb mr)"
  by (simp add: queue_inv_def new_prebind_queue_def)

lemma queue_inv_more: "queue_inv mb mr past acc q \<Longrightarrow> queue_inv mb mr (past @ [c]) acc q"
  unfolding queue_inv_def by (auto intro: bind_order_more)

lemmas queue_ops = pbq_enqueue_def mark_transport_authenticated_def mark_channel_bound_def mark_link_ready_def
  pbq_release_def pbq_fail_def pbq_discard_def gate_result_def Let_def

lemma fst_pbq_fail: "fst (pbq_fail q r) = r"
  by (simp add: pbq_fail_def)

lemma queue_inv_fail: "queue_inv mb mr past acc q \<Longrightarrow> queue_inv mb mr past acc (snd (pbq_fail q r))"
  by (simp add: queue_inv_def pbq_fail_def pbq_discard_def)

lemma queue_inv_put:
  assumes "queue_inv mb mr past acc q" "\<not> pbq_failed q" "\<not> pbq_released q" "record_key r \<notin> pbq_identities q"
    "length (pbq_records q) < mr" "record_cost r \<le> mb" "pbq_bytes q \<le> mb - record_cost r"
  shows "queue_inv mb mr past (acc @ [r]) (q\<lparr>pbq_identities := insert (record_key r) (pbq_identities q),
    pbq_records := pbq_records q @ [r], pbq_bytes := pbq_bytes q + record_cost r\<rparr>)"
  using assms by (auto simp: queue_inv_def)

lemma queue_inv_enqueue:
  assumes inv: "queue_inv mb mr past acc q"
  shows "queue_inv mb mr past (note_accepted (fst (fst (pbq_step q (PEnqueue i s f)))) acc (PEnqueue i s f))
    (snd (pbq_step q (PEnqueue i s f)))"
proof -
  let ?r = "\<lparr>qr_stream_id = i, qr_stream_sequence = s, qr_frame = f\<rparr>"
  have bounds: "pbq_maximum_bytes q = mb" "pbq_maximum_records q = mr" using inv by (simp_all add: queue_inv_def)
  note put = queue_inv_put [OF inv, of ?r, unfolded record_key_def record_cost_def, simplified]
  show ?thesis
    using inv queue_inv_fail [OF inv] put bounds
    by (auto simp: pbq_enqueue_def Let_def fst_pbq_fail)
qed

lemma queue_inv_discard: "queue_inv mb mr past acc q \<Longrightarrow> queue_inv mb mr past [] (pbq_discard q)"
  by (simp add: queue_inv_def pbq_discard_def)

lemma queue_inv_marks:
  "\<lbrakk>queue_inv mb mr past acc q; PTransport True True True \<in> set past\<rbrakk>
     \<Longrightarrow> queue_inv mb mr past acc (q\<lparr>pbq_transport_authenticated := True\<rparr>)"
  "\<lbrakk>queue_inv mb mr past acc q; bind_order past\<rbrakk> \<Longrightarrow> queue_inv mb mr past acc (q\<lparr>pbq_channel_bound := True\<rparr>)"
  "\<lbrakk>queue_inv mb mr past acc q; PReady l r \<in> set past\<rbrakk>
     \<Longrightarrow> queue_inv mb mr past acc (q\<lparr>pbq_local_ready := pbq_local_ready q \<or> l, pbq_remote_ready := pbq_remote_ready q \<or> r\<rparr>)"
  "queue_inv mb mr past acc q
     \<Longrightarrow> queue_inv mb mr past acc (q\<lparr>pbq_records := [], pbq_identities := {}, pbq_bytes := 0, pbq_released := True\<rparr>)"
  by (auto simp: queue_inv_def)

lemma queue_inv_step:
  assumes "queue_inv mb mr past acc q"
  shows "queue_inv mb mr (past @ [c]) (note_accepted (fst (fst (pbq_step q c))) acc c) (snd (pbq_step q c))"
proof -
  note inv = queue_inv_more [OF assms, of c]
  show ?thesis
  proof (cases c)
    case (PEnqueue i s f)
    then show ?thesis using queue_inv_more [OF queue_inv_enqueue [OF assms]] by simp
  next
    case (PTransport x y z)
    then show ?thesis using inv queue_inv_fail [OF inv] queue_inv_marks(1) [OF inv]
      by (auto simp: mark_transport_authenticated_def Let_def)
  next
    case PBound
    have "pbq_transport_authenticated q \<longrightarrow> bind_order (past @ [c])"
      using assms bind_order_now [of past] by (simp add: queue_inv_def PBound)
    then show ?thesis using inv queue_inv_fail [OF inv] queue_inv_marks(2) [OF inv] PBound
      by (simp add: mark_channel_bound_def Let_def)
  next
    case (PReady l r)
    then show ?thesis using inv queue_inv_fail [OF inv] queue_inv_marks(3) [OF inv, of l r]
      by (simp add: mark_link_ready_def Let_def)
  next
    case (PRelease out)
    then show ?thesis using inv queue_inv_marks(4) [OF inv] by (auto simp: pbq_release_def)
  next
    case PDiscard
    then show ?thesis using queue_inv_discard [OF inv] by simp
  qed
qed

lemma queue_inv_run:
  "queue_inv mb mr past acc q \<Longrightarrow>
   queue_inv mb mr (past @ calls) (accepted_of q acc calls) (run_calls pbq_step q calls)"
proof (induction calls arbitrary: past acc q)
  case (Cons c cs)
  from Cons.IH [OF queue_inv_step [OF Cons.prems, of c]] show ?case by simp
qed simp

section \<open>Properties of the queue\<close>

text \<open>A small exchange for the witness: two records around the authentication, then the gates.\<close>

definition queue_frame :: OwnedAppFrame where
  "queue_frame = \<lparr>of_frame_type_tag = 0x0218, of_type_namespace = Namespace_ObjectKind, of_type_name = ''0x0218'',
     of_object_bytes = [1, 2], of_object_hash = [], of_app_frame_hash = []\<rparr>"

definition queue_calls :: "pbq_call list" where
  "queue_calls = [PEnqueue 4 1 queue_frame, PTransport True True True, PEnqueue 4 2 queue_frame, PBound,
     PReady True False, PReady False True]"

text \<open>
  When the queue releases records, it releases exactly those it accepted since the last
  discard, in order and within its bounds, no identity twice; the transport had been authenticated in full,
  the channel bound after that, and both sides reported ready. What was released is not released again.
\<close>
theorem prebind_release_exact:
  assumes "pbq_release (run_calls pbq_step (new_prebind_queue mb mr) calls) True = ((Pbq_Released, rs), q)"
    "\<not> pbq_released (run_calls pbq_step (new_prebind_queue mb mr) calls)"
  shows "rs = accepted_of (new_prebind_queue mb mr) [] calls \<and> distinct (map record_key rs)
    \<and> length rs \<le> mr \<and> sum_list (map record_cost rs) \<le> mb
    \<and> bind_order calls \<and> (\<exists>r. PReady True r \<in> set calls) \<and> (\<exists>l. PReady l True \<in> set calls)
    \<and> pbq_release q True = ((Pbq_Released, []), q)"
proof -
  let ?q = "run_calls pbq_step (new_prebind_queue mb mr) calls"
  have inv: "queue_inv mb mr calls (accepted_of (new_prebind_queue mb mr) [] calls) ?q"
    using queue_inv_run [OF queue_inv_new, of mb mr calls] by simp
  have open0: "pbq_open ?q" "\<not> pbq_failed ?q" "rs = pbq_records ?q"
      "q = ?q\<lparr>pbq_records := [], pbq_identities := {}, pbq_bytes := 0, pbq_released := True\<rparr>"
    using assms by (auto simp: pbq_release_def split: if_splits)
  show ?thesis
    using inv open0 assms(2) by (auto simp: queue_inv_def pbq_open_def pbq_release_def)
qed

theorem prebind_release_exact_witness:
  "fst (pbq_release (run_calls pbq_step (new_prebind_queue 64 4) queue_calls) True)
      = (Pbq_Released, accepted_of (new_prebind_queue 64 4) [] queue_calls)
    \<and> length (accepted_of (new_prebind_queue 64 4) [] queue_calls) = 2"
proof -
  obtain rs q where rel: "pbq_release (run_calls pbq_step (new_prebind_queue 64 4) queue_calls) True = ((Pbq_Released, rs), q)"
      "\<not> pbq_released (run_calls pbq_step (new_prebind_queue 64 4) queue_calls)"
    unfolding queue_calls_def queue_frame_def by (auto simp: queue_ops pbq_open_def new_prebind_queue_def)
  have "length (accepted_of (new_prebind_queue 64 4) [] queue_calls) = 2"
    unfolding queue_calls_def queue_frame_def by (simp add: queue_ops pbq_open_def new_prebind_queue_def)
  then show ?thesis using prebind_release_exact [OF rel] rel by auto
qed

end
