(* ===== verification/Link_Gate_Properties.thy ===== *)
theory Link_Gate_Properties
  imports Link_Gate App_Stream_Properties
begin

text \<open>
  Correctness of the link gate: it is connected exactly when the protocol calls were one verified pairing, one
  verified transport, the matching channel bind and one readiness of each role, in that order and nothing
  else; the records it hands over are exactly those it accepted before.
\<close>

section \<open>Abstract gate\<close>

definition begin_ok :: "LinkActivationStartV1 \<Rightarrow> bool" where
  "begin_ok start \<longleftrightarrow> authenticated (ls_pair start) \<and> pe_generation (ls_pair start) \<noteq> 0
     \<and> nonzero (pe_transcript (ls_pair start)) \<and> nonzero (ls_session_id start)
     \<and> nonzero (ls_listener_der_spki_hash start)"

datatype link_abs =
    A_Failed | A_Idle | A_Begun LinkActivationStartV1 | A_Transport LinkActivationStartV1 QuicHandshakeFactsV2 bytes
  | A_Bound LinkActivationStartV1 QuicHandshakeFactsV2 bytes LinkChannelBindV1
  | A_Half LinkActivationStartV1 QuicHandshakeFactsV2 bytes LinkChannelBindV1 PairRole
  | A_Connected LinkActivationStartV1 QuicHandshakeFactsV2 bytes LinkChannelBindV1 PairRole

fun abs_step :: "link_abs \<Rightarrow> link_call \<Rightarrow> link_abs" where
  "abs_step A_Idle (KBegin s) = (if begin_ok s then A_Begun s else A_Failed)"
| "abs_step (A_Begun s) (KTransport f e) =
     (if nonzero e \<and> handshake_status s f = Wire_Ok then A_Transport s f e else A_Failed)"
| "abs_step (A_Transport s f e) (KBind b) = (if bind_matches s e b then A_Bound s f e b else A_Failed)"
| "abs_step (A_Bound s f e b) (KReady r) = A_Half s f e b r"
| "abs_step (A_Half s f e b r) (KReady r') = (if r' = other r then A_Connected s f e b r else A_Failed)"
| "abs_step a (KEnqueue _ _ _) = a"
| "abs_step a (KRelease _) = a"
| "abs_step _ _ = A_Failed"

fun is_protocol :: "link_call \<Rightarrow> bool" where
  "is_protocol (KEnqueue _ _ _) = False"
| "is_protocol (KRelease _) = False"
| "is_protocol _ = True"

fun abs_shape :: "link_abs \<Rightarrow> link_call list" where
  "abs_shape (A_Begun s) = [KBegin s]"
| "abs_shape (A_Transport s f e) = [KBegin s, KTransport f e]"
| "abs_shape (A_Bound s f e b) = [KBegin s, KTransport f e, KBind b]"
| "abs_shape (A_Half s f e b r) = [KBegin s, KTransport f e, KBind b, KReady r]"
| "abs_shape (A_Connected s f e b r) = [KBegin s, KTransport f e, KBind b, KReady r, KReady (other r)]"
| "abs_shape _ = []"

fun abs_ok :: "link_abs \<Rightarrow> bool" where
  "abs_ok (A_Begun s) = begin_ok s"
| "abs_ok (A_Transport s f e) = (begin_ok s \<and> nonzero e \<and> handshake_status s f = Wire_Ok)"
| "abs_ok (A_Bound s f e b) = (begin_ok s \<and> nonzero e \<and> handshake_status s f = Wire_Ok \<and> bind_matches s e b)"
| "abs_ok (A_Half s f e b r) = (begin_ok s \<and> nonzero e \<and> handshake_status s f = Wire_Ok \<and> bind_matches s e b)"
| "abs_ok (A_Connected s f e b r) = (begin_ok s \<and> nonzero e \<and> handshake_status s f = Wire_Ok \<and> bind_matches s e b)"
| "abs_ok _ = True"

lemma abs_step_shape:
  assumes "abs_step a c \<noteq> A_Failed"
  shows "a \<noteq> A_Failed" "abs_shape (abs_step a c) = abs_shape a @ (if is_protocol c then [c] else [])"
    "abs_ok a \<Longrightarrow> abs_ok (abs_step a c)"
  using assms by (cases a; cases c; simp split: if_splits)+

definition abs_run :: "link_call list \<Rightarrow> link_abs" where
  "abs_run calls = foldl abs_step A_Idle calls"

lemma abs_run_snoc: "abs_run (calls @ [c]) = abs_step (abs_run calls) c"
  by (simp add: abs_run_def)

lemma abs_run_shape:
  "abs_run calls \<noteq> A_Failed \<Longrightarrow> filter is_protocol calls = abs_shape (abs_run calls) \<and> abs_ok (abs_run calls)"
proof (induction calls rule: rev_induct)
  case Nil
  then show ?case by (simp add: abs_run_def)
next
  case (snoc c calls)
  then show ?case using abs_step_shape [of "abs_run calls" c] by (auto simp: abs_run_snoc)
qed

lemma abs_run_filter: "abs_run calls = abs_run (filter is_protocol calls)"
proof (induction calls rule: rev_induct)
  case (snoc c calls)
  then show ?case by (cases c; cases "abs_run calls") (simp_all add: abs_run_snoc)
qed simp

lemma abs_connected_iff:
  "(\<exists>s f e b r. abs_run calls = A_Connected s f e b r) \<longleftrightarrow>
   (\<exists>s f e b r. filter is_protocol calls = [KBegin s, KTransport f e, KBind b, KReady r, KReady (other r)]
     \<and> begin_ok s \<and> nonzero e \<and> handshake_status s f = Wire_Ok \<and> bind_matches s e b)"
proof
  assume "\<exists>s f e b r. abs_run calls = A_Connected s f e b r"
  then obtain s f e b r where c: "abs_run calls = A_Connected s f e b r" by blast
  then have "filter is_protocol calls = abs_shape (A_Connected s f e b r) \<and> abs_ok (A_Connected s f e b r)"
    using abs_run_shape [of calls] by simp
  then show "\<exists>s f e b r. filter is_protocol calls = [KBegin s, KTransport f e, KBind b, KReady r, KReady (other r)]
     \<and> begin_ok s \<and> nonzero e \<and> handshake_status s f = Wire_Ok \<and> bind_matches s e b"
    by auto
next
  assume "\<exists>s f e b r. filter is_protocol calls = [KBegin s, KTransport f e, KBind b, KReady r, KReady (other r)]
     \<and> begin_ok s \<and> nonzero e \<and> handshake_status s f = Wire_Ok \<and> bind_matches s e b"
  then show "\<exists>s f e b r. abs_run calls = A_Connected s f e b r"
    unfolding abs_run_filter [of calls] by (auto simp: abs_run_def)
qed

section \<open>Refinement\<close>

fun abs_phase :: "link_abs \<Rightarrow> LinkPhase" where
  "abs_phase A_Failed = LPhase_Failed"
| "abs_phase A_Idle = LPhase_Idle"
| "abs_phase (A_Begun s) = LPhase_PairAccepted"
| "abs_phase (A_Transport s f e) = LPhase_TransportAuthenticated"
| "abs_phase (A_Bound s f e b) = LPhase_Bound"
| "abs_phase (A_Half s f e b r) = LPhase_Bound"
| "abs_phase (A_Connected s f e b r) = LPhase_Connected"

text \<open>The members a gate in abstract state \<open>a\<close> has: what it remembers, and the marks of its queue.\<close>

fun abs_members :: "link_abs \<Rightarrow> AuthenticatedLinkGate \<Rightarrow> bool" where
  "abs_members (A_Begun s) g = (lg_start g = s)"
| "abs_members (A_Transport s f e) g = (lg_start g = s \<and> lg_exporter g = e)"
| "abs_members (A_Bound s f e b) g = (lg_start g = s \<and> lg_channel_id g = expected_channel_id s e)"
| "abs_members (A_Half s f e b r) g = (lg_start g = s \<and> lg_channel_id g = expected_channel_id s e)"
| "abs_members (A_Connected s f e b r) g = (lg_start g = s \<and> lg_channel_id g = expected_channel_id s e)"
| "abs_members _ g = True"

fun ready_role :: "link_abs \<Rightarrow> PairRole \<Rightarrow> bool" where
  "ready_role (A_Half s f e b r) r' = (r' = r)"
| "ready_role (A_Connected s f e b r) r' = True"
| "ready_role _ r' = False"

fun transport_done :: "link_abs \<Rightarrow> bool" where
  "transport_done A_Failed = False"
| "transport_done A_Idle = False"
| "transport_done (A_Begun s) = False"
| "transport_done _ = True"

fun bind_done :: "link_abs \<Rightarrow> bool" where
  "bind_done (A_Bound s f e b) = True"
| "bind_done (A_Half s f e b r) = True"
| "bind_done (A_Connected s f e b r) = True"
| "bind_done _ = False"

definition gate_abs :: "AuthenticatedLinkGate \<Rightarrow> link_abs \<Rightarrow> bool" where
  "gate_abs g a \<longleftrightarrow> lg_phase g = abs_phase a \<and> (a \<noteq> A_Failed \<longrightarrow>
     abs_members a g \<and> \<not> pbq_failed (lg_prebind g)
     \<and> (pbq_released (lg_prebind g) \<longrightarrow> abs_phase a = LPhase_Connected)
     \<and> pbq_transport_authenticated (lg_prebind g) = transport_done a \<and> pbq_channel_bound (lg_prebind g) = bind_done a
     \<and> lg_initiator_ready g = ready_role a Pair_Initiator \<and> lg_responder_ready g = ready_role a Pair_Responder
     \<and> (bind_done a \<longrightarrow> pbq_local_ready (lg_prebind g) = ready_role a (pe_local_role (ls_pair (lg_start g)))
         \<and> pbq_remote_ready (lg_prebind g) = ready_role a (other (pe_local_role (ls_pair (lg_start g)))))
     \<and> (\<not> bind_done a \<longrightarrow> \<not> pbq_local_ready (lg_prebind g) \<and> \<not> pbq_remote_ready (lg_prebind g)))"

text \<open>An enqueued record the queue refuses for its bounds or its identity.\<close>

fun refuses :: "AuthenticatedLinkGate \<Rightarrow> link_call \<Rightarrow> bool" where
  "refuses g (KEnqueue i s f) = (fst (enqueue_prebind g i s f) \<in> {Link_Backpressure, Link_ProtocolViolation})"
| "refuses g _ = False"

definition link_abs_step :: "AuthenticatedLinkGate \<Rightarrow> link_abs \<Rightarrow> link_call \<Rightarrow> link_abs" where
  "link_abs_step g a c = (if refuses g c then A_Failed else abs_step a c)"

lemma fail_abs: "gate_abs (snd (link_fail g r)) A_Failed"
  by (simp add: gate_abs_def link_fail_def)

lemma gate_abs_failed: "lg_phase g = LPhase_Failed \<Longrightarrow> gate_abs g A_Failed"
  by (simp add: gate_abs_def)

lemma abs_phase_failed [simp]: "abs_phase a = LPhase_Failed \<longleftrightarrow> a = A_Failed"
  by (cases a) simp_all

lemma begin_abs:
  assumes "gate_abs g a"
  shows "gate_abs (snd (link_begin g s)) (abs_step a (KBegin s))"
proof (cases a)
  case A_Idle
  then show ?thesis using assms fail_abs [of g] by (auto simp: gate_abs_def link_begin_def begin_ok_def link_fail_def)
qed (use assms fail_abs [of g] in \<open>auto simp: gate_abs_def link_begin_def link_fail_def\<close>)

lemma transport_abs:
  assumes "gate_abs g a"
  shows "gate_abs (snd (accept_transport g f e)) (abs_step a (KTransport f e))"
proof (cases a)
  case (A_Begun s)
  then show ?thesis
    using assms fail_abs [of g]
    by (auto simp: gate_abs_def accept_transport_def link_fail_def mark_transport_authenticated_def gate_result_def Let_def)
qed (use assms fail_abs [of g] in \<open>auto simp: gate_abs_def accept_transport_def link_fail_def\<close>)

lemma bind_abs:
  assumes "gate_abs g a"
  shows "gate_abs (snd (accept_channel_bind g b)) (abs_step a (KBind b))"
proof (cases a)
  case (A_Transport s f e)
  then show ?thesis
    using assms fail_abs [of g]
    by (auto simp: gate_abs_def accept_channel_bind_def link_fail_def mark_channel_bound_def gate_result_def Let_def)
qed (use assms fail_abs [of g] in \<open>auto simp: gate_abs_def accept_channel_bind_def link_fail_def\<close>)

lemma ready_abs:
  assumes "gate_abs g a"
  shows "gate_abs (snd (accept_link_ready g r)) (abs_step a (KReady r))"
proof (cases a)
  case (A_Bound s f e b)
  then show ?thesis
    using assms
    by (cases r; cases "pe_local_role (ls_pair s)")
      (simp_all add: gate_abs_def accept_link_ready_def mark_link_ready_def gate_result_def Let_def)
next
  case (A_Half s f e b r0)
  then show ?thesis
    using assms
    by (cases r; cases r0; cases "pe_local_role (ls_pair s)")
      (simp_all add: gate_abs_def accept_link_ready_def link_fail_def mark_link_ready_def gate_result_def Let_def)
qed (use assms fail_abs [of g] in \<open>auto simp: gate_abs_def accept_link_ready_def link_fail_def\<close>)

definition marks :: "PreBindRecordQueue \<Rightarrow> bool list" where
  "marks q = [pbq_failed q, pbq_released q, pbq_transport_authenticated q, pbq_channel_bound q, pbq_local_ready q,
     pbq_remote_ready q]"

lemma enqueue_marks:
  "fst (pbq_enqueue q i s f) \<in> {Pbq_Backpressure, Pbq_ProtocolViolation} \<or> marks (snd (pbq_enqueue q i s f)) = marks q"
  by (simp add: pbq_enqueue_def pbq_fail_def Let_def marks_def)

lemma gate_abs_marks:
  assumes "marks q = marks (lg_prebind g)"
  shows "gate_abs (g\<lparr>lg_prebind := q\<rparr>) a = gate_abs g a"
proof -
  have "abs_members a (g\<lparr>lg_prebind := q\<rparr>) = abs_members a g" by (cases a) simp_all
  then show ?thesis using assms by (simp add: gate_abs_def marks_def)
qed

lemma enqueue_abs:
  assumes "gate_abs g a"
  shows "gate_abs (snd (enqueue_prebind g i s f)) (link_abs_step g a (KEnqueue i s f))"
proof (cases "lg_phase g \<in> {LPhase_Idle, LPhase_Failed, LPhase_Connected}")
  case True
  then have "snd (enqueue_prebind g i s f) = g" "\<not> refuses g (KEnqueue i s f)"
    by (auto simp: enqueue_prebind_def)
  then show ?thesis using assms by (cases a) (simp_all add: link_abs_step_def)
next
  case False
  obtain r q where e: "pbq_enqueue (lg_prebind g) i s f = (r, q)" by (metis prod.exhaust)
  have eq: "enqueue_prebind g i s f = (map_queue r, if r = Pbq_Backpressure \<or> r = Pbq_ProtocolViolation
      then g\<lparr>lg_prebind := q, lg_phase := LPhase_Failed\<rparr> else g\<lparr>lg_prebind := q\<rparr>)"
    using False by (simp add: enqueue_prebind_def e Let_def)
  have ref: "refuses g (KEnqueue i s f) \<longleftrightarrow> r = Pbq_Backpressure \<or> r = Pbq_ProtocolViolation"
    by (cases r) (simp_all add: eq)
  show ?thesis
  proof (cases "r = Pbq_Backpressure \<or> r = Pbq_ProtocolViolation")
    case True
    then show ?thesis by (simp add: link_abs_step_def ref eq gate_abs_failed del: refuses.simps)
  next
    case False
    then have "marks q = marks (lg_prebind g)" using enqueue_marks [of "lg_prebind g" i s f] e by auto
    moreover have "abs_step a (KEnqueue i s f) = a" by (cases a) simp_all
    ultimately show ?thesis using False assms
      by (simp add: link_abs_step_def ref eq gate_abs_marks del: refuses.simps)
  qed
qed

lemma release_abs:
  assumes "gate_abs g a"
  shows "gate_abs (snd (release_prebind g out)) a"
proof (cases "a = A_Failed")
  case True
  then show ?thesis using assms by (simp add: release_prebind_def gate_abs_def)
next
  case False
  have m: "abs_members a (g\<lparr>lg_prebind := q\<rparr>) = abs_members a g" for q by (cases a) simp_all
  have conn: "pbq_open (lg_prebind g) \<Longrightarrow> abs_phase a = LPhase_Connected"
    using assms False by (cases a; cases "pe_local_role (ls_pair (lg_start g))") (auto simp: gate_abs_def pbq_open_def)
  have "lg_phase g \<noteq> LPhase_Failed" using assms False by (simp add: gate_abs_def)
  then show ?thesis
    using assms False m conn
    by (auto simp: release_prebind_def pbq_release_def gate_abs_def split: prod.split)
qed

lemma link_step_abs:
  assumes "gate_abs g a"
  shows "gate_abs (snd (link_step g c)) (link_abs_step g a c)"
proof (cases c)
  case (KRelease out)
  then show ?thesis using release_abs [OF assms] by (cases a) (simp_all add: link_abs_step_def)
qed (use assms begin_abs enqueue_abs transport_abs bind_abs ready_abs in \<open>simp_all add: link_abs_step_def\<close>)

section \<open>Runs\<close>

fun enqueue_refused :: "AuthenticatedLinkGate \<Rightarrow> link_call list \<Rightarrow> bool" where
  "enqueue_refused g [] \<longleftrightarrow> False"
| "enqueue_refused g (c # cs) \<longleftrightarrow> refuses g c \<or> enqueue_refused (snd (link_step g c)) cs"

lemma abs_failed_final: "foldl abs_step A_Failed calls = A_Failed"
proof (induction calls)
  case (Cons c calls)
  then show ?case by (cases c) simp_all
qed simp

lemma link_run_abs:
  "gate_abs g a \<Longrightarrow>
   gate_abs (run_calls link_step g calls) (if enqueue_refused g calls then A_Failed else foldl abs_step a calls)"
proof (induction calls arbitrary: g a)
  case (Cons c calls)
  from Cons.IH [OF link_step_abs [OF Cons.prems, of c]] show ?case
    by (cases "refuses g c") (simp_all add: link_abs_step_def abs_failed_final split: if_splits)
qed simp

lemma new_gate_abs: "gate_abs (new_link_gate mb mr) A_Idle"
  by (simp add: gate_abs_def new_link_gate_def new_prebind_queue_def)

lemma link_run_new:
  "gate_abs (run_calls link_step (new_link_gate mb mr) calls)
     (if enqueue_refused (new_link_gate mb mr) calls then A_Failed else abs_run calls)"
  unfolding abs_run_def by (rule link_run_abs [OF new_gate_abs])

lemma abs_open:
  assumes "gate_abs g a" "a \<noteq> A_Failed"
  shows "pbq_open (lg_prebind g) \<longleftrightarrow> lg_phase g = LPhase_Connected"
proof (cases a)
  case (A_Half s f e b r)
  then show ?thesis using assms
    by (cases r; cases "pe_local_role (ls_pair (lg_start g))") (simp_all add: gate_abs_def pbq_open_def)
qed (use assms in \<open>simp_all add: gate_abs_def pbq_open_def\<close>)

section \<open>Accepted records\<close>

text \<open>The records whose enqueueing the gate answered with success, in order.\<close>

fun note_link :: "LinkActivationResult \<Rightarrow> QueuedAppRecord list \<Rightarrow> link_call \<Rightarrow> QueuedAppRecord list" where
  "note_link r acc (KEnqueue i s f) =
     (if r = Link_Accepted then acc @ [\<lparr>qr_stream_id = i, qr_stream_sequence = s, qr_frame = f\<rparr>] else acc)"
| "note_link r acc _ = acc"

fun link_accepted :: "AuthenticatedLinkGate \<Rightarrow> QueuedAppRecord list \<Rightarrow> link_call list \<Rightarrow> QueuedAppRecord list" where
  "link_accepted g acc [] = acc"
| "link_accepted g acc (c # cs) = link_accepted (snd (link_step g c)) (note_link (fst (fst (link_step g c))) acc c) cs"

definition link_queue_inv :: "nat \<Rightarrow> nat \<Rightarrow> QueuedAppRecord list \<Rightarrow> AuthenticatedLinkGate \<Rightarrow> bool" where
  "link_queue_inv mb mr acc g \<longleftrightarrow> lg_phase g = LPhase_Failed \<or> (\<exists>past. queue_inv mb mr past acc (lg_prebind g))"

text \<open>What a call does to the queue is one of the queue's own calls, or nothing, unless the gate fails.\<close>

lemma queue_inv_call:
  assumes "queue_inv mb mr past acc q" "\<And>i s f. c \<noteq> PEnqueue i s f" "c \<noteq> PDiscard"
  shows "queue_inv mb mr (past @ [c]) acc (snd (pbq_step q c))"
  using queue_inv_step [OF assms(1), of c] assms(2,3) by (cases c) auto

lemma enqueue_never_blocked: "fst (pbq_enqueue q i s f) \<noteq> Pbq_Blocked"
  by (simp add: pbq_enqueue_def pbq_fail_def Let_def)

lemma lq_fail: "link_queue_inv mb mr acc (snd (link_fail g r))"
  by (simp add: link_queue_inv_def link_fail_def)

lemma lq_keep: "queue_inv mb mr past acc (lg_prebind g) \<Longrightarrow> link_queue_inv mb mr acc (g\<lparr>lg_start := s, lg_phase := p\<rparr>)"
  by (auto simp: link_queue_inv_def)

lemma lq_queue:
  assumes "queue_inv mb mr past acc q"
  shows "lg_prebind g' = q \<Longrightarrow> link_queue_inv mb mr acc g'"
  using assms by (auto simp: link_queue_inv_def)

lemma accept_link_ready_form:
  "(\<exists>g0 e. accept_link_ready g r = link_fail g0 e)
   \<or> (\<exists>x y. lg_prebind (snd (accept_link_ready g r)) = snd (mark_link_ready (lg_prebind g) x y))"
proof -
  define g1 where "g1 = (if r = Pair_Initiator then g\<lparr>lg_initiator_ready := True\<rparr> else g\<lparr>lg_responder_ready := True\<rparr>)"
  have same: "lg_prebind g1 = lg_prebind g" by (simp add: g1_def)
  show ?thesis
    unfolding accept_link_ready_def Let_def g1_def [symmetric] same case_prod_beta by auto
qed

lemma link_queue_step:
  assumes "link_queue_inv mb mr acc g"
  shows "link_queue_inv mb mr (note_link (fst (fst (link_step g c))) acc c) (snd (link_step g c))"
proof (cases "lg_phase g = LPhase_Failed")
  case True
  then have "lg_phase (snd (link_step g c)) = LPhase_Failed"
    by (cases c) (simp_all add: link_begin_def enqueue_prebind_def accept_transport_def accept_channel_bind_def
        accept_link_ready_def release_prebind_def link_fail_def)
  then show ?thesis by (simp add: link_queue_inv_def)
next
  case False
  then obtain past where q: "queue_inv mb mr past acc (lg_prebind g)" using assms by (auto simp: link_queue_inv_def)
  note call = queue_inv_call [OF q]
  show ?thesis
  proof (cases c)
    case (KBegin s)
    then show ?thesis using lq_fail lq_keep [OF q] by (simp add: link_begin_def)
  next
    case (KEnqueue i s f)
    obtain r q1 where e: "pbq_enqueue (lg_prebind g) i s f = (r, q1)" by (metis prod.exhaust)
    have r: "r \<noteq> Pbq_Blocked" using enqueue_never_blocked [of "lg_prebind g" i s f] e by simp
    have q1: "queue_inv mb mr past (note_accepted (Some r) acc (PEnqueue i s f)) q1"
      using queue_inv_enqueue [OF q, of i s f] e by simp
    show ?thesis
    proof (cases "lg_phase g = LPhase_Idle \<or> lg_phase g = LPhase_Connected")
      case True
      then show ?thesis using assms False by (auto simp: KEnqueue enqueue_prebind_def)
    next
      case live: False
      have "link_queue_inv mb mr (note_accepted (Some r) acc (PEnqueue i s f)) (g\<lparr>lg_prebind := q1\<rparr>)"
        by (rule lq_queue [OF q1]) simp
      moreover have "link_queue_inv mb mr acc (g\<lparr>lg_prebind := q1, lg_phase := LPhase_Failed\<rparr>)"
        by (simp add: link_queue_inv_def)
      ultimately show ?thesis
        using live False r by (cases r) (simp_all add: KEnqueue enqueue_prebind_def e Let_def)
    qed
  next
    case (KTransport f e)
    have "queue_inv mb mr (past @ [PTransport True True True]) acc (snd (mark_transport_authenticated (lg_prebind g) True True True))"
      using call [of "PTransport True True True"] by simp
    from lq_queue [OF this] show ?thesis
      using lq_fail by (simp add: KTransport accept_transport_def Let_def split: prod.split)
  next
    case (KBind b)
    have "queue_inv mb mr (past @ [PBound]) acc (snd (mark_channel_bound (lg_prebind g)))"
      using call [of PBound] by simp
    from lq_queue [OF this] show ?thesis
      using lq_fail by (simp add: KBind accept_channel_bind_def Let_def split: prod.split)
  next
    case (KReady r)
    have "queue_inv mb mr (past @ [PReady x y]) acc (snd (mark_link_ready (lg_prebind g) x y))" for x y
      using call [of "PReady x y"] by simp
    from lq_queue [OF this] show ?thesis
      using lq_fail accept_link_ready_form [of g r] by (auto simp: KReady)
  next
    case (KRelease out)
    have "queue_inv mb mr (past @ [PRelease out]) acc (snd (pbq_release (lg_prebind g) out))"
      using call [of "PRelease out"] by simp
    from lq_queue [OF this] show ?thesis
      using False by (simp add: KRelease release_prebind_def split: prod.split)
  qed
qed

lemma link_queue_run:
  "link_queue_inv mb mr acc g \<Longrightarrow> link_queue_inv mb mr (link_accepted g acc calls) (run_calls link_step g calls)"
proof (induction calls arbitrary: g acc)
  case (Cons c calls)
  from Cons.IH [OF link_queue_step [OF Cons.prems, of c]] show ?case by simp
qed simp

lemma link_queue_new: "link_queue_inv mb mr [] (new_link_gate mb mr)"
  using queue_inv_new [of mb mr] by (auto simp: link_queue_inv_def new_link_gate_def)

section \<open>Properties\<close>

text \<open>
  C9: A gate is connected exactly when its protocol calls were, in this order and nothing else, the start with
  sealed evidence of a pairing, a transport whose handshake satisfies the contract of this end's role, the
  channel bind with the identifier derived from that pairing and transport, and one readiness of each role;
  and no early record was refused.
\<close>
theorem link_connected_iff:
  "link_connected (run_calls link_step (new_link_gate mb mr) calls) \<longleftrightarrow>
   \<not> enqueue_refused (new_link_gate mb mr) calls
   \<and> (\<exists>s f e b r. filter is_protocol calls = [KBegin s, KTransport f e, KBind b, KReady r, KReady (other r)]
       \<and> begin_ok s \<and> nonzero e \<and> handshake_status s f = Wire_Ok \<and> bind_matches s e b)"
proof -
  let ?a = "if enqueue_refused (new_link_gate mb mr) calls then A_Failed else abs_run calls"
  have "abs_phase a = LPhase_Connected \<longleftrightarrow> (\<exists>s f e b r. a = A_Connected s f e b r)" for a by (cases a) simp_all
  then have "link_connected (run_calls link_step (new_link_gate mb mr) calls) \<longleftrightarrow> (\<exists>s f e b r. ?a = A_Connected s f e b r)"
    using link_run_new [of mb mr calls] by (simp add: gate_abs_def link_connected_def)
  then show ?thesis using abs_connected_iff [of calls] by auto
qed


end
