(* ===== verification/Stream_Gate.thy ===== *)
theory Stream_Gate
  imports Session_Codec
begin

text \<open>
  The framing gate of a QUIC connection, \<^verbatim>\<open>shared/src/session/wire/quic_stream_gate.{hpp,cpp}\<close>: before any
  application stream is let through, the two sides exchange one stream of five records each where the
  connection is a reconnection over the same path, and then the stream that binds the channel. The
  enumerations of the header are datatypes, so that the tests for a value outside them do not appear;
  allocation does not fail.
\<close>

section \<open>Model\<close>

datatype BindingKindV1 = Bind_Initial | Bind_SamePathReconnect | Bind_NewBearerReconnect

datatype TlsSideV1 = Side_Connector | Side_Listener

datatype QuicGateResult =
    Gate_NeedMore | Gate_Accepted | Gate_PrebindComplete | Gate_ChannelBound | Gate_Closed | Gate_Backpressure
  | Gate_ProtocolViolation | Gate_InvalidArgument

datatype GatePhase = Phase_ExpectPrebind | Phase_Prebind | Phase_ExpectBind | Phase_Bind | Phase_Bound | Phase_Failed

record Direction =
  dir_bytes :: bytes
  dir_record_index :: nat
  dir_fin :: bool

record QuicStreamGate =
  gate_initiator_is_connector :: bool
  gate_phase :: GatePhase
  gate_stream_id :: u64
  gate_prior_stream_id :: u64
  gate_preamble_complete :: bool
  gate_connector :: Direction
  gate_listener :: Direction

definition new_direction :: Direction where
  "new_direction = \<lparr>dir_bytes = [], dir_record_index = 0, dir_fin = False\<rparr>"

text \<open>An expected record: its size and its first byte, where 0 stands for any.\<close>

type_synonym ExpectedRecord = "nat \<times> u8"

definition kInitiatorPrebind :: "ExpectedRecord list" where
  "kInitiatorPrebind = [(356, 1), (356, 3), (289, 13), (181, 20), (173, 14)]"

definition kResponderPrebind :: "ExpectedRecord list" where
  "kResponderPrebind = [(356, 2), (356, 4), (181, 20), (289, 13), (173, 14)]"

definition kConnectorBind :: "ExpectedRecord list" where
  "kConnectorBind = [(248, 0), (128, 0)]"

definition kListenerBind :: "ExpectedRecord list" where
  "kListenerBind = [(248, 0)]"

fun gate_direction :: "QuicStreamGate \<Rightarrow> TlsSideV1 \<Rightarrow> Direction" where
  "gate_direction g Side_Connector = gate_connector g"
| "gate_direction g Side_Listener = gate_listener g"

fun set_direction :: "QuicStreamGate \<Rightarrow> TlsSideV1 \<Rightarrow> Direction \<Rightarrow> QuicStreamGate" where
  "set_direction g Side_Connector d = g\<lparr>gate_connector := d\<rparr>"
| "set_direction g Side_Listener d = g\<lparr>gate_listener := d\<rparr>"

definition new_gate :: "BindingKindV1 \<Rightarrow> bool \<Rightarrow> QuicStreamGate" where
  "new_gate binding_kind pair_initiator_is_connector =
     \<lparr>gate_initiator_is_connector = pair_initiator_is_connector,
      gate_phase = (if binding_kind = Bind_SamePathReconnect then Phase_ExpectPrebind else Phase_ExpectBind),
      gate_stream_id = 0, gate_prior_stream_id = 0, gate_preamble_complete = False,
      gate_connector = new_direction, gate_listener = new_direction\<rparr>"

definition gate_fail :: "QuicStreamGate \<Rightarrow> QuicGateResult \<Rightarrow> QuicGateResult \<times> QuicStreamGate" where
  "gate_fail g result =
     (result, g\<lparr>gate_connector := (gate_connector g)\<lparr>dir_bytes := []\<rparr>,
        gate_listener := (gate_listener g)\<lparr>dir_bytes := []\<rparr>, gate_phase := Phase_Failed\<rparr>)"

definition open_bidi :: "QuicStreamGate \<Rightarrow> u64 \<Rightarrow> TlsSideV1 \<Rightarrow> QuicGateResult \<times> QuicStreamGate" where
  "open_bidi g stream_id opener =
     (if stream_id = 0 then gate_fail g Gate_InvalidArgument
      else if gate_phase g \<noteq> Phase_ExpectPrebind \<and> gate_phase g \<noteq> Phase_ExpectBind
              \<or> opener \<noteq> Side_Connector \<or> stream_id = gate_prior_stream_id g
      then gate_fail g Gate_ProtocolViolation
      else (Gate_Accepted, g\<lparr>gate_stream_id := stream_id, gate_connector := new_direction,
              gate_listener := new_direction, gate_preamble_complete := False,
              gate_phase := (if gate_phase g = Phase_ExpectPrebind then Phase_Prebind else Phase_Bind)\<rparr>))"

text \<open>The records a side sends, in order, in the current phase.\<close>

definition expected_records :: "QuicStreamGate \<Rightarrow> TlsSideV1 \<Rightarrow> ExpectedRecord list" where
  "expected_records g sender =
     (if gate_phase g = Phase_Bind
      then (if sender = Side_Connector then kConnectorBind else kListenerBind)
      else if (sender = Side_Connector) = gate_initiator_is_connector g then kInitiatorPrebind
      else kResponderPrebind)"

definition expected_count :: "QuicStreamGate \<Rightarrow> TlsSideV1 \<Rightarrow> nat" where
  "expected_count g sender =
     (if gate_phase g = Phase_Bind
      then (if sender = Side_Connector then length kConnectorBind else length kListenerBind)
      else length kInitiatorPrebind)"

text \<open>One round of the loop of \<open>parse\<close>: a result, or the direction with one record taken off.\<close>

definition parse_record :: "QuicStreamGate \<Rightarrow> TlsSideV1 \<Rightarrow> Direction \<Rightarrow> QuicGateResult + Direction" where
  "parse_record g sender d =
     (if dir_record_index d \<ge> expected_count g sender then Inl Gate_ProtocolViolation
      else
        let expected = expected_records g sender ! dir_record_index d;
            size0 = unat (be32 (dir_bytes d) 0)
        in if size0 \<noteq> fst expected then Inl Gate_ProtocolViolation
           else if length (dir_bytes d) < size0 + 4 then Inl Gate_NeedMore
           else if snd expected \<noteq> 0 \<and> dir_bytes d ! 4 \<noteq> snd expected then Inl Gate_ProtocolViolation
           else Inr (d\<lparr>dir_bytes := drop (size0 + 4) (dir_bytes d), dir_record_index := dir_record_index d + 1\<rparr>))"

lemma parse_record_shorter:
  "parse_record g sender d = Inr d' \<Longrightarrow> 4 \<le> length (dir_bytes d) \<Longrightarrow> length (dir_bytes d') < length (dir_bytes d)"
  by (auto simp: parse_record_def Let_def split: if_splits)

function parse_loop :: "QuicStreamGate \<Rightarrow> TlsSideV1 \<Rightarrow> bool \<Rightarrow> Direction \<Rightarrow> QuicGateResult \<times> Direction" where
  "parse_loop g sender accepted d =
     (if length (dir_bytes d) < 4 then (if accepted then Gate_Accepted else Gate_NeedMore, d)
      else case parse_record g sender d of
             Inl result \<Rightarrow> (result, d)
           | Inr d1 \<Rightarrow> parse_loop g sender True d1)"
  by pat_completeness auto
termination
  by (relation "measure (\<lambda>(g, sender, accepted, d). length (dir_bytes d))") (auto dest: parse_record_shorter)

declare parse_loop.simps [simp del]

text \<open>The errors of the loop fail the gate.\<close>

definition gate_parse :: "QuicStreamGate \<Rightarrow> TlsSideV1 \<Rightarrow> QuicGateResult \<times> QuicStreamGate" where
  "gate_parse g sender =
     (case parse_loop g sender False (gate_direction g sender) of
        (result, d) \<Rightarrow>
          let g1 = set_direction g sender d
          in if result = Gate_ProtocolViolation then gate_fail g1 result else (result, g1))"

definition gate_preamble :: "GatePhase \<Rightarrow> bytes" where
  "gate_preamble phase =
     (if phase = Phase_Prebind then [0x46, 0x4E, 0x52, 0x31, 0, 1, 0, 2]
      else [0x46, 0x4E, 0x42, 0x31, 0, 1, 0, 1])"

definition gate_data :: "QuicStreamGate \<Rightarrow> u64 \<Rightarrow> TlsSideV1 \<Rightarrow> bytes option
    \<Rightarrow> QuicGateResult \<times> QuicStreamGate" where
  "gate_data g stream_id sender input =
     (case input of
        None \<Rightarrow> gate_fail g Gate_InvalidArgument
      | Some bs \<Rightarrow>
          if gate_phase g = Phase_Failed \<or> gate_phase g = Phase_Bound then (Gate_Closed, g)
          else if gate_phase g \<noteq> Phase_Prebind \<and> gate_phase g \<noteq> Phase_Bind \<or> stream_id \<noteq> gate_stream_id g
                  \<or> dir_fin (gate_direction g sender)
          then gate_fail g Gate_ProtocolViolation
          else if length (dir_bytes (gate_direction g sender)) + length bs > 2048
          then gate_fail g Gate_Backpressure
          else
            let target = (gate_direction g sender)\<lparr>dir_bytes := dir_bytes (gate_direction g sender) @ bs\<rparr>;
                g1 = set_direction g sender target
            in if gate_preamble_complete g then gate_parse g1 sender
               else if sender \<noteq> Side_Connector then gate_fail g1 Gate_ProtocolViolation
               else if length (dir_bytes target) < 8 then (Gate_NeedMore, g1)
               else if take 8 (dir_bytes target) \<noteq> gate_preamble (gate_phase g)
               then gate_fail g1 Gate_ProtocolViolation
               else gate_parse ((set_direction g1 sender (target\<lparr>dir_bytes := drop 8 (dir_bytes target)\<rparr>))
                      \<lparr>gate_preamble_complete := True\<rparr>) sender)"

definition gate_finish :: "QuicStreamGate \<Rightarrow> u64 \<Rightarrow> TlsSideV1 \<Rightarrow> QuicGateResult \<times> QuicStreamGate" where
  "gate_finish g stream_id sender =
     (if gate_phase g = Phase_Failed \<or> gate_phase g = Phase_Bound then (Gate_Closed, g)
      else if gate_phase g \<noteq> Phase_Prebind \<and> gate_phase g \<noteq> Phase_Bind \<or> stream_id \<noteq> gate_stream_id g
              \<or> \<not> gate_preamble_complete g then gate_fail g Gate_ProtocolViolation
      else
        let target = gate_direction g sender
        in if dir_fin target \<or> dir_bytes target \<noteq> [] \<or> dir_record_index target \<noteq> expected_count g sender
           then gate_fail g Gate_ProtocolViolation
           else if gate_phase g = Phase_Bind \<and> sender = Side_Listener \<and> \<not> dir_fin (gate_connector g)
           then gate_fail g Gate_ProtocolViolation
           else
             let g1 = set_direction g sender (target\<lparr>dir_fin := True\<rparr>)
             in if \<not> dir_fin (gate_connector g1) \<or> \<not> dir_fin (gate_listener g1) then (Gate_Accepted, g1)
                else
                  let g2 = g1\<lparr>gate_prior_stream_id := gate_stream_id g1, gate_stream_id := 0\<rparr>
                  in if gate_phase g = Phase_Prebind
                     then (Gate_PrebindComplete, g2\<lparr>gate_phase := Phase_ExpectBind\<rparr>)
                     else (Gate_ChannelBound, g2\<lparr>gate_phase := Phase_Bound\<rparr>))"

definition normal_app_stream_allowed :: "QuicStreamGate \<Rightarrow> bool" where
  "normal_app_stream_allowed g = (gate_phase g = Phase_Bound)"

definition gate_failed :: "QuicStreamGate \<Rightarrow> bool" where
  "gate_failed g = (gate_phase g = Phase_Failed)"

datatype gate_call =
    GOpen u64 TlsSideV1 | GData u64 TlsSideV1 "bytes option" | GFinish u64 TlsSideV1

fun gate_step :: "QuicStreamGate \<Rightarrow> gate_call \<Rightarrow> QuicGateResult \<times> QuicStreamGate" where
  "gate_step g (GOpen stream_id opener) = open_bidi g stream_id opener"
| "gate_step g (GData stream_id sender input) = gate_data g stream_id sender input"
| "gate_step g (GFinish stream_id sender) = gate_finish g stream_id sender"

end
