(* ===== verification/Stream_Gate_Properties.thy ===== *)
theory Stream_Gate_Properties
  imports Stream_Gate
begin

text \<open>
  Correctness of the framing gate: application streams are let through only after each side sent exactly the
  records of its part of the exchange, whatever the segmentation of the bytes.
\<close>

section \<open>Framed records\<close>

fun framed :: "ExpectedRecord list \<Rightarrow> bytes \<Rightarrow> bool" where
  "framed [] bs \<longleftrightarrow> bs = []"
| "framed ((n, tag) # es) bs \<longleftrightarrow>
     n + 4 \<le> length bs \<and> unat (be32 bs 0) = n \<and> (tag \<noteq> 0 \<longrightarrow> bs ! 4 = tag) \<and> framed es (drop (n + 4) bs)"

lemma be32_front: "4 \<le> length bs \<Longrightarrow> be32 (bs @ rest) 0 = be32 bs 0"
  by (simp add: be32_def)

lemma framed_append:
  "\<lbrakk>framed es xs; framed fs ys; list_all (\<lambda>e. 0 < fst e) es\<rbrakk> \<Longrightarrow> framed (es @ fs) (xs @ ys)"
proof (induction es arbitrary: xs)
  case (Cons e es)
  obtain n tag where e: "e = (n, tag)" by (cases e)
  have len: "n + 4 \<le> length xs" "0 < n" using Cons.prems by (simp_all add: e)
  then have "(xs @ ys) ! 4 = xs ! 4" "be32 (xs @ ys) 0 = be32 xs 0"
    by (simp_all add: nth_append be32_front)
  moreover have "framed (es @ fs) (drop (n + 4) xs @ ys)" using Cons by (simp add: e)
  ultimately show ?case using Cons.prems(1) len by (simp add: e)
qed simp

section \<open>History of a stream\<close>

text \<open>The bytes a side sent on the stream opened last.\<close>

fun note_received :: "TlsSideV1 \<Rightarrow> bytes \<Rightarrow> gate_call \<Rightarrow> bytes" where
  "note_received side acc (GOpen _ _) = []"
| "note_received side acc (GData _ sender (Some bs)) = (if sender = side then acc @ bs else acc)"
| "note_received side acc _ = acc"

definition received :: "TlsSideV1 \<Rightarrow> gate_call list \<Rightarrow> bytes" where
  "received side calls = foldl (note_received side) [] calls"

lemma received_snoc: "received side (calls @ [c]) = note_received side (received side calls) c"
  by (simp add: received_def)

lemmas record_lists = kInitiatorPrebind_def kResponderPrebind_def kConnectorBind_def kListenerBind_def

lemma expected_count_length: "expected_count g side = length (expected_records g side)"
  by (simp add: expected_count_def expected_records_def record_lists)

lemma expected_pos: "list_all (\<lambda>e. 0 < fst e) (expected_records g side)"
  by (simp add: expected_records_def record_lists)

text \<open>What a side sent is what was consumed as records, and the bytes still buffered.\<close>

definition side_ok :: "QuicStreamGate \<Rightarrow> TlsSideV1 \<Rightarrow> bytes \<Rightarrow> Direction \<Rightarrow> bool" where
  "side_ok g side sent d \<longleftrightarrow>
     (\<exists>x. sent = x @ dir_bytes d \<and> dir_record_index d \<le> expected_count g side
       \<and> framed (take (dir_record_index d) (expected_records g side)) x)
     \<and> (dir_fin d \<longrightarrow> dir_bytes d = [] \<and> dir_record_index d = expected_count g side)"

lemma parse_record_ok:
  assumes "parse_record g side d = Inr d1" "side_ok g side sent d" "4 \<le> length (dir_bytes d)"
  shows "side_ok g side sent d1"
proof -
  let ?i = "dir_record_index d" and ?es = "expected_records g side"
  obtain n tag where e: "?es ! ?i = (n, tag)" by (metis prod.exhaust)
  have i: "?i < length ?es" and n: "unat (be32 (dir_bytes d) 0) = n" "n + 4 \<le> length (dir_bytes d)"
      "tag \<noteq> 0 \<longrightarrow> dir_bytes d ! 4 = tag"
      "d1 = d\<lparr>dir_bytes := drop (n + 4) (dir_bytes d), dir_record_index := ?i + 1\<rparr>"
    using assms(1) by (auto simp: parse_record_def Let_def e expected_count_length split: if_splits)
  obtain x where x: "sent = x @ dir_bytes d" "framed (take ?i ?es) x"
    using assms(2) by (auto simp: side_ok_def)
  let ?y = "take (n + 4) (dir_bytes d)"
  have pos: "0 < n" using expected_pos [of g side] i e by (auto simp: list_all_length)
  have "be32 ?y 0 = be32 (dir_bytes d) 0" by (simp add: be32_def min_def)
  then have "framed [(n, tag)] ?y" using n pos by (simp add: min_absorb2)
  moreover have "list_all (\<lambda>e. 0 < fst e) (take ?i ?es)"
    using expected_pos [of g side] by (auto simp: list_all_iff dest: in_set_takeD)
  ultimately have "framed (take (Suc ?i) ?es) (x @ ?y)"
    using framed_append [OF x(2), of "[(n, tag)]" ?y] i e by (simp add: take_Suc_conv_app_nth)
  moreover have "\<not> dir_fin d" using assms(2,3) by (auto simp: side_ok_def)
  moreover have "sent = (x @ ?y) @ drop (n + 4) (dir_bytes d)" using x(1) by simp
  ultimately show ?thesis using i n(4) unfolding side_ok_def expected_count_length by fastforce
qed

lemma parse_loop_ok:
  "side_ok g side sent d \<Longrightarrow> side_ok g side sent (snd (parse_loop g side accepted d))"
proof (induction g side accepted d rule: parse_loop.induct)
  case (1 g side accepted d)
  show ?case
  proof (cases "length (dir_bytes d) < 4")
    case True
    then show ?thesis using "1.prems" by (subst parse_loop.simps) simp
  next
    case long: False
    show ?thesis
    proof (cases "parse_record g side d")
      case (Inl r)
      then show ?thesis using "1.prems" long by (subst parse_loop.simps) simp
    next
      case (Inr d1)
      then show ?thesis
        using "1.IH" [OF long Inr] parse_record_ok [OF Inr "1.prems"] long by (subst parse_loop.simps) simp
    qed
  qed
qed

section \<open>Invariant\<close>

lemma side_ok_cong:
  "\<lbrakk>gate_phase g' = gate_phase g; gate_initiator_is_connector g' = gate_initiator_is_connector g\<rbrakk>
   \<Longrightarrow> side_ok g' side sent d = side_ok g side sent d"
  by (simp add: side_ok_def expected_records_def expected_count_def)

lemma side_ok_update [simp]:
  "side_ok (g\<lparr>gate_connector := d\<rparr>) = side_ok g" "side_ok (g\<lparr>gate_listener := d\<rparr>) = side_ok g"
  "side_ok (g\<lparr>gate_preamble_complete := b\<rparr>) = side_ok g"
  by (intro ext side_ok_cong; simp)+

text \<open>While a stream is open: before the preamble only the connector sent anything, and it is all buffered;
  afterwards both sides are as \<open>side_ok\<close> says.\<close>

definition gate_inv :: "bytes \<Rightarrow> bytes \<Rightarrow> QuicStreamGate \<Rightarrow> bool" where
  "gate_inv hc hl g \<longleftrightarrow>
     (gate_phase g = Phase_Prebind \<or> gate_phase g = Phase_Bind) \<longrightarrow>
       (if gate_preamble_complete g
        then \<exists>s. hc = gate_preamble (gate_phase g) @ s \<and> side_ok g Side_Connector s (gate_connector g)
               \<and> side_ok g Side_Listener hl (gate_listener g)
        else hc = dir_bytes (gate_connector g) \<and> dir_record_index (gate_connector g) = 0
             \<and> \<not> dir_fin (gate_connector g) \<and> hl = [] \<and> gate_listener g = new_direction)"

lemma gate_inv_closed: "\<lbrakk>gate_phase g \<noteq> Phase_Prebind; gate_phase g \<noteq> Phase_Bind\<rbrakk> \<Longrightarrow> gate_inv hc hl g"
  by (simp add: gate_inv_def)

lemma gate_fail_phase [simp]: "gate_phase (snd (gate_fail g r)) = Phase_Failed" "fst (gate_fail g r) = r"
  by (simp_all add: gate_fail_def)

lemma gate_inv_fail [simp]: "gate_inv hc hl (snd (gate_fail g r))"
  by (simp add: gate_inv_closed)

lemma set_direction_keeps [simp]:
  "gate_phase (set_direction g side d) = gate_phase g"
  "gate_initiator_is_connector (set_direction g side d) = gate_initiator_is_connector g"
  "gate_preamble_complete (set_direction g side d) = gate_preamble_complete g"
  "gate_direction (set_direction g side d) side = d"
  by (cases side; simp)+

lemma gate_parse_inv:
  assumes "gate_preamble_complete g" "gate_inv hc hl g"
  shows "gate_inv hc hl (snd (gate_parse g side))"
proof -
  obtain r d where pl: "parse_loop g side False (gate_direction g side) = (r, d)" by (metis prod.exhaust)
  have keep: "side_ok g side sent (gate_direction g side) \<Longrightarrow> side_ok g side sent d" for sent
    using parse_loop_ok [of g side sent "gate_direction g side" False] pl by simp
  show ?thesis
  proof (cases "r = Gate_ProtocolViolation")
    case True
    then show ?thesis by (simp add: gate_parse_def pl)
  next
    case False
    have "gate_inv hc hl (set_direction g side d)"
      using assms keep
      by (cases side) (auto simp: gate_inv_def)
    with False show ?thesis by (simp add: gate_parse_def pl Let_def)
  qed
qed

text \<open>Bytes appended to a buffer are bytes received.\<close>

lemma side_ok_more:
  "\<lbrakk>side_ok g side sent d; \<not> dir_fin d\<rbrakk> \<Longrightarrow> side_ok g side (sent @ bs) (d\<lparr>dir_bytes := dir_bytes d @ bs\<rparr>)"
  by (auto simp: side_ok_def)

lemma gate_inv_buffer:
  assumes "gate_inv hc hl g" "\<not> dir_fin (gate_direction g side)"
    "side = Side_Listener \<longrightarrow> gate_preamble_complete g"
  shows "gate_inv (if side = Side_Connector then hc @ bs else hc) (if side = Side_Listener then hl @ bs else hl)
    (set_direction g side ((gate_direction g side)\<lparr>dir_bytes := dir_bytes (gate_direction g side) @ bs\<rparr>))"
proof (cases "gate_preamble_complete g")
  case True
  show ?thesis
  proof (cases side)
    case Side_Connector
    then show ?thesis using assms(1,2) True by (auto simp: gate_inv_def gate_preamble_def intro!: side_ok_more)
  next
    case Side_Listener
    then show ?thesis using assms(1,2) True by (auto simp: gate_inv_def intro!: side_ok_more)
  qed
next
  case False
  then show ?thesis using assms by (cases side) (auto simp: gate_inv_def)
qed

text \<open>The preamble leaves the connector's buffer.\<close>

lemma gate_inv_preamble:
  assumes "gate_inv hc hl g" "\<not> gate_preamble_complete g" "take 8 (dir_bytes (gate_connector g)) = gate_preamble (gate_phase g)"
  shows "gate_inv hc hl (g\<lparr>gate_connector := (gate_connector g)\<lparr>dir_bytes := drop 8 (dir_bytes (gate_connector g))\<rparr>,
    gate_preamble_complete := True\<rparr>)"
proof -
  have "dir_bytes (gate_connector g) = gate_preamble (gate_phase g) @ drop 8 (dir_bytes (gate_connector g))"
    using append_take_drop_id [of 8 "dir_bytes (gate_connector g)"] assms(3) by simp
  then show ?thesis
    using assms(1,2) by (auto simp: gate_inv_def side_ok_def new_direction_def)
qed

text \<open>What \<open>data\<close> does once its guards passed.\<close>

lemma gate_data_open:
  assumes "gate_phase g = Phase_Prebind \<or> gate_phase g = Phase_Bind" "stream_id = gate_stream_id g"
    "\<not> dir_fin (gate_direction g side)" "length (dir_bytes (gate_direction g side)) + length bs \<le> 2048"
  shows "gate_data g stream_id side (Some bs) =
    (let target = (gate_direction g side)\<lparr>dir_bytes := dir_bytes (gate_direction g side) @ bs\<rparr>;
         g1 = set_direction g side target
     in if gate_preamble_complete g then gate_parse g1 side
        else if side \<noteq> Side_Connector then gate_fail g1 Gate_ProtocolViolation
        else if length (dir_bytes target) < 8 then (Gate_NeedMore, g1)
        else if take 8 (dir_bytes target) \<noteq> gate_preamble (gate_phase g) then gate_fail g1 Gate_ProtocolViolation
        else gate_parse ((set_direction g1 side (target\<lparr>dir_bytes := drop 8 (dir_bytes target)\<rparr>))
               \<lparr>gate_preamble_complete := True\<rparr>) side)"
proof -
  have "\<not> (gate_phase g = Phase_Failed \<or> gate_phase g = Phase_Bound)"
    "\<not> (gate_phase g \<noteq> Phase_Prebind \<and> gate_phase g \<noteq> Phase_Bind \<or> stream_id \<noteq> gate_stream_id g
        \<or> dir_fin (gate_direction g side))"
    "\<not> length (dir_bytes (gate_direction g side)) + length bs > 2048"
    using assms by auto
  then show ?thesis unfolding gate_data_def option.case by (simp only: if_False)
qed

lemma gate_data_refused:
  assumes "\<not> ((gate_phase g = Phase_Prebind \<or> gate_phase g = Phase_Bind) \<and> stream_id = gate_stream_id g
    \<and> \<not> dir_fin (gate_direction g side) \<and> length (dir_bytes (gate_direction g side)) + length bs \<le> 2048)"
  shows "gate_inv hc hl (snd (gate_data g stream_id side (Some bs)))"
proof (cases "gate_phase g = Phase_Failed \<or> gate_phase g = Phase_Bound")
  case True
  then show ?thesis unfolding gate_data_def option.case by (auto intro: gate_inv_closed)
next
  case False
  then show ?thesis using assms unfolding gate_data_def option.case
    by (cases "length (dir_bytes (gate_direction g side)) + length bs > 2048") auto
qed

lemma gate_data_inv:
  assumes inv: "gate_inv hc hl g"
  shows "gate_inv (note_received Side_Connector hc (GData stream_id side input))
    (note_received Side_Listener hl (GData stream_id side input)) (snd (gate_data g stream_id side input))"
proof (cases input)
  case None
  then show ?thesis by (simp add: gate_data_def)
next
  case (Some bs)
  define d where "d = (gate_direction g side)\<lparr>dir_bytes := dir_bytes (gate_direction g side) @ bs\<rparr>"
  define g1 where "g1 = set_direction g side d"
  let ?hc = "if side = Side_Connector then hc @ bs else hc" and ?hl = "if side = Side_Listener then hl @ bs else hl"
  show ?thesis
  proof (cases "(gate_phase g = Phase_Prebind \<or> gate_phase g = Phase_Bind) \<and> stream_id = gate_stream_id g
      \<and> \<not> dir_fin (gate_direction g side) \<and> length (dir_bytes (gate_direction g side)) + length bs \<le> 2048")
    case False
    then show ?thesis unfolding Some by (rule gate_data_refused)
  next
    case ok: True
    then have eq: "gate_data g stream_id side (Some bs) =
        (if gate_preamble_complete g then gate_parse g1 side
         else if side \<noteq> Side_Connector then gate_fail g1 Gate_ProtocolViolation
         else if length (dir_bytes d) < 8 then (Gate_NeedMore, g1)
         else if take 8 (dir_bytes d) \<noteq> gate_preamble (gate_phase g) then gate_fail g1 Gate_ProtocolViolation
         else gate_parse ((set_direction g1 side (d\<lparr>dir_bytes := drop 8 (dir_bytes d)\<rparr>))
               \<lparr>gate_preamble_complete := True\<rparr>) side)"
      unfolding g1_def d_def by (subst gate_data_open) (simp_all only: Let_def not_False_eq_True)
    have goal: "gate_inv ?hc ?hl (snd (gate_data g stream_id side (Some bs)))"
    proof (cases "side = Side_Listener \<and> \<not> gate_preamble_complete g")
      case True
      then show ?thesis unfolding eq by simp
    next
      case False
      then have inv1: "gate_inv ?hc ?hl g1"
        using gate_inv_buffer [OF inv, of side bs] ok unfolding g1_def d_def by blast
      have g1: "gate_preamble_complete g1 = gate_preamble_complete g" "gate_phase g1 = gate_phase g"
        by (simp_all add: g1_def)
      show ?thesis
      proof (cases "gate_preamble_complete g")
        case True
        then show ?thesis using gate_parse_inv [OF _ inv1] by (simp add: eq g1)
      next
        case pre: False
        then have side: "side = Side_Connector" using False by (cases side) simp_all
        then have conn: "gate_connector g1 = d" by (simp add: g1_def)
        show ?thesis
        proof (cases "take 8 (dir_bytes d) = gate_preamble (gate_phase g)")
          case True
          have "gate_inv ?hc ?hl (g1\<lparr>gate_connector := d\<lparr>dir_bytes := drop 8 (dir_bytes d)\<rparr>, gate_preamble_complete := True\<rparr>)"
            using gate_inv_preamble [OF inv1] True pre g1 conn by simp
          from gate_parse_inv [OF _ this, of side] show ?thesis
            unfolding eq using True pre inv1 side by simp
        next
          case False
          then show ?thesis unfolding eq using inv1 pre side by simp
        qed
      qed
    qed
    then show ?thesis by (cases side) (simp_all add: Some)
  qed
qed

lemma open_bidi_inv: "gate_inv [] [] (snd (open_bidi g stream_id opener))"
  by (auto simp: open_bidi_def gate_inv_def new_direction_def)

lemma gate_finish_inv:
  assumes "gate_inv hc hl g"
  shows "gate_inv hc hl (snd (gate_finish g stream_id side))"
proof (cases "gate_phase g = Phase_Prebind \<or> gate_phase g = Phase_Bind")
  case False
  then show ?thesis using assms by (auto simp: gate_finish_def)
next
  case True
  have fin: "side_ok g side sent d \<Longrightarrow> dir_bytes d = [] \<Longrightarrow> dir_record_index d = expected_count g side \<Longrightarrow>
      side_ok g side sent (d\<lparr>dir_fin := True\<rparr>)" for sent d
    by (simp add: side_ok_def)
  show ?thesis
    using assms True fin
    by (cases side) (auto simp: gate_finish_def Let_def gate_inv_closed gate_inv_def)
qed

lemma gate_step_inv:
  assumes "gate_inv hc hl g"
  shows "gate_inv (note_received Side_Connector hc c) (note_received Side_Listener hl c) (snd (gate_step g c))"
proof (cases c)
  case (GOpen i side)
  then show ?thesis by (simp add: open_bidi_inv)
next
  case (GData i side input)
  then show ?thesis using gate_data_inv [OF assms] by simp
next
  case (GFinish i side)
  then show ?thesis using gate_finish_inv [OF assms] by simp
qed

lemma gate_run_inv:
  "gate_inv (received Side_Connector calls) (received Side_Listener calls)
     (run_calls gate_step (new_gate kind ic) calls)"
proof (induction calls rule: rev_induct)
  case Nil
  then show ?case by (simp add: gate_inv_def new_gate_def received_def)
next
  case (snoc c calls)
  then show ?case using gate_step_inv by (simp add: run_calls_append received_snoc)
qed

section \<open>Completion\<close>

lemma side_complete:
  assumes "side_ok g side sent d" "dir_bytes d = []" "dir_record_index d = expected_count g side"
  shows "framed (expected_records g side) sent"
  using assms by (auto simp: side_ok_def expected_count_length)

text \<open>The streams of both sides are the whole exchange of phase \<open>p\<close>.\<close>

definition exact_streams :: "bool \<Rightarrow> GatePhase \<Rightarrow> gate_call list \<Rightarrow> bool" where
  "exact_streams ic p calls \<longleftrightarrow>
     (\<exists>s. received Side_Connector calls = gate_preamble p @ s
       \<and> framed (if p = Phase_Bind then kConnectorBind else if ic then kInitiatorPrebind else kResponderPrebind) s)
     \<and> framed (if p = Phase_Bind then kListenerBind else if ic then kResponderPrebind else kInitiatorPrebind)
         (received Side_Listener calls)"

lemma gate_finish_complete:
  assumes inv: "gate_inv (received Side_Connector calls) (received Side_Listener calls) g"
    and fin: "fst (gate_finish g i side) = r" "r = Gate_ChannelBound \<or> r = Gate_PrebindComplete"
  shows "gate_phase g = (if r = Gate_ChannelBound then Phase_Bind else Phase_Prebind)
    \<and> exact_streams (gate_initiator_is_connector g) (gate_phase g) calls"
proof -
  have guards: "\<not> (gate_phase g = Phase_Failed \<or> gate_phase g = Phase_Bound)"
      "\<not> (gate_phase g \<noteq> Phase_Prebind \<and> gate_phase g \<noteq> Phase_Bind \<or> i \<noteq> gate_stream_id g \<or> \<not> gate_preamble_complete g)"
      "\<not> (dir_fin (gate_direction g side) \<or> dir_bytes (gate_direction g side) \<noteq> []
          \<or> dir_record_index (gate_direction g side) \<noteq> expected_count g side)"
      "dir_fin (gate_connector (set_direction g side ((gate_direction g side)\<lparr>dir_fin := True\<rparr>)))"
      "dir_fin (gate_listener (set_direction g side ((gate_direction g side)\<lparr>dir_fin := True\<rparr>)))"
      "gate_phase g = (if r = Gate_ChannelBound then Phase_Bind else Phase_Prebind)"
    using fin unfolding gate_finish_def Let_def by (auto split: if_splits)
  obtain s where s: "received Side_Connector calls = gate_preamble (gate_phase g) @ s"
      "side_ok g Side_Connector s (gate_connector g)" "side_ok g Side_Listener (received Side_Listener calls) (gate_listener g)"
    using inv guards(1,2) by (auto simp: gate_inv_def)
  have conn: "dir_bytes (gate_connector g) = []" "dir_record_index (gate_connector g) = expected_count g Side_Connector"
    using guards(3,4) s(2) by (cases side; auto simp: side_ok_def)+
  have lis: "dir_bytes (gate_listener g) = []" "dir_record_index (gate_listener g) = expected_count g Side_Listener"
    using guards(3,5) s(3) by (cases side; auto simp: side_ok_def)+
  have "framed (expected_records g Side_Connector) s"
      "framed (expected_records g Side_Listener) (received Side_Listener calls)"
    using side_complete [OF s(2) conn] side_complete [OF s(3) lis] by simp_all
  then show ?thesis using s(1) guards(6) by (auto simp: exact_streams_def expected_records_def)
qed

text \<open>How the phase moves.\<close>

definition kept :: "QuicStreamGate \<Rightarrow> QuicGateResult \<times> QuicStreamGate \<Rightarrow> bool" where
  "kept g x \<longleftrightarrow> gate_phase (snd x) \<in> {gate_phase g, Phase_Failed}
     \<and> gate_initiator_is_connector (snd x) = gate_initiator_is_connector g
     \<and> fst x \<noteq> Gate_ChannelBound \<and> fst x \<noteq> Gate_PrebindComplete"

lemma kept_fail:
  "\<lbrakk>gate_initiator_is_connector g1 = gate_initiator_is_connector g; r \<noteq> Gate_ChannelBound; r \<noteq> Gate_PrebindComplete\<rbrakk>
   \<Longrightarrow> kept g (gate_fail g1 r)"
  by (simp add: kept_def gate_fail_def)

lemma parse_loop_result:
  "fst (parse_loop g side accepted d) \<noteq> Gate_ChannelBound \<and> fst (parse_loop g side accepted d) \<noteq> Gate_PrebindComplete"
proof (induction g side accepted d rule: parse_loop.induct)
  case (1 g side accepted d)
  show ?case
  proof (cases "length (dir_bytes d) < 4")
    case True
    then show ?thesis by (subst (1 2) parse_loop.simps) simp
  next
    case long: False
    show ?thesis
    proof (cases "parse_record g side d")
      case (Inl r)
      then have "r \<noteq> Gate_ChannelBound" "r \<noteq> Gate_PrebindComplete"
        by (auto simp: parse_record_def Let_def split: if_splits)
      then show ?thesis using Inl long by (subst (1 2) parse_loop.simps) simp
    next
      case (Inr d1)
      then show ?thesis using "1.IH" [OF long Inr] long by (subst (1 2) parse_loop.simps) simp
    qed
  qed
qed

lemma kept_parse:
  assumes "gate_phase g1 = gate_phase g" "gate_initiator_is_connector g1 = gate_initiator_is_connector g"
  shows "kept g (gate_parse g1 side)"
  using assms parse_loop_result [of g1 side False "gate_direction g1 side"]
  by (auto simp: gate_parse_def Let_def intro: kept_fail split: prod.splits) (simp_all add: kept_def)

lemma kept_data: "kept g (gate_data g i side input)"
proof (cases input)
  case None
  then show ?thesis by (simp add: gate_data_def kept_fail)
next
  case (Some bs)
  have "kept g (Gate_NeedMore, g\<lparr>gate_connector := d\<rparr>)" for d by (simp add: kept_def)
  moreover have "kept g (Gate_Closed, g)" by (simp add: kept_def)
  ultimately show ?thesis by (simp add: gate_data_def Some Let_def kept_fail kept_parse)
qed

lemma gate_step_initiator:
  "gate_initiator_is_connector (snd (gate_step g c)) = gate_initiator_is_connector g"
proof (cases c)
  case (GData i side input)
  then show ?thesis using kept_data [of g i side input] by (simp add: kept_def)
next
  case (GFinish i side)
  then show ?thesis by (simp add: gate_finish_def gate_fail_def Let_def)
qed (simp add: open_bidi_def gate_fail_def)

lemma gate_run_initiator: "gate_initiator_is_connector (run_calls gate_step (new_gate kind ic) calls) = ic"
  by (induction calls rule: rev_induct) (simp_all add: run_calls_append gate_step_initiator new_gate_def)

lemma gate_finish_cases:
  "gate_finish g i side = (Gate_Closed, g) \<and> gate_phase g \<in> {Phase_Failed, Phase_Bound}
   \<or> gate_finish g i side = gate_fail g Gate_ProtocolViolation
   \<or> (\<exists>g1. gate_finish g i side = (Gate_Accepted, g1) \<and> gate_phase g1 = gate_phase g)
   \<or> (\<exists>g1. gate_finish g i side = (Gate_PrebindComplete, g1) \<and> gate_phase g1 = Phase_ExpectBind)
   \<or> (\<exists>g1. gate_finish g i side = (Gate_ChannelBound, g1) \<and> gate_phase g1 = Phase_Bound)"
  unfolding gate_finish_def Let_def by (simp split: if_split)

lemma gate_finish_phase:
  "gate_phase (snd (gate_finish g i side)) = Phase_Bound \<Longrightarrow>
     gate_phase g = Phase_Bound \<or> fst (gate_finish g i side) = Gate_ChannelBound"
  "gate_phase (snd (gate_finish g i side)) \<in> {Phase_ExpectBind, Phase_Bind} \<Longrightarrow>
     gate_phase g \<in> {Phase_ExpectBind, Phase_Bind} \<or> fst (gate_finish g i side) = Gate_PrebindComplete"
  using gate_finish_cases [of g i side] by auto

lemma open_bidi_phase:
  "gate_phase (snd (open_bidi g i side)) = Phase_Bind \<Longrightarrow> gate_phase g = Phase_ExpectBind"
  "gate_phase (snd (open_bidi g i side)) \<in> {Phase_Prebind, Phase_Bind, Phase_Failed}"
  by (auto simp: open_bidi_def gate_fail_def split: if_splits)

lemma gate_step_phase:
  "gate_phase (snd (gate_step g c)) = Phase_Bound \<Longrightarrow>
     gate_phase g = Phase_Bound \<or> (\<exists>i side. c = GFinish i side) \<and> fst (gate_step g c) = Gate_ChannelBound"
  "gate_phase (snd (gate_step g c)) \<in> {Phase_ExpectBind, Phase_Bind} \<Longrightarrow>
     gate_phase g \<in> {Phase_ExpectBind, Phase_Bind}
     \<or> (\<exists>i side. c = GFinish i side) \<and> fst (gate_step g c) = Gate_PrebindComplete"
proof -
  show "gate_phase g = Phase_Bound \<or> (\<exists>i side. c = GFinish i side) \<and> fst (gate_step g c) = Gate_ChannelBound"
    if "gate_phase (snd (gate_step g c)) = Phase_Bound"
  proof (cases c)
    case (GOpen i side)
    then show ?thesis using that open_bidi_phase(2) [of g i side] by simp
  next
    case (GData i side input)
    then show ?thesis using that kept_data [of g i side input] by (simp add: kept_def)
  next
    case (GFinish i side)
    then show ?thesis using that gate_finish_phase(1) [of g i side] by simp
  qed
  show "gate_phase g \<in> {Phase_ExpectBind, Phase_Bind}
      \<or> (\<exists>i side. c = GFinish i side) \<and> fst (gate_step g c) = Gate_PrebindComplete"
    if "gate_phase (snd (gate_step g c)) \<in> {Phase_ExpectBind, Phase_Bind}"
  proof (cases c)
    case (GOpen i side)
    then show ?thesis using that open_bidi_phase [of g i side] by auto
  next
    case (GData i side input)
    then show ?thesis using that kept_data [of g i side input] by (auto simp: kept_def)
  next
    case (GFinish i side)
    then show ?thesis using that gate_finish_phase(2) [of g i side] by simp
  qed
qed

text \<open>A call in a run that completed the exchange of phase \<open>p\<close>, on exactly its records.\<close>

definition completed :: "BindingKindV1 \<Rightarrow> bool \<Rightarrow> GatePhase \<Rightarrow> gate_call list \<Rightarrow> gate_call \<Rightarrow> bool" where
  "completed kind ic p pre c \<longleftrightarrow>
     fst (gate_step (run_calls gate_step (new_gate kind ic) pre) c)
       = (if p = Phase_Bind then Gate_ChannelBound else Gate_PrebindComplete)
     \<and> exact_streams ic p pre"

lemma completed_finish:
  assumes "(\<exists>i side. c = GFinish i side) \<and> fst (gate_step (run_calls gate_step (new_gate kind ic) calls) c) = r"
    "r = Gate_ChannelBound \<or> r = Gate_PrebindComplete"
  shows "completed kind ic (if r = Gate_ChannelBound then Phase_Bind else Phase_Prebind) calls c"
    "gate_phase (run_calls gate_step (new_gate kind ic) calls)
       = (if r = Gate_ChannelBound then Phase_Bind else Phase_Prebind)"
proof -
  obtain i side where c: "c = GFinish i side" using assms(1) by blast
  then have "fst (gate_finish (run_calls gate_step (new_gate kind ic) calls) i side) = r" using assms(1) by simp
  from gate_finish_complete [OF gate_run_inv this assms(2)]
  show "gate_phase (run_calls gate_step (new_gate kind ic) calls)
      = (if r = Gate_ChannelBound then Phase_Bind else Phase_Prebind)"
    and "completed kind ic (if r = Gate_ChannelBound then Phase_Bind else Phase_Prebind) calls c"
    using assms by (auto simp: completed_def gate_run_initiator c split: if_splits)
qed

lemma gate_history:
  fixes calls kind ic
  defines "g \<equiv> run_calls gate_step (new_gate kind ic) calls"
  defines "reconnected past \<equiv> (\<exists>pre c post. past = pre @ c # post \<and> completed kind ic Phase_Prebind pre c)"
  shows "(gate_phase g \<in> {Phase_ExpectBind, Phase_Bind} \<and> kind = Bind_SamePathReconnect \<longrightarrow> reconnected calls)
    \<and> (gate_phase g = Phase_Bound \<longrightarrow> (\<exists>pre c post. calls = pre @ c # post \<and> completed kind ic Phase_Bind pre c
        \<and> (kind = Bind_SamePathReconnect \<longrightarrow> reconnected pre)))"
  unfolding g_def reconnected_def
proof (induction calls rule: rev_induct)
  case Nil
  then show ?case by (simp add: new_gate_def)
next
  case (snoc c calls)
  let ?g = "run_calls gate_step (new_gate kind ic) calls"
  have later: "\<exists>pre d post. calls @ [c] = pre @ d # post \<and> P pre d" if "\<exists>pre d post. calls = pre @ d # post \<and> P pre d" for P
    using that by (metis append_Cons append_assoc)
  show ?case
  proof (intro conjI impI)
    assume a: "gate_phase (run_calls gate_step (new_gate kind ic) (calls @ [c])) \<in> {Phase_ExpectBind, Phase_Bind}
      \<and> kind = Bind_SamePathReconnect"
    then have "gate_phase ?g \<in> {Phase_ExpectBind, Phase_Bind}
        \<or> (\<exists>i side. c = GFinish i side) \<and> fst (gate_step ?g c) = Gate_PrebindComplete"
      using gate_step_phase(2) [of ?g c] by (auto simp: run_calls_append)
    then show "\<exists>pre d post. calls @ [c] = pre @ d # post \<and> completed kind ic Phase_Prebind pre d"
    proof
      assume "gate_phase ?g \<in> {Phase_ExpectBind, Phase_Bind}"
      then show ?thesis using snoc a by (intro later) blast
    next
      assume "(\<exists>i side. c = GFinish i side) \<and> fst (gate_step ?g c) = Gate_PrebindComplete"
      from completed_finish(1) [OF this] have "completed kind ic Phase_Prebind calls c" by simp
      then show ?thesis by blast
    qed
  next
    assume "gate_phase (run_calls gate_step (new_gate kind ic) (calls @ [c])) = Phase_Bound"
    then have "gate_phase ?g = Phase_Bound
        \<or> (\<exists>i side. c = GFinish i side) \<and> fst (gate_step ?g c) = Gate_ChannelBound"
      using gate_step_phase(1) [of ?g c] by (simp add: run_calls_append)
    then show "\<exists>pre d post. calls @ [c] = pre @ d # post \<and> completed kind ic Phase_Bind pre d
        \<and> (kind = Bind_SamePathReconnect \<longrightarrow> (\<exists>pre' c' post'. pre = pre' @ c' # post' \<and> completed kind ic Phase_Prebind pre' c'))"
    proof
      assume "gate_phase ?g = Phase_Bound"
      then show ?thesis using snoc by (intro later) blast
    next
      assume fin: "(\<exists>i side. c = GFinish i side) \<and> fst (gate_step ?g c) = Gate_ChannelBound"
      from completed_finish [OF this]
      have "completed kind ic Phase_Bind calls c" "gate_phase ?g = Phase_Bind" by simp_all
      then show ?thesis using snoc by blast
    qed
  qed
qed

section \<open>Property\<close>

text \<open>
  C11: Application streams are let through only after a stream on which the connector sent the binding
  preamble and exactly its two records and the listener exactly its one, whatever the segmentation; a
  reconnection over the same path completed before that an exchange of exactly the five records of each
  side, in the order of their roles.
\<close>
theorem app_streams_follow_exact_bind:
  assumes "normal_app_stream_allowed (run_calls gate_step (new_gate kind ic) calls)"
  shows "\<exists>pre c post. calls = pre @ c # post \<and> completed kind ic Phase_Bind pre c
    \<and> (kind = Bind_SamePathReconnect \<longrightarrow>
        (\<exists>pre1 c1 post1. pre = pre1 @ c1 # post1 \<and> completed kind ic Phase_Prebind pre1 c1))"
  using assms gate_history [where calls = calls and kind = kind and ic = ic] by (simp add: normal_app_stream_allowed_def)

text \<open>A first connection with records of zeros, the connector's bytes in two segments.\<close>

definition bind_calls :: "gate_call list" where
  "bind_calls = [GOpen 4 Side_Connector,
     GData 4 Side_Connector (Some [0x46, 0x4E, 0x42, 0x31, 0, 1, 0, 1, 0, 0]),
     GData 4 Side_Connector (Some ([0, 248] @ replicate 248 0 @ [0, 0, 0, 128] @ replicate 128 0)),
     GData 4 Side_Listener (Some ([0, 0, 0, 248] @ replicate 248 0)),
     GFinish 4 Side_Connector, GFinish 4 Side_Listener]"

lemma bind_calls_bound: "normal_app_stream_allowed (run_calls gate_step (new_gate Bind_Initial True) bind_calls)"
  by code_simp

theorem app_streams_follow_exact_bind_witness:
  "normal_app_stream_allowed (run_calls gate_step (new_gate Bind_Initial True) bind_calls)
   \<and> (\<exists>pre c post. bind_calls = pre @ c # post \<and> completed Bind_Initial True Phase_Bind pre c)"
  using app_streams_follow_exact_bind [OF bind_calls_bound] bind_calls_bound by blast

end
