(* ===== verification/Plan_Lock_Properties.thy ===== *)
theory Plan_Lock_Properties
  imports Plan_Lock
begin

text \<open>
  Correctness of the plan lock against its specification, the list of commands of each role: whatever the
  calls, what was carried out is a beginning of that list, and a command waits for its completion before the
  next is issued. The two ends of a pairing follow complementary lists for the same plan.
\<close>

section \<open>Specification\<close>

text \<open>The commands of one end, by its role, whether it creates the bearer and whether it is to ask its user.\<close>

definition prompt_script :: "bool \<Rightarrow> InitialPlanCommandKind list" where
  "prompt_script asks = (if asks then [PersistPromptConsumed] else [])"

fun lock_script :: "PairRole \<Rightarrow> InitialPlanCommandKind list" where
  "lock_script Pair_Initiator = [PersistPlan, SendPlan, PersistAckAndLock, PersistFinal, SendFinal, PersistMutualLock]"
| "lock_script Pair_Responder = [PersistPlanAndLock, PersistAck, SendAck, PersistFinal, PersistMutualLock]"

definition script :: "PairRole \<Rightarrow> bool \<Rightarrow> bool \<Rightarrow> InitialPlanCommandKind list" where
  "script role creates asks =
     lock_script role
     @ (if creates then prompt_script asks @ [CreateBearer, PersistCredentials, PublishCredentials]
        else PersistCredentials # prompt_script asks @ [JoinBearer])"

text \<open>The phase in which an end waits for evidence before it issues a command.\<close>

fun waits_in :: "InitialPlanCommandKind \<Rightarrow> PlanPhase option" where
  "waits_in PersistPlan = Some PPhase_Plan"
| "waits_in PersistPlanAndLock = Some PPhase_Plan"
| "waits_in PersistAck = Some PPhase_Ack"
| "waits_in PersistAckAndLock = Some PPhase_Ack"
| "waits_in PersistFinal = Some PPhase_Final"
| "waits_in PersistCredentials = Some PPhase_Credentials"
| "waits_in _ = None"

section \<open>The script, position by position\<close>

fun follows :: "PairRole \<Rightarrow> bool \<Rightarrow> bool \<Rightarrow> InitialPlanCommandKind \<Rightarrow> InitialPlanCommandKind option" where
  "follows r c a PersistPlan = Some SendPlan"
| "follows r c a SendPlan = Some PersistAckAndLock"
| "follows r c a PersistAckAndLock = Some PersistFinal"
| "follows r c a PersistPlanAndLock = Some PersistAck"
| "follows r c a PersistAck = Some SendAck"
| "follows r c a SendAck = Some PersistFinal"
| "follows r c a PersistFinal = Some (if r = Pair_Initiator then SendFinal else PersistMutualLock)"
| "follows r c a SendFinal = Some PersistMutualLock"
| "follows r c a PersistMutualLock =
     Some (if c then (if a then PersistPromptConsumed else CreateBearer) else PersistCredentials)"
| "follows r c a PersistCredentials =
     Some (if c then PublishCredentials else if a then PersistPromptConsumed else JoinBearer)"
| "follows r c a PersistPromptConsumed = Some (if c then CreateBearer else JoinBearer)"
| "follows r c a CreateBearer = Some PersistCredentials"
| "follows r c a PublishCredentials = None"
| "follows r c a JoinBearer = None"

lemmas script_simps = script_def prompt_script_def

lemma script_distinct: "distinct (script r c a)"
  by (cases r; cases c; cases a) (simp_all add: script_simps)

lemma nth_positions:
  "k < 11 \<Longrightarrow> k = 0 \<or> k = 1 \<or> k = 2 \<or> k = 3 \<or> k = 4 \<or> k = 5 \<or> k = 6 \<or> k = 7 \<or> k = 8 \<or> k = 9 \<or> k = (10::nat)"
  by arith

lemma script_short: "length (script r c a) < 11"
  by (cases r; cases c; cases a) (simp_all add: script_simps)

lemma script_next:
  assumes "k < length (script r c a)"
  shows "follows r c a (script r c a ! k) = (if k + 1 < length (script r c a) then Some (script r c a ! (k + 1)) else None)"
  using assms nth_positions [of k] script_short [of r c a]
  by (cases r; cases c; cases a) (auto simp: script_simps)

lemma script_before:
  assumes "k < length (script r c a)"
  shows "script r c a ! k = PersistCredentials \<Longrightarrow> PersistMutualLock \<in> set (take k (script r c a))"
    "script r c a ! k = PersistPromptConsumed \<Longrightarrow> PersistMutualLock \<in> set (take k (script r c a))"
    "script r c a ! k = PersistPromptConsumed \<Longrightarrow> \<not> c \<Longrightarrow> PersistCredentials \<in> set (take k (script r c a))"
    "script r c a ! k = PersistCredentials \<Longrightarrow> \<not> c \<Longrightarrow> PersistPromptConsumed \<notin> set (take k (script r c a))"
    "script r c a ! k = PersistMutualLock \<Longrightarrow> PersistPromptConsumed \<notin> set (take k (script r c a))"
  using assms nth_positions [of k] script_short [of r c a]
  by (cases r; cases c; cases a; auto simp: script_simps)+

lemma script_first: "script r c a ! 0 = (if r = Pair_Initiator then PersistPlan else PersistPlanAndLock)"
  by (cases r) (simp_all add: script_simps)

section \<open>Invariant\<close>

definition lock_role :: "InitialPlanLock \<Rightarrow> InitialPlanCommandKind list" where
  "lock_role lk = script (pe_local_role (pl_pair lk)) (creator lk) (designated lk)"

lemma lock_role_update [simp]:
  "lock_role (lk\<lparr>pl_pending := p\<rparr>) = lock_role lk" "lock_role (lk\<lparr>pl_phase := ph\<rparr>) = lock_role lk"
  "lock_role (lk\<lparr>pl_next_id := n\<rparr>) = lock_role lk" "lock_role (lk\<lparr>pl_locked := b\<rparr>) = lock_role lk"
  "lock_role (lk\<lparr>pl_mutually_locked := b\<rparr>) = lock_role lk" "lock_role (lk\<lparr>pl_prompt_consumed := b\<rparr>) = lock_role lk"
  "lock_role (lk\<lparr>pl_evidence := e\<rparr>) = lock_role lk" "lock_role (lk\<lparr>pl_credential_hash := h\<rparr>) = lock_role lk"
  "lock_role (lk\<lparr>pl_failed := b\<rparr>) = lock_role lk"
  by (simp_all add: lock_role_def creator_def designated_def)

lemma role_flags_update [simp]:
  "designated (lk\<lparr>pl_pending := p\<rparr>) = designated lk" "designated (lk\<lparr>pl_phase := ph\<rparr>) = designated lk"
  "designated (lk\<lparr>pl_next_id := n\<rparr>) = designated lk" "designated (lk\<lparr>pl_mutually_locked := b\<rparr>) = designated lk"
  "designated (lk\<lparr>pl_prompt_consumed := b\<rparr>) = designated lk"
  "creator (lk\<lparr>pl_pending := p\<rparr>) = creator lk" "creator (lk\<lparr>pl_phase := ph\<rparr>) = creator lk"
  "creator (lk\<lparr>pl_mutually_locked := b\<rparr>) = creator lk" "creator (lk\<lparr>pl_prompt_consumed := b\<rparr>) = creator lk"
  by (simp_all add: creator_def designated_def)

text \<open>The evidence an end works with is bound to its pairing and its selected plan.\<close>

definition evidence_bound :: "InitialPlanLock \<Rightarrow> bool" where
  "evidence_bound lk \<longleftrightarrow>
     le_transcript (pl_evidence lk) = pe_transcript (pl_pair lk) \<and> le_selected_plan (pl_evidence lk) = pl_selected lk"

text \<open>The flags of an end that carried out the first \<open>k\<close> commands, and its position there: a command is
  pending, or evidence is awaited, or all is done.\<close>

definition base_at :: "InitialPlanLock \<Rightarrow> nat \<Rightarrow> bool" where
  "base_at lk k \<longleftrightarrow>
     \<not> pl_failed lk \<and> k \<le> length (lock_role lk)
     \<and> (pl_mutually_locked lk \<longleftrightarrow> PersistMutualLock \<in> set (take k (lock_role lk)))
     \<and> (pl_prompt_consumed lk \<longleftrightarrow> PersistPromptConsumed \<in> set (take k (lock_role lk)))
     \<and> (PersistCredentials \<in> set (take k (lock_role lk)) \<longrightarrow> nonzero (pl_credential_hash lk))
     \<and> (0 < k \<longrightarrow> evidence_bound lk)"

definition command_at :: "InitialPlanLock \<Rightarrow> nat \<Rightarrow> InitialPlanCommand \<Rightarrow> bool" where
  "command_at lk k cmd \<longleftrightarrow>
     k < length (lock_role lk) \<and> pc_kind cmd = lock_role lk ! k \<and> pl_phase lk = PPhase_Pending
     \<and> pc_id cmd = of_nat (k + 1) \<and> pl_next_id lk = of_nat (k + 2)
     \<and> pc_generation cmd = pe_generation (pl_pair lk) \<and> pc_evidence cmd = pl_evidence lk \<and> evidence_bound lk
     \<and> (pc_may_prompt cmd \<longleftrightarrow> pc_kind cmd \<in> {CreateBearer, JoinBearer} \<and> designated lk)
     \<and> (pc_kind cmd = PersistCredentials \<longrightarrow> nonzero (pl_credential_hash lk))"

definition at_position :: "InitialPlanLock \<Rightarrow> nat \<Rightarrow> bool" where
  "at_position lk k \<longleftrightarrow> base_at lk k \<and>
     (case pl_pending lk of
        None \<Rightarrow> pl_next_id lk = of_nat (k + 1)
          \<and> (if k = length (lock_role lk) then pl_phase lk = PPhase_Done
             else waits_in (lock_role lk ! k) = Some (pl_phase lk))
      | Some cmd \<Rightarrow> command_at lk k cmd)"

lemma base_at_update [simp]:
  "base_at (lk\<lparr>pl_pending := p\<rparr>) = base_at lk" "base_at (lk\<lparr>pl_phase := ph\<rparr>) = base_at lk"
  "base_at (lk\<lparr>pl_next_id := n\<rparr>) = base_at lk" "base_at (lk\<lparr>pl_locked := b\<rparr>) = base_at lk"
  by (simp_all add: base_at_def evidence_bound_def fun_eq_iff)

lemma evidence_bound_update [simp]:
  "evidence_bound (lk\<lparr>pl_pending := p\<rparr>) = evidence_bound lk" "evidence_bound (lk\<lparr>pl_phase := ph\<rparr>) = evidence_bound lk"
  "evidence_bound (lk\<lparr>pl_next_id := n\<rparr>) = evidence_bound lk"
  "evidence_bound (lk\<lparr>pl_mutually_locked := b\<rparr>) = evidence_bound lk"
  "evidence_bound (lk\<lparr>pl_prompt_consumed := b\<rparr>) = evidence_bound lk"
  "evidence_bound (lk\<lparr>pl_locked := b\<rparr>) = evidence_bound lk"
  by (simp_all add: evidence_bound_def)

lemma id_below:
  assumes "k < 20"
  shows "of_nat k \<noteq> (-1 :: u64)"
proof
  assume "of_nat k = (-1 :: u64)"
  then have "unat (of_nat (k + 1) :: u64) = unat (0 :: u64)" by (simp add: eq_neg_iff_add_eq_0 add.commute)
  then show False using assms by (simp add: unat_of_nat del: of_nat_add of_nat_Suc)
qed

lemma role_short: "k < length (lock_role lk) \<Longrightarrow> k < 11"
  using script_short unfolding lock_role_def by (metis less_trans)

lemma issue_at:
  assumes "base_at lk k" "pl_pending lk = None" "pl_next_id lk = of_nat (k + 1)" "k < length (lock_role lk)"
    "kind = lock_role lk ! k" "evidence_bound lk" "kind = PersistCredentials \<longrightarrow> nonzero (pl_credential_hash lk)"
    "may = (kind \<in> {CreateBearer, JoinBearer} \<and> designated lk)"
  shows "fst (pl_issue lk kind may) \<and> at_position (snd (pl_issue lk kind may)) k"
proof -
  have "\<not> pl_failed lk" using assms(1) by (simp add: base_at_def)
  moreover have "pl_next_id lk \<noteq> -1"
    using id_below [of "k + 1"] role_short [OF assms(4)] assms(3) by simp
  ultimately show ?thesis
    using assms by (simp add: pl_issue_def at_position_def command_at_def)
qed

lemma base_next:
  assumes "base_at lk k" "command_at lk k cmd"
  shows "base_at (lk\<lparr>pl_mutually_locked := pl_mutually_locked lk \<or> pc_kind cmd = PersistMutualLock,
      pl_prompt_consumed := pl_prompt_consumed lk \<or> pc_kind cmd = PersistPromptConsumed\<rparr>) (k + 1)"
proof -
  have k: "k < length (lock_role lk)" "pc_kind cmd = lock_role lk ! k" using assms(2) by (simp_all add: command_at_def)
  then have "set (take (Suc k) (lock_role lk)) = insert (pc_kind cmd) (set (take k (lock_role lk)))"
    by (simp add: take_Suc_conv_app_nth)
  moreover have "evidence_bound lk" "pc_kind cmd = PersistCredentials \<longrightarrow> nonzero (pl_credential_hash lk)"
    using assms(2) by (simp_all add: command_at_def)
  moreover have "\<not> pl_failed lk" "pl_mutually_locked lk \<longleftrightarrow> PersistMutualLock \<in> set (take k (lock_role lk))"
      "pl_prompt_consumed lk \<longleftrightarrow> PersistPromptConsumed \<in> set (take k (lock_role lk))"
      "PersistCredentials \<in> set (take k (lock_role lk)) \<longrightarrow> nonzero (pl_credential_hash lk)"
    using assms(1) by (simp_all add: base_at_def)
  ultimately show ?thesis using k(1) unfolding base_at_def by (simp, metis)
qed

section \<open>Completing a command\<close>

text \<open>An end between two commands: \<open>k\<close> are carried out, none is pending, the next is \<open>kind\<close>.\<close>

definition between :: "InitialPlanLock \<Rightarrow> nat \<Rightarrow> InitialPlanCommandKind option \<Rightarrow> bool" where
  "between lk k kind \<longleftrightarrow>
     base_at lk k \<and> pl_pending lk = None \<and> pl_next_id lk = of_nat (k + 1) \<and> evidence_bound lk
     \<and> (case kind of None \<Rightarrow> k = length (lock_role lk) | Some x \<Rightarrow> k < length (lock_role lk) \<and> x = lock_role lk ! k)"

lemma between_issue:
  "\<lbrakk>between lk k (Some kind); kind \<noteq> PersistCredentials; may = (kind \<in> {CreateBearer, JoinBearer} \<and> designated lk)\<rbrakk>
   \<Longrightarrow> fst (pl_issue lk kind may) \<and> at_position (snd (pl_issue lk kind may)) k"
  by (rule issue_at) (simp_all add: between_def)

lemma between_wait: "\<lbrakk>between lk k (Some kind); waits_in kind = Some ph\<rbrakk> \<Longrightarrow> at_position (lk\<lparr>pl_phase := ph\<rparr>) k"
  by (simp add: between_def at_position_def)

lemma between_end: "between lk k None \<Longrightarrow> at_position (lk\<lparr>pl_phase := PPhase_Done\<rparr>) k"
  by (auto simp: between_def at_position_def)

lemma between_locked: "between (lk\<lparr>pl_locked := b\<rparr>) = between lk"
  by (simp add: between_def fun_eq_iff split: option.split)

lemma between_next:
  assumes "at_position lk k" "pl_pending lk = Some cmd"
  shows "between (lk\<lparr>pl_pending := None, pl_mutually_locked := pl_mutually_locked lk \<or> pc_kind cmd = PersistMutualLock,
      pl_prompt_consumed := pl_prompt_consumed lk \<or> pc_kind cmd = PersistPromptConsumed\<rparr>) (k + 1)
    (follows (pe_local_role (pl_pair lk)) (creator lk) (designated lk) (pc_kind cmd))"
proof -
  have c: "base_at lk k" "command_at lk k cmd" using assms by (simp_all add: at_position_def)
  then have k: "k < length (lock_role lk)" "pc_kind cmd = lock_role lk ! k" "pl_next_id lk = of_nat (k + 2)" "evidence_bound lk"
    by (simp_all add: command_at_def)
  have "follows (pe_local_role (pl_pair lk)) (creator lk) (designated lk) (pc_kind cmd)
      = (if k + 1 < length (lock_role lk) then Some (lock_role lk ! (k + 1)) else None)"
    using script_next k(1) unfolding k(2) lock_role_def by blast
  moreover have "base_at (lk\<lparr>pl_pending := None, pl_mutually_locked := pl_mutually_locked lk \<or> pc_kind cmd = PersistMutualLock,
      pl_prompt_consumed := pl_prompt_consumed lk \<or> pc_kind cmd = PersistPromptConsumed\<rparr>) (k + 1)"
    using base_next [OF c] unfolding base_at_def by (simp add: evidence_bound_def)
  ultimately show ?thesis using k by (auto simp: between_def add.commute)
qed

lemma bearer_at:
  assumes "between lk k (Some (if creator lk then CreateBearer else JoinBearer))" "pl_mutually_locked lk"
    "designated lk \<longrightarrow> pl_prompt_consumed lk" "\<not> creator lk \<longrightarrow> nonzero (pl_credential_hash lk)"
  shows "fst (issue_bearer lk) \<and> at_position (snd (issue_bearer lk)) k"
  using assms between_issue [OF assms(1), of "designated lk"] by (auto simp: issue_bearer_def)

lemma authorize_at:
  assumes "between lk k (Some (if designated lk then PersistPromptConsumed else if creator lk then CreateBearer else JoinBearer))"
    "pl_mutually_locked lk" "\<not> pl_prompt_consumed lk" "\<not> creator lk \<longrightarrow> nonzero (pl_credential_hash lk)"
  shows "fst (authorize_bearer lk) \<and> at_position (snd (authorize_bearer lk)) k"
proof (cases "designated lk")
  case True
  then show ?thesis using assms between_issue [of lk k PersistPromptConsumed False] by (simp add: authorize_bearer_def)
next
  case False
  then show ?thesis using assms bearer_at [of lk k] by (simp add: authorize_bearer_def)
qed

lemma same_flags: "lk\<lparr>pl_pending := p, pl_mutually_locked := pl_mutually_locked lk, pl_prompt_consumed := pl_prompt_consumed lk\<rparr>
    = lk\<lparr>pl_pending := p\<rparr>"
  by (cases lk) simp

lemma complete_at:
  assumes "at_position lk k" "pl_pending lk = Some cmd"
  shows "fst (pl_complete lk (pc_id cmd) (pc_generation cmd) True)
    \<and> at_position (snd (pl_complete lk (pc_id cmd) (pc_generation cmd) True)) (k + 1)"
proof -
  let ?lk = "lk\<lparr>pl_pending := None\<rparr>"
  let ?r = "pe_local_role (pl_pair lk)"
  have base: "base_at lk k" and cmd: "command_at lk k cmd" using assms by (simp_all add: at_position_def)
  then have live: "\<not> pl_failed lk" "pc_generation cmd = pe_generation (pl_pair lk)"
    by (simp_all add: base_at_def command_at_def)
  have comp: "pl_complete lk (pc_id cmd) (pc_generation cmd) True = pl_advance ?lk (pc_kind cmd)"
    using assms(2) live by (simp add: pl_complete_def)
  have k: "k < length (script ?r (creator lk) (designated lk))" "pc_kind cmd = script ?r (creator lk) (designated lk) ! k"
    using cmd by (simp_all add: command_at_def lock_role_def)
  note before = script_before [OF k(1), folded k(2)]
  have flags: "pl_mutually_locked lk \<longleftrightarrow> PersistMutualLock \<in> set (take k (script ?r (creator lk) (designated lk)))"
      "pl_prompt_consumed lk \<longleftrightarrow> PersistPromptConsumed \<in> set (take k (script ?r (creator lk) (designated lk)))"
      "PersistCredentials \<in> set (take k (script ?r (creator lk) (designated lk))) \<longrightarrow> nonzero (pl_credential_hash lk)"
      "pc_kind cmd = PersistCredentials \<longrightarrow> nonzero (pl_credential_hash lk)"
    using base cmd by (simp_all add: base_at_def command_at_def lock_role_def)
  note next0 = between_next [OF assms]
  have plain: "between ?lk (k + 1) (follows ?r (creator lk) (designated lk) (pc_kind cmd))"
    if "pc_kind cmd \<noteq> PersistMutualLock" "pc_kind cmd \<noteq> PersistPromptConsumed"
    using next0 that by (simp add: same_flags)
  show ?thesis
    unfolding comp
  proof (cases "pc_kind cmd")
    case PersistPlan
    then show "fst (pl_advance ?lk (pc_kind cmd)) \<and> at_position (snd (pl_advance ?lk (pc_kind cmd))) (k + 1)"
      using plain between_issue [of ?lk "k + 1" SendPlan False] by simp
  next
    case PersistAck
    then show "fst (pl_advance ?lk (pc_kind cmd)) \<and> at_position (snd (pl_advance ?lk (pc_kind cmd))) (k + 1)"
      using plain between_issue [of ?lk "k + 1" SendAck False] by simp
  next
    case PersistFinal
    then show "fst (pl_advance ?lk (pc_kind cmd)) \<and> at_position (snd (pl_advance ?lk (pc_kind cmd))) (k + 1)"
      using plain between_issue [of ?lk "k + 1" SendFinal False] between_issue [of ?lk "k + 1" PersistMutualLock False]
      by (cases "pe_local_role (pl_pair lk) = Pair_Initiator") simp_all
  next
    case SendFinal
    then show "fst (pl_advance ?lk (pc_kind cmd)) \<and> at_position (snd (pl_advance ?lk (pc_kind cmd))) (k + 1)"
      using plain between_issue [of ?lk "k + 1" PersistMutualLock False] by simp
  next
    case PersistMutualLock
    let ?lk1 = "?lk\<lparr>pl_mutually_locked := True\<rparr>"
    have same: "lk\<lparr>pl_pending := None, pl_mutually_locked := True, pl_prompt_consumed := pl_prompt_consumed lk\<rparr> = ?lk1"
      by (cases lk) simp
    have n: "between ?lk1 (k + 1) (Some (if creator lk then if designated lk then PersistPromptConsumed else CreateBearer
        else PersistCredentials))"
      using next0 by (simp add: PersistMutualLock same)
    show "fst (pl_advance ?lk (pc_kind cmd)) \<and> at_position (snd (pl_advance ?lk (pc_kind cmd))) (k + 1)"
      using n authorize_at [of ?lk1 "k + 1"] between_wait [of ?lk1 "k + 1" PersistCredentials] before(5) flags(2)
      by (cases "creator lk"; cases "designated lk") (simp_all add: PersistMutualLock Let_def)
  next
    case PersistCredentials
    then show "fst (pl_advance ?lk (pc_kind cmd)) \<and> at_position (snd (pl_advance ?lk (pc_kind cmd))) (k + 1)"
      using plain between_issue [of ?lk "k + 1" PublishCredentials False] authorize_at [of ?lk "k + 1"]
        before(1,4) flags by (cases "creator lk"; cases "designated lk") simp_all
  next
    case PersistPromptConsumed
    let ?lk1 = "?lk\<lparr>pl_prompt_consumed := True\<rparr>"
    have same: "lk\<lparr>pl_pending := None, pl_mutually_locked := pl_mutually_locked lk, pl_prompt_consumed := True\<rparr> = ?lk1"
      by (cases lk) simp
    have n: "between ?lk1 (k + 1) (Some (if creator lk then CreateBearer else JoinBearer))"
      using next0 by (simp add: PersistPromptConsumed same)
    show "fst (pl_advance ?lk (pc_kind cmd)) \<and> at_position (snd (pl_advance ?lk (pc_kind cmd))) (k + 1)"
      using n bearer_at [of ?lk1 "k + 1"] before(2,3) flags
      by (cases "creator lk"; cases "designated lk") (simp_all add: PersistPromptConsumed)
  qed (use plain between_wait between_end in \<open>simp_all add: between_locked\<close>)
qed

section \<open>Accepting evidence\<close>

lemma script_roles:
  assumes "k < length (script r c a)"
  shows "script r c a ! k \<in> {PersistPlan, PersistAckAndLock} \<Longrightarrow> r = Pair_Initiator"
    "script r c a ! k \<in> {PersistPlanAndLock, PersistAck} \<Longrightarrow> r = Pair_Responder"
  using assms nth_positions [of k] script_short [of r c a]
  by (cases r; cases c; cases a; auto simp: script_simps)+

lemma waiting_kind:
  assumes "at_position lk k" "pl_phase lk = ph" "ph \<noteq> PPhase_Done" "ph \<noteq> PPhase_Pending"
  shows "pl_pending lk = None" "k < length (lock_role lk)" "waits_in (lock_role lk ! k) = Some ph"
  using assms by (auto simp: at_position_def base_at_def command_at_def split: option.splits if_splits)

lemma waiting_plan:
  assumes "at_position lk k" "pl_phase lk = PPhase_Plan"
  shows "lock_role lk ! k = (if pe_local_role (pl_pair lk) = Pair_Initiator then PersistPlan else PersistPlanAndLock)"
proof -
  note w = waiting_kind [OF assms, simplified]
  have "lock_role lk ! k = PersistPlan \<or> lock_role lk ! k = PersistPlanAndLock"
    using w(3) by (cases "lock_role lk ! k") simp_all
  then show ?thesis using script_roles w(2) unfolding lock_role_def by fastforce
qed

lemma waiting_ack:
  assumes "at_position lk k" "pl_phase lk = PPhase_Ack"
  shows "lock_role lk ! k = (if pe_local_role (pl_pair lk) = Pair_Initiator then PersistAckAndLock else PersistAck)"
proof -
  note w = waiting_kind [OF assms, simplified]
  have "lock_role lk ! k = PersistAckAndLock \<or> lock_role lk ! k = PersistAck"
    using w(3) by (cases "lock_role lk ! k") simp_all
  then show ?thesis using script_roles w(2) unfolding lock_role_def by fastforce
qed

lemma waiting_others:
  assumes "at_position lk k"
  shows "pl_phase lk = PPhase_Final \<Longrightarrow> lock_role lk ! k = PersistFinal"
    "pl_phase lk = PPhase_Credentials \<Longrightarrow> lock_role lk ! k = PersistCredentials"
proof -
  show "lock_role lk ! k = PersistFinal" if "pl_phase lk = PPhase_Final"
    using waiting_kind(3) [OF assms that] by (cases "lock_role lk ! k") simp_all
  show "lock_role lk ! k = PersistCredentials" if "pl_phase lk = PPhase_Credentials"
    using waiting_kind(3) [OF assms that] by (cases "lock_role lk ! k") simp_all
qed

lemma accept_issue:
  assumes "at_position lk k" "pl_phase lk = ph" "ph \<noteq> PPhase_Done" "ph \<noteq> PPhase_Pending" "lock_role lk ! k = kind"
    "valid_binding lk e r" "kind \<notin> {CreateBearer, JoinBearer}"
    "(kind = PersistCredentials \<longrightarrow> nonzero h) \<and> (kind \<noteq> PersistCredentials \<longrightarrow> h = pl_credential_hash lk)"
  shows "fst (pl_issue (lk\<lparr>pl_credential_hash := h, pl_evidence := e\<rparr>) kind False)
    \<and> at_position (snd (pl_issue (lk\<lparr>pl_credential_hash := h, pl_evidence := e\<rparr>) kind False)) k"
proof -
  let ?lk = "lk\<lparr>pl_credential_hash := h, pl_evidence := e\<rparr>"
  note w = waiting_kind [OF assms(1-4)]
  have bound: "evidence_bound ?lk" using assms(6) by (simp add: evidence_bound_def valid_binding_def)
  have base: "base_at lk k" and id0: "pl_next_id lk = of_nat (k + 1)"
    using assms(1) w(1) by (simp_all add: at_position_def)
  have "PersistCredentials \<in> set (take k (lock_role lk)) \<longrightarrow> nonzero h"
  proof -
    have "PersistCredentials \<in> set (take k (lock_role lk)) \<longrightarrow> nonzero (pl_credential_hash lk)"
      using base by (simp add: base_at_def)
    then show ?thesis using assms(8) by (cases "kind = PersistCredentials") simp_all
  qed
  then have now: "base_at ?lk k" using base bound unfolding base_at_def by simp
  show ?thesis
    by (rule issue_at [OF now]) (use w id0 bound assms(5,7,8) in \<open>simp_all\<close>)
qed

section \<open>Invariant of a run\<close>

definition begun :: "InitialPlanLock \<Rightarrow> bool" where
  "begun lk \<longleftrightarrow> authenticated (pl_pair lk)
     \<and> select_pair_plan (Some (pe_initiator_summary (pl_pair lk))) (Some (pe_responder_summary (pl_pair lk)))
         = (Sel_Ok, pl_selected lk)"

definition lock_inv :: "InitialPlanLock \<Rightarrow> InitialPlanCommandKind list \<Rightarrow> bool" where
  "lock_inv lk carried \<longleftrightarrow>
     (lk = new_plan_lock \<and> carried = [])
     \<or> (begun lk \<and> (\<exists>k. at_position lk k \<and> carried = take k (lock_role lk)))
     \<or> (pl_failed lk \<and> pl_pending lk = None \<and> pl_phase lk = PPhase_Done
         \<and> (carried = [] \<or> begun lk \<and> (\<exists>k \<le> length (lock_role lk). carried = take k (lock_role lk))))"

text \<open>The commands a sequence of calls carried out.\<close>

fun note_carried :: "InitialPlanLock \<Rightarrow> InitialPlanCommandKind list \<Rightarrow> plan_call \<Rightarrow> InitialPlanCommandKind list" where
  "note_carried lk carried (LComplete id0 generation success) =
     (case pl_pending lk of
        None \<Rightarrow> carried
      | Some cmd \<Rightarrow> if fst (pl_complete lk id0 generation success) then carried @ [pc_kind cmd] else carried)"
| "note_carried lk carried _ = carried"

fun carried_of :: "InitialPlanLock \<Rightarrow> InitialPlanCommandKind list \<Rightarrow> plan_call list \<Rightarrow> InitialPlanCommandKind list" where
  "carried_of lk carried [] = carried"
| "carried_of lk carried (c # cs) = carried_of (snd (plan_step lk c)) (note_carried lk carried c) cs"

lemma inv_reject: "lock_inv lk carried \<Longrightarrow> lock_inv (pl_invalidate lk) carried"
proof -
  assume inv: "lock_inv lk carried"
  have same: "lock_role (pl_invalidate lk) = lock_role lk" "begun (pl_invalidate lk) = begun lk"
    by (simp_all add: pl_invalidate_def begun_def)
  from inv have "carried = [] \<or> begun lk \<and> (\<exists>k \<le> length (lock_role lk). carried = take k (lock_role lk))"
    by (auto simp: lock_inv_def at_position_def base_at_def)
  then show ?thesis by (simp add: lock_inv_def same) (simp add: pl_invalidate_def)
qed

lemma inv_live:
  "\<lbrakk>lock_inv lk carried; \<not> pl_failed lk; pl_phase lk \<noteq> PPhase_Idle\<rbrakk>
   \<Longrightarrow> begun lk \<and> (\<exists>k. at_position lk k \<and> carried = take k (lock_role lk))"
  by (auto simp: lock_inv_def new_plan_lock_def)

lemma inv_position: "\<lbrakk>begun lk; at_position lk k\<rbrakk> \<Longrightarrow> lock_inv lk (take k (lock_role lk))"
  by (auto simp: lock_inv_def)

lemma issue_keeps:
  "begun (snd (pl_issue lk kind may)) = begun lk" "lock_role (snd (pl_issue lk kind may)) = lock_role lk"
  by (simp_all add: pl_issue_def pl_reject_def pl_invalidate_def begun_def)

lemma waits_not_idle: "waits_in kind \<noteq> Some PPhase_Idle"
  by (cases kind) simp_all

lemma inv_idle:
  assumes "lock_inv lk carried" "\<not> pl_failed lk" "pl_phase lk = PPhase_Idle"
  shows "lk = new_plan_lock \<and> carried = []"
proof -
  have "\<not> at_position lk k" for k
    using waiting_kind(3) [of lk k PPhase_Idle] waits_not_idle assms(3) by auto
  then show ?thesis using assms(1,2) by (auto simp: lock_inv_def)
qed

lemma inv_issue:
  assumes "begun lk" "fst (pl_issue lk kind may) \<and> at_position (snd (pl_issue lk kind may)) k"
  shows "lock_inv (snd (pl_issue lk kind may)) (take k (lock_role lk))"
  using inv_position [of "snd (pl_issue lk kind may)" k] assms by (simp add: issue_keeps)

lemma begun_update: "begun (lk\<lparr>pl_credential_hash := h, pl_evidence := e\<rparr>) = begun lk"
  by (simp add: begun_def)

text \<open>The accepting calls go through \<open>issue\<close> in the phase that waits for them, or reject.\<close>

lemma inv_accept:
  assumes "lock_inv lk carried" "pl_phase lk = ph" "ph \<notin> {PPhase_Idle, PPhase_Done, PPhase_Pending}"
    "\<And>k. at_position lk k \<Longrightarrow> lock_role lk ! k = kind" "valid_binding lk e r" "kind \<notin> {CreateBearer, JoinBearer}"
    "(kind = PersistCredentials \<longrightarrow> nonzero h) \<and> (kind \<noteq> PersistCredentials \<longrightarrow> h = pl_credential_hash lk)"
  shows "lock_inv (snd (pl_issue (lk\<lparr>pl_credential_hash := h, pl_evidence := e\<rparr>) kind False)) carried"
proof -
  have "\<not> pl_failed lk" using assms(5) by (simp add: valid_binding_def)
  then obtain k where k: "begun lk" "at_position lk k" "carried = take k (lock_role lk)"
    using inv_live [OF assms(1)] assms(2,3) by auto
  from accept_issue [OF k(2) assms(2) _ _ assms(4) [OF k(2)] assms(5-7)] assms(3)
  have "fst (pl_issue (lk\<lparr>pl_credential_hash := h, pl_evidence := e\<rparr>) kind False)
      \<and> at_position (snd (pl_issue (lk\<lparr>pl_credential_hash := h, pl_evidence := e\<rparr>) kind False)) k"
    by simp
  from inv_issue [OF _ this] show ?thesis using k(1,3) by (simp add: begun_update)
qed

lemma keep_credential: "lk\<lparr>pl_evidence := e\<rparr> = lk\<lparr>pl_credential_hash := pl_credential_hash lk, pl_evidence := e\<rparr>"
  by (cases lk) simp

lemma inv_begin:
  assumes "lock_inv lk carried"
  shows "lock_inv (snd (pl_begin lk evidence)) carried"
proof (cases "pl_failed lk \<or> pl_phase lk \<noteq> PPhase_Idle \<or> \<not> authenticated evidence \<or> pe_generation evidence = 0
    \<or> \<not> nonzero (pe_transcript evidence) \<or> \<not> nonzero (pe_initiator_reveal evidence)
    \<or> \<not> nonzero (pe_responder_reveal evidence) \<or> \<not> nonzero (pe_initiator_capability evidence)
    \<or> \<not> nonzero (pe_responder_capability evidence)")
  case True
  then have "pl_begin lk evidence = pl_reject lk" unfolding pl_begin_def by (simp only: if_True)
  then show ?thesis using inv_reject [OF assms] by (simp add: pl_reject_def)
next
  case False
  then have new: "lk = new_plan_lock" "carried = []" using inv_idle [OF assms] by simp_all
  have auth: "authenticated evidence" using False by simp
  obtain selection sel where sel: "select_pair_plan (Some (pe_initiator_summary evidence))
      (Some (pe_responder_summary evidence)) = (selection, sel)" by (metis prod.exhaust)
  let ?lk1 = "lk\<lparr>pl_selected := sel\<rparr>"
  have b: "pl_begin lk evidence = (if selection \<noteq> Sel_Ok
      then pl_reject (?lk1\<lparr>pl_not_supported := (selection = Sel_NoCommonPlan)\<rparr>)
      else (True, ?lk1\<lparr>pl_pair := evidence, pl_phase := PPhase_Plan\<rparr>))"
    using False unfolding pl_begin_def by (simp only: if_False sel prod.case Let_def)
  show ?thesis
  proof (cases "selection = Sel_Ok")
    case True
    let ?lk2 = "?lk1\<lparr>pl_pair := evidence, pl_phase := PPhase_Plan\<rparr>"
    have "begun ?lk2" using auth sel True by (simp add: begun_def)
    moreover have "at_position ?lk2 0"
    proof -
      have "waits_in (lock_role ?lk2 ! 0) = Some PPhase_Plan" unfolding lock_role_def script_first by simp
      moreover have "lock_role ?lk2 \<noteq> []"
        unfolding lock_role_def script_def by (cases "pe_local_role (pl_pair ?lk2)") simp_all
      ultimately show ?thesis using new by (simp add: at_position_def base_at_def new_plan_lock_def)
    qed
    ultimately show ?thesis using inv_position [of ?lk2 0] True new(2) by (simp add: b)
  next
    case False
    then show ?thesis using new(2) by (simp add: b pl_reject_def pl_invalidate_def lock_inv_def)
  qed
qed

lemma advance_keeps:
  "pl_pair (snd (pl_advance lk kind)) = pl_pair lk \<and> pl_selected (snd (pl_advance lk kind)) = pl_selected lk"
  by (cases kind) (simp_all add: pl_issue_def issue_bearer_def authorize_bearer_def pl_reject_def pl_invalidate_def Let_def)

lemma complete_keeps:
  "begun (snd (pl_complete lk i gen ok)) = begun lk" "lock_role (snd (pl_complete lk i gen ok)) = lock_role lk"
  using advance_keeps [of "lk\<lparr>pl_pending := None\<rparr>"]
  by (simp_all add: begun_def lock_role_def creator_def designated_def pl_complete_def pl_reject_def pl_invalidate_def
      split: option.split)

lemma inv_complete:
  assumes "lock_inv lk carried"
  shows "lock_inv (snd (pl_complete lk i gen ok)) (note_carried lk carried (LComplete i gen ok))"
proof (cases "pl_pending lk")
  case None
  then show ?thesis using inv_reject [OF assms] by (simp add: pl_complete_def pl_reject_def)
next
  case (Some cmd)
  show ?thesis
  proof (cases "pl_failed lk \<or> pc_id cmd \<noteq> i \<or> pc_generation cmd \<noteq> gen \<or> pe_generation (pl_pair lk) \<noteq> gen \<or> \<not> ok")
    case True
    then show ?thesis using inv_reject [OF assms] Some by (simp add: pl_complete_def pl_reject_def)
  next
    case False
    have "pl_phase lk \<noteq> PPhase_Idle"
      using assms False Some inv_idle [OF assms] by (auto simp: new_plan_lock_def)
    then obtain k where k: "begun lk" "at_position lk k" "carried = take k (lock_role lk)"
      using inv_live [OF assms] False by blast
    have same: "pl_complete lk i gen ok = pl_complete lk (pc_id cmd) (pc_generation cmd) True" using False by simp
    note c = complete_at [OF k(2) Some, folded same]
    have kind: "k < length (lock_role lk)" "pc_kind cmd = lock_role lk ! k"
      using k(2) Some by (simp_all add: at_position_def command_at_def)
    show ?thesis
      using inv_position [of "snd (pl_complete lk i gen ok)" "k + 1"] c k complete_keeps kind
      by (simp add: Some take_Suc_conv_app_nth)
  qed
qed

lemma inv_accept_plain:
  assumes "lock_inv lk carried" "pl_phase lk = ph" "ph \<notin> {PPhase_Idle, PPhase_Done, PPhase_Pending}"
    "\<And>k. at_position lk k \<Longrightarrow> lock_role lk ! k = kind" "valid_binding lk e r"
    "kind \<notin> {CreateBearer, JoinBearer, PersistCredentials}"
  shows "lock_inv (snd (pl_issue (lk\<lparr>pl_evidence := e\<rparr>) kind False)) carried"
  by (subst keep_credential, rule inv_accept [OF assms(1-5)]) (use assms(6) in simp_all)

lemma inv_plan:
  assumes "lock_inv lk carried"
  shows "lock_inv (snd (pl_accept_plan lk e)) carried"
proof (cases "pl_phase lk = PPhase_Plan \<and> valid_binding lk e Pair_Initiator")
  case True
  from inv_accept_plain [OF assms conjunct1 [OF True] _ waiting_plan conjunct2 [OF True]] True
  have "lock_inv (snd (pl_issue (lk\<lparr>pl_evidence := e\<rparr>)
      (if pe_local_role (pl_pair lk) = Pair_Initiator then PersistPlan else PersistPlanAndLock) False)) carried"
    by simp
  then show ?thesis using inv_reject [OF assms] by (simp add: pl_accept_plan_def pl_reject_def)
next
  case False
  then show ?thesis using inv_reject [OF assms] by (auto simp: pl_accept_plan_def pl_reject_def)
qed

lemma inv_ack:
  assumes "lock_inv lk carried"
  shows "lock_inv (snd (pl_accept_ack lk e)) carried"
proof (cases "pl_phase lk = PPhase_Ack \<and> valid_binding lk e Pair_Responder")
  case True
  from inv_accept_plain [OF assms conjunct1 [OF True] _ waiting_ack conjunct2 [OF True]] True
  have "lock_inv (snd (pl_issue (lk\<lparr>pl_evidence := e\<rparr>)
      (if pe_local_role (pl_pair lk) = Pair_Initiator then PersistAckAndLock else PersistAck) False)) carried"
    by simp
  then show ?thesis using inv_reject [OF assms] by (simp add: pl_accept_ack_def pl_reject_def)
next
  case False
  then show ?thesis using inv_reject [OF assms] by (auto simp: pl_accept_ack_def pl_reject_def)
qed

lemma inv_final:
  assumes "lock_inv lk carried"
  shows "lock_inv (snd (pl_accept_final lk e)) carried"
proof (cases "pl_phase lk = PPhase_Final \<and> valid_binding lk e Pair_Initiator")
  case True
  from inv_accept_plain [OF assms conjunct1 [OF True] _ waiting_others(1) conjunct2 [OF True]] True
  have "lock_inv (snd (pl_issue (lk\<lparr>pl_evidence := e\<rparr>) PersistFinal False)) carried" by simp
  then show ?thesis using inv_reject [OF assms] by (simp add: pl_accept_final_def pl_reject_def)
next
  case False
  then show ?thesis using inv_reject [OF assms] by (auto simp: pl_accept_final_def pl_reject_def)
qed

lemma inv_credentials:
  assumes "lock_inv lk carried"
  shows "lock_inv (snd (pl_accept_credentials lk e)) carried"
proof (cases "pl_phase lk = PPhase_Credentials \<and> (\<exists>r. valid_binding lk (ce_binding e) r) \<and> nonzero (ce_credential_logical_hash e)")
  case True
  then obtain r where r: "valid_binding lk (ce_binding e) r" by blast
  from inv_accept [OF assms conjunct1 [OF True] _ waiting_others(2) r, of "ce_credential_logical_hash e"] True
  have "lock_inv (snd (pl_issue (lk\<lparr>pl_credential_hash := ce_credential_logical_hash e, pl_evidence := ce_binding e\<rparr>)
      PersistCredentials False)) carried"
    by simp
  then show ?thesis using inv_reject [OF assms] by (simp add: pl_accept_credentials_def pl_reject_def Let_def)
next
  case False
  then have "pl_accept_credentials lk e = pl_reject lk"
    by (auto simp: pl_accept_credentials_def Let_def split: option.split)
  then show ?thesis using inv_reject [OF assms] by (simp add: pl_reject_def)
qed

lemma inv_step: "lock_inv lk carried \<Longrightarrow> lock_inv (snd (plan_step lk c)) (note_carried lk carried c)"
  by (cases c) (simp_all add: inv_begin inv_plan inv_ack inv_final inv_credentials inv_complete inv_reject del: note_carried.simps(1))

lemma inv_run: "lock_inv lk carried \<Longrightarrow> lock_inv (run_calls plan_step lk calls) (carried_of lk carried calls)"
  by (induction calls arbitrary: lk carried) (simp_all add: inv_step)

lemma inv_reachable: "lock_inv (run_calls plan_step new_plan_lock calls) (carried_of new_plan_lock [] calls)"
  by (rule inv_run) (simp add: lock_inv_def)

section \<open>Properties\<close>

text \<open>
  C6: Whatever calls reach one end, the commands carried out are a beginning of the list for its role, as the
  authenticated summaries select it; at most the next command of that list is outstanding, numbered in
  order, with evidence bound to this pairing and plan, allowed to prompt the user only when it creates or
  joins the bearer and this end is the one to ask; and reporting its success is always accepted.
\<close>
theorem plan_lock_follows_script:
  "let lk = run_calls plan_step new_plan_lock calls; carried = carried_of new_plan_lock [] calls in
    carried = take (length carried) (lock_role lk) \<and> (carried = [] \<or> begun lk)
    \<and> (case pl_poll lk of
         None \<Rightarrow> True
       | Some cmd \<Rightarrow> begun lk \<and> length carried < length (lock_role lk) \<and> pc_kind cmd = lock_role lk ! length carried
           \<and> pc_id cmd = of_nat (length carried + 1)
           \<and> le_transcript (pc_evidence cmd) = pe_transcript (pl_pair lk)
           \<and> le_selected_plan (pc_evidence cmd) = pl_selected lk
           \<and> (pc_may_prompt cmd \<longleftrightarrow> pc_kind cmd \<in> {CreateBearer, JoinBearer} \<and> designated lk)
           \<and> fst (pl_complete lk (pc_id cmd) (pc_generation cmd) True))"
  (is "let lk = _; carried = _ in ?P lk carried")
proof -
  define lk where "lk = run_calls plan_step new_plan_lock calls"
  define carried where "carried = carried_of new_plan_lock [] calls"
  have inv: "lock_inv lk carried" unfolding lk_def carried_def by (rule inv_reachable)
  have pre: "carried = take (length carried) (lock_role lk) \<and> (carried = [] \<or> begun lk)"
    using inv by (auto simp: lock_inv_def at_position_def base_at_def min_absorb2)
  show ?thesis
    unfolding Let_def lk_def [symmetric] carried_def [symmetric]
  proof (cases "pl_pending lk")
    case None
    then show "?P lk carried" using pre by (simp add: pl_poll_def)
  next
    case (Some cmd)
    then obtain k where k: "begun lk" "at_position lk k" "carried = take k (lock_role lk)"
      using inv by (auto simp: lock_inv_def new_plan_lock_def)
    then have cmd: "command_at lk k cmd" and len: "length carried = k"
      using Some by (auto simp: at_position_def command_at_def)
    show "?P lk carried"
      using pre cmd len k(1) complete_at [OF k(2) Some] by (simp add: pl_poll_def Some command_at_def evidence_bound_def)
  qed
qed



end
