(* ===== verification/Pair_Crypto.thy ===== *)
theory Pair_Crypto
  imports Session_Codec
begin

unbundle bit_operations_syntax

text \<open>
  Key derivation and the short authentication string of a pairing,
  \<^verbatim>\<open>shared/src/session/wire/pair_crypto.{hpp,cpp}\<close>, over the model of SHA-256. A null buffer of nonzero size
  is \<open>None\<close>; a null output pointer is the flag \<open>out\<close>. The rest shows that key expansion is the one of
  RFC 5869 and that the rejection of large candidates makes every six-digit string equally likely.
\<close>

section \<open>Model\<close>

datatype PairCryptoStatus = Crypto_Ok | Crypto_Retry | Crypto_InvalidArgument | Crypto_OutputTooLarge

definition hmac_sha256 :: "bytes \<Rightarrow> bytes \<Rightarrow> bytes" where
  "hmac_sha256 key data =
     (let key_block = (if length key > 64 then sha256 key @ replicate 32 0 else key @ replicate (64 - length key) 0);
          inner_pad = map (\<lambda>b. b XOR 0x36) key_block;
          outer_pad = map (\<lambda>b. b XOR 0x5c) key_block;
          inner_hash = sha256 (inner_pad @ data)
      in sha256 (outer_pad @ inner_hash))"

definition hkdf_extract_sha256 :: "bytes \<Rightarrow> bytes \<Rightarrow> bytes" where
  "hkdf_extract_sha256 salt ikm =
     (if length salt = 0 then hmac_sha256 (replicate 32 0) ikm else hmac_sha256 salt ikm)"

text \<open>The loop of the expansion with \<open>n\<close> bytes to write; every round writes at least one.\<close>

function hkdf_loop :: "bytes \<Rightarrow> bytes \<Rightarrow> bytes \<Rightarrow> u8 \<Rightarrow> nat \<Rightarrow> bytes" where
  "hkdf_loop prk info prior counter n =
     (if n = 0 then []
      else
        let prior1 = hmac_sha256 prk (prior @ info @ [counter]); k = min 32 n
        in take k prior1 @ hkdf_loop prk info prior1 (counter + 1) (n - k))"
  by pat_completeness auto
termination
  by (relation "measure (\<lambda>(prk, info, prior, counter, n). n)") auto

declare hkdf_loop.simps [simp del]

definition hkdf_expand_sha256 :: "bytes option \<Rightarrow> bytes option \<Rightarrow> bool \<Rightarrow> nat \<Rightarrow> PairCryptoStatus \<times> bytes" where
  "hkdf_expand_sha256 prk info out out_size =
     (case (prk, info) of
        (Some p, Some i) \<Rightarrow>
          if \<not> out \<and> out_size \<noteq> 0 then (Crypto_InvalidArgument, [])
          else if out_size > 255 * 32 then (Crypto_OutputTooLarge, [])
          else (Crypto_Ok, hkdf_loop p i [] 1 out_size)
      | _ \<Rightarrow> (Crypto_InvalidArgument, []))"

definition pair_commitment_v1 :: "bytes \<Rightarrow> bytes" where
  "pair_commitment_v1 contribution = domain_hash ''flynes-pair-commit-v1'' contribution"

text \<open>The last \<open>k\<close> decimal digits of a value, as text.\<close>

fun sas_digits :: "nat \<Rightarrow> u32 \<Rightarrow> bytes" where
  "sas_digits 0 v = []"
| "sas_digits (Suc k) v = sas_digits k (v div 10) @ [ucast (48 + v mod 10)]"

definition sas_text :: "u32 \<Rightarrow> bytes" where
  "sas_text candidate = sas_digits 6 (candidate mod 1000000)"

text \<open>The candidates in the order of the two loops, and the first that is not rejected.\<close>

definition sas_candidates :: "bytes list \<Rightarrow> u32 list" where
  "sas_candidates blocks = concat (map (\<lambda>b. map (be32 b) [0, 4, 8, 12, 16, 20, 24, 28]) blocks)"

fun first_candidate :: "u32 list \<Rightarrow> u32 option" where
  "first_candidate [] = None"
| "first_candidate (candidate # candidates) =
     (if candidate \<ge> 4294000000 then first_candidate candidates else Some candidate)"

definition pair_sas_from_blocks :: "bytes list option \<Rightarrow> bool \<Rightarrow> PairCryptoStatus \<times> bytes option" where
  "pair_sas_from_blocks input out =
     (case input of
        None \<Rightarrow> (Crypto_InvalidArgument, None)
      | Some blocks \<Rightarrow>
          if blocks = [] \<or> \<not> out then (Crypto_InvalidArgument, None)
          else case first_candidate (sas_candidates blocks) of
                 None \<Rightarrow> (Crypto_Retry, None)
               | Some candidate \<Rightarrow> (Crypto_Ok, Some (sas_text candidate)))"

text \<open>The retries from number \<open>retry\<close>, of which \<open>n\<close> are left; the loop ends because a retry number never
  passes the largest value.\<close>

fun sas_retries :: "bytes \<Rightarrow> bytes \<Rightarrow> u32 \<Rightarrow> nat \<Rightarrow> PairCryptoStatus \<times> bytes option" where
  "sas_retries sas_key transcript retry 0 = (Crypto_Retry, None)"
| "sas_retries sas_key transcript retry (Suc n) =
     (let result = hmac_sha256 sas_key (ascii ''flynes-sas-retry-v1'' @ transcript @ store_be 4 retry)
      in case pair_sas_from_blocks (Some [result]) True of
           (Crypto_Ok, text0) \<Rightarrow> (Crypto_Ok, text0)
         | _ \<Rightarrow> sas_retries sas_key transcript (retry + 1) n)"

definition derive_pair_sas_v1 :: "bytes \<Rightarrow> bytes \<Rightarrow> u32 \<Rightarrow> bool \<Rightarrow> PairCryptoStatus \<times> bytes option" where
  "derive_pair_sas_v1 sas_key transcript maximum_retry_blocks out =
     (if \<not> out then (Crypto_InvalidArgument, None)
      else
        let first = hmac_sha256 sas_key transcript
        in case pair_sas_from_blocks (Some [first]) True of
             (Crypto_Ok, text0) \<Rightarrow> (Crypto_Ok, text0)
           | _ \<Rightarrow> sas_retries sas_key transcript 1 (unat maximum_retry_blocks))"

section \<open>Key expansion\<close>

text \<open>RFC 5869: \<open>T(0)\<close> is empty, \<open>T(i + 1)\<close> authenticates \<open>T(i)\<close>, the context and the number \<open>i + 1\<close>.\<close>

fun hkdf_t :: "bytes \<Rightarrow> bytes \<Rightarrow> nat \<Rightarrow> bytes" where
  "hkdf_t prk info 0 = []"
| "hkdf_t prk info (Suc i) = hmac_sha256 prk (hkdf_t prk info i @ info @ [of_nat (Suc i)])"

lemma length_hmac: "length (hmac_sha256 key data) = 32"
  by (simp add: hmac_sha256_def Let_def)

lemma hkdf_loop_blocks:
  "n \<le> 32 * m \<Longrightarrow>
   hkdf_loop prk info (hkdf_t prk info i) (of_nat (Suc i)) n = take n (concat (map (hkdf_t prk info) [Suc i..<Suc i + m]))"
proof (induction m arbitrary: i n)
  case 0
  then show ?case by (simp add: hkdf_loop.simps)
next
  case (Suc m)
  show ?case
  proof (cases "n = 0")
    case True
    then show ?thesis by (simp add: hkdf_loop.simps)
  next
    case False
    have up: "[Suc i..<Suc i + Suc m] = Suc i # [Suc (Suc i)..<Suc (Suc i) + m]" by (simp add: upt_conv_Cons)
    have "n - min 32 n \<le> 32 * m" using Suc.prems by simp
    note IH = Suc.IH [OF this, of "Suc i"]
    have t: "hmac_sha256 prk (hkdf_t prk info i @ info @ [of_nat (Suc i)]) = hkdf_t prk info (Suc i)" by simp
    have c: "(of_nat (Suc i) :: u8) + 1 = of_nat (Suc (Suc i))" by simp
    have "hkdf_loop prk info (hkdf_t prk info i) (of_nat (Suc i)) n =
        take (min 32 n) (hkdf_t prk info (Suc i))
        @ hkdf_loop prk info (hkdf_t prk info (Suc i)) (of_nat (Suc (Suc i))) (n - min 32 n)"
      using False by (subst hkdf_loop.simps) (simp only: Let_def t c if_False)
    also have "\<dots> = take n (concat (map (hkdf_t prk info) [Suc i..<Suc i + Suc m]))"
      unfolding IH up
      by (simp add: length_hmac min_def del: upt_Suc)
    finally show ?thesis .
  qed
qed

section \<open>Candidates\<close>

lemma unat_sas: "unat (c mod 1000000 :: u32) = unat c mod 1000000"
  by (simp add: unat_mod_distrib)

lemma len8: "LENGTH(8) = 8"
  by simp

lemma unat_digit: "unat (ucast (48 + v mod 10 :: u32) :: u8) = 48 + unat v mod 10"
proof -
  have d: "unat (v mod 10) = unat v mod 10" by (simp add: unat_mod_distrib)
  have "unat (48 :: u32) + unat (v mod 10) < 2 ^ 32" unfolding d by simp
  then have "unat (48 + v mod 10) = 48 + unat v mod 10"
    using unat_add_small [of 48 "v mod 10"] by (simp add: d)
  moreover have "48 + unat v mod 10 < 2 ^ 8" by simp
  ultimately show ?thesis by (simp only: unsigned_ucast_eq unsigned_take_bit_eq len8 take_bit_nat_eq_self)
qed

lemma sas_digits_eq: "sas_digits k v = sas_digits k w \<Longrightarrow> unat v mod 10 ^ k = unat w mod 10 ^ k"
proof (induction k arbitrary: v w)
  case (Suc k)
  then have last0: "(ucast (48 + v mod 10) :: u8) = ucast (48 + w mod 10)"
    and init0: "sas_digits k (v div 10) = sas_digits k (w div 10)"
    by simp_all
  have "48 + unat v mod 10 = 48 + unat w mod 10"
    using arg_cong [OF last0, of unat] unfolding unat_digit .
  then have "unat v mod 10 = unat w mod 10" by simp
  moreover have "unat v div 10 mod 10 ^ k = unat w div 10 mod 10 ^ k"
    using Suc.IH [OF init0] by (simp add: unat_div_distrib)
  ultimately show ?case by (simp add: mod_mult2_eq)
qed simp

lemma sas_text_value:
  assumes "v < 1000000"
  shows "sas_text c = sas_digits 6 (of_nat v) \<longleftrightarrow> unat c mod 1000000 = v"
proof -
  have v: "unat (of_nat v :: u32) = v" using assms by (simp add: unat_of_nat)
  show ?thesis
  proof
    assume "sas_text c = sas_digits 6 (of_nat v)"
    then show "unat c mod 1000000 = v"
      using sas_digits_eq [of 6 "c mod 1000000" "of_nat v"] assms by (simp add: sas_text_def unat_sas v)
  next
    assume "unat c mod 1000000 = v"
    then have "c mod 1000000 = of_nat v" using v by (metis unat_sas word_unat_eq_iff)
    then show "sas_text c = sas_digits 6 (of_nat v)" by (simp add: sas_text_def)
  qed
qed

lemma card_residue:
  assumes "v < m"
  shows "card {n. n < k * m \<and> n mod m = v} = (k :: nat)"
proof -
  have "{n. n < k * m \<and> n mod m = v} = (\<lambda>j. j * m + v) ` {..<k}"
  proof (intro set_eqI iffI)
    fix n assume "n \<in> {n. n < k * m \<and> n mod m = v}"
    then have "n = n div m * m + v" "n div m < k" by (auto simp: less_mult_imp_div_less div_mult_mod_eq)
    then show "n \<in> (\<lambda>j. j * m + v) ` {..<k}" by blast
  next
    fix n assume "n \<in> (\<lambda>j. j * m + v) ` {..<k}"
    then obtain j where j: "n = j * m + v" "j < k" by blast
    have "j * m + v < Suc j * m" using assms by simp
    also have "\<dots> \<le> k * m" using j(2) by (intro mult_le_mono1) simp
    finally show "n \<in> {n. n < k * m \<and> n mod m = v}" using j assms by simp
  qed
  moreover have "inj_on (\<lambda>j. j * m + v) {..<k}" using assms by (auto intro!: inj_onI)
  ultimately show ?thesis by (simp add: card_image)
qed

section \<open>Properties\<close>

lemma first_candidate_find: "first_candidate cs = find (\<lambda>c. c < 4294000000) cs"
  by (induction cs) (auto simp: not_le)

lemma candidates_per_text:
  assumes "v < 1000000"
  shows "card {c. first_candidate [c] = Some c \<and> sas_text c = sas_digits 6 (of_nat v)} = 4294"
proof -
  let ?S = "{n. n < 4294 * 1000000 \<and> n mod 1000000 = v}"
  have "{c :: u32. first_candidate [c] = Some c \<and> sas_text c = sas_digits 6 (of_nat v)}
      = {c. unat c < 4294 * 1000000 \<and> unat c mod 1000000 = v}"
    using sas_text_value [OF assms] by (auto simp: word_le_nat_alt)
  also have "\<dots> = of_nat ` ?S"
  proof (intro set_eqI iffI)
    fix c :: u32 assume "c \<in> {c. unat c < 4294 * 1000000 \<and> unat c mod 1000000 = v}"
    then show "c \<in> of_nat ` ?S" by (intro image_eqI [of _ _ "unat c"]) simp_all
  next
    fix c :: u32 assume "c \<in> of_nat ` ?S"
    then obtain n where "c = of_nat n" "n \<in> ?S" by blast
    then show "c \<in> {c. unat c < 4294 * 1000000 \<and> unat c mod 1000000 = v}" by (simp add: unat_of_nat)
  qed
  finally have eq: "{c :: u32. first_candidate [c] = Some c \<and> sas_text c = sas_digits 6 (of_nat v)} = of_nat ` ?S" .
  have "inj_on (of_nat :: nat \<Rightarrow> u32) ?S"
  proof (rule inj_onI)
    fix x y assume "x \<in> ?S" "y \<in> ?S" "(of_nat x :: u32) = of_nat y"
    then have "unat (of_nat x :: u32) = unat (of_nat y :: u32)" by simp
    then show "x = y" using \<open>x \<in> ?S\<close> \<open>y \<in> ?S\<close> by (simp add: unat_of_nat)
  qed
  then show ?thesis unfolding eq using card_residue [OF assms, of 4294] by (simp add: card_image)
qed

text \<open>
  C13: The string derived from a list of blocks is that of their first candidate below 4294000000, and of these
  candidates exactly 4294 give each six-digit string, so that with uniform candidates every string is equally
  likely; without such a candidate the function asks for a retry.
\<close>
theorem sas_unbiased:
  assumes "v < 1000000"
  shows "pair_sas_from_blocks (Some (b # bs)) True =
      (case find (\<lambda>c. c < 4294000000) (sas_candidates (b # bs)) of
         None \<Rightarrow> (Crypto_Retry, None) | Some c \<Rightarrow> (Crypto_Ok, Some (sas_text c)))
    \<and> card {c. first_candidate [c] = Some c \<and> sas_text c = sas_digits 6 (of_nat v)} = 4294"
  using candidates_per_text [OF assms] by (simp add: pair_sas_from_blocks_def first_candidate_find)

theorem sas_unbiased_witness:
  "card {c. first_candidate [c] = Some c \<and> sas_text c = [48, 48, 48, 48, 52, 50]} = 4294
    \<and> pair_sas_from_blocks (Some [replicate 31 0 @ [7]]) True = (Crypto_Ok, Some (replicate 6 48))"
proof -
  have "sas_digits 6 (of_nat 42) = [48, 48, 48, 48, 52, 50]" by code_simp
  moreover have "pair_sas_from_blocks (Some [replicate 31 0 @ [7]]) True = (Crypto_Ok, Some (replicate 6 48))" by code_simp
  ultimately show ?thesis using sas_unbiased [of 42] by simp
qed

text \<open>
  C14: Key expansion gives the first bytes of the blocks of RFC 5869 for every size the function accepts, and
  it accepts exactly the sizes up to 255 blocks.
\<close>
theorem hkdf_expand_rfc5869:
  "hkdf_expand_sha256 (Some prk) (Some info) True n =
     (if n \<le> 8160 then (Crypto_Ok, take n (concat (map (hkdf_t prk info) [1..<256]))) else (Crypto_OutputTooLarge, []))"
  using hkdf_loop_blocks [of n 255 prk info 0] by (simp add: hkdf_expand_sha256_def)

end
