(* ===== verification/Pair_Handshake.thy ===== *)
theory Pair_Handshake
  imports Pair_Crypto Plan_Lock
begin

text \<open>
  The opening of a pairing, \<^verbatim>\<open>shared/src/session/wire/pair_handshake.{hpp,cpp}\<close>: context, commitments,
  contributions that open them, and the transcript. The check of a public key is a function the caller
  supplies, \<open>None\<close> where it is null; the enumerations of roles of the two layers have the same two values
  and are one datatype. A decoder clears its output first, so that a failing one leaves the zero value, in which
  the role 0 of the source, which is neither of the two and which nothing reads, is written as the initiator. A
  null output pointer is the flag \<open>out\<close>.
\<close>

section \<open>Messages\<close>

type_synonym P256PointValidatorV1 = "(bytes \<Rightarrow> bool) option"

record PairContextV1 =
  cx_bytes :: bytes
  cx_hash :: bytes

record PairContributionV1 =
  cn_role :: PairRole
  cn_bytes :: bytes
  cn_commitment :: bytes
  cn_identity_public_key :: bytes
  cn_ephemeral_public_key :: bytes
  cn_tls_spki_hash :: bytes
  cn_capability_summary_hash :: bytes

record PairCommitV1 =
  cm_sender :: PairRole
  cm_receiver :: PairRole
  cm_pair_context_hash :: bytes
  cm_commitment :: bytes
  cm_ephemeral_public_key :: bytes

definition zero_context :: PairContextV1 where
  "zero_context = \<lparr>cx_bytes = replicate 80 0, cx_hash = replicate 32 0\<rparr>"

definition zero_contribution :: PairContributionV1 where
  "zero_contribution = \<lparr>cn_role = Pair_Initiator, cn_bytes = replicate 320 0, cn_commitment = replicate 32 0,
     cn_identity_public_key = replicate 65 0, cn_ephemeral_public_key = replicate 65 0,
     cn_tls_spki_hash = replicate 32 0, cn_capability_summary_hash = replicate 32 0\<rparr>"

definition zero_commit :: PairCommitV1 where
  "zero_commit = \<lparr>cm_sender = Pair_Initiator, cm_receiver = Pair_Initiator, cm_pair_context_hash = replicate 32 0,
     cm_commitment = replicate 32 0, cm_ephemeral_public_key = replicate 65 0\<rparr>"

definition slice :: "bytes \<Rightarrow> nat \<Rightarrow> nat \<Rightarrow> bytes" where
  "slice bs off n = take n (drop off bs)"

definition exact_size :: "bytes option \<Rightarrow> nat \<Rightarrow> Status" where
  "exact_size input expected =
     (case input of
        None \<Rightarrow> Wire_InvalidField
      | Some bs \<Rightarrow> if length bs < expected then Wire_Truncated else if length bs > expected then Wire_Trailing else Wire_Ok)"

definition context_hash :: "bytes \<Rightarrow> bytes" where
  "context_hash bs = domain_hash ''flynes-pair-context-v1'' bs"

definition decode_pair_context_v1 :: "bytes option \<Rightarrow> bool \<Rightarrow> Status \<times> PairContextV1" where
  "decode_pair_context_v1 input out =
     (if \<not> out then (Wire_InvalidField, zero_context)
      else if exact_size input 80 \<noteq> Wire_Ok then (exact_size input 80, zero_context)
      else
        let bs = the input
        in if be16 bs 0 \<noteq> 1 \<or> be16 bs 8 \<noteq> 2 \<or> be16 bs 10 \<noteq> 0 \<or> be32 bs 48 \<noteq> 60000 then (Wire_InvalidField, zero_context)
           else if \<not> zeros bs 2 6 \<or> \<not> zeros bs 13 3 \<or> \<not> zeros bs 52 12 then (Wire_NonzeroReserved, zero_context)
           else if (bs ! 12 \<noteq> 1 \<and> bs ! 12 \<noteq> 2) \<or> zeros bs 16 16 \<or> zeros bs 32 16 \<or> zeros bs 64 16
           then (Wire_InvalidField, zero_context)
           else (Wire_Ok, \<lparr>cx_bytes = bs, cx_hash = context_hash bs\<rparr>))"

text \<open>The fields of a contribution that the checks passed.\<close>

definition contribution_of :: "PairRole \<Rightarrow> bytes \<Rightarrow> PairContributionV1" where
  "contribution_of role bs = \<lparr>cn_role = role, cn_bytes = bs, cn_commitment = pair_commitment_v1 bs,
     cn_identity_public_key = slice bs 88 65, cn_ephemeral_public_key = slice bs 153 65,
     cn_tls_spki_hash = slice bs 218 32, cn_capability_summary_hash = slice bs 282 32\<rparr>"

definition decode_pair_contribution_v1 ::
  "bytes option \<Rightarrow> PairContextV1 \<Rightarrow> PairRole \<Rightarrow> P256PointValidatorV1 \<Rightarrow> bool \<Rightarrow> Status \<times> PairContributionV1" where
  "decode_pair_contribution_v1 input expected_context expected_role validate_point out =
     (case validate_point of
        None \<Rightarrow> (Wire_InvalidField, zero_contribution)
      | Some valid \<Rightarrow>
          if \<not> out then (Wire_InvalidField, zero_contribution)
          else if exact_size input 320 \<noteq> Wire_Ok then (exact_size input 320, zero_contribution)
          else
            let bs = the input
            in if context_hash (cx_bytes expected_context) \<noteq> cx_hash expected_context \<or> be16 bs 0 \<noteq> 1 \<or> be16 bs 8 \<noteq> 2
                  \<or> be16 bs 10 \<noteq> 0 \<or> bs ! 12 \<noteq> role_byte expected_role \<or> be32 bs 80 \<noteq> 60000
                  \<or> slice bs 16 32 \<noteq> cx_hash expected_context \<or> slice bs 48 32 \<noteq> slice (cx_bytes expected_context) 16 32
               then (Wire_InvalidField, zero_contribution)
               else if \<not> zeros bs 2 6 \<or> \<not> zeros bs 13 3 \<or> \<not> zeros bs 84 4 \<or> \<not> zeros bs 314 6
               then (Wire_NonzeroReserved, zero_contribution)
               else if zeros bs 218 32 \<or> zeros bs 250 32 \<or> zeros bs 282 32 \<or> bs ! 88 \<noteq> 4 \<or> bs ! 153 \<noteq> 4
                       \<or> \<not> valid (slice bs 88 65) \<or> \<not> valid (slice bs 153 65)
               then (Wire_InvalidField, zero_contribution)
               else (Wire_Ok, contribution_of expected_role bs))"

definition encode_pair_contribution_v1 ::
  "PairContextV1 \<Rightarrow> PairRole \<Rightarrow> bytes \<Rightarrow> bytes \<Rightarrow> bytes \<Rightarrow> bytes \<Rightarrow> bytes \<Rightarrow> P256PointValidatorV1 \<Rightarrow> bool
    \<Rightarrow> Status \<times> bytes option" where
  "encode_pair_contribution_v1 context0 role identity_public_key ephemeral_public_key tls_spki_hash contribution_nonce
      capability_summary_hash validate_point out =
     (if \<not> out \<or> validate_point = None then (Wire_InvalidField, None)
      else
        let (status0, canonical) = decode_pair_context_v1 (Some (cx_bytes context0)) True
        in if status0 \<noteq> Wire_Ok \<or> cx_hash canonical \<noteq> cx_hash context0 then (Wire_InvalidField, None)
           else
             let bs = [0, 1] @ replicate 6 0 @ [0, 2, 0, 0, role_byte role] @ replicate 3 0 @ cx_hash context0
                   @ slice (cx_bytes context0) 16 32 @ store_be 4 (60000 :: u32) @ replicate 4 0
                   @ identity_public_key @ ephemeral_public_key @ tls_spki_hash @ contribution_nonce
                   @ capability_summary_hash @ replicate 6 0;
                 status = fst (decode_pair_contribution_v1 (Some bs) context0 role validate_point True)
             in (status, Some (if status \<noteq> Wire_Ok then replicate 320 0 else bs)))"

definition encode_pair_commit_v1 ::
  "PairContextV1 \<Rightarrow> PairContributionV1 \<Rightarrow> P256PointValidatorV1 \<Rightarrow> bool \<Rightarrow> Status \<times> bytes option" where
  "encode_pair_commit_v1 context0 contribution validate_point out =
     (if \<not> out \<or> validate_point = None then (Wire_InvalidField, None)
      else
        let (status, canonical) =
              decode_pair_contribution_v1 (Some (cn_bytes contribution)) context0 (cn_role contribution) validate_point True
        in if status \<noteq> Wire_Ok \<or> cn_commitment canonical \<noteq> cn_commitment contribution
              \<or> cn_identity_public_key canonical \<noteq> cn_identity_public_key contribution
              \<or> cn_ephemeral_public_key canonical \<noteq> cn_ephemeral_public_key contribution
              \<or> cn_tls_spki_hash canonical \<noteq> cn_tls_spki_hash contribution
              \<or> cn_capability_summary_hash canonical \<noteq> cn_capability_summary_hash contribution
           then (Wire_InvalidField, None)
           else (Wire_Ok, Some ([0, 1] @ replicate 6 0 @ cx_hash context0
                  @ [role_byte (cn_role contribution), role_byte (other (cn_role contribution))] @ replicate 6 0
                  @ cn_commitment contribution @ cn_ephemeral_public_key contribution @ replicate 7 0)))"

definition decode_pair_commit_v1 ::
  "bytes option \<Rightarrow> PairContextV1 \<Rightarrow> PairRole \<Rightarrow> P256PointValidatorV1 \<Rightarrow> bool \<Rightarrow> Status \<times> PairCommitV1" where
  "decode_pair_commit_v1 input expected_context expected_sender validate_point out =
     (case validate_point of
        None \<Rightarrow> (Wire_InvalidField, zero_commit)
      | Some valid \<Rightarrow>
          if \<not> out then (Wire_InvalidField, zero_commit)
          else if exact_size input 152 \<noteq> Wire_Ok then (exact_size input 152, zero_commit)
          else
            let bs = the input
            in if be16 bs 0 \<noteq> 1 \<or> bs ! 40 \<noteq> role_byte expected_sender \<or> bs ! 41 \<noteq> role_byte (other expected_sender)
                  \<or> slice bs 8 32 \<noteq> cx_hash expected_context \<or> zeros bs 48 32 \<or> bs ! 80 \<noteq> 4 \<or> \<not> valid (slice bs 80 65)
               then (Wire_InvalidField, zero_commit)
               else if \<not> zeros bs 2 6 \<or> \<not> zeros bs 42 6 \<or> \<not> zeros bs 145 7 then (Wire_NonzeroReserved, zero_commit)
               else (Wire_Ok, \<lparr>cm_sender = expected_sender, cm_receiver = other expected_sender,
                 cm_pair_context_hash = cx_hash expected_context, cm_commitment = slice bs 48 32,
                 cm_ephemeral_public_key = slice bs 80 65\<rparr>))"

definition bind_reveal_to_commit_v1 :: "PairCommitV1 \<Rightarrow> PairContributionV1 \<Rightarrow> Status" where
  "bind_reveal_to_commit_v1 commit reveal =
     (let calculated = pair_commitment_v1 (cn_bytes reveal)
      in if cm_sender commit \<noteq> cn_role reveal \<or> cn_commitment reveal \<noteq> calculated \<or> cm_commitment commit \<noteq> calculated
            \<or> slice (cn_bytes reveal) 153 65 \<noteq> cn_ephemeral_public_key reveal
            \<or> cm_ephemeral_public_key commit \<noteq> cn_ephemeral_public_key reveal
         then Wire_InvalidField else Wire_Ok)"

section \<open>The exchange\<close>

datatype PairExchangeResultV1 = Px_Accepted | Px_Ready | Px_InvalidState | Px_ProtocolViolation

datatype PxPhase =
    PxEmpty | PxInitiatorCommit | PxResponderCommit | PxInitiatorReveal | PxResponderReveal | PxReady | PxFailed

record PairExchangeV1 =
  px_validate_point :: P256PointValidatorV1
  px_phase :: PxPhase
  px_context :: PairContextV1
  px_commits :: "PairCommitV1 list"
  px_contributions :: "PairContributionV1 list"
  px_reveal_hashes :: "bytes list"

definition new_pair_exchange :: "P256PointValidatorV1 \<Rightarrow> PairExchangeV1" where
  "new_pair_exchange validate_point = \<lparr>px_validate_point = validate_point, px_phase = PxEmpty, px_context = zero_context,
     px_commits = replicate 2 zero_commit, px_contributions = replicate 2 zero_contribution,
     px_reveal_hashes = replicate 2 (replicate 32 0)\<rparr>"

definition px_reject :: "PairExchangeV1 \<Rightarrow> PairExchangeResultV1 \<times> PairExchangeV1" where
  "px_reject x = (Px_ProtocolViolation, x\<lparr>px_phase := PxFailed\<rparr>)"

definition px_begin :: "PairExchangeV1 \<Rightarrow> bytes option \<Rightarrow> PairExchangeResultV1 \<times> PairExchangeV1" where
  "px_begin x input =
     (if px_phase x \<noteq> PxEmpty \<or> px_validate_point x = None then px_reject x
      else
        let (status, decoded) = decode_pair_context_v1 input True; x1 = x\<lparr>px_context := decoded\<rparr>
        in if status \<noteq> Wire_Ok then px_reject x1 else (Px_Accepted, x1\<lparr>px_phase := PxInitiatorCommit\<rparr>))"

definition px_accept_commit :: "PairExchangeV1 \<Rightarrow> PairRole \<Rightarrow> bytes option \<Rightarrow> PairExchangeResultV1 \<times> PairExchangeV1" where
  "px_accept_commit x sender input =
     (let initiator = (px_phase x = PxInitiatorCommit \<and> sender = Pair_Initiator);
          responder = (px_phase x = PxResponderCommit \<and> sender = Pair_Responder)
      in if \<not> initiator \<and> \<not> responder then px_reject x
         else
           let index = (if initiator then 0 else 1);
               (status, decoded) = decode_pair_commit_v1 input (px_context x) sender (px_validate_point x) True;
               x1 = x\<lparr>px_commits := (px_commits x)[index := decoded]\<rparr>
           in if status \<noteq> Wire_Ok then px_reject x1
              else (Px_Accepted, x1\<lparr>px_phase := (if initiator then PxResponderCommit else PxInitiatorReveal)\<rparr>))"

definition px_accept_reveal :: "PairExchangeV1 \<Rightarrow> PairRole \<Rightarrow> bytes option \<Rightarrow> bytes
    \<Rightarrow> PairExchangeResultV1 \<times> PairExchangeV1" where
  "px_accept_reveal x sender input logical_hash =
     (let initiator = (px_phase x = PxInitiatorReveal \<and> sender = Pair_Initiator);
          responder = (px_phase x = PxResponderReveal \<and> sender = Pair_Responder)
      in if (\<not> initiator \<and> \<not> responder) \<or> \<not> nonzero logical_hash then px_reject x
         else
           let index = (if initiator then 0 else 1);
               (status, decoded) = decode_pair_contribution_v1 input (px_context x) sender (px_validate_point x) True;
               x1 = x\<lparr>px_contributions := (px_contributions x)[index := decoded]\<rparr>
           in if status \<noteq> Wire_Ok \<or> bind_reveal_to_commit_v1 (px_commits x1 ! index) decoded \<noteq> Wire_Ok then px_reject x1
              else
                let x2 = x1\<lparr>px_reveal_hashes := (px_reveal_hashes x1)[index := logical_hash]\<rparr>
                in if initiator then (Px_Accepted, x2\<lparr>px_phase := PxResponderReveal\<rparr>)
                   else (Px_Ready, x2\<lparr>px_phase := PxReady\<rparr>))"

datatype px_call = XBegin "bytes option" | XCommit PairRole "bytes option" | XReveal PairRole "bytes option" bytes

fun px_step :: "PairExchangeV1 \<Rightarrow> px_call \<Rightarrow> PairExchangeResultV1 \<times> PairExchangeV1" where
  "px_step x (XBegin input) = px_begin x input"
| "px_step x (XCommit sender input) = px_accept_commit x sender input"
| "px_step x (XReveal sender input logical_hash) = px_accept_reveal x sender input logical_hash"

section \<open>Transcript\<close>

definition transcript_preimage :: "u8 \<Rightarrow> bytes \<Rightarrow> bytes \<Rightarrow> bytes \<Rightarrow> bytes \<Rightarrow> bytes \<Rightarrow> bytes" where
  "transcript_preimage entry_mode entry_context_hash initiator_commitment responder_commitment initiator responder =
     [0, 1, 0, 0, 0, 0, 0, 0, entry_mode] @ replicate 7 0 @ entry_context_hash @ initiator_commitment
     @ responder_commitment @ initiator @ responder"

definition build_pair_transcript_preimage_v1 ::
  "u8 \<Rightarrow> bytes \<Rightarrow> bytes \<Rightarrow> bytes \<Rightarrow> PairContributionV1 \<Rightarrow> PairContributionV1 \<Rightarrow> bool \<Rightarrow> Status + bytes \<times> bytes" where
  "build_pair_transcript_preimage_v1 entry_mode entry_context_hash initiator_commitment responder_commitment initiator
      responder out =
     (if \<not> out \<or> (entry_mode \<noteq> 1 \<and> entry_mode \<noteq> 2) \<or> (entry_mode = 1 \<and> nonzero entry_context_hash)
         \<or> (entry_mode = 2 \<and> \<not> nonzero entry_context_hash) \<or> cn_role initiator \<noteq> Pair_Initiator
         \<or> cn_role responder \<noteq> Pair_Responder \<or> cn_commitment initiator \<noteq> initiator_commitment
         \<or> cn_commitment responder \<noteq> responder_commitment
      then Inl Wire_InvalidField
      else
        let preimage = transcript_preimage entry_mode entry_context_hash initiator_commitment responder_commitment
              (cn_bytes initiator) (cn_bytes responder)
        in Inr (preimage, domain_hash ''flynes-pair-transcript-v1'' preimage))"

definition canonical_low_s :: "bytes \<Rightarrow> bool" where
  "canonical_low_s signature \<longleftrightarrow>
     \<not> zeros signature 0 32 \<and> \<not> zeros signature 32 32 \<and> \<not> bytes_less p256_half_order (slice signature 32 32)"

definition build_pair_transcript_object_v1 :: "bytes \<Rightarrow> bytes \<Rightarrow> bytes \<Rightarrow> bytes \<Rightarrow> bool \<Rightarrow> Status + bytes \<times> bytes" where
  "build_pair_transcript_object_v1 preimage expected_transcript_hash initiator_signature responder_signature out =
     (if \<not> out \<or> domain_hash ''flynes-pair-transcript-v1'' preimage \<noteq> expected_transcript_hash
         \<or> \<not> canonical_low_s initiator_signature \<or> \<not> canonical_low_s responder_signature
      then Inl Wire_InvalidField
      else
        let transcript = preimage @ initiator_signature @ responder_signature
        in Inr (transcript, domain_hash ''flynes-pair-transcript-object-v1'' transcript))"

end
