(* ===== verification/Script_Machine.thy ===== *)
theory Script_Machine
  imports Fly_Prelude
begin

text \<open>
  An interface of the components that accept one order of calls: a machine that a call outside the order fails
  for good, with a goal that no failed state meets. Calls that are not \<open>live\<close> are outside the script (a request
  for a result, say) and are treated by the client. The two rules peel the script off call by call: from a state
  that only calls of one form leave unfailed, the goal is reached exactly by such a call and the script after it.
\<close>

lemma all_live [simp]: "list_all (\<lambda>_. True) cs"
  by (simp add: list_all_iff)

locale scripted_machine =
  fixes step :: "'s \<Rightarrow> 'c \<Rightarrow> 's"
    and failed :: "'s \<Rightarrow> bool"
    and goal :: "'s \<Rightarrow> bool"
    and live :: "'c \<Rightarrow> bool"
  assumes failed_step: "failed s \<Longrightarrow> failed (step s c)"
    and failed_goal: "failed s \<Longrightarrow> \<not> goal s"
begin

lemma failed_foldl: "failed s \<Longrightarrow> failed (foldl step s cs)"
  by (induction cs arbitrary: s) (simp_all add: failed_step)

lemma script_step:
  assumes "\<not> goal s"
    and step: "\<And>c. live c \<Longrightarrow> \<not> failed (step s c) \<longleftrightarrow> (\<exists>a. c = f a \<and> P a)"
    and rest: "\<And>a cs'. P a \<Longrightarrow> list_all live cs' \<Longrightarrow> goal (foldl step (step s (f a)) cs') \<longleftrightarrow> Q a cs'"
    and "list_all live cs"
  shows "goal (foldl step s cs) \<longleftrightarrow> (\<exists>a cs'. cs = f a # cs' \<and> P a \<and> Q a cs')"
proof (cases cs)
  case (Cons c cs')
  then have c: "live c" "list_all live cs'" using assms(4) by auto
  show ?thesis
    using step [OF c(1)] rest [OF _ c(2)] failed_goal [OF failed_foldl, of "step s c" cs'] Cons
    by (cases "\<exists>a. c = f a \<and> P a") auto
qed (use assms(1) in simp)

lemma script_call:
  assumes "\<not> goal s" "\<And>c. live c \<Longrightarrow> \<not> failed (step s c) \<longleftrightarrow> c = c0" "step s c0 = s'" "list_all live cs"
  shows "goal (foldl step s cs) \<longleftrightarrow> (\<exists>cs'. cs = c0 # cs' \<and> goal (foldl step s' cs'))"
proof -
  have "goal (foldl step s cs) \<longleftrightarrow> (\<exists>u :: unit. \<exists>cs'. cs = c0 # cs' \<and> True \<and> goal (foldl step s' cs'))"
    by (rule script_step) (use assms in simp_all)
  then show ?thesis by simp
qed

end

end
