(* ===== verification/Pair_Handshake_Properties.thy ===== *)
theory Pair_Handshake_Properties
  imports Pair_Handshake Script_Machine
begin

text \<open>
  The opening of a pairing has one legal order, and a contribution is accepted only when it opens the commitment
  that its sender made before it.
\<close>

section \<open>The run of an exchange\<close>

definition px_run :: "PairExchangeV1 \<Rightarrow> px_call list \<Rightarrow> PairExchangeV1" where
  "px_run = foldl (\<lambda>x c. snd (px_step x c))"

lemma px_run_simps [simp]: "px_run x [] = x" "px_run x (c # cs) = px_run (snd (px_step x c)) cs"
  by (simp_all add: px_run_def)

text \<open>The checks of the single messages, over their bytes.\<close>

definition context_accepted :: "bytes option \<Rightarrow> bool" where
  "context_accepted input \<longleftrightarrow> fst (decode_pair_context_v1 input True) = Wire_Ok"

definition context_in :: "bytes option \<Rightarrow> PairContextV1" where
  "context_in input = \<lparr>cx_bytes = the input, cx_hash = context_hash (the input)\<rparr>"

definition commit_accepted :: "P256PointValidatorV1 \<Rightarrow> PairContextV1 \<Rightarrow> PairRole \<Rightarrow> bytes option \<Rightarrow> bool" where
  "commit_accepted v cx r input \<longleftrightarrow> fst (decode_pair_commit_v1 input cx r v True) = Wire_Ok"

definition reveal_accepted :: "P256PointValidatorV1 \<Rightarrow> PairContextV1 \<Rightarrow> PairRole \<Rightarrow> bytes option \<Rightarrow> bool" where
  "reveal_accepted v cx r input \<longleftrightarrow> fst (decode_pair_contribution_v1 input cx r v True) = Wire_Ok"

definition opens :: "bytes \<Rightarrow> bytes \<Rightarrow> bool" where
  "opens commit reveal \<longleftrightarrow> slice commit 48 32 = pair_commitment_v1 reveal \<and> slice commit 80 65 = slice reveal 153 65"

definition commit_of :: "PairContextV1 \<Rightarrow> PairRole \<Rightarrow> bytes \<Rightarrow> PairCommitV1" where
  "commit_of cx r bs = \<lparr>cm_sender = r, cm_receiver = other r, cm_pair_context_hash = cx_hash cx,
     cm_commitment = slice bs 48 32, cm_ephemeral_public_key = slice bs 80 65\<rparr>"

lemma context_accepted_in: "context_accepted input \<Longrightarrow> snd (decode_pair_context_v1 input True) = context_in input"
  by (auto simp: context_accepted_def context_in_def decode_pair_context_v1_def Let_def split: if_splits)

lemma commit_accepted_of:
  "commit_accepted v cx r input \<Longrightarrow> snd (decode_pair_commit_v1 input cx r v True) = commit_of cx r (the input)"
  by (simp add: commit_accepted_def commit_of_def decode_pair_commit_v1_def Let_def split: if_splits option.splits)

lemma reveal_accepted_of:
  "reveal_accepted v cx r input \<Longrightarrow> snd (decode_pair_contribution_v1 input cx r v True) = contribution_of r (the input)"
  by (simp add: reveal_accepted_def decode_pair_contribution_v1_def Let_def split: if_splits option.splits)

lemma bind_opens:
  "bind_reveal_to_commit_v1 (commit_of cx r a) (contribution_of r b) = Wire_Ok \<longleftrightarrow> opens a b"
  by (auto simp: bind_reveal_to_commit_v1_def commit_of_def contribution_of_def opens_def Let_def)

section \<open>The steps of each phase\<close>

text \<open>Everything but the next message of the order fails the exchange.\<close>

lemma step_empty:
  assumes "px_phase x = PxEmpty"
  shows "px_phase (snd (px_step x c)) \<noteq> PxFailed \<longleftrightarrow>
      (\<exists>input. c = XBegin input \<and> px_validate_point x \<noteq> None \<and> context_accepted input)"
    "px_phase (snd (px_step x (XBegin input))) \<noteq> PxFailed \<Longrightarrow>
      snd (px_step x (XBegin input)) = x\<lparr>px_context := context_in input, px_phase := PxInitiatorCommit\<rparr>"
   using assms
   by (cases c; simp add: px_begin_def px_accept_commit_def px_accept_reveal_def px_reject_def context_accepted_def
        case_prod_beta Let_def)
     (use assms in \<open>simp add: px_begin_def px_reject_def case_prod_beta Let_def
        context_accepted_in [unfolded context_accepted_def] split: if_splits\<close>)

lemma step_commit:
  assumes "(px_phase x, r, i, next_phase) \<in> {(PxInitiatorCommit, Pair_Initiator, 0, PxResponderCommit),
      (PxResponderCommit, Pair_Responder, 1, PxInitiatorReveal)}"
  shows "px_phase (snd (px_step x c)) \<noteq> PxFailed \<longleftrightarrow>
      (\<exists>input. c = XCommit r input \<and> commit_accepted (px_validate_point x) (px_context x) r input)"
    "px_phase (snd (px_step x (XCommit r input))) \<noteq> PxFailed \<Longrightarrow>
      snd (px_step x (XCommit r input)) =
        x\<lparr>px_commits := (px_commits x)[i := commit_of (px_context x) r (the input)], px_phase := next_phase\<rparr>"
proof -
  show "px_phase (snd (px_step x c)) \<noteq> PxFailed \<longleftrightarrow>
      (\<exists>input. c = XCommit r input \<and> commit_accepted (px_validate_point x) (px_context x) r input)"
    using assms
    by (cases c) (auto simp: px_begin_def px_accept_commit_def px_accept_reveal_def px_reject_def commit_accepted_def
        case_prod_beta Let_def)
  show "snd (px_step x (XCommit r input)) =
        x\<lparr>px_commits := (px_commits x)[i := commit_of (px_context x) r (the input)], px_phase := next_phase\<rparr>"
    if "px_phase (snd (px_step x (XCommit r input))) \<noteq> PxFailed"
    using assms that
    by (auto simp: px_accept_commit_def px_reject_def case_prod_beta Let_def
        commit_accepted_of [unfolded commit_accepted_def] split: if_splits)
qed

lemma step_reveal:
  assumes "(px_phase x, r, i, next_phase) \<in> {(PxInitiatorReveal, Pair_Initiator, 0, PxResponderReveal),
      (PxResponderReveal, Pair_Responder, 1, PxReady)}"
    and "i < length (px_contributions x)" "px_commits x ! i = commit_of (px_context x) r a"
  shows "px_phase (snd (px_step x c)) \<noteq> PxFailed \<longleftrightarrow>
      (\<exists>input h. c = XReveal r input h \<and> nonzero h \<and> reveal_accepted (px_validate_point x) (px_context x) r input
         \<and> opens a (the input))"
    "px_phase (snd (px_step x (XReveal r input h))) \<noteq> PxFailed \<Longrightarrow>
      snd (px_step x (XReveal r input h)) =
        x\<lparr>px_contributions := (px_contributions x)[i := contribution_of r (the input)],
          px_reveal_hashes := (px_reveal_hashes x)[i := h], px_phase := next_phase\<rparr>"
proof -
  have accepted: "px_phase (snd (px_step x (XReveal r input h))) \<noteq> PxFailed \<longleftrightarrow>
      nonzero h \<and> reveal_accepted (px_validate_point x) (px_context x) r input \<and> opens a (the input)" for input h
    using assms
    by (auto simp: px_accept_reveal_def px_reject_def case_prod_beta Let_def reveal_accepted_def bind_opens
        reveal_accepted_of [unfolded reveal_accepted_def])
  show "px_phase (snd (px_step x c)) \<noteq> PxFailed \<longleftrightarrow>
      (\<exists>input h. c = XReveal r input h \<and> nonzero h \<and> reveal_accepted (px_validate_point x) (px_context x) r input
         \<and> opens a (the input))"
  proof (cases "\<exists>input h. c = XReveal r input h")
    case True
    then show ?thesis using accepted by blast
  next
    case False
    then show ?thesis
      using assms
      by (cases c) (auto simp: px_begin_def px_accept_commit_def px_accept_reveal_def px_reject_def)
  qed
  show "snd (px_step x (XReveal r input h)) =
        x\<lparr>px_contributions := (px_contributions x)[i := contribution_of r (the input)],
          px_reveal_hashes := (px_reveal_hashes x)[i := h], px_phase := next_phase\<rparr>"
    if "px_phase (snd (px_step x (XReveal r input h))) \<noteq> PxFailed"
    using assms that accepted [of input h]
    by (auto simp: px_accept_reveal_def px_reject_def case_prod_beta Let_def bind_opens
        reveal_accepted_of [unfolded reveal_accepted_def] reveal_accepted_def)
qed

lemma step_ready: "px_phase x \<in> {PxReady, PxFailed} \<Longrightarrow> px_phase (snd (px_step x c)) = PxFailed"
  by (cases c) (auto simp: px_begin_def px_accept_commit_def px_accept_reveal_def px_reject_def)

interpretation px: scripted_machine "\<lambda>x c. snd (px_step x c)" "\<lambda>x. px_phase x = PxFailed" "\<lambda>x. px_phase x = PxReady" "\<lambda>_. True"
  by unfold_locales (simp_all add: step_ready)

lemma ready_ends: "px_phase x = PxReady \<Longrightarrow> px_phase (px_run x cs) = PxReady \<longleftrightarrow> cs = []"
  using px.failed_foldl [OF step_ready] by (cases cs) (simp_all add: px_run_def)

lemmas reaches_ready = px.script_step [folded px_run_def, simplified]

section \<open>The legal order\<close>

lemma from_responder_reveal:
  assumes "px_phase x = PxResponderReveal" "length (px_contributions x) = 2"
    and commit: "px_commits x ! 1 = commit_of (px_context x) Pair_Responder a"
  shows "px_phase (px_run x cs) = PxReady \<longleftrightarrow>
    (\<exists>j k. cs = [XReveal Pair_Responder j k] \<and> nonzero k
       \<and> reveal_accepted (px_validate_point x) (px_context x) Pair_Responder j \<and> opens a (the j))"
proof -
  let ?P = "\<lambda>(j, k). nonzero k \<and> reveal_accepted (px_validate_point x) (px_context x) Pair_Responder j \<and> opens a (the j)"
  have set: "(px_phase x, Pair_Responder, 1, PxReady) \<in> {(PxInitiatorReveal, Pair_Initiator, 0, PxResponderReveal),
      (PxResponderReveal, Pair_Responder, 1, PxReady)}" "1 < length (px_contributions x)"
    using assms(1,2) by simp_all
  note st = step_reveal [OF set commit]
  have "px_phase (px_run x cs) = PxReady \<longleftrightarrow>
      (\<exists>m cs'. cs = (case m of (j, k) \<Rightarrow> XReveal Pair_Responder j k) # cs' \<and> ?P m \<and> cs' = [])"
  proof (rule reaches_ready)
    show "px_phase (snd (px_step x c)) \<noteq> PxFailed \<longleftrightarrow> (\<exists>m. c = (case m of (j, k) \<Rightarrow> XReveal Pair_Responder j k) \<and> ?P m)" for c
      unfolding st(1) by auto
    show "px_phase (px_run (snd (px_step x (case m of (j, k) \<Rightarrow> XReveal Pair_Responder j k))) cs') = PxReady \<longleftrightarrow> cs' = []"
      if "?P m" for m cs'
    proof -
      obtain j k where m: "m = (j, k)" by (cases m)
      have "px_phase (snd (px_step x (XReveal Pair_Responder j k))) \<noteq> PxFailed"
        unfolding st(1) using that m by auto
      from st(2) [OF this] show ?thesis unfolding m by (simp add: ready_ends)
    qed
  qed (use assms(1) in simp)
  then show ?thesis by auto
qed

lemma from_initiator_reveal:
  assumes "px_phase x = PxInitiatorReveal" "length (px_contributions x) = 2"
    and commit: "px_commits x ! 0 = commit_of (px_context x) Pair_Initiator a"
    and other: "px_commits x ! 1 = commit_of (px_context x) Pair_Responder b"
  shows "px_phase (px_run x cs) = PxReady \<longleftrightarrow>
    (\<exists>i h j k. cs = [XReveal Pair_Initiator i h, XReveal Pair_Responder j k] \<and> nonzero h \<and> nonzero k
       \<and> reveal_accepted (px_validate_point x) (px_context x) Pair_Initiator i \<and> opens a (the i)
       \<and> reveal_accepted (px_validate_point x) (px_context x) Pair_Responder j \<and> opens b (the j))"
proof -
  let ?P = "\<lambda>(i, h). nonzero h \<and> reveal_accepted (px_validate_point x) (px_context x) Pair_Initiator i \<and> opens a (the i)"
  let ?Q = "\<lambda>m cs'. \<exists>j k. cs' = [XReveal Pair_Responder j k] \<and> nonzero k
     \<and> reveal_accepted (px_validate_point x) (px_context x) Pair_Responder j \<and> opens b (the j)"
  have set: "(px_phase x, Pair_Initiator, 0, PxResponderReveal) \<in> {(PxInitiatorReveal, Pair_Initiator, 0, PxResponderReveal),
      (PxResponderReveal, Pair_Responder, 1, PxReady)}" "0 < length (px_contributions x)"
    using assms(1,2) by simp_all
  note st = step_reveal [OF set commit]
  have "px_phase (px_run x cs) = PxReady \<longleftrightarrow>
      (\<exists>m cs'. cs = (case m of (i, h) \<Rightarrow> XReveal Pair_Initiator i h) # cs' \<and> ?P m \<and> ?Q m cs')"
  proof (rule reaches_ready)
    show "px_phase (snd (px_step x c)) \<noteq> PxFailed \<longleftrightarrow> (\<exists>m. c = (case m of (i, h) \<Rightarrow> XReveal Pair_Initiator i h) \<and> ?P m)" for c
      unfolding st(1) by auto
    show "px_phase (px_run (snd (px_step x (case m of (i, h) \<Rightarrow> XReveal Pair_Initiator i h))) cs') = PxReady \<longleftrightarrow> ?Q m cs'"
      if "?P m" for m cs'
    proof -
      obtain i h where m: "m = (i, h)" by (cases m)
      have "px_phase (snd (px_step x (XReveal Pair_Initiator i h))) \<noteq> PxFailed"
        unfolding st(1) using that m by auto
      from st(2) [OF this] show ?thesis
        unfolding m using assms(2) other by (subst from_responder_reveal) simp_all
    qed
  qed (use assms(1) in simp)
  then show ?thesis by auto
qed

lemma from_responder_commit:
  assumes "px_phase x = PxResponderCommit" "length (px_contributions x) = 2" "length (px_commits x) = 2"
    and commit: "px_commits x ! 0 = commit_of (px_context x) Pair_Initiator a"
  shows "px_phase (px_run x cs) = PxReady \<longleftrightarrow>
    (\<exists>d i h j k. cs = [XCommit Pair_Responder d, XReveal Pair_Initiator i h, XReveal Pair_Responder j k]
       \<and> nonzero h \<and> nonzero k \<and> commit_accepted (px_validate_point x) (px_context x) Pair_Responder d
       \<and> reveal_accepted (px_validate_point x) (px_context x) Pair_Initiator i \<and> opens a (the i)
       \<and> reveal_accepted (px_validate_point x) (px_context x) Pair_Responder j \<and> opens (the d) (the j))"
    (is "_ \<longleftrightarrow> ?R")
proof -
  let ?Q = "\<lambda>d cs'. \<exists>i h j k. cs' = [XReveal Pair_Initiator i h, XReveal Pair_Responder j k] \<and> nonzero h \<and> nonzero k
       \<and> reveal_accepted (px_validate_point x) (px_context x) Pair_Initiator i \<and> opens a (the i)
       \<and> reveal_accepted (px_validate_point x) (px_context x) Pair_Responder j \<and> opens (the d) (the j)"
  have set: "(px_phase x, Pair_Responder, 1, PxInitiatorReveal) \<in> {(PxInitiatorCommit, Pair_Initiator, 0, PxResponderCommit),
      (PxResponderCommit, Pair_Responder, 1, PxInitiatorReveal)}"
    using assms(1) by simp
  note st = step_commit [OF set]
  have "px_phase (px_run x cs) = PxReady \<longleftrightarrow> (\<exists>d cs'. cs = XCommit Pair_Responder d # cs'
      \<and> commit_accepted (px_validate_point x) (px_context x) Pair_Responder d \<and> ?Q d cs')"
  proof (rule reaches_ready)
    show "px_phase (px_run (snd (px_step x (XCommit Pair_Responder d))) cs') = PxReady \<longleftrightarrow> ?Q d cs'"
      if d: "commit_accepted (px_validate_point x) (px_context x) Pair_Responder d" for d cs'
    proof -
      have "px_phase (snd (px_step x (XCommit Pair_Responder d))) \<noteq> PxFailed"
        unfolding st(1) using d by blast
      from st(2) [OF this] show ?thesis
        using assms(2,3) commit by (subst from_initiator_reveal) simp_all
    qed
  qed (use assms(1) st(1) in simp_all)
  also have "\<dots> \<longleftrightarrow> ?R" by auto
  finally show ?thesis .
qed

lemma from_initiator_commit:
  assumes "px_phase x = PxInitiatorCommit" "length (px_contributions x) = 2" "length (px_commits x) = 2"
  shows "px_phase (px_run x cs) = PxReady \<longleftrightarrow>
    (\<exists>e d i h j k. cs = [XCommit Pair_Initiator e, XCommit Pair_Responder d, XReveal Pair_Initiator i h,
         XReveal Pair_Responder j k] \<and> nonzero h \<and> nonzero k
       \<and> commit_accepted (px_validate_point x) (px_context x) Pair_Initiator e
       \<and> commit_accepted (px_validate_point x) (px_context x) Pair_Responder d
       \<and> reveal_accepted (px_validate_point x) (px_context x) Pair_Initiator i \<and> opens (the e) (the i)
       \<and> reveal_accepted (px_validate_point x) (px_context x) Pair_Responder j \<and> opens (the d) (the j))"
    (is "_ \<longleftrightarrow> ?R")
proof -
  let ?Q = "\<lambda>e cs'. \<exists>d i h j k. cs' = [XCommit Pair_Responder d, XReveal Pair_Initiator i h, XReveal Pair_Responder j k]
       \<and> nonzero h \<and> nonzero k \<and> commit_accepted (px_validate_point x) (px_context x) Pair_Responder d
       \<and> reveal_accepted (px_validate_point x) (px_context x) Pair_Initiator i \<and> opens (the e) (the i)
       \<and> reveal_accepted (px_validate_point x) (px_context x) Pair_Responder j \<and> opens (the d) (the j)"
  have set: "(px_phase x, Pair_Initiator, 0, PxResponderCommit) \<in> {(PxInitiatorCommit, Pair_Initiator, 0, PxResponderCommit),
      (PxResponderCommit, Pair_Responder, 1, PxInitiatorReveal)}"
    using assms(1) by simp
  note st = step_commit [OF set]
  have "px_phase (px_run x cs) = PxReady \<longleftrightarrow> (\<exists>e cs'. cs = XCommit Pair_Initiator e # cs'
      \<and> commit_accepted (px_validate_point x) (px_context x) Pair_Initiator e \<and> ?Q e cs')"
  proof (rule reaches_ready)
    show "px_phase (px_run (snd (px_step x (XCommit Pair_Initiator e))) cs') = PxReady \<longleftrightarrow> ?Q e cs'"
      if e: "commit_accepted (px_validate_point x) (px_context x) Pair_Initiator e" for e cs'
    proof -
      have "px_phase (snd (px_step x (XCommit Pair_Initiator e))) \<noteq> PxFailed"
        unfolding st(1) using e by blast
      from st(2) [OF this] show ?thesis
        using assms(2,3) by (subst from_responder_commit) simp_all
    qed
  qed (use assms(1) st(1) in simp_all)
  also have "\<dots> \<longleftrightarrow> ?R" by auto
  finally show ?thesis .
qed

text \<open>
  C4: Over any sequence of calls on a new exchange, the exchange becomes ready exactly when the calls were, in this
  order and with nothing before, between or after them, the context, the commitment of the initiator, that of the
  responder, the contribution of the initiator and that of the responder, when each of the five messages decodes
  against the context, when both logical hashes are nonzero, and when each contribution opens its own sender's
  commitment: the hash in the commitment is the commitment hash of the revealed bytes, and its ephemeral key is the
  one revealed. Contributions that swap, reflect or reuse a commitment therefore never make an exchange ready.
\<close>
theorem exchange_ready_iff:
  "px_phase (px_run (new_pair_exchange v) cs) = PxReady \<longleftrightarrow>
    (\<exists>c e d i h j k. cs = [XBegin c, XCommit Pair_Initiator e, XCommit Pair_Responder d, XReveal Pair_Initiator i h,
         XReveal Pair_Responder j k] \<and> v \<noteq> None \<and> context_accepted c \<and> nonzero h \<and> nonzero k
       \<and> commit_accepted v (context_in c) Pair_Initiator e \<and> commit_accepted v (context_in c) Pair_Responder d
       \<and> reveal_accepted v (context_in c) Pair_Initiator i \<and> opens (the e) (the i)
       \<and> reveal_accepted v (context_in c) Pair_Responder j \<and> opens (the d) (the j))"
    (is "_ \<longleftrightarrow> ?R")
proof -
  let ?x = "new_pair_exchange v"
  let ?Q = "\<lambda>c cs'. \<exists>e d i h j k. cs' = [XCommit Pair_Initiator e, XCommit Pair_Responder d, XReveal Pair_Initiator i h,
         XReveal Pair_Responder j k] \<and> nonzero h \<and> nonzero k
       \<and> commit_accepted v (context_in c) Pair_Initiator e \<and> commit_accepted v (context_in c) Pair_Responder d
       \<and> reveal_accepted v (context_in c) Pair_Initiator i \<and> opens (the e) (the i)
       \<and> reveal_accepted v (context_in c) Pair_Responder j \<and> opens (the d) (the j)"
  have new: "px_phase ?x = PxEmpty" "px_validate_point ?x = v" "length (px_contributions ?x) = 2" "length (px_commits ?x) = 2"
    by (simp_all add: new_pair_exchange_def)
  note st = step_empty [OF new(1)]
  have "px_phase (px_run ?x cs) = PxReady \<longleftrightarrow> (\<exists>c cs'. cs = XBegin c # cs' \<and> (v \<noteq> None \<and> context_accepted c) \<and> ?Q c cs')"
  proof (rule reaches_ready)
    show "px_phase (px_run (snd (px_step ?x (XBegin c))) cs') = PxReady \<longleftrightarrow> ?Q c cs'"
      if c: "v \<noteq> None \<and> context_accepted c" for c cs'
    proof -
      have "px_phase (snd (px_step ?x (XBegin c))) \<noteq> PxFailed"
        unfolding st(1) using c new(2) by blast
      from st(2) [OF this] show ?thesis
        using new by (subst from_initiator_commit) simp_all
    qed
  qed (use new st(1) in simp_all)
  also have "\<dots> \<longleftrightarrow> ?R" by auto
  finally show ?thesis .
qed

end
