(* ===== verification/Pair_Auth.thy ===== *)
theory Pair_Auth
  imports Pair_Handshake
begin

text \<open>
  The authentication of a pairing, \<^verbatim>\<open>shared/src/session/pair_auth_reducer.{hpp,cpp}\<close>: from the two opened
  contributions through the verified signatures, the approval of the user and the key confirmations to the
  capability summaries, and then to the evidence that the plan lock consumes. An operation of C++ that returns
  \<open>bool\<close> returns the flag and the new state. The arrays of two operation identifiers are lists; the four
  identifiers already used are a list with a fill count. The two summaries of the start are, as in the code, not read here.
\<close>

unbundle bit_operations_syntax

section \<open>State\<close>

record PairAuthStartV1 =
  as_generation :: u64
  as_engine_instance_id :: bytes
  as_link_id :: bytes
  as_signature_operation_ids :: "u64 list"
  as_key_confirm_operation_ids :: "u64 list"
  as_local_role :: PairRole
  as_entry_mode :: u8
  as_known_path :: bool
  as_entry_context_hash :: bytes
  as_pair_context_hash :: bytes
  as_initiator_commit :: PairCommitV1
  as_responder_commit :: PairCommitV1
  as_initiator_contribution :: PairContributionV1
  as_responder_contribution :: PairContributionV1
  as_initiator_reveal_logical_hash :: bytes
  as_responder_reveal_logical_hash :: bytes
  as_initiator_summary :: bytes
  as_responder_summary :: bytes

record PairAuthenticationReducer =
  pa_begun :: bool
  pa_failed :: bool
  pa_consumed :: bool
  pa_generation :: u64
  pa_engine_instance_id :: bytes
  pa_link_id :: bytes
  pa_signature_operation_ids :: "u64 list"
  pa_key_confirm_operation_ids :: "u64 list"
  pa_local_role :: PairRole
  pa_entry_mode :: u8
  pa_known_path :: bool
  pa_approval_kind :: u32
  pa_transcript_hash :: bytes
  pa_initiator_reveal :: bytes
  pa_responder_reveal :: bytes
  pa_initiator_capability :: bytes
  pa_responder_capability :: bytes
  pa_expected_initiator_summary_hash :: bytes
  pa_expected_responder_summary_hash :: bytes
  pa_initiator_summary :: bytes
  pa_responder_summary :: bytes
  pa_operation_ids :: "u64 list"
  pa_operation_count :: nat
  pa_signature_mask :: u8
  pa_key_confirm_mask :: u8
  pa_capability_mask :: u8

definition new_pair_auth :: PairAuthenticationReducer where
  "new_pair_auth = \<lparr>pa_begun = False, pa_failed = False, pa_consumed = False, pa_generation = 0,
     pa_engine_instance_id = replicate 16 0, pa_link_id = replicate 16 0, pa_signature_operation_ids = [0, 0],
     pa_key_confirm_operation_ids = [0, 0], pa_local_role = Pair_Initiator, pa_entry_mode = 0, pa_known_path = False,
     pa_approval_kind = 0, pa_transcript_hash = replicate 32 0, pa_initiator_reveal = replicate 32 0,
     pa_responder_reveal = replicate 32 0, pa_initiator_capability = replicate 32 0,
     pa_responder_capability = replicate 32 0, pa_expected_initiator_summary_hash = replicate 32 0,
     pa_expected_responder_summary_hash = replicate 32 0, pa_initiator_summary = replicate 512 0,
     pa_responder_summary = replicate 512 0, pa_operation_ids = [0, 0, 0, 0], pa_operation_count = 0,
     pa_signature_mask = 0, pa_key_confirm_mask = 0, pa_capability_mask = 0\<rparr>"

section \<open>Operations\<close>

fun role_bit :: "PairRole \<Rightarrow> u8" where
  "role_bit Pair_Initiator = 1"
| "role_bit Pair_Responder = 2"

fun role_index :: "PairRole \<Rightarrow> nat" where
  "role_index Pair_Initiator = 0"
| "role_index Pair_Responder = 1"

definition distinct_nonzero_operations :: "PairAuthStartV1 \<Rightarrow> bool" where
  "distinct_nonzero_operations start =
     (let operations = [as_signature_operation_ids start ! 0, as_signature_operation_ids start ! 1,
                        as_key_confirm_operation_ids start ! 0, as_key_confirm_operation_ids start ! 1]
      in list_all (\<lambda>index. operations ! index \<noteq> 0
           \<and> list_all (\<lambda>prior. operations ! index \<noteq> operations ! prior) [0..<index]) [0..<4])"

definition pa_reject :: "PairAuthenticationReducer \<Rightarrow> bool \<times> PairAuthenticationReducer" where
  "pa_reject r = (False, r\<lparr>pa_failed := True\<rparr>)"

definition start_refused :: "PairAuthStartV1 \<Rightarrow> bool" where
  "start_refused start \<longleftrightarrow>
     as_generation start = 0 \<or> \<not> nonzero (as_engine_instance_id start) \<or> \<not> nonzero (as_link_id start)
     \<or> \<not> distinct_nonzero_operations start \<or> (as_entry_mode start \<noteq> 1 \<and> as_entry_mode start \<noteq> 2)
     \<or> \<not> nonzero (as_pair_context_hash start)
     \<or> cm_sender (as_initiator_commit start) \<noteq> Pair_Initiator \<or> cm_receiver (as_initiator_commit start) \<noteq> Pair_Responder
     \<or> cm_sender (as_responder_commit start) \<noteq> Pair_Responder \<or> cm_receiver (as_responder_commit start) \<noteq> Pair_Initiator
     \<or> cn_role (as_initiator_contribution start) \<noteq> Pair_Initiator
     \<or> cn_role (as_responder_contribution start) \<noteq> Pair_Responder
     \<or> cm_pair_context_hash (as_initiator_commit start) \<noteq> as_pair_context_hash start
     \<or> cm_pair_context_hash (as_responder_commit start) \<noteq> as_pair_context_hash start
     \<or> bind_reveal_to_commit_v1 (as_initiator_commit start) (as_initiator_contribution start) \<noteq> Wire_Ok
     \<or> bind_reveal_to_commit_v1 (as_responder_commit start) (as_responder_contribution start) \<noteq> Wire_Ok
     \<or> \<not> nonzero (as_initiator_reveal_logical_hash start) \<or> \<not> nonzero (as_responder_reveal_logical_hash start)
     \<or> as_initiator_reveal_logical_hash start = as_responder_reveal_logical_hash start"

definition start_transcript :: "PairAuthStartV1 \<Rightarrow> Status + bytes \<times> bytes" where
  "start_transcript start =
     build_pair_transcript_preimage_v1 (as_entry_mode start) (as_entry_context_hash start)
       (cm_commitment (as_initiator_commit start)) (cm_commitment (as_responder_commit start))
       (as_initiator_contribution start) (as_responder_contribution start) True"

definition pa_started :: "PairAuthStartV1 \<Rightarrow> bytes \<Rightarrow> PairAuthenticationReducer \<Rightarrow> PairAuthenticationReducer" where
  "pa_started start transcript r = r\<lparr>pa_begun := True, pa_generation := as_generation start,
     pa_engine_instance_id := as_engine_instance_id start, pa_link_id := as_link_id start,
     pa_signature_operation_ids := as_signature_operation_ids start,
     pa_key_confirm_operation_ids := as_key_confirm_operation_ids start, pa_local_role := as_local_role start,
     pa_entry_mode := as_entry_mode start, pa_known_path := as_known_path start, pa_transcript_hash := transcript,
     pa_initiator_reveal := as_initiator_reveal_logical_hash start,
     pa_responder_reveal := as_responder_reveal_logical_hash start,
     pa_expected_initiator_summary_hash := cn_capability_summary_hash (as_initiator_contribution start),
     pa_expected_responder_summary_hash := cn_capability_summary_hash (as_responder_contribution start)\<rparr>"

definition pa_begin :: "PairAuthenticationReducer \<Rightarrow> PairAuthStartV1 \<Rightarrow> bool \<times> PairAuthenticationReducer" where
  "pa_begin r start =
     (if pa_begun r \<or> pa_failed r \<or> start_refused start then pa_reject r
      else
        case start_transcript start of
          Inl _ \<Rightarrow> pa_reject r
        | Inr (_, transcript) \<Rightarrow> (True, pa_started start transcript r))"

definition seen_operation :: "PairAuthenticationReducer \<Rightarrow> u64 \<Rightarrow> bool" where
  "seen_operation r operation_id = list_ex (\<lambda>i. i = operation_id) (take (pa_operation_count r) (pa_operation_ids r))"

definition used_operation :: "PairAuthenticationReducer \<Rightarrow> u64 \<Rightarrow> PairAuthenticationReducer" where
  "used_operation r operation_id =
     r\<lparr>pa_operation_ids := (pa_operation_ids r)[pa_operation_count r := operation_id],
       pa_operation_count := pa_operation_count r + 1\<rparr>"

definition accept_provider_verification ::
  "PairAuthenticationReducer \<Rightarrow> u64 \<Rightarrow> u32 \<Rightarrow> PairRole \<Rightarrow> bool \<times> PairAuthenticationReducer" where
  "accept_provider_verification r operation_id payload_kind role =
     (if \<not> pa_begun r \<or> pa_failed r \<or> pa_consumed r \<or> pa_operation_count r \<ge> 4 \<or> seen_operation r operation_id
      then pa_reject r
      else if payload_kind = 101
      then
        let expected = (if pa_signature_mask r = 0 then Pair_Initiator else Pair_Responder)
        in if pa_signature_mask r = 3 \<or> role \<noteq> expected
              \<or> operation_id \<noteq> pa_signature_operation_ids r ! role_index role
           then pa_reject r
           else (True, used_operation (r\<lparr>pa_signature_mask := pa_signature_mask r OR role_bit role\<rparr>) operation_id)
      else if payload_kind = 102
      then
        if pa_signature_mask r \<noteq> 3 \<or> pa_approval_kind r = 0 \<or> pa_key_confirm_mask r = 3
           \<or> (pa_key_confirm_mask r AND role_bit role) \<noteq> 0
           \<or> operation_id \<noteq> pa_key_confirm_operation_ids r ! role_index role
        then pa_reject r
        else (True, used_operation (r\<lparr>pa_key_confirm_mask := pa_key_confirm_mask r OR role_bit role\<rparr>) operation_id)
      else pa_reject r)"

definition expected_approval :: "u8 \<Rightarrow> bool \<Rightarrow> PairRole \<Rightarrow> u32" where
  "expected_approval entry_mode known_path local_role =
     (if entry_mode = 2 then (if local_role = Pair_Initiator then 3 else 2)
      else if known_path then (if local_role = Pair_Initiator then 4 else 5)
      else 1)"

definition approve_local :: "PairAuthenticationReducer \<Rightarrow> u32 \<Rightarrow> bool \<times> PairAuthenticationReducer" where
  "approve_local r approval_kind =
     (if \<not> pa_begun r \<or> pa_failed r \<or> pa_consumed r \<or> pa_signature_mask r \<noteq> 3 \<or> pa_approval_kind r \<noteq> 0 then pa_reject r
      else if approval_kind \<noteq> expected_approval (pa_entry_mode r) (pa_known_path r) (pa_local_role r) then pa_reject r
      else (True, r\<lparr>pa_approval_kind := approval_kind\<rparr>))"

definition summary_hash :: "bytes \<Rightarrow> bytes" where
  "summary_hash summary = domain_hash ''flynes-pair-capability-summary-v1'' summary"

definition accept_capability_reveal ::
  "PairAuthenticationReducer \<Rightarrow> PairRole \<Rightarrow> bytes \<Rightarrow> bytes \<Rightarrow> bool \<times> PairAuthenticationReducer" where
  "accept_capability_reveal r sender summary logical_hash =
     (if \<not> pa_begun r \<or> pa_failed r \<or> pa_consumed r \<or> pa_key_confirm_mask r \<noteq> 3 \<or> \<not> nonzero logical_hash
         \<or> (pa_capability_mask r AND role_bit sender) \<noteq> 0
         \<or> (pa_capability_mask r = 0 \<and> sender \<noteq> Pair_Initiator)
         \<or> validate_pair_capability (Some summary) \<noteq> Wire_Ok
      then pa_reject r
      else
        let expected_hash = (if sender = Pair_Initiator then pa_expected_initiator_summary_hash r
                             else pa_expected_responder_summary_hash r)
        in if summary_hash summary \<noteq> expected_hash then pa_reject r
           else
             let r1 = (if sender = Pair_Initiator
                       then r\<lparr>pa_initiator_summary := summary, pa_initiator_capability := logical_hash\<rparr>
                       else r\<lparr>pa_responder_summary := summary, pa_responder_capability := logical_hash\<rparr>)
             in (True, r1\<lparr>pa_capability_mask := pa_capability_mask r1 OR role_bit sender\<rparr>))"

definition take_verified_evidence ::
  "PairAuthenticationReducer \<Rightarrow> VerifiedPairEvidence option \<times> PairAuthenticationReducer" where
  "take_verified_evidence r =
     (if \<not> pa_begun r \<or> pa_failed r \<or> pa_consumed r \<or> pa_signature_mask r \<noteq> 3 \<or> pa_key_confirm_mask r \<noteq> 3
         \<or> pa_capability_mask r \<noteq> 3 \<or> pa_approval_kind r = 0
      then (None, r)
      else
        (Some (seal_for_authenticated_pipeline (zero_pair_evidence\<lparr>pe_local_role := pa_local_role r,
           pe_generation := pa_generation r, pe_transcript := pa_transcript_hash r,
           pe_initiator_reveal := pa_initiator_reveal r, pe_responder_reveal := pa_responder_reveal r,
           pe_initiator_capability := pa_initiator_capability r, pe_responder_capability := pa_responder_capability r,
           pe_initiator_summary := pa_initiator_summary r, pe_responder_summary := pa_responder_summary r\<rparr>)),
         r\<lparr>pa_consumed := True\<rparr>))"

datatype auth_call =
    ABegin PairAuthStartV1
  | AVerify u64 u32 PairRole
  | AApprove u32
  | ACapability PairRole bytes bytes
  | ATake

fun auth_step :: "PairAuthenticationReducer \<Rightarrow> auth_call \<Rightarrow> PairAuthenticationReducer" where
  "auth_step r (ABegin start) = snd (pa_begin r start)"
| "auth_step r (AVerify operation_id payload_kind role) = snd (accept_provider_verification r operation_id payload_kind role)"
| "auth_step r (AApprove approval_kind) = snd (approve_local r approval_kind)"
| "auth_step r (ACapability sender summary logical_hash) = snd (accept_capability_reveal r sender summary logical_hash)"
| "auth_step r ATake = snd (take_verified_evidence r)"

end
