(* ===== verification/Pair_Auth_Properties.thy ===== *)
theory Pair_Auth_Properties
  imports Pair_Auth Script_Machine
begin

text \<open>
  Evidence of an authenticated pairing exists only after the whole script of the authentication, binds what the
  script carried, and can be taken once.
\<close>

unbundle bit_operations_syntax

definition auth_run :: "PairAuthenticationReducer \<Rightarrow> auth_call list \<Rightarrow> PairAuthenticationReducer" where
  "auth_run = foldl auth_step"

lemma auth_run_simps [simp]: "auth_run r [] = r" "auth_run r (c # cs) = auth_run (auth_step r c) cs"
  by (simp_all add: auth_run_def)

definition evidence_ready :: "PairAuthenticationReducer \<Rightarrow> bool" where
  "evidence_ready r \<longleftrightarrow> fst (take_verified_evidence r) \<noteq> None"

lemmas auth_ops = pa_begin_def accept_provider_verification_def approve_local_def accept_capability_reveal_def
  take_verified_evidence_def pa_reject_def

section \<open>Failure, taking, and the end of the script\<close>

lemma failed_call: "pa_failed r \<Longrightarrow> pa_failed (auth_step r c)"
  by (cases c) (simp_all add: auth_ops)

lemma failed_not_ready: "pa_failed r \<Longrightarrow> \<not> evidence_ready r"
  by (simp add: evidence_ready_def take_verified_evidence_def)

definition spent :: "PairAuthenticationReducer \<Rightarrow> bool" where
  "spent r \<longleftrightarrow> pa_begun r \<and> (pa_consumed r \<or> pa_failed r)"

lemma spent_call: "spent r \<Longrightarrow> spent (auth_step r c)"
  by (cases c) (auto simp: spent_def auth_ops)

lemma spent_run: "spent r \<Longrightarrow> spent (auth_run r cs)"
  by (induction cs arbitrary: r) (simp_all add: spent_call)

lemma spent_not_ready: "spent r \<Longrightarrow> \<not> evidence_ready r"
  by (auto simp: spent_def evidence_ready_def take_verified_evidence_def)

lemma ready_fields:
  "evidence_ready r \<longleftrightarrow> pa_begun r \<and> \<not> pa_failed r \<and> \<not> pa_consumed r \<and> pa_signature_mask r = 3
     \<and> pa_key_confirm_mask r = 3 \<and> pa_capability_mask r = 3 \<and> pa_approval_kind r \<noteq> 0"
  by (auto simp: evidence_ready_def take_verified_evidence_def)

lemma bit_of_three [simp]: "(3 :: u8) AND role_bit r \<noteq> 0"
  by (cases r) simp_all

lemma ready_then_spent: "evidence_ready r \<Longrightarrow> spent (auth_step r c)"
  by (cases c) (simp_all add: ready_fields spent_def auth_ops Let_def)

lemma ready_ends_script: "evidence_ready r \<Longrightarrow> evidence_ready (auth_run r cs) \<longleftrightarrow> cs = []"
  by (cases cs) (simp_all add: ready_then_spent spent_run spent_not_ready)

lemma early_take: "\<not> evidence_ready r \<Longrightarrow> snd (take_verified_evidence r) = r"
  by (auto simp: evidence_ready_def take_verified_evidence_def split: if_splits)

text \<open>Calls that ask for the evidence too early change nothing; one that gets it ends the authentication.\<close>

definition script_of :: "auth_call list \<Rightarrow> auth_call list" where
  "script_of cs = filter (\<lambda>c. c \<noteq> ATake) cs"

lemma strip_takes:
  "evidence_ready (auth_run r cs) \<longleftrightarrow> evidence_ready (auth_run r (script_of cs)) \<and> (cs = [] \<or> last cs \<noteq> ATake)"
proof (induction cs arbitrary: r)
  case (Cons c cs)
  show ?case
  proof (cases "evidence_ready r")
    case True
    have "cs = [] \<or> last cs = ATake" if "script_of (c # cs) = []"
      using that last_in_set [of cs] by (cases "cs = []") (auto simp: script_of_def filter_empty_conv split: if_splits)
    then show ?thesis
      using ready_ends_script [OF True, of "c # cs"] ready_ends_script [OF True, of "script_of (c # cs)"]
      by (auto simp: script_of_def split: if_splits)
  next
    case False
    then show ?thesis
      using Cons.IH by (cases "c = ATake") (auto simp: early_take script_of_def)
  qed
qed (simp add: script_of_def)

lemma same_state:
  "evidence_ready (auth_run r cs) \<Longrightarrow> auth_run r cs = auth_run r (script_of cs)"
proof (induction cs arbitrary: r)
  case (Cons c cs)
  then show ?case
  proof (cases "evidence_ready r")
    case True
    then show ?thesis using Cons.prems ready_ends_script [OF True, of "c # cs"] by simp
  next
    case False
    then show ?thesis using Cons by (cases "c = ATake") (simp_all add: early_take script_of_def)
  qed
qed (simp add: script_of_def)

interpretation auth: scripted_machine auth_step pa_failed evidence_ready "\<lambda>c. c \<noteq> ATake"
  by unfold_locales (simp_all add: failed_call failed_not_ready)

lemma plain_calls: "list_all (\<lambda>c. c \<noteq> ATake) cs \<longleftrightarrow> ATake \<notin> set cs"
  by (auto simp: list_all_iff)

lemmas script_from = auth.script_step [folded auth_run_def, unfolded plain_calls]

lemmas script_one = auth.script_call [folded auth_run_def, unfolded plain_calls]

section \<open>The stages\<close>

definition stage :: "PairAuthStartV1 \<Rightarrow> bytes \<Rightarrow> u8 \<Rightarrow> u64 list \<Rightarrow> u32 \<Rightarrow> u8 \<Rightarrow> PairAuthenticationReducer" where
  "stage s t sm ops a km = (pa_started s t new_pair_auth)\<lparr>pa_approval_kind := a,
     pa_operation_ids := ops @ replicate (4 - length ops) 0, pa_operation_count := length ops,
     pa_signature_mask := sm, pa_key_confirm_mask := km\<rparr>"

lemma stage_sel [simp]:
  "pa_begun (stage s t sm ops a km)" "\<not> pa_failed (stage s t sm ops a km)" "\<not> pa_consumed (stage s t sm ops a km)"
  "pa_signature_mask (stage s t sm ops a km) = sm" "pa_key_confirm_mask (stage s t sm ops a km) = km"
  "pa_approval_kind (stage s t sm ops a km) = a" "pa_operation_count (stage s t sm ops a km) = length ops"
  "pa_capability_mask (stage s t sm ops a km) = 0"
  "pa_signature_operation_ids (stage s t sm ops a km) = as_signature_operation_ids s"
  "pa_key_confirm_operation_ids (stage s t sm ops a km) = as_key_confirm_operation_ids s"
  "pa_entry_mode (stage s t sm ops a km) = as_entry_mode s" "pa_known_path (stage s t sm ops a km) = as_known_path s"
  "pa_local_role (stage s t sm ops a km) = as_local_role s"
  "pa_expected_initiator_summary_hash (stage s t sm ops a km) = cn_capability_summary_hash (as_initiator_contribution s)"
  "pa_expected_responder_summary_hash (stage s t sm ops a km) = cn_capability_summary_hash (as_responder_contribution s)"
  by (simp_all add: stage_def pa_started_def new_pair_auth_def)

lemma stage_seen [simp]: "seen_operation (stage s t sm ops a km) i \<longleftrightarrow> i \<in> set ops"
  by (auto simp: seen_operation_def stage_def list_ex_iff)

lemma stage_used:
  assumes "length ops < 4"
  shows "used_operation ((stage s t sm ops a km)\<lparr>pa_signature_mask := x\<rparr>) i = stage s t x (ops @ [i]) a km"
    "used_operation ((stage s t sm ops a km)\<lparr>pa_key_confirm_mask := x\<rparr>) i = stage s t sm (ops @ [i]) a x"
proof -
  have "(ops @ replicate (4 - length ops) 0)[length ops := i] = (ops @ [i]) @ replicate (4 - length (ops @ [i])) 0"
  proof -
    have "replicate (4 - length ops) (0 :: u64) = 0 # replicate (4 - length (ops @ [i])) 0"
      using assms by (simp flip: replicate_Suc add: Suc_diff_le [symmetric])
    then show ?thesis by simp
  qed
  then show "used_operation ((stage s t sm ops a km)\<lparr>pa_signature_mask := x\<rparr>) i = stage s t x (ops @ [i]) a km"
    "used_operation ((stage s t sm ops a km)\<lparr>pa_key_confirm_mask := x\<rparr>) i = stage s t sm (ops @ [i]) a x"
    by (simp_all add: used_operation_def stage_def)
qed

lemma stage_approved: "(stage s t sm ops a km)\<lparr>pa_approval_kind := b\<rparr> = stage s t sm ops b km"
  by (simp add: stage_def)

lemma stage_not_ready [simp]: "\<not> evidence_ready (stage s t sm ops a km)"
  by (simp add: ready_fields)

section \<open>The steps of each stage\<close>

lemma four_pairs:
  assumes "list_all (\<lambda>i. [a, b, c, d] ! i \<noteq> z \<and> list_all (\<lambda>j. [a, b, c, d] ! i \<noteq> [a, b, c, d] ! j) [0..<i]) [0..<4]"
  shows "a \<noteq> b" "c \<noteq> a" "c \<noteq> b" "d \<noteq> a" "d \<noteq> b" "d \<noteq> c"
proof -
  have apart: "[a, b, c, d] ! i \<noteq> [a, b, c, d] ! j" if "j < i" "i < 4" for i j
    using assms that by (simp add: list_all_iff)
  show "a \<noteq> b" using apart [of 0 1] by simp
  show "c \<noteq> a" using apart [of 0 2] by simp
  show "c \<noteq> b" using apart [of 1 2] by simp
  show "d \<noteq> a" using apart [of 0 3] by simp
  show "d \<noteq> b" using apart [of 1 3] by simp
  show "d \<noteq> c" using apart [of 2 3] by simp
qed

lemma ops_distinct:
  assumes "distinct_nonzero_operations s"
  shows "as_signature_operation_ids s ! 0 \<noteq> as_signature_operation_ids s ! 1"
    "as_key_confirm_operation_ids s ! role_index r \<noteq> as_signature_operation_ids s ! 0"
    "as_key_confirm_operation_ids s ! role_index r \<noteq> as_signature_operation_ids s ! 1"
    "as_key_confirm_operation_ids s ! role_index (other r) \<noteq> as_key_confirm_operation_ids s ! role_index r"
proof -
  note pairs = four_pairs [OF assms [unfolded distinct_nonzero_operations_def Let_def]]
  show "as_signature_operation_ids s ! 0 \<noteq> as_signature_operation_ids s ! 1" by (rule pairs(1))
  show "as_key_confirm_operation_ids s ! role_index r \<noteq> as_signature_operation_ids s ! 0"
    by (cases r) (simp_all only: role_index.simps pairs not_False_eq_True)
  show "as_key_confirm_operation_ids s ! role_index r \<noteq> as_signature_operation_ids s ! 1"
    by (cases r) (simp_all only: role_index.simps pairs not_False_eq_True)
  show "as_key_confirm_operation_ids s ! role_index (other r) \<noteq> as_key_confirm_operation_ids s ! role_index r"
    by (cases r) (simp_all only: role_index.simps other.simps pairs pairs(6) [symmetric] not_False_eq_True)
qed

lemma expected_nonzero: "expected_approval m k r \<noteq> 0"
  by (simp add: expected_approval_def)

lemma new_sel: "\<not> pa_begun new_pair_auth" "\<not> pa_failed new_pair_auth"
  by (simp_all add: new_pair_auth_def)

lemma started_failed: "pa_failed (pa_started s t r) = pa_failed r"
  by (simp add: pa_started_def)

lemma step_new:
  assumes "c \<noteq> ATake"
  shows "\<not> pa_failed (auth_step new_pair_auth c) \<longleftrightarrow> (\<exists>s. c = ABegin s \<and> \<not> start_refused s \<and> \<not> isl (start_transcript s))"
proof (cases c)
  case (ABegin s)
  then show ?thesis
    by (cases "start_transcript s") (simp_all add: pa_begin_def pa_reject_def new_sel started_failed case_prod_beta)
qed (use assms in \<open>simp_all add: accept_provider_verification_def approve_local_def accept_capability_reveal_def
      pa_reject_def new_sel\<close>)

lemma begin_stage:
  assumes "\<not> start_refused s" "start_transcript s = Inr (p, t)"
  shows "auth_step new_pair_auth (ABegin s) = stage s t 0 [] 0 0"
  using assms by (simp add: pa_begin_def stage_def new_pair_auth_def pa_started_def numeral_eq_Suc)

lemma step_signature:
  assumes "(sm, r, ops, sm') \<in> {(0, Pair_Initiator, [], 1), (1, Pair_Responder, [as_signature_operation_ids s ! 0], 3)}"
    and "distinct_nonzero_operations s" "c \<noteq> ATake"
  shows "\<not> pa_failed (auth_step (stage s t sm ops 0 0) c) \<longleftrightarrow>
      c = AVerify (as_signature_operation_ids s ! role_index r) 101 r"
    "auth_step (stage s t sm ops 0 0) (AVerify (as_signature_operation_ids s ! role_index r) 101 r) =
      stage s t sm' (ops @ [as_signature_operation_ids s ! role_index r]) 0 0"
proof -
  have go: "auth_step (stage s t sm ops 0 0) (AVerify (as_signature_operation_ids s ! role_index r) 101 r) =
      stage s t sm' (ops @ [as_signature_operation_ids s ! role_index r]) 0 0"
    using assms(1) ops_distinct(1) [OF assms(2)]
    by (elim insertE emptyE) (auto simp: accept_provider_verification_def Let_def stage_used)
  then show "auth_step (stage s t sm ops 0 0) (AVerify (as_signature_operation_ids s ! role_index r) 101 r) =
      stage s t sm' (ops @ [as_signature_operation_ids s ! role_index r]) 0 0" .
  have "pa_failed (auth_step (stage s t sm ops 0 0) c)" if "c \<noteq> AVerify (as_signature_operation_ids s ! role_index r) 101 r"
    using assms(1,3) that by (cases c) (auto simp: auth_ops Let_def)
  then show "\<not> pa_failed (auth_step (stage s t sm ops 0 0) c) \<longleftrightarrow>
      c = AVerify (as_signature_operation_ids s ! role_index r) 101 r"
    using go by fastforce
qed

lemma step_approve:
  assumes "length ops = 2" "c \<noteq> ATake"
  shows "\<not> pa_failed (auth_step (stage s t 3 ops 0 0) c) \<longleftrightarrow>
      c = AApprove (expected_approval (as_entry_mode s) (as_known_path s) (as_local_role s))"
    "auth_step (stage s t 3 ops 0 0) (AApprove (expected_approval (as_entry_mode s) (as_known_path s) (as_local_role s))) =
      stage s t 3 ops (expected_approval (as_entry_mode s) (as_known_path s) (as_local_role s)) 0"
  using assms by (cases c; simp add: auth_ops stage_approved)+

text \<open>The two key confirmations come in either order; in the stage of the second one, \<open>km\<close> holds the first.\<close>

lemma step_first_confirm:
  assumes "length ops = 2" "\<And>r. as_key_confirm_operation_ids s ! role_index r \<notin> set ops" "a \<noteq> 0" "c \<noteq> ATake"
  shows "\<not> pa_failed (auth_step (stage s t 3 ops a 0) c) \<longleftrightarrow>
      (\<exists>r. c = AVerify (as_key_confirm_operation_ids s ! role_index r) 102 r)"
    "auth_step (stage s t 3 ops a 0) (AVerify (as_key_confirm_operation_ids s ! role_index r) 102 r) =
      stage s t 3 (ops @ [as_key_confirm_operation_ids s ! role_index r]) a (role_bit r)"
proof -
  have go: "auth_step (stage s t 3 ops a 0) (AVerify (as_key_confirm_operation_ids s ! role_index r) 102 r) =
      stage s t 3 (ops @ [as_key_confirm_operation_ids s ! role_index r]) a (role_bit r)" for r
    using assms(1-3) by (simp add: accept_provider_verification_def stage_used)
  then show "auth_step (stage s t 3 ops a 0) (AVerify (as_key_confirm_operation_ids s ! role_index r) 102 r) =
      stage s t 3 (ops @ [as_key_confirm_operation_ids s ! role_index r]) a (role_bit r)" .
  have "pa_failed (auth_step (stage s t 3 ops a 0) c)"
    if "\<nexists>r. c = AVerify (as_key_confirm_operation_ids s ! role_index r) 102 r"
    using assms that by (cases c) (auto simp: auth_ops Let_def)
  then show "\<not> pa_failed (auth_step (stage s t 3 ops a 0) c) \<longleftrightarrow>
      (\<exists>r. c = AVerify (as_key_confirm_operation_ids s ! role_index r) 102 r)"
    using go by fastforce
qed

lemma role_bits [simp]:
  "role_bit r \<noteq> 3" "role_bit r AND role_bit r \<noteq> 0" "role_bit r AND role_bit (other r) = 0"
  "role_bit r OR role_bit (other r) = 3"
  by (cases r; simp)+

lemma other_role: "r' \<noteq> r \<longleftrightarrow> r' = other r"
  by (cases r; cases r') simp_all

lemma step_second_confirm:
  assumes "length ops = 3" "as_key_confirm_operation_ids s ! role_index (other r) \<notin> set ops" "a \<noteq> 0" "c \<noteq> ATake"
  shows "\<not> pa_failed (auth_step (stage s t 3 ops a (role_bit r)) c) \<longleftrightarrow>
      c = AVerify (as_key_confirm_operation_ids s ! role_index (other r)) 102 (other r)"
    "auth_step (stage s t 3 ops a (role_bit r)) (AVerify (as_key_confirm_operation_ids s ! role_index (other r)) 102 (other r)) =
      stage s t 3 (ops @ [as_key_confirm_operation_ids s ! role_index (other r)]) a 3"
proof -
  have go: "auth_step (stage s t 3 ops a (role_bit r)) (AVerify (as_key_confirm_operation_ids s ! role_index (other r)) 102 (other r)) =
      stage s t 3 (ops @ [as_key_confirm_operation_ids s ! role_index (other r)]) a 3"
    using assms(1-3) by (simp add: accept_provider_verification_def stage_used)
  then show "auth_step (stage s t 3 ops a (role_bit r)) (AVerify (as_key_confirm_operation_ids s ! role_index (other r)) 102 (other r)) =
      stage s t 3 (ops @ [as_key_confirm_operation_ids s ! role_index (other r)]) a 3" .
  have "pa_failed (auth_step (stage s t 3 ops a (role_bit r)) c)"
    if "c \<noteq> AVerify (as_key_confirm_operation_ids s ! role_index (other r)) 102 (other r)"
  proof (cases c)
    case (AVerify i k r')
    then show ?thesis
      using that by (cases r; cases r') (auto simp: accept_provider_verification_def pa_reject_def)
  qed (use assms in \<open>simp_all add: auth_ops Let_def\<close>)
  then show "\<not> pa_failed (auth_step (stage s t 3 ops a (role_bit r)) c) \<longleftrightarrow>
      c = AVerify (as_key_confirm_operation_ids s ! role_index (other r)) 102 (other r)"
    using go by fastforce
qed

text \<open>The summaries.\<close>

definition summary_accepted :: "PairContributionV1 \<Rightarrow> bytes \<Rightarrow> bytes \<Rightarrow> bool" where
  "summary_accepted contribution summary logical_hash \<longleftrightarrow> nonzero logical_hash
     \<and> validate_pair_capability (Some summary) = Wire_Ok \<and> summary_hash summary = cn_capability_summary_hash contribution"

definition half_revealed :: "PairAuthenticationReducer \<Rightarrow> bytes \<Rightarrow> bytes \<Rightarrow> PairAuthenticationReducer" where
  "half_revealed r summary logical_hash =
     r\<lparr>pa_initiator_summary := summary, pa_initiator_capability := logical_hash, pa_capability_mask := 1\<rparr>"

definition full_revealed :: "PairAuthenticationReducer \<Rightarrow> bytes \<Rightarrow> bytes \<Rightarrow> PairAuthenticationReducer" where
  "full_revealed r summary logical_hash =
     r\<lparr>pa_responder_summary := summary, pa_responder_capability := logical_hash, pa_capability_mask := 3\<rparr>"

lemma half_revealed_sel [simp]:
  "pa_begun (half_revealed r m h) = pa_begun r" "pa_failed (half_revealed r m h) = pa_failed r"
  "pa_consumed (half_revealed r m h) = pa_consumed r" "pa_signature_mask (half_revealed r m h) = pa_signature_mask r"
  "pa_key_confirm_mask (half_revealed r m h) = pa_key_confirm_mask r" "pa_capability_mask (half_revealed r m h) = 1"
  "pa_approval_kind (half_revealed r m h) = pa_approval_kind r"
  "pa_operation_count (half_revealed r m h) = pa_operation_count r"
  "pa_expected_responder_summary_hash (half_revealed r m h) = pa_expected_responder_summary_hash r"
  by (simp_all add: half_revealed_def)

lemma full_revealed_sel [simp]:
  "pa_begun (full_revealed r m h) = pa_begun r" "pa_failed (full_revealed r m h) = pa_failed r"
  "pa_consumed (full_revealed r m h) = pa_consumed r" "pa_signature_mask (full_revealed r m h) = pa_signature_mask r"
  "pa_key_confirm_mask (full_revealed r m h) = pa_key_confirm_mask r" "pa_capability_mask (full_revealed r m h) = 3"
  "pa_approval_kind (full_revealed r m h) = pa_approval_kind r"
  by (simp_all add: full_revealed_def)

lemma step_initiator_summary:
  assumes "length ops = 4" "a \<noteq> 0" "c \<noteq> ATake"
  shows "\<not> pa_failed (auth_step (stage s t 3 ops a 3) c) \<longleftrightarrow>
      (\<exists>m h. c = ACapability Pair_Initiator m h \<and> summary_accepted (as_initiator_contribution s) m h)"
    "summary_accepted (as_initiator_contribution s) m h \<Longrightarrow>
      auth_step (stage s t 3 ops a 3) (ACapability Pair_Initiator m h) = half_revealed (stage s t 3 ops a 3) m h"
proof -
  show go: "auth_step (stage s t 3 ops a 3) (ACapability Pair_Initiator m h) = half_revealed (stage s t 3 ops a 3) m h"
    if "summary_accepted (as_initiator_contribution s) m h" for m h
    using that by (simp add: accept_capability_reveal_def summary_accepted_def half_revealed_def)
  have "pa_failed (auth_step (stage s t 3 ops a 3) c)"
    if "\<nexists>m h. c = ACapability Pair_Initiator m h \<and> summary_accepted (as_initiator_contribution s) m h"
  proof (cases c)
    case (ACapability r m h)
    then show ?thesis
      using that by (cases r) (auto simp: accept_capability_reveal_def pa_reject_def summary_accepted_def)
  qed (use assms in \<open>simp_all add: auth_ops\<close>)
  then show "\<not> pa_failed (auth_step (stage s t 3 ops a 3) c) \<longleftrightarrow>
      (\<exists>m h. c = ACapability Pair_Initiator m h \<and> summary_accepted (as_initiator_contribution s) m h)"
    using go by fastforce
qed

lemma step_responder_summary:
  fixes s t ops a m h
  defines "r \<equiv> half_revealed (stage s t 3 ops a 3) m h"
  assumes "length ops = 4" "a \<noteq> 0" "c \<noteq> ATake"
  shows "\<not> pa_failed (auth_step r c) \<longleftrightarrow>
      (\<exists>n k. c = ACapability Pair_Responder n k \<and> summary_accepted (as_responder_contribution s) n k)"
    "summary_accepted (as_responder_contribution s) n k \<Longrightarrow>
      auth_step r (ACapability Pair_Responder n k) = full_revealed r n k"
proof -
  have sel: "pa_begun r" "\<not> pa_failed r" "\<not> pa_consumed r" "pa_signature_mask r = 3" "pa_key_confirm_mask r = 3"
    "pa_capability_mask r = 1" "pa_approval_kind r \<noteq> 0" "pa_operation_count r = 4"
    "pa_expected_responder_summary_hash r = cn_capability_summary_hash (as_responder_contribution s)"
    using assms by (simp_all add: r_def)
  show go: "auth_step r (ACapability Pair_Responder n k) = full_revealed r n k"
    if "summary_accepted (as_responder_contribution s) n k" for n k
    using that by (simp add: accept_capability_reveal_def summary_accepted_def full_revealed_def sel)
  have "pa_failed (auth_step r c)"
    if "\<nexists>n k. c = ACapability Pair_Responder n k \<and> summary_accepted (as_responder_contribution s) n k"
  proof (cases c)
    case (ACapability x n k)
    then show ?thesis
      using that by (cases x) (auto simp: accept_capability_reveal_def pa_reject_def summary_accepted_def sel)
  qed (use assms sel in \<open>simp_all add: auth_ops\<close>)
  then show "\<not> pa_failed (auth_step r c) \<longleftrightarrow>
      (\<exists>n k. c = ACapability Pair_Responder n k \<and> summary_accepted (as_responder_contribution s) n k)"
    using go sel(2) by fastforce
qed

section \<open>The script\<close>

lemma script_ends:
  assumes "length ops = 4" "a \<noteq> 0" "ATake \<notin> set cs"
  shows "evidence_ready (auth_run (stage s t 3 ops a 3) cs) \<longleftrightarrow>
    (\<exists>m h n k. cs = [ACapability Pair_Initiator m h, ACapability Pair_Responder n k]
       \<and> summary_accepted (as_initiator_contribution s) m h \<and> summary_accepted (as_responder_contribution s) n k)"
proof -
  let ?I = "\<lambda>(m, h). ACapability Pair_Initiator m h" and ?R = "\<lambda>(n, k). ACapability Pair_Responder n k"
  let ?PI = "\<lambda>(m, h). summary_accepted (as_initiator_contribution s) m h"
  let ?PR = "\<lambda>(n, k). summary_accepted (as_responder_contribution s) n k"
  have last: "evidence_ready (auth_run (half_revealed (stage s t 3 ops a 3) m h) cs') \<longleftrightarrow>
      (\<exists>x cs''. cs' = ?R x # cs'' \<and> ?PR x \<and> cs'' = [])" if "ATake \<notin> set cs'" for m h cs'
  proof (rule script_from)
    show "\<not> pa_failed (auth_step (half_revealed (stage s t 3 ops a 3) m h) c) \<longleftrightarrow> (\<exists>x. c = ?R x \<and> ?PR x)"
      if "c \<noteq> ATake" for c
      unfolding step_responder_summary(1) [OF assms(1,2) that] by auto
    show "evidence_ready (auth_run (auth_step (half_revealed (stage s t 3 ops a 3) m h) (?R x)) cs'') \<longleftrightarrow> cs'' = []"
      if "?PR x" for x cs''
    proof -
      obtain n k where x: "x = (n, k)" by (cases x)
      have "auth_step (half_revealed (stage s t 3 ops a 3) m h) (?R x) = full_revealed (half_revealed (stage s t 3 ops a 3) m h) n k"
        using step_responder_summary(2) [OF assms(1,2), of "AApprove 0"] that x by simp
      moreover have "evidence_ready (full_revealed (half_revealed (stage s t 3 ops a 3) m h) n k)"
        using assms(2) by (simp add: ready_fields)
      ultimately show ?thesis by (simp only: ready_ends_script)
    qed
  qed (use that in \<open>simp_all add: ready_fields\<close>)
  have "evidence_ready (auth_run (stage s t 3 ops a 3) cs) \<longleftrightarrow>
      (\<exists>x cs'. cs = ?I x # cs' \<and> ?PI x \<and> (\<exists>y cs''. cs' = ?R y # cs'' \<and> ?PR y \<and> cs'' = []))"
  proof (rule script_from)
    show "\<not> pa_failed (auth_step (stage s t 3 ops a 3) c) \<longleftrightarrow> (\<exists>x. c = ?I x \<and> ?PI x)" if "c \<noteq> ATake" for c
      unfolding step_initiator_summary(1) [OF assms(1,2) that] by auto
    show "evidence_ready (auth_run (auth_step (stage s t 3 ops a 3) (?I x)) cs') \<longleftrightarrow>
        (\<exists>y cs''. cs' = ?R y # cs'' \<and> ?PR y \<and> cs'' = [])" if "?PI x" "ATake \<notin> set cs'" for x cs'
    proof -
      obtain m h where x: "x = (m, h)" by (cases x)
      have "auth_step (stage s t 3 ops a 3) (?I x) = half_revealed (stage s t 3 ops a 3) m h"
        using step_initiator_summary(2) [OF assms(1,2), of "AApprove 0"] that(1) x by simp
      then show ?thesis using last [OF that(2)] by (simp only:)
    qed
  qed (use assms in simp_all)
  then show ?thesis by auto
qed

abbreviation "signature_op s r \<equiv> as_signature_operation_ids s ! role_index r"

abbreviation "confirm_op s r \<equiv> as_key_confirm_operation_ids s ! role_index r"

abbreviation "approval s \<equiv> expected_approval (as_entry_mode s) (as_known_path s) (as_local_role s)"

definition auth_tail :: "PairAuthStartV1 \<Rightarrow> PairRole \<Rightarrow> bytes \<Rightarrow> bytes \<Rightarrow> bytes \<Rightarrow> bytes \<Rightarrow> auth_call list" where
  "auth_tail s r m h n k =
     [AVerify (confirm_op s r) 102 r, AVerify (confirm_op s (other r)) 102 (other r),
      ACapability Pair_Initiator m h, ACapability Pair_Responder n k]"

definition auth_script :: "PairAuthStartV1 \<Rightarrow> PairRole \<Rightarrow> bytes \<Rightarrow> bytes \<Rightarrow> bytes \<Rightarrow> bytes \<Rightarrow> auth_call list" where
  "auth_script s r m h n k =
     [ABegin s, AVerify (signature_op s Pair_Initiator) 101 Pair_Initiator,
      AVerify (signature_op s Pair_Responder) 101 Pair_Responder, AApprove (approval s)] @ auth_tail s r m h n k"

abbreviation "summaries_accepted s m h n k \<equiv>
  summary_accepted (as_initiator_contribution s) m h \<and> summary_accepted (as_responder_contribution s) n k"

abbreviation "signature_ops s \<equiv> [signature_op s Pair_Initiator, signature_op s Pair_Responder]"

lemma confirm_fresh:
  assumes "distinct_nonzero_operations s"
  shows "confirm_op s r \<notin> set (signature_ops s)" "confirm_op s (other r) \<notin> set (signature_ops s @ [confirm_op s r])"
  using ops_distinct [OF assms] by (simp_all del: One_nat_def)

lemma tail_from:
  assumes "distinct_nonzero_operations s" "a \<noteq> 0" "ATake \<notin> set cs"
  shows "evidence_ready (auth_run (stage s t 3 (signature_ops s) a 0) cs) \<longleftrightarrow>
    (\<exists>r m h n k. cs = auth_tail s r m h n k \<and> summaries_accepted s m h n k)"
proof -
  let ?E = "\<lambda>cs. \<exists>m h n k. cs = [ACapability Pair_Initiator m h, ACapability Pair_Responder n k] \<and> summaries_accepted s m h n k"
  note first = step_first_confirm [OF _ confirm_fresh(1) [OF assms(1)] assms(2)]
    and second = step_second_confirm [OF _ confirm_fresh(2) [OF assms(1)] assms(2)]
  have two: "evidence_ready (auth_run (stage s t 3 (signature_ops s @ [confirm_op s r]) a (role_bit r)) cs') \<longleftrightarrow>
      (\<exists>u :: unit. \<exists>cs''. cs' = AVerify (confirm_op s (other r)) 102 (other r) # cs'' \<and> True \<and> ?E cs'')"
    if "ATake \<notin> set cs'" for r cs'
  proof (rule script_from)
    show "\<not> pa_failed (auth_step (stage s t 3 (signature_ops s @ [confirm_op s r]) a (role_bit r)) c) \<longleftrightarrow>
        (\<exists>u :: unit. c = AVerify (confirm_op s (other r)) 102 (other r) \<and> True)" if "c \<noteq> ATake" for c
      using second(1) [OF _ that] by simp
    show "evidence_ready (auth_run (auth_step (stage s t 3 (signature_ops s @ [confirm_op s r]) a (role_bit r))
        (AVerify (confirm_op s (other r)) 102 (other r))) cs'') \<longleftrightarrow> ?E cs''" if "ATake \<notin> set cs''" for cs''
      using second(2) [of r "AApprove 0"] script_ends [OF _ assms(2) that] by simp
  qed (use that in simp_all)
  have "evidence_ready (auth_run (stage s t 3 (signature_ops s) a 0) cs) \<longleftrightarrow>
      (\<exists>r cs'. cs = AVerify (confirm_op s r) 102 r # cs' \<and> True
         \<and> (\<exists>u :: unit. \<exists>cs''. cs' = AVerify (confirm_op s (other r)) 102 (other r) # cs'' \<and> True \<and> ?E cs''))"
  proof (rule script_from)
    show "\<not> pa_failed (auth_step (stage s t 3 (signature_ops s) a 0) c) \<longleftrightarrow>
        (\<exists>r. c = AVerify (confirm_op s r) 102 r \<and> True)" if "c \<noteq> ATake" for c
      using first(1) [OF _ that] by simp
    show "evidence_ready (auth_run (auth_step (stage s t 3 (signature_ops s) a 0) (AVerify (confirm_op s r) 102 r)) cs') \<longleftrightarrow>
        (\<exists>u :: unit. \<exists>cs''. cs' = AVerify (confirm_op s (other r)) 102 (other r) # cs'' \<and> True \<and> ?E cs'')"
      if "ATake \<notin> set cs'" for r cs'
      using first(2) [of "AApprove 0" t r] two [OF that, of r] by simp
  qed (use assms in simp_all)
  then show ?thesis by (auto simp: auth_tail_def)
qed

lemma approve_from:
  assumes "distinct_nonzero_operations s" "ATake \<notin> set cs"
  shows "evidence_ready (auth_run (stage s t 3 (signature_ops s) 0 0) cs) \<longleftrightarrow>
    (\<exists>r m h n k. cs = AApprove (approval s) # auth_tail s r m h n k \<and> summaries_accepted s m h n k)"
proof -
  have "evidence_ready (auth_run (stage s t 3 (signature_ops s) 0 0) cs) \<longleftrightarrow>
      (\<exists>cs'. cs = AApprove (approval s) # cs' \<and> evidence_ready (auth_run (stage s t 3 (signature_ops s) (approval s) 0) cs'))"
    by (rule script_one) (use assms step_approve(1) step_approve(2) [of _ "AApprove 0"] in simp_all)
  also have "\<dots> \<longleftrightarrow> (\<exists>r m h n k. cs = AApprove (approval s) # auth_tail s r m h n k \<and> summaries_accepted s m h n k)"
    using tail_from [OF assms(1) expected_nonzero] assms(2) by (auto, blast)
  finally show ?thesis .
qed

lemma signatures_from:
  assumes "distinct_nonzero_operations s" "ATake \<notin> set cs"
  shows "evidence_ready (auth_run (stage s t 0 [] 0 0) cs) \<longleftrightarrow>
    (\<exists>r m h n k. ABegin s # cs = auth_script s r m h n k \<and> summaries_accepted s m h n k)"
proof -
  note one = step_signature [of 0 Pair_Initiator "[]" 1 s, OF _ assms(1)]
    and two = step_signature [of 1 Pair_Responder "[signature_op s Pair_Initiator]" 3 s, OF _ assms(1)]
  define E0 E1 E2 where E: "E0 cs = evidence_ready (auth_run (stage s t 0 [] 0 0) cs)"
    "E1 cs = evidence_ready (auth_run (stage s t 1 [signature_op s Pair_Initiator] 0 0) cs)"
    "E2 cs = evidence_ready (auth_run (stage s t 3 (signature_ops s) 0 0) cs)" for cs
  have E0: "E0 cs \<longleftrightarrow> (\<exists>cs'. cs = AVerify (signature_op s Pair_Initiator) 101 Pair_Initiator # cs' \<and> E1 cs')"
    unfolding E by (rule script_one) (use assms(2) one(1) one(2) [of "AApprove 0"] in simp_all)
  have E1: "E1 cs' \<longleftrightarrow> (\<exists>cs''. cs' = AVerify (signature_op s Pair_Responder) 101 Pair_Responder # cs'' \<and> E2 cs'')"
    if "ATake \<notin> set cs'" for cs'
    unfolding E by (rule script_one) (use that two(1) two(2) [of "AApprove 0"] in simp_all)
  have E2: "E2 cs' \<longleftrightarrow> (\<exists>r m h n k. cs' = AApprove (approval s) # auth_tail s r m h n k \<and> summaries_accepted s m h n k)"
    if "ATake \<notin> set cs'" for cs'
    unfolding E by (rule approve_from [OF assms(1) that])
  have "E0 cs \<longleftrightarrow> (\<exists>r m h n k. ABegin s # cs = auth_script s r m h n k \<and> summaries_accepted s m h n k)"
    using E0 E1 E2 assms(2) by (auto simp: auth_script_def)
  then show ?thesis by (simp only: E)
qed

lemma start_distinct: "\<not> start_refused s \<Longrightarrow> distinct_nonzero_operations s"
  by (simp add: start_refused_def)

lemma script_iff:
  assumes "ATake \<notin> set cs"
  shows "evidence_ready (auth_run new_pair_auth cs) \<longleftrightarrow>
    (\<exists>s r m h n k p t. cs = auth_script s r m h n k \<and> summaries_accepted s m h n k
       \<and> \<not> start_refused s \<and> start_transcript s = Inr (p, t))"
proof -
  have "evidence_ready (auth_run new_pair_auth cs) \<longleftrightarrow>
      (\<exists>s cs'. cs = ABegin s # cs' \<and> (\<not> start_refused s \<and> \<not> isl (start_transcript s))
         \<and> (\<exists>r m h n k. ABegin s # cs' = auth_script s r m h n k \<and> summaries_accepted s m h n k))"
  proof (rule script_from)
    show "evidence_ready (auth_run (auth_step new_pair_auth (ABegin s)) cs') \<longleftrightarrow>
        (\<exists>r m h n k. ABegin s # cs' = auth_script s r m h n k \<and> summaries_accepted s m h n k)"
      if s: "\<not> start_refused s \<and> \<not> isl (start_transcript s)" and cs: "ATake \<notin> set cs'" for s cs'
    proof -
      obtain p t where "start_transcript s = Inr (p, t)" using s by (cases "start_transcript s") auto
      then show ?thesis using begin_stage signatures_from [OF start_distinct cs] s by simp
    qed
  qed (use step_new assms in \<open>simp_all add: ready_fields new_sel\<close>)
  also have "\<dots> \<longleftrightarrow> (\<exists>s r m h n k p t. cs = auth_script s r m h n k \<and> summaries_accepted s m h n k
       \<and> \<not> start_refused s \<and> start_transcript s = Inr (p, t))" (is "?L \<longleftrightarrow> ?R")
  proof
    assume ?L
    then obtain s r m h n k where s: "cs = auth_script s r m h n k" "summaries_accepted s m h n k" "\<not> start_refused s"
      "\<not> isl (start_transcript s)" by metis
    then obtain p t where "start_transcript s = Inr (p, t)" by (cases "start_transcript s") auto
    then show ?R using s by blast
  next
    assume ?R
    then obtain s r m h n k p t where s: "cs = auth_script s r m h n k" "summaries_accepted s m h n k" "\<not> start_refused s"
      "start_transcript s = Inr (p, t)" by blast
    moreover have "auth_script s r m h n k = ABegin s # tl (auth_script s r m h n k)" by (simp add: auth_script_def)
    ultimately show ?L by (metis isl_def sum.distinct(1))
  qed
  finally show ?thesis .
qed

section \<open>The evidence\<close>

definition evidence_of :: "PairAuthStartV1 \<Rightarrow> bytes \<Rightarrow> bytes \<Rightarrow> bytes \<Rightarrow> bytes \<Rightarrow> bytes \<Rightarrow> VerifiedPairEvidence" where
  "evidence_of s t m h n k = seal_for_authenticated_pipeline \<lparr>pe_local_role = as_local_role s,
     pe_generation = as_generation s, pe_transcript = t,
     pe_initiator_reveal = as_initiator_reveal_logical_hash s, pe_responder_reveal = as_responder_reveal_logical_hash s,
     pe_initiator_capability = h, pe_responder_capability = k, pe_initiator_summary = m, pe_responder_summary = n,
     pe_authentication_seal = replicate 32 0\<rparr>"

lemma script_state:
  assumes "\<not> start_refused s" "start_transcript s = Inr (p, t)" "summaries_accepted s m h n k"
  shows "auth_run new_pair_auth (auth_script s r m h n k) =
    full_revealed (half_revealed (stage s t 3 (signature_ops s @ [confirm_op s r, confirm_op s (other r)]) (approval s) 3) m h) n k"
proof -
  note d = start_distinct [OF assms(1)]
  let ?a = "approval s" and ?ops = "signature_ops s"
  have c: "AApprove 0 \<noteq> ATake" by simp
  note states = begin_stage [OF assms(1,2)]
    step_signature(2) [of 0 Pair_Initiator "[]" 1 s, OF _ d c]
    step_signature(2) [of 1 Pair_Responder "[signature_op s Pair_Initiator]" 3 s, OF _ d c]
    step_approve(2) [of ?ops, OF _ c]
    step_first_confirm(2) [of ?ops, OF _ confirm_fresh(1) [OF d] expected_nonzero c]
    step_second_confirm(2) [of "?ops @ [confirm_op s r]", OF _ confirm_fresh(2) [OF d] expected_nonzero c]
    step_initiator_summary(2) [of "?ops @ [confirm_op s r, confirm_op s (other r)]" ?a, OF _ expected_nonzero c]
    step_responder_summary(2) [of "?ops @ [confirm_op s r, confirm_op s (other r)]" ?a, OF _ expected_nonzero c]
  have lens: "length ?ops = 2" "length (?ops @ [confirm_op s r]) = 3"
    "length (?ops @ [confirm_op s r, confirm_op s (other r)]) = 4" by simp_all
  show ?thesis
    unfolding auth_script_def auth_tail_def
    using states assms(3) lens by (simp del: auth_step.simps)
qed

lemma script_evidence:
  assumes "\<not> start_refused s" "start_transcript s = Inr (p, t)" "summaries_accepted s m h n k"
  shows "fst (take_verified_evidence (auth_run new_pair_auth (auth_script s r m h n k))) = Some (evidence_of s t m h n k)"
  unfolding script_state [OF assms]
  by (simp add: take_verified_evidence_def expected_nonzero evidence_of_def zero_pair_evidence_def)
    (simp add: full_revealed_def half_revealed_def stage_def pa_started_def new_pair_auth_def)

text \<open>
  C5: Over any sequence of calls on a new reducer, the evidence of an authenticated pairing is handed out exactly
  when the calls, apart from requests for the evidence that came too early and changed nothing, were one complete
  script: a start whose commitments open and whose fields and operation identifiers are well formed, the verified
  signature of the initiator, that of the responder, the one approval that the entry path and the local role demand,
  the verified key confirmations of both ends under their own operation identifiers, and valid capability summaries
  of the initiator and then the responder whose hashes are those committed to in the contributions; and when no
  later request took it already. The evidence then is the sealed record of that script: role and generation, the
  hash of the transcript of both contributions, the logical hashes of both reveals and both summaries.
\<close>
theorem evidence_only_after_script:
  "fst (take_verified_evidence (auth_run new_pair_auth cs)) = Some ev \<longleftrightarrow>
    last cs \<noteq> ATake
    \<and> (\<exists>s r m h n k p t. script_of cs = auth_script s r m h n k \<and> summaries_accepted s m h n k
         \<and> \<not> start_refused s \<and> start_transcript s = Inr (p, t) \<and> ev = evidence_of s t m h n k)"
    (is "?L \<longleftrightarrow> ?last \<and> ?R ev")
proof -
  have plain: "ATake \<notin> set (script_of cs)" by (simp add: script_of_def)
  have ready: "evidence_ready (auth_run new_pair_auth cs) \<longleftrightarrow> ?last \<and> (\<exists>ev. ?R ev)"
  proof -
    have "cs \<noteq> []" if "script_of cs = auth_script s r m h n k" for s r m h n k
      using that by (auto simp: script_of_def auth_script_def)
    then show ?thesis using strip_takes [of new_pair_auth cs] script_iff [OF plain] by blast
  qed
  have exact: "?last \<and> ?R (the (fst (take_verified_evidence (auth_run new_pair_auth cs))))"
    if e: "evidence_ready (auth_run new_pair_auth cs)"
  proof -
    obtain s r m h n k p t where R: "script_of cs = auth_script s r m h n k" "summaries_accepted s m h n k"
      "\<not> start_refused s" "start_transcript s = Inr (p, t)"
      using e ready by blast
    have "the (fst (take_verified_evidence (auth_run new_pair_auth cs))) = evidence_of s t m h n k"
      unfolding same_state [OF e] R(1) script_evidence [OF R(3,4,2)] by simp
    then show ?thesis using R e ready by blast
  qed
  have found: ?L if R: "?last \<and> ?R ev"
  proof -
    have e: "evidence_ready (auth_run new_pair_auth cs)" using ready R by blast
    obtain s r m h n k p t where R: "script_of cs = auth_script s r m h n k" "summaries_accepted s m h n k"
      "\<not> start_refused s" "start_transcript s = Inr (p, t)" "ev = evidence_of s t m h n k"
      using R by blast
    show ?L unfolding same_state [OF e] R(1,5) by (rule script_evidence [OF R(3,4,2)])
  qed
  show ?thesis
  proof
    assume l: ?L
    then have "evidence_ready (auth_run new_pair_auth cs)" by (simp add: evidence_ready_def)
    from exact [OF this] show "?last \<and> ?R ev" unfolding l option.sel .
  qed (rule found)
qed

end
