(* ===== verification/Spec2Isabelle.thy ===== *)
theory Spec2Isabelle
  imports Window_Properties Scheduler_Properties Recovery_Properties Lan_Session_Properties Gatt_Properties Gatt_Bounds
    Controller_Exchange Link_Gate_Properties Stream_Gate_Properties Plan_Lock_Properties Pair_Handshake_Properties
    Pair_Auth_Properties
begin

text \<open>
  Verification library of the FlyNES session core, the C++ code under \<^verbatim>\<open>src/shared/src/session\<close> that lets two
  devices play one NES game together. Paths below are relative to that directory.

  \<^bold>\<open>The program.\<close> Two devices meet over Bluetooth or a local network. They open a pairing (each end commits to a
  contribution and reveals it), authenticate it (signatures, the approval of the user, key confirmations), agree on
  a bearer plan and lock it durably at both ends, connect over QUIC, bind the channel to the pairing, and release
  the records that arrived early. Over the link the two simulations run in step: each end turns its buttons into
  canonical input bundles, sends them as application records, collects both ends' bundles in a window, steps the
  emulator frame by frame and compares digests of the state. A break of the link freezes the game; the recovery
  reducer decides how it may go on. A smaller session (\<^verbatim>\<open>lan_mvp\<close>) does the same over a local network alone. The
  emulator, the radios, TLS and signatures are behind interfaces.

  \<^bold>\<open>Theories, in the order of the data flow.\<close>
  \<^item> \<open>Fly_Prelude\<close>: integer and byte types, big-endian loads and stores, result codes; the interfaces
    \<open>guarded_machine\<close> and \<open>monotone_machine\<close> (operations that keep an invariant, run over a list of calls) and
    \<open>prefix_codec\<close> (an encoding that a decoder recognises at the front of a stream). \<open>Script_Machine\<close>: the interface
    \<open>scripted_machine\<close> (one order of calls, everything else fails).
  \<^item> \<open>Fly_Sha256\<close> (\<^verbatim>\<open>wire/sha256.cpp\<close>), \<open>P256_Point\<close> (\<^verbatim>\<open>wire/p256_point.cpp\<close>), \<open>Pair_Crypto\<close>
    (\<^verbatim>\<open>wire/pair_crypto\<close>): the limb arithmetic accepts exactly the points of the curve, key expansion is that of
    RFC 5869, the six-digit string is unbiased.
  \<^item> \<open>Session_Codec\<close> (\<^verbatim>\<open>wire/session_codec\<close>), \<open>App_Frame\<close>, \<open>App_Frame_Properties\<close> (\<^verbatim>\<open>wire/app_frame\<close>),
    \<open>Input_Wire\<close> (\<^verbatim>\<open>dual/canonical_input_wire\<close>), \<open>Gatt_Fragment\<close>, \<open>Gatt_Properties\<close>, \<open>Gatt_Bounds\<close>
    (\<^verbatim>\<open>wire/gatt_fragment\<close>), \<open>Lan_Wire\<close> (\<^verbatim>\<open>lan_mvp/wire\<close>), \<open>Lan_Invite\<close> (\<^verbatim>\<open>lan_mvp/invite\<close>): objects and records
    decode exactly from their encodings, fragments reassemble in any order, the reassembler's memory is bounded,
    framed streams survive any segmentation.
  \<^item> \<open>Pair_Handshake\<close>, \<open>Pair_Handshake_Properties\<close> (\<^verbatim>\<open>wire/pair_handshake\<close>), \<open>Pair_Auth\<close>, \<open>Pair_Auth_Properties\<close>
    (\<^verbatim>\<open>pair_auth_reducer\<close>): the opening is ready, and the sealed evidence exists, exactly after one complete order of
    messages. \<open>Pair_Capability\<close> (\<^verbatim>\<open>wire/pair_capability\<close>): both ends choose the same, preferred plan. \<open>Plan_Lock\<close>,
    \<open>Plan_Lock_Properties\<close> (\<^verbatim>\<open>initial_plan_lock\<close>): the commands of each end follow one script, and exactly one end
    creates the bearer.
  \<^item> \<open>Stream_Gate\<close>, \<open>Stream_Gate_Properties\<close> (\<^verbatim>\<open>wire/quic_stream_gate\<close>), \<open>App_Stream\<close>, \<open>App_Stream_Properties\<close>
    (\<^verbatim>\<open>wire/app_stream_assembler\<close>, \<^verbatim>\<open>wire/prebind_record_queue\<close>), \<open>Link_Gate\<close>, \<open>Link_Gate_Properties\<close>
    (\<^verbatim>\<open>wire/quic_contract\<close>, \<^verbatim>\<open>link_activation\<close>): application streams and queued records pass only behind the complete
    bind, and then whole, in order and once.
  \<^item> \<open>Dual_Contract\<close> (\<^verbatim>\<open>dual/dual_runtime_contract.hpp\<close>), \<open>Canonical_Input\<close> (\<^verbatim>\<open>dual/canonical_input\<close>), \<open>Input_Window\<close>
    with \<open>Window_Safety\<close>, \<open>Window_Progress\<close>, \<open>Window_Properties\<close> (\<^verbatim>\<open>dual/input_window\<close>), \<open>Dual_Scheduler\<close> with
    \<open>Scheduler_Safety\<close>, \<open>Scheduler_Properties\<close> (\<^verbatim>\<open>dual/dual_run_scheduler\<close>, \<^verbatim>\<open>dual/dual_state_digest\<close>): the window
    never loses or rewrites confirmed input, the scheduler uses it only through its calls, and frames it calls
    verified were executed without prediction and acknowledged with the same digest.
  \<^item> \<open>Runtime_Adapter\<close> (\<^verbatim>\<open>dual/dual_runtime_adapter\<close>, and \<^verbatim>\<open>../product/dual_start_identity.cpp\<close>), \<open>Dual_Controller\<close>
    with \<open>Controller_Lockstep\<close>, \<open>Controller_Invariant\<close>, \<open>Controller_Properties\<close>, \<open>Controller_Exchange\<close>
    (\<^verbatim>\<open>dual/dual_session_controller\<close>): the session after the lobby, its invariant, the composition of two controllers
    over a stream.
  \<^item> \<open>Recovery_Model\<close>, \<open>Recovery_Properties\<close> (\<^verbatim>\<open>recovery/\<close>): watchdog, sequence ledger, durable root store and
    recovery reducer.
  \<^item> \<open>Lan_Lockstep\<close> (\<^verbatim>\<open>lan_mvp/lockstep\<close>), \<open>Lan_Session\<close> with \<open>Lan_Session_Core\<close>, \<open>Lan_Session_Inv\<close>,
    \<open>Lan_Session_Properties\<close> (\<^verbatim>\<open>lan_mvp/session.cpp\<close>): the session on a local network; host and guest hand the same
    input to every frame both completed.

  \<^bold>\<open>Correspondence.\<close> A class or struct is a record whose fields carry a prefix of their own and otherwise the names of
  the source; an enumeration is a datatype, except where any byte is one of its values. A method is a function from
  the object to its result and the new object, with a branch for each early return. Integers of the source are words
  of their width; \<^verbatim>\<open>size_t\<close> counts of buffers that are in memory are natural numbers. A fixed array or vector is a
  list, a map a list or function, an out pointer that the code tests for null is a flag, an input pointer that may be
  null an option. Exceptions of the allocator are not modelled. A mutex held over a whole call makes the call one step.
  Interfaces the repository does not implement are parameters: the runtime port (\<open>DualRuntimePort\<close>), the environment
  of a local session (\<open>LanEnv\<close>: clock, QUIC requests, emulator), the check of a public key. Concurrent ends are
  sequences of calls; properties of a component hold for every sequence.

  \<^bold>\<open>Loops and bounds.\<close> Loops over a list or with a decreasing measure are \<open>fun\<close> or \<open>function\<close>. The others run on fuel, and
  each has a lemma that the fuel is never used up: the commit loop of the window twenty rounds (the ring has twenty
  slots), the reading loops the number of buffered bytes (a round takes at least one), the loop over completed frames
  the width of the window plus one, the stepping loop of the controller the number of ring slots plus one, the SAS loop
  the number of retries allowed. Frame numbers are 64 bits; invariants that add a few frames to one assume that fewer
  than \<^verbatim>\<open>2^64 - 16\<close> frames were played (the controller: ten thousand less than the range), stated as \<open>below_horizon\<close> and
  \<open>below_frame_horizon\<close>.

  \<^bold>\<open>Not modelled.\<close> \<^verbatim>\<open>engine/session_engine.cpp\<close> and the C interfaces around it: command queues, leases and threads that
  call the modelled reducers. The schedulers under \<^verbatim>\<open>link/\<close>, which turn the reducers' steps into provider operations,
  and the codecs that only they use (\<^verbatim>\<open>wire/pair_secure\<close>, \<^verbatim>\<open>wire/link_hello\<close>, \<^verbatim>\<open>wire/link_ready\<close>,
  \<^verbatim>\<open>wire/channel_bind\<close> and others): their security rests on encryption that the platform supplies. Transfer of game
  files, the view for the user interface, the catalog, the application library, the emulator wrapper, platform bindings
  and tests. In \<^verbatim>\<open>lan_mvp/session.cpp\<close> the construction and destruction of the C object and its handles are left out.
\<close>

end
